(* ===== verification/Prelude.thy ===== *)
theory Prelude
  imports Main
begin

text \<open>
  What every component shares.

  \<^item> \<open>exn\<close>: the exceptions the source throws, with their messages or fields.
  \<^item> \<open>('s, 'a) app\<close>: an \<open>async\<close> method. It reads and writes a state and returns or throws;
    what it wrote before a throw stays written, as in the source. \<open>bind_app\<close> is \<open>await\<close> in
    sequence, \<open>try_catch\<close> and \<open>finally_app\<close> are the statements of those names,
    \<open>for_each\<close> is a \<open>for ... of\<close> loop whose body may throw.
  \<^item> Tables: a database table is the list of its rows, and a statement with a \<open>WHERE\<close> clause is
    a predicate on rows. \<open>affected\<close> is the row count the driver reports.
  \<^item> \<open>keeps\<close> (a method preserves a predicate of the state) and \<open>same\<close> (a method leaves an
    observation of the state unchanged), with one rule per way of composing methods, so that the
    components' invariants are proved by rule application.
  \<^item> \<open>one_shot_claim\<close>: the contract of every guarded \<open>UPDATE\<close> the source uses as an atomic
    claim, and what its clients get from it.
\<close>

named_theorems app_defs \<open>definitions of the ways of composing methods\<close>
named_theorems keeps_rules \<open>rules for preservation of a predicate\<close>
named_theorems same_rules \<open>rules for an unchanged observation\<close>

section \<open>Exceptions and methods\<close>

type_synonym uuid = string

datatype exn =
    NotFoundException string
  | ConflictException string
  | UnauthorizedException string
  | ForbiddenException string
  | BadRequestException "string list"
  | InsufficientStockError uuid
  | PaymentInFlightError uuid
  | QueryFailedError string string \<comment> \<open>the driver's \<open>code\<close> and \<open>table\<close>\<close>
  | JsError string \<comment> \<open>any other \<open>Error\<close>\<close>

type_synonym ('s, 'a) app = "'s \<Rightarrow> (exn + 'a) \<times> 's"

definition return_app :: "'a \<Rightarrow> ('s, 'a) app" where
  [app_defs]: "return_app a = (\<lambda>s. (Inr a, s))"

definition throw_app :: "exn \<Rightarrow> ('s, 'a) app" where
  [app_defs]: "throw_app e = (\<lambda>s. (Inl e, s))"

definition bind_app :: "('s, 'a) app \<Rightarrow> ('a \<Rightarrow> ('s, 'b) app) \<Rightarrow> ('s, 'b) app" where
  [app_defs]: "bind_app m k = (\<lambda>s. case m s of (Inl e, s') \<Rightarrow> (Inl e, s') | (Inr a, s') \<Rightarrow> k a s')"

definition then_app :: "('s, 'a) app \<Rightarrow> ('s, 'b) app \<Rightarrow> ('s, 'b) app" where
  [app_defs]: "then_app m k = bind_app m (\<lambda>_. k)"

definition try_catch :: "('s, 'a) app \<Rightarrow> (exn \<Rightarrow> ('s, 'a) app) \<Rightarrow> ('s, 'a) app" where
  [app_defs]: "try_catch m h = (\<lambda>s. case m s of (Inl e, s') \<Rightarrow> h e s' | (Inr a, s') \<Rightarrow> (Inr a, s'))"

definition finally_app :: "('s, 'a) app \<Rightarrow> ('s \<Rightarrow> 's) \<Rightarrow> ('s, 'a) app" where
  [app_defs]: "finally_app m f = (\<lambda>s. case m s of (r, s') \<Rightarrow> (r, f s'))"

definition gets_app :: "('s \<Rightarrow> 'a) \<Rightarrow> ('s, 'a) app" where
  [app_defs]: "gets_app f = (\<lambda>s. (Inr (f s), s))"

definition modify_app :: "('s \<Rightarrow> 's) \<Rightarrow> ('s, unit) app" where
  [app_defs]: "modify_app f = (\<lambda>s. (Inr (), f s))"

definition when_app :: "bool \<Rightarrow> ('s, unit) app \<Rightarrow> ('s, unit) app" where
  [app_defs]: "when_app b m = (if b then m else return_app ())"

fun for_each :: "('a \<Rightarrow> ('s, unit) app) \<Rightarrow> 'a list \<Rightarrow> ('s, unit) app" where
  "for_each body [] = return_app ()"
| "for_each body (x # xs) = then_app (body x) (for_each body xs)"

subsection \<open>How composed methods run\<close>

lemma bind_return [simp]: "bind_app (return_app a) k = k a"
  by (simp add: app_defs)

lemma bind_throw [simp]: "bind_app (throw_app e) k = throw_app e"
  by (simp add: app_defs)

lemma bind_bind: "bind_app (bind_app m k) l = bind_app m (\<lambda>a. bind_app (k a) l)"
  by (rule ext) (simp add: bind_app_def split: prod.splits sum.splits)

lemma run_return [simp]: "return_app a s = (Inr a, s)"
  by (simp add: app_defs)

lemma run_throw [simp]: "throw_app e s = (Inl e, s)"
  by (simp add: app_defs)

lemma run_gets [simp]: "gets_app f s = (Inr (f s), s)"
  by (simp add: app_defs)

lemma run_modify [simp]: "modify_app f s = (Inr (), f s)"
  by (simp add: app_defs)

lemma bind_Pair_Inr [simp]: "bind_app (Pair (Inr a)) k = k a"
  by (simp add: bind_app_def)

lemma bind_Pair_Inl [simp]: "bind_app (Pair (Inl e)) k = Pair (Inl e)"
  by (simp add: bind_app_def)

lemma then_Pair_Inr [simp]: "then_app (Pair (Inr a)) k = k"
  by (simp add: then_app_def)

lemma then_Pair_Inl [simp]: "then_app (Pair (Inl e)) k = Pair (Inl e)"
  by (simp add: then_app_def)

lemma try_Pair_Inr [simp]: "try_catch (Pair (Inr a)) h = Pair (Inr a)"
  by (simp add: try_catch_def)

lemma try_Pair_Inl [simp]: "try_catch (Pair (Inl e)) h = h e"
  by (simp add: try_catch_def)

lemma then_return [simp]: "then_app (return_app a) k = k"
  by (simp add: app_defs)

lemma when_app_simps [simp]: "when_app True m = m" "when_app False m = return_app ()"
  by (simp_all add: when_app_def)

lemma run_bind: "m s = (Inr a, s') \<Longrightarrow> bind_app m k s = k a s'"
  by (simp add: app_defs)

lemma run_bind_throw: "m s = (Inl e, s') \<Longrightarrow> bind_app m k s = (Inl e, s')"
  by (simp add: app_defs)

lemma run_then: "m s = (Inr a, s') \<Longrightarrow> then_app m k s = k s'"
  by (simp add: app_defs)

lemma run_then_throw: "m s = (Inl e, s') \<Longrightarrow> then_app m k s = (Inl e, s')"
  by (simp add: app_defs)

lemma run_gets_bind [simp]: "bind_app (gets_app f) k s = k (f s) s"
  by (simp add: app_defs)

lemma run_modify_then [simp]: "then_app (modify_app f) k s = k (f s)"
  by (simp add: app_defs)

lemma run_when [simp]: "when_app b m s = (if b then m s else (Inr (), s))"
  by (simp add: when_app_def)

lemma bind_app_Inr:
  "bind_app m k s = (Inr b, s') \<longleftrightarrow> (\<exists>a t. m s = (Inr a, t) \<and> k a t = (Inr b, s'))"
  by (auto simp: bind_app_def split: prod.splits sum.splits)

lemma bind_app_Inl:
  "bind_app m k s = (Inl e, s') \<longleftrightarrow>
     m s = (Inl e, s') \<or> (\<exists>a t. m s = (Inr a, t) \<and> k a t = (Inl e, s'))"
  by (auto simp: bind_app_def split: prod.splits sum.splits)

lemma then_app_Inr:
  "then_app m k s = (Inr b, s') \<longleftrightarrow> (\<exists>a t. m s = (Inr a, t) \<and> k t = (Inr b, s'))"
  by (simp add: then_app_def bind_app_Inr)

lemma for_each_append:
  "for_each body (xs @ ys) = then_app (for_each body xs) (for_each body ys)"
  by (induction xs) (simp_all add: then_app_def bind_bind)

section \<open>Preservation and frames\<close>

definition keeps :: "('s \<Rightarrow> bool) \<Rightarrow> ('s, 'a) app \<Rightarrow> bool" where
  "keeps P m \<longleftrightarrow> (\<forall>s. P s \<longrightarrow> P (snd (m s)))"

definition same :: "('s \<Rightarrow> 'o) \<Rightarrow> ('s, 'a) app \<Rightarrow> bool" where
  "same f m \<longleftrightarrow> (\<forall>s. f (snd (m s)) = f s)"

lemma keepsI: "(\<And>s. P s \<Longrightarrow> P (snd (m s))) \<Longrightarrow> keeps P m"
  by (simp add: keeps_def)

lemma keepsD: "keeps P m \<Longrightarrow> P s \<Longrightarrow> P (snd (m s))"
  by (simp add: keeps_def)

lemma sameI: "(\<And>s. f (snd (m s)) = f s) \<Longrightarrow> same f m"
  by (simp add: same_def)

lemma sameD: "same f m \<Longrightarrow> f (snd (m s)) = f s"
  by (simp add: same_def)

lemma same_run: "same f m \<Longrightarrow> m s = (r, s') \<Longrightarrow> f s' = f s"
  by (metis sameD snd_conv)

lemma same_keeps: "same f m \<Longrightarrow> keeps (\<lambda>s. P (f s)) m"
  by (simp add: keeps_def same_def)

lemma keeps_return [keeps_rules]: "keeps P (return_app a)"
  by (simp add: keeps_def)

lemma keeps_throw [keeps_rules]: "keeps P (throw_app e)"
  by (simp add: keeps_def)

lemma keeps_gets [keeps_rules]: "keeps P (gets_app f)"
  by (simp add: keeps_def)

lemma keeps_bind [keeps_rules]:
  "keeps P m \<Longrightarrow> (\<And>a. keeps P (k a)) \<Longrightarrow> keeps P (bind_app m k)"
  by (simp add: keeps_def bind_app_def split: prod.splits sum.splits) (metis snd_conv)

lemma keeps_then [keeps_rules]: "keeps P m \<Longrightarrow> keeps P k \<Longrightarrow> keeps P (then_app m k)"
  by (simp add: then_app_def keeps_bind)

lemma keeps_try [keeps_rules]:
  "keeps P m \<Longrightarrow> (\<And>e. keeps P (h e)) \<Longrightarrow> keeps P (try_catch m h)"
  by (simp add: keeps_def try_catch_def split: prod.splits sum.splits) (metis snd_conv)

lemma keeps_finally [keeps_rules]:
  "keeps P m \<Longrightarrow> (\<And>s. P s \<Longrightarrow> P (f s)) \<Longrightarrow> keeps P (finally_app m f)"
  by (simp add: keeps_def finally_app_def split: prod.splits) (metis snd_conv)

lemma keeps_when [keeps_rules]: "keeps P m \<Longrightarrow> keeps P (when_app b m)"
  by (simp add: when_app_def keeps_return)

lemma keeps_if [keeps_rules]:
  "(b \<Longrightarrow> keeps P m) \<Longrightarrow> (\<not> b \<Longrightarrow> keeps P k) \<Longrightarrow> keeps P (if b then m else k)"
  by simp

lemma keeps_option [keeps_rules]:
  "keeps P m \<Longrightarrow> (\<And>x. keeps P (k x)) \<Longrightarrow> keeps P (case v of None \<Rightarrow> m | Some x \<Rightarrow> k x)"
  by (simp split: option.splits)

lemma keeps_for_each [keeps_rules]:
  "(\<And>x. keeps P (body x)) \<Longrightarrow> keeps P (for_each body xs)"
  by (induction xs) (simp_all add: keeps_rules)

lemma same_return [same_rules]: "same f (return_app a)"
  by (simp add: same_def)

lemma same_throw [same_rules]: "same f (throw_app e)"
  by (simp add: same_def)

lemma same_gets [same_rules]: "same f (gets_app g)"
  by (simp add: same_def)

lemma same_bind [same_rules]:
  "same f m \<Longrightarrow> (\<And>a. same f (k a)) \<Longrightarrow> same f (bind_app m k)"
  by (simp add: same_def bind_app_def split: prod.splits sum.splits) (metis snd_conv)

lemma same_then [same_rules]: "same f m \<Longrightarrow> same f k \<Longrightarrow> same f (then_app m k)"
  by (simp add: then_app_def same_bind)

lemma same_try [same_rules]:
  "same f m \<Longrightarrow> (\<And>e. same f (h e)) \<Longrightarrow> same f (try_catch m h)"
  by (simp add: same_def try_catch_def split: prod.splits sum.splits) (metis snd_conv)

lemma same_finally [same_rules]:
  "same f m \<Longrightarrow> (\<And>s. f (g s) = f s) \<Longrightarrow> same f (finally_app m g)"
  by (simp add: same_def finally_app_def split: prod.splits) (metis snd_conv)

lemma same_modify [same_rules]: "(\<And>s. f (g s) = f s) \<Longrightarrow> same f (modify_app g)"
  by (simp add: same_def)

lemma same_when [same_rules]: "same f m \<Longrightarrow> same f (when_app b m)"
  by (simp add: when_app_def same_return)

lemma same_if [same_rules]:
  "(b \<Longrightarrow> same f m) \<Longrightarrow> (\<not> b \<Longrightarrow> same f k) \<Longrightarrow> same f (if b then m else k)"
  by simp

lemma same_option [same_rules]:
  "same f m \<Longrightarrow> (\<And>x. same f (k x)) \<Longrightarrow> same f (case v of None \<Rightarrow> m | Some x \<Rightarrow> k x)"
  by (simp split: option.splits)

lemma same_for_each [same_rules]:
  "(\<And>x. same f (body x)) \<Longrightarrow> same f (for_each body xs)"
  by (induction xs) (simp_all add: same_rules)

section \<open>Tables\<close>

type_synonym 'r table = "'r list"

definition rows_where :: "('r \<Rightarrow> bool) \<Rightarrow> 'r table \<Rightarrow> 'r list" where
  "rows_where p t = filter p t"

definition row_where :: "('r \<Rightarrow> bool) \<Rightarrow> 'r table \<Rightarrow> 'r option" where
  "row_where p t = List.find p t"

definition update_where :: "('r \<Rightarrow> bool) \<Rightarrow> ('r \<Rightarrow> 'r) \<Rightarrow> 'r table \<Rightarrow> 'r table" where
  "update_where p f t = map (\<lambda>r. if p r then f r else r) t"

definition affected :: "('r \<Rightarrow> bool) \<Rightarrow> 'r table \<Rightarrow> nat" where
  "affected p t = length (filter p t)"

definition delete_where :: "('r \<Rightarrow> bool) \<Rightarrow> 'r table \<Rightarrow> 'r table" where
  "delete_where p t = filter (\<lambda>r. \<not> p r) t"

lemma row_where_Some: "row_where p t = Some r \<Longrightarrow> r \<in> set t \<and> p r"
  by (auto simp: row_where_def find_Some_iff)

lemma row_where_None: "row_where p t = None \<longleftrightarrow> (\<forall>r \<in> set t. \<not> p r)"
  by (auto simp: row_where_def find_None_iff)

lemma row_where_append:
  "row_where p (xs @ ys) = (case row_where p xs of None \<Rightarrow> row_where p ys | Some r \<Rightarrow> Some r)"
  by (induction xs) (auto simp: row_where_def)

lemma row_where_Nil [simp]: "row_where p [] = None"
  by (simp add: row_where_def)

lemma row_where_Cons [simp]: "row_where p (r # t) = (if p r then Some r else row_where p t)"
  by (simp add: row_where_def)

lemma update_where_Nil [simp]: "update_where p f [] = []"
  by (simp add: update_where_def)

lemma update_where_Cons [simp]:
  "update_where p f (r # t) = (if p r then f r else r) # update_where p f t"
  by (simp add: update_where_def)

lemma affected_Nil [simp]: "affected p [] = 0"
  by (simp add: affected_def)

lemma affected_Cons [simp]: "affected p (r # t) = (if p r then Suc (affected p t) else affected p t)"
  by (simp add: affected_def)

lemma length_update_where [simp]: "length (update_where p f t) = length t"
  by (simp add: update_where_def)

lemma set_update_where:
  "set (update_where p f t) = {r \<in> set t. \<not> p r} \<union> f ` {r \<in> set t. p r}"
  by (induction t) auto

lemma affected_0: "affected p t = 0 \<longleftrightarrow> (\<forall>r \<in> set t. \<not> p r)"
  by (simp add: affected_def filter_empty_conv)

lemma affected_0_update: "affected p t = 0 \<Longrightarrow> update_where p f t = t"
  by (induction t) auto

lemma affected_le_key: "distinct (map k t) \<Longrightarrow> affected (\<lambda>r. k r = v \<and> q r) t \<le> 1"
proof (induction t)
  case (Cons r t)
  from Cons.prems have "k r = v \<Longrightarrow> affected (\<lambda>r. k r = v \<and> q r) t = 0"
    by (auto simp: affected_0 image_iff)
  moreover have "affected (\<lambda>r. k r = v \<and> q r) t \<le> 1"
    using Cons by simp
  ultimately show ?case by auto
qed simp

lemma map_key_update_where [simp]:
  "(\<And>r. k (f r) = k r) \<Longrightarrow> map k (update_where p f t) = map k t"
  by (induction t) auto

lemma row_where_key: "distinct (map k t) \<Longrightarrow> r \<in> set t \<Longrightarrow> row_where (\<lambda>x. k x = k r) t = Some r"
  by (induction t) (auto simp: rev_image_eqI)

lemma row_where_key_and:
  "distinct (map k t) \<Longrightarrow> r \<in> set t \<Longrightarrow> k r = v \<Longrightarrow> q r \<Longrightarrow> row_where (\<lambda>x. k x = v \<and> q x) t = Some r"
  by (induction t) (auto simp: rev_image_eqI)

lemma row_where_update_key:
  assumes "\<And>r. k (f r) = k r"
  shows "row_where (\<lambda>r. k r = v) (update_where p f t) =
    map_option (\<lambda>r. if p r then f r else r) (row_where (\<lambda>r. k r = v) t)"
  using assms by (induction t) auto

lemma update_where_other_key:
  "(\<And>r. k (f r) = k r) \<Longrightarrow> (\<And>r. p r \<Longrightarrow> k r \<noteq> v) \<Longrightarrow>
    row_where (\<lambda>r. k r = v) (update_where p f t) = row_where (\<lambda>r. k r = v) t"
  by (induction t) auto

lemma affected_pos: "r \<in> set t \<Longrightarrow> p r \<Longrightarrow> affected p t \<noteq> 0"
  by (auto simp: affected_0)

lemma set_delete_where [simp]: "set (delete_where p t) = {r \<in> set t. \<not> p r}"
  by (auto simp: delete_where_def)

subsection \<open>The atomic claim\<close>

text \<open>
  A guarded \<open>UPDATE ... SET ... WHERE guard\<close> whose assignment falsifies its own guard: of any
  number of callers that issue it, at most one is told that a row was affected. Payment
  confirmation, cancellation, cart checkout and refresh-token rotation are instances.
\<close>

locale one_shot_claim =
  fixes guard :: "'r \<Rightarrow> bool" and assign :: "'r \<Rightarrow> 'r"
  assumes spent: "guard r \<Longrightarrow> \<not> guard (assign r)"
begin

lemma second_claim_misses: "affected guard (update_where guard assign t) = 0"
  by (auto simp: affected_0 set_update_where spent)

lemma second_claim_changes_nothing:
  "update_where guard assign (update_where guard assign t) = update_where guard assign t"
  by (rule affected_0_update) (rule second_claim_misses)

lemma claim_lost_changes_nothing: "affected guard t = 0 \<Longrightarrow> update_where guard assign t = t"
  by (rule affected_0_update)

end

text \<open>
  The same claim on a table with a key: the guard names one key, so the claim takes one row at
  most, and leaves the rows of every other key as they were.
\<close>

locale keyed_claim = one_shot_claim guard assign
  for guard :: "'r \<Rightarrow> bool" and assign :: "'r \<Rightarrow> 'r" +
  fixes key :: "'r \<Rightarrow> 'k" and wanted :: 'k
  assumes guard_key: "guard r \<Longrightarrow> key r = wanted"
    and assign_key: "key (assign r) = key r"
begin

lemma keys_unchanged: "map key (update_where guard assign t) = map key t"
  by (simp add: assign_key)

lemma one_row_at_most: "distinct (map key t) \<Longrightarrow> affected guard t \<le> 1"
proof -
  assume d: "distinct (map key t)"
  have "guard = (\<lambda>r. key r = wanted \<and> guard r)" using guard_key by auto
  with affected_le_key [OF d, of wanted guard] show ?thesis by simp
qed

lemma other_rows_unchanged:
  "v \<noteq> wanted \<Longrightarrow>
    row_where (\<lambda>r. key r = v) (update_where guard assign t) = row_where (\<lambda>r. key r = v) t"
  by (rule update_where_other_key) (auto simp: assign_key dest: guard_key)

end

end
