(* ===== verification/Entities.thy ===== *)
theory Entities
  imports Prelude
begin

text \<open>
  The data of the program: the enums and entity classes of \<^verbatim>\<open>src/entities\<close> and the event
  payloads of \<^verbatim>\<open>src/modules/messaging/events/order-events.ts\<close>.

  An entity class is a record whose fields carry a prefix for the class (\<open>o_\<close> for
  \<open>OrderEntity\<close>, \<open>p_\<close> for \<open>ProductEntity\<close>, ...). A relation the query did not load is
  \<open>undefined\<close> in the source and \<open>None\<close> here; the rows of a table have no relation loaded.
  A nullable column is an option.

  A timestamp is a number of milliseconds. What holds it matters to the source: a value read from
  the database is a \<open>Date\<close>, the same value after a trip through JSON is an ISO string.
\<close>

section \<open>Timestamps\<close>

datatype js_time = DateObj int | IsoString int

text \<open>\<open>Date.prototype.toISOString\<close>, \<open>new Date(x)\<close> and \<open>new Date(x).getTime()\<close>.\<close>

fun toISOString :: "js_time \<Rightarrow> js_time" where
  "toISOString (DateObj t) = IsoString t"
| "toISOString (IsoString t) = IsoString t"

fun newDate :: "js_time \<Rightarrow> js_time" where
  "newDate (DateObj t) = DateObj t"
| "newDate (IsoString t) = DateObj t"

fun getTime :: "js_time \<Rightarrow> int" where
  "getTime (DateObj t) = t"
| "getTime (IsoString t) = t"

lemma newDate_toISOString [simp]: "newDate (toISOString t) = newDate t"
  by (cases t) simp_all

section \<open>Enums\<close>

datatype OrderStatus = PENDING | RESERVED | PAID | COMPLETED | FAILED | CANCELLED

text \<open>\<open>Object.values(OrderStatus)\<close> lists the members in declaration order.\<close>

instantiation OrderStatus :: enum
begin

definition "enum_OrderStatus = [PENDING, RESERVED, PAID, COMPLETED, FAILED, CANCELLED]"

definition "enum_all_OrderStatus P \<longleftrightarrow>
  P PENDING \<and> P RESERVED \<and> P PAID \<and> P COMPLETED \<and> P FAILED \<and> P CANCELLED"

definition "enum_ex_OrderStatus P \<longleftrightarrow>
  P PENDING \<or> P RESERVED \<or> P PAID \<or> P COMPLETED \<or> P FAILED \<or> P CANCELLED"

instance
proof
  show "(UNIV :: OrderStatus set) = set enum_class.enum"
    by (auto simp: enum_OrderStatus_def intro: OrderStatus.exhaust)
  show "distinct (enum_class.enum :: OrderStatus list)"
    by (simp add: enum_OrderStatus_def)
  show "enum_class.enum_all P \<longleftrightarrow> Ball UNIV P" for P :: "OrderStatus \<Rightarrow> bool"
    unfolding enum_all_OrderStatus_def by (auto intro: OrderStatus.exhaust) (metis OrderStatus.exhaust)
  show "enum_class.enum_ex P \<longleftrightarrow> Bex UNIV P" for P :: "OrderStatus \<Rightarrow> bool"
    unfolding enum_ex_OrderStatus_def by auto (metis OrderStatus.exhaust)
qed

end

fun status_text :: "OrderStatus \<Rightarrow> string" where
  "status_text PENDING = ''PENDING''"
| "status_text RESERVED = ''RESERVED''"
| "status_text PAID = ''PAID''"
| "status_text COMPLETED = ''COMPLETED''"
| "status_text FAILED = ''FAILED''"
| "status_text CANCELLED = ''CANCELLED''"

datatype UserRole = USER | ADMIN

section \<open>Entities\<close>

record OrderItemEntity =
  oi_id :: uuid
  oi_orderId :: uuid
  oi_productId :: uuid
  oi_productName :: string
  oi_quantity :: int

record OrderEntity =
  o_id :: uuid
  o_userId :: uuid
  o_status :: OrderStatus
  o_paymentInitiatedAt :: "js_time option"
  o_items :: "OrderItemEntity list option"
  o_createdAt :: js_time
  o_updatedAt :: js_time

record ProductEntity =
  p_id :: uuid
  p_name :: string
  p_sku :: string
  p_stock :: int
  p_active :: bool
  p_createdAt :: js_time
  p_updatedAt :: js_time

record CartItemEntity =
  ci_id :: uuid
  ci_cartId :: uuid
  ci_productId :: uuid
  ci_product :: "ProductEntity option"
  ci_quantity :: int

record CartEntity =
  c_id :: uuid
  c_userId :: uuid
  c_checkedOutAt :: "js_time option"
  c_items :: "CartItemEntity list option"
  c_createdAt :: js_time
  c_updatedAt :: js_time

record UserEntity =
  u_id :: uuid
  u_email :: string
  u_password :: string
  u_role :: UserRole
  u_disabled :: bool
  u_createdAt :: js_time

record RefreshTokenEntity =
  rt_id :: uuid
  rt_userId :: uuid
  rt_user :: "UserEntity option"
  rt_familyId :: uuid
  rt_tokenHash :: string
  rt_expiresAt :: js_time
  rt_revoked :: bool
  rt_createdAt :: js_time

record ProcessedMessageEntity =
  pm_messageId :: string
  pm_consumer :: string
  pm_processedAt :: js_time

record PaymentAuthorizationEntity =
  pa_orderId :: uuid
  pa_authorized :: "bool option"
  pa_declineReason :: "string option"
  pa_createdAt :: js_time

section \<open>Events\<close>

record OrderCreatedEventLine =
  l_productId :: uuid
  l_quantity :: int

datatype order_event =
    OrderCreatedEvent (ev_orderId: uuid) (ev_userId: uuid)
      (ev_items: "OrderCreatedEventLine list") (ev_occurredAt: js_time)
  | InventoryReservedEvent (ev_orderId: uuid) (ev_userId: uuid) (ev_occurredAt: js_time)
  | PaymentProcessedEvent (ev_orderId: uuid) (ev_userId: uuid) (ev_occurredAt: js_time)
  | OrderCompletedEvent (ev_orderId: uuid) (ev_userId: uuid) (ev_occurredAt: js_time)
  | OrderFailedEvent (ev_orderId: uuid) (ev_userId: uuid) (ev_reason: string)
      (ev_occurredAt: js_time)

definition ORDER_EXCHANGE :: string where "ORDER_EXCHANGE = ''order_lifecycle''"
definition ORDER_DLX :: string where "ORDER_DLX = ''order_lifecycle.dlx''"
definition ORDER_DLQ :: string where "ORDER_DLQ = ''order_lifecycle.dlq''"

datatype ConsumerQueue = QInventory | QPayment | QCompletion | QEmail

fun queue_name :: "ConsumerQueue \<Rightarrow> string" where
  "queue_name QInventory = ''inventory.order_created''"
| "queue_name QPayment = ''payment.inventory_reserved''"
| "queue_name QCompletion = ''completion.payment_processed''"
| "queue_name QEmail = ''email.notifications''"

datatype OrderRoutingKey = KCreated | KInventoryReserved | KPaymentProcessed | KCompleted | KFailed

fun routing_key :: "OrderRoutingKey \<Rightarrow> string" where
  "routing_key KCreated = ''order.created''"
| "routing_key KInventoryReserved = ''order.inventory_reserved''"
| "routing_key KPaymentProcessed = ''order.payment_processed''"
| "routing_key KCompleted = ''order.completed''"
| "routing_key KFailed = ''order.failed''"

record OutboxMessageEntity =
  om_id :: uuid
  om_exchange :: string
  om_routingKey :: string
  om_payload :: order_event
  om_correlationId :: string
  om_createdAt :: js_time
  om_publishedAt :: "js_time option"

lemma routing_key_inj: "routing_key a = routing_key b \<longleftrightarrow> a = b"
  by (cases a; cases b) simp_all

lemma queue_name_inj: "queue_name a = queue_name b \<longleftrightarrow> a = b"
  by (cases a; cases b) simp_all

text \<open>No queue is named like a routing key: the two name spaces are disjoint.\<close>

lemma queue_name_not_routing_key: "queue_name q \<noteq> routing_key k"
  by (cases q; cases k) simp_all

end
