(* ===== verification/Collectors.thy ===== *)
theory Collectors
  imports Complex_Main Entities
begin

text \<open>
  The collectors of \<^verbatim>\<open>src/modules/metrics/metrics.collectors.ts\<close>: every \<open>record...\<close> function
  updates a Prometheus collector and, when a durable sink is wired in, hands it one sample. The
  state is the list of updates made to the Prometheus registry and the list of samples handed to
  the sink (\<open>None\<close>: no sink set). Durations are exact rationals.
\<close>

type_synonym labels = "(string \<times> string) list"

datatype prom_update =
    Inc string labels nat \<comment> \<open>a counter, its labels and the increment\<close>
  | Observe string labels rat \<comment> \<open>a histogram, its labels and the value in seconds\<close>

datatype sink_sample = Sample (s_metric: string) (s_value: rat) (s_labels: labels)

record collectors =
  prom :: "prom_update list"
  sink :: "sink_sample list option"

definition prom_add :: "prom_update \<Rightarrow> collectors \<Rightarrow> collectors" where
  "prom_add u c = c\<lparr>prom := prom c @ [u]\<rparr>"

text \<open>\<open>recordMetricSample\<close>, and the \<open>sink?.record(...)\<close> of the others.\<close>

definition recordMetricSample :: "string \<Rightarrow> rat \<Rightarrow> labels \<Rightarrow> collectors \<Rightarrow> collectors" where
  "recordMetricSample metric v ls c =
     (case sink c of None \<Rightarrow> c | Some xs \<Rightarrow> c\<lparr>sink := Some (xs @ [Sample metric v ls])\<rparr>)"

definition setMetricsSink :: "bool \<Rightarrow> collectors \<Rightarrow> collectors" where
  "setMetricsSink on c = c\<lparr>sink := (if on then Some [] else None)\<rparr>"

datatype ConsumerOutcome = Processed | Skipped | Retried | OutcomeFailed

fun outcome_label :: "ConsumerOutcome \<Rightarrow> string" where
  "outcome_label Processed = ''processed''"
| "outcome_label Skipped = ''skipped''"
| "outcome_label Retried = ''retried''"
| "outcome_label OutcomeFailed = ''failed''"

definition recordConsumerOutcome :: "string \<Rightarrow> ConsumerOutcome \<Rightarrow> collectors \<Rightarrow> collectors" where
  "recordConsumerOutcome consumer outcome c =
     (let ls = [(''consumer'', consumer), (''outcome'', outcome_label outcome)]
      in recordMetricSample ''consumer_messages'' 1 ls
           (prom_add (Inc ''consumer_messages_total'' ls 1) c))"

text \<open>The function \<open>startConsumerTimer\<close> returns, called after \<open>seconds\<close>.\<close>

definition stopConsumerTimer :: "string \<Rightarrow> rat \<Rightarrow> collectors \<Rightarrow> collectors" where
  "stopConsumerTimer consumer seconds c =
     (let ls = [(''consumer'', consumer)]
      in recordMetricSample ''consumer_processing_duration_ms'' (seconds * 1000) ls
           (prom_add (Observe ''consumer_processing_duration_seconds'' ls seconds) c))"

definition recordTerminalState :: "string \<Rightarrow> collectors \<Rightarrow> collectors" where
  "recordTerminalState state c =
     recordMetricSample ''orders_terminal'' 1 [(''state'', state)]
       (prom_add (Inc ''orders_terminal_total'' [(''state'', state)] 1) c)"

definition recordOutboxRelayed :: "nat \<Rightarrow> collectors \<Rightarrow> collectors" where
  "recordOutboxRelayed n c =
     (if n = 0 then c
      else recordMetricSample ''outbox_relayed'' (of_nat n) []
             (prom_add (Inc ''outbox_relayed_messages_total'' [] n) c))"

definition recordCacheRequest :: "string \<Rightarrow> bool \<Rightarrow> collectors \<Rightarrow> collectors" where
  "recordCacheRequest keyClass hit c =
     prom_add (Inc ''cache_requests_total''
       [(''key_class'', keyClass), (''result'', if hit then ''hit'' else ''miss'')] 1) c"

definition recordOrderCreated :: "collectors \<Rightarrow> collectors" where
  "recordOrderCreated c =
     recordMetricSample ''orders_created'' 1 [] (prom_add (Inc ''orders_created_total'' [] 1) c)"

datatype OrderStage = Reservation | Payment | Completion | Fulfilment

fun stage_label :: "OrderStage \<Rightarrow> string" where
  "stage_label Reservation = ''reservation''"
| "stage_label Payment = ''payment''"
| "stage_label Completion = ''completion''"
| "stage_label Fulfilment = ''fulfilment''"

text \<open>The argument is a finite number here, so only the sign is left of the source's test.\<close>

definition recordOrderStage :: "OrderStage \<Rightarrow> rat \<Rightarrow> collectors \<Rightarrow> collectors" where
  "recordOrderStage stage seconds c =
     (if seconds < 0 then c
      else let ls = [(''stage'', stage_label stage)]
           in recordMetricSample ''order_stage_duration_ms'' (seconds * 1000) ls
                (prom_add (Observe ''order_stage_duration_seconds'' ls seconds) c))"

definition recordOrderFailure :: "string \<Rightarrow> collectors \<Rightarrow> collectors" where
  "recordOrderFailure reason c =
     recordMetricSample ''order_failures'' 1 [(''reason'', reason)]
       (prom_add (Inc ''order_failures_total'' [(''reason'', reason)] 1) c)"

datatype PaymentOutcome = Authorized | Declined | Deduplicated | InFlight | Takeover

fun payment_label :: "PaymentOutcome \<Rightarrow> string" where
  "payment_label Authorized = ''authorized''"
| "payment_label Declined = ''declined''"
| "payment_label Deduplicated = ''deduplicated''"
| "payment_label InFlight = ''in_flight''"
| "payment_label Takeover = ''takeover''"

definition recordPaymentOutcome :: "PaymentOutcome \<Rightarrow> collectors \<Rightarrow> collectors" where
  "recordPaymentOutcome outcome c =
     (let ls = [(''outcome'', payment_label outcome)]
      in recordMetricSample ''payment_authorizations'' 1 ls
           (prom_add (Inc ''payment_authorizations_total'' ls 1) c))"

text \<open>What \<open>timeDb\<close> records when the operation it times settles, after \<open>seconds\<close>.\<close>

definition recordDbDuration :: "string \<Rightarrow> rat \<Rightarrow> collectors \<Rightarrow> collectors" where
  "recordDbDuration operation seconds c =
     (let ls = [(''operation'', operation)]
      in recordMetricSample ''db_query_duration_ms'' (seconds * 1000) ls
           (prom_add (Observe ''db_query_duration_seconds'' ls seconds) c))"

lemmas collector_defs =
  recordConsumerOutcome_def stopConsumerTimer_def recordTerminalState_def recordOutboxRelayed_def
  recordCacheRequest_def recordOrderCreated_def recordOrderStage_def recordOrderFailure_def
  recordPaymentOutcome_def recordDbDuration_def

subsection \<open>Counters read back from the registry\<close>

definition counter_total :: "string \<Rightarrow> labels \<Rightarrow> collectors \<Rightarrow> nat" where
  "counter_total name ls c =
     sum_list (map (\<lambda>u. case u of Inc n l k \<Rightarrow> if n = name \<and> l = ls then k else 0 | _ \<Rightarrow> 0)
       (prom c))"

lemma prom_recordMetricSample [simp]: "prom (recordMetricSample m v ls c) = prom c"
  by (simp add: recordMetricSample_def split: option.splits)

lemma prom_prom_add [simp]: "prom (prom_add u c) = prom c @ [u]"
  by (simp add: prom_add_def)

lemma sink_prom_add [simp]: "sink (prom_add u c) = sink c"
  by (simp add: prom_add_def)

lemma counter_total_sample [simp]:
  "counter_total n ls (recordMetricSample m v ls' c) = counter_total n ls c"
  by (simp add: counter_total_def)

lemma counter_total_prom_add:
  "counter_total n ls (prom_add u c) =
     counter_total n ls c +
       (case u of Inc m l k \<Rightarrow> if m = n \<and> l = ls then k else 0 | _ \<Rightarrow> 0)"
  by (simp add: counter_total_def)

text \<open>Every collector update adds at most one sample to the sink, and none when no sink is set.\<close>

lemma sink_recordMetricSample:
  "sink (recordMetricSample m v ls c) = map_option (\<lambda>xs. xs @ [Sample m v ls]) (sink c)"
  by (simp add: recordMetricSample_def split: option.splits)

lemma recordOrderStage_negative: "seconds < 0 \<Longrightarrow> recordOrderStage st seconds c = c"
  by (simp add: recordOrderStage_def)

end
