(* ===== verification/World.thy ===== *)
theory World
  imports Collectors
begin

text \<open>
  The state every method of the program works on, and the few primitive effects the methods are
  composed from.

  \<^item> \<open>database\<close>: the tables of Postgres. A query builder chain or a repository call of the source
    is \<open>query\<close> or \<open>execute\<close> of a table operation of \<^verbatim>\<open>Prelude\<close>; \<open>transaction\<close> restores the
    database when its body throws, and nothing else (a cache key dropped or a metric recorded
    inside the body stays so).
  \<^item> \<open>redis\<close>: the key-value store, with the value's expiry time, and whether the server answers.
  \<^item> \<open>broker\<close>: the messages handed to RabbitMQ, oldest first.
  \<^item> \<open>provider_calls\<close>: the idempotency keys the payment provider was called with.
  \<^item> \<open>collectors\<close>, \<open>cache_stats\<close>: the in-process counters.
  \<^item> \<open>cls\<close>: the correlation id of the running context (\<open>None\<close>: no context is active).
  \<^item> \<open>clock\<close>: the time both the application and the database read. It does not move inside a
    method; what happens between two steps of a method is the subject of \<^verbatim>\<open>Lifecycle\<close>.
  \<^item> \<open>uuid_supply\<close>, \<open>drawn\<close>: the values \<open>randomUUID\<close> and the \<open>uuid\<close> column defaults return, and how
    many were taken. That they differ is a hypothesis (\<open>fresh_supply\<close>) where a property needs it.
  \<^item> \<open>mails\<close>: the notifications sent, which the source writes to its log.
  \<^item> \<open>shortProductId\<close>: the local variable of \<open>InventoryConsumer.reserve\<close> that its callback assigns; like
    any variable it keeps its value when the transaction of the callback rolls back.
\<close>

section \<open>State\<close>

record database =
  orders :: "OrderEntity table"
  order_items :: "OrderItemEntity table"
  products :: "ProductEntity table"
  carts :: "CartEntity table"
  cart_items :: "CartItemEntity table"
  users :: "UserEntity table"
  refresh_tokens :: "RefreshTokenEntity table"
  processed_messages :: "ProcessedMessageEntity table"
  outbox_messages :: "OutboxMessageEntity table"
  payment_authorizations :: "PaymentAuthorizationEntity table"

text \<open>The JSON texts the program stores in Redis; \<open>NotJson\<close> is any text \<open>JSON.parse\<close> refuses.\<close>

datatype json_text = JsonOrder OrderEntity | JsonOrders "OrderEntity list" | NotJson

record redis_server =
  redis_up :: bool
  redis_store :: "string \<Rightarrow> (int \<times> json_text) option"

record broker_message =
  m_exchange :: string
  m_routingKey :: string
  m_payload :: order_event
  m_messageId :: string
  m_correlationId :: string

text \<open>The settings the modelled services read from the configuration.\<close>

record config =
  cfg_cache_enabled :: bool \<comment> \<open>\<open>redis.enabled\<close>\<close>
  cfg_cache_ttl :: int \<comment> \<open>\<open>redis.ttlSeconds\<close>\<close>
  cfg_refresh_days :: "int option" \<comment> \<open>\<open>jwt.refreshExpiresInDays\<close>\<close>

record world =
  cfg :: config
  db :: database
  redis :: redis_server
  broker :: "broker_message list"
  provider_calls :: "string list"
  collectors :: collectors
  cache_stats :: "(string \<times> nat \<times> nat) list"
  cls :: "string option option"
  clock :: int
  uuid_supply :: "nat \<Rightarrow> uuid"
  drawn :: nat
  mails :: "string list"
  shortProductId :: "uuid option"

definition fresh_supply :: "world \<Rightarrow> bool" where
  "fresh_supply w \<longleftrightarrow> inj (uuid_supply w)"

section \<open>Primitive effects\<close>

definition query :: "(database \<Rightarrow> 'a) \<Rightarrow> (world, 'a) app" where
  "query f = gets_app (\<lambda>w. f (db w))"

definition execute :: "(database \<Rightarrow> database) \<Rightarrow> (world, unit) app" where
  "execute f = modify_app (\<lambda>w. w\<lparr>db := f (db w)\<rparr>)"

definition record_metric :: "(collectors \<Rightarrow> collectors) \<Rightarrow> (world, unit) app" where
  "record_metric f = modify_app (\<lambda>w. w\<lparr>collectors := f (collectors w)\<rparr>)"

definition random_uuid :: "(world, uuid) app" where
  "random_uuid = (\<lambda>w. (Inr (uuid_supply w (drawn w)), w\<lparr>drawn := Suc (drawn w)\<rparr>))"

definition read_clock :: "(world, int) app" where
  "read_clock = gets_app clock"

definition transaction :: "(world, 'a) app \<Rightarrow> (world, 'a) app" where
  "transaction m = (\<lambda>w. case m w of
     (Inl e, w') \<Rightarrow> (Inl e, w'\<lparr>db := db w\<rparr>) | (Inr a, w') \<Rightarrow> (Inr a, w'))"

text \<open>\<open>timeDb\<close>: the duration is recorded whether the work returns or throws.\<close>

definition timeDb :: "string \<Rightarrow> (world, 'a) app \<Rightarrow> (world, 'a) app" where
  "timeDb operation work = (\<lambda>w. case work w of (r, w') \<Rightarrow>
     (r, w'\<lparr>collectors :=
        recordDbDuration operation (of_int (clock w' - clock w) / 1000) (collectors w')\<rparr>))"

text \<open>Postgres \<open>integer\<close> columns hold 32 bits; a value outside raises error 22003.\<close>

definition int4 :: "int \<Rightarrow> bool" where
  "int4 n \<longleftrightarrow> - (2 ^ 31) \<le> n \<and> n < 2 ^ 31"

abbreviation unique_violation :: "string \<Rightarrow> exn" where
  "unique_violation tab \<equiv> QueryFailedError ''23505'' tab"

abbreviation out_of_range :: exn where
  "out_of_range \<equiv> QueryFailedError ''22003'' []"

abbreviation tx_aborted :: exn where
  "tx_aborted \<equiv> QueryFailedError ''25P02'' []"

section \<open>How the primitives run\<close>

lemma run_query [simp]: "query f w = (Inr (f (db w)), w)"
  by (simp add: query_def)

lemma run_execute [simp]: "execute f w = (Inr (), w\<lparr>db := f (db w)\<rparr>)"
  by (simp add: execute_def)

lemma run_record_metric [simp]:
  "record_metric f w = (Inr (), w\<lparr>collectors := f (collectors w)\<rparr>)"
  by (simp add: record_metric_def)

lemma run_random_uuid [simp]:
  "random_uuid w = (Inr (uuid_supply w (drawn w)), w\<lparr>drawn := Suc (drawn w)\<rparr>)"
  by (simp add: random_uuid_def)

lemma run_read_clock [simp]: "read_clock w = (Inr (clock w), w)"
  by (simp add: read_clock_def)

lemma bind_query [simp]: "bind_app (query f) k w = k (f (db w)) w"
  by (simp add: bind_app_def)

lemma then_execute [simp]: "then_app (execute f) k w = k (w\<lparr>db := f (db w)\<rparr>)"
  by (simp add: app_defs)

lemma then_record_metric [simp]:
  "then_app (record_metric f) k w = k (w\<lparr>collectors := f (collectors w)\<rparr>)"
  by (simp add: app_defs)

lemma bind_random_uuid [simp]:
  "bind_app random_uuid k w = k (uuid_supply w (drawn w)) (w\<lparr>drawn := Suc (drawn w)\<rparr>)"
  by (simp add: bind_app_def)

lemma bind_read_clock [simp]: "bind_app read_clock k w = k (clock w) w"
  by (simp add: bind_app_def)

lemma transaction_Inr: "transaction m w = (Inr a, w') \<longleftrightarrow> m w = (Inr a, w')"
  by (auto simp: transaction_def split: prod.splits sum.splits)

lemma transaction_Inl:
  "transaction m w = (Inl e, w') \<longleftrightarrow> (\<exists>t. m w = (Inl e, t) \<and> w' = t\<lparr>db := db w\<rparr>)"
  by (auto simp: transaction_def split: prod.splits sum.splits)

lemma transaction_throw_db: "m w = (Inl e, t) \<Longrightarrow> db (snd (transaction m w)) = db w"
  by (simp add: transaction_def)

text \<open>
  A timed operation returns what the work returns and changes the collectors at most; \<open>db\<close> and
  the other parts of the state are those the work left.
\<close>

lemma fst_timeDb [simp]: "fst (timeDb n m w) = fst (m w)"
  by (simp add: timeDb_def split: prod.splits)

lemma timeDb_run: "m w = (r, w') \<Longrightarrow> timeDb n m w = (r, w'\<lparr>collectors :=
    recordDbDuration n (of_int (clock w' - clock w) / 1000) (collectors w')\<rparr>)"
  by (simp add: timeDb_def)

lemma timeDb_Inr: "timeDb n m w = (Inr a, w') \<longleftrightarrow> (\<exists>t. m w = (Inr a, t) \<and>
    w' = t\<lparr>collectors := recordDbDuration n (of_int (clock t - clock w) / 1000) (collectors t)\<rparr>)"
  by (auto simp: timeDb_def split: prod.splits)

lemma timeDb_Inl: "timeDb n m w = (Inl e, w') \<longleftrightarrow> (\<exists>t. m w = (Inl e, t) \<and>
    w' = t\<lparr>collectors := recordDbDuration n (of_int (clock t - clock w) / 1000) (collectors t)\<rparr>)"
  by (auto simp: timeDb_def split: prod.splits)

subsection \<open>Preservation and frames of the primitives\<close>

lemma keeps_query [keeps_rules]: "keeps P (query f)"
  by (simp add: query_def keeps_gets)

lemma keeps_read_clock [keeps_rules]: "keeps P read_clock"
  by (simp add: read_clock_def keeps_gets)

lemma keeps_execute: "(\<And>d. P d \<Longrightarrow> P (f d)) \<Longrightarrow> keeps (\<lambda>w. P (db w)) (execute f)"
  by (simp add: keeps_def)

lemma keeps_record_metric [keeps_rules]: "keeps (\<lambda>w. P (db w)) (record_metric f)"
  by (simp add: keeps_def)

lemma keeps_random_uuid [keeps_rules]: "keeps (\<lambda>w. P (db w)) random_uuid"
  by (simp add: keeps_def)

lemma keeps_timeDb [keeps_rules]:
  "keeps (\<lambda>w. P (db w)) m \<Longrightarrow> keeps (\<lambda>w. P (db w)) (timeDb n m)"
  by (simp add: keeps_def timeDb_def split: prod.splits) (metis snd_conv)

lemma keeps_transaction [keeps_rules]:
  "keeps (\<lambda>w. P (db w)) m \<Longrightarrow> keeps (\<lambda>w. P (db w)) (transaction m)"
  by (simp add: keeps_def transaction_def split: prod.splits sum.splits) (metis snd_conv)

lemma same_query [same_rules]: "same g (query f)"
  by (simp add: query_def same_gets)

lemma same_read_clock [same_rules]: "same g read_clock"
  by (simp add: read_clock_def same_gets)

lemma same_db_record_metric [same_rules]: "same (\<lambda>w. g (db w)) (record_metric f)"
  by (simp add: same_def)

lemma same_db_random_uuid [same_rules]: "same (\<lambda>w. g (db w)) random_uuid"
  by (simp add: same_def)

lemma same_execute: "(\<And>d. g (f d) = g d) \<Longrightarrow> same (\<lambda>w. g (db w)) (execute f)"
  by (simp add: same_def)

lemma same_db_timeDb [same_rules]:
  "same (\<lambda>w. g (db w)) m \<Longrightarrow> same (\<lambda>w. g (db w)) (timeDb n m)"
  by (simp add: same_def timeDb_def split: prod.splits) (metis snd_conv)

lemma same_db_transaction [same_rules]:
  "same (\<lambda>w. g (db w)) m \<Longrightarrow> same (\<lambda>w. g (db w)) (transaction m)"
  by (simp add: same_def transaction_def split: prod.splits sum.splits) (metis snd_conv)

section \<open>An empty state, for concrete inputs\<close>

definition empty_db :: database where
  "empty_db = \<lparr>orders = [], order_items = [], products = [], carts = [], cart_items = [],
     users = [], refresh_tokens = [], processed_messages = [], outbox_messages = [],
     payment_authorizations = []\<rparr>"

definition empty_world :: world where
  "empty_world = \<lparr>cfg = \<lparr>cfg_cache_enabled = True, cfg_cache_ttl = 60, cfg_refresh_days = Some 7\<rparr>,
     db = empty_db, redis = \<lparr>redis_up = True, redis_store = (\<lambda>_. None)\<rparr>,
     broker = [], provider_calls = [], collectors = \<lparr>prom = [], sink = None\<rparr>,
     cache_stats = [], cls = None, clock = 0, uuid_supply = (\<lambda>n. replicate n CHR ''i''), drawn = 0, mails = [],
     shortProductId = None\<rparr>"

lemma fresh_empty_world: "fresh_supply empty_world"
  unfolding fresh_supply_def empty_world_def
  by (auto intro!: injI dest: arg_cong [where f = length])

end
