(* ===== verification/Js_Strings.thy ===== *)
theory Js_Strings
  imports Prelude
begin

text \<open>
  The string methods of the language the auth and CORS code uses: \<open>split\<close> with a one-character
  separator, \<open>trim\<close>, \<open>toLowerCase\<close> and \<open>includes\<close>. A character is a code unit below 256; the white
  space \<open>trim\<close> strips and the letters \<open>toLowerCase\<close> maps are those of that range.
\<close>

fun js_split :: "char \<Rightarrow> string \<Rightarrow> string list" where
  "js_split c [] = [[]]"
| "js_split c (x # xs) =
     (if x = c then [] # js_split c xs
      else case js_split c xs of [] \<Rightarrow> [[x]] | y # ys \<Rightarrow> (x # y) # ys)"

definition js_white :: "char \<Rightarrow> bool" where
  "js_white c \<longleftrightarrow> of_char c \<in> {9, 10, 11, 12, 13, 32, 160 :: nat}"

definition js_trim :: "string \<Rightarrow> string" where
  "js_trim s = rev (dropWhile js_white (rev (dropWhile js_white s)))"

definition lower_char :: "char \<Rightarrow> char" where
  "lower_char c = (let n = of_char c :: nat
     in if 65 \<le> n \<and> n \<le> 90 \<or> 192 \<le> n \<and> n \<le> 222 \<and> n \<noteq> 215 then char_of (n + 32) else c)"

definition toLowerCase :: "string \<Rightarrow> string" where
  "toLowerCase s = map lower_char s"

lemma js_split_not_Nil [simp]: "js_split c s \<noteq> []"
  by (induction s) (auto split: list.splits)

lemma js_split_part: "p \<in> set (js_split c s) \<Longrightarrow> c \<notin> set p"
  by (induction s arbitrary: p) (auto split: list.splits if_splits)

lemma js_split_none: "c \<notin> set s \<Longrightarrow> js_split c s = [s]"
  by (induction s) auto

lemma js_split_append: "c \<notin> set p \<Longrightarrow> js_split c (p @ c # s) = p # js_split c s"
  by (induction p) (auto split: list.splits)

lemma js_split_Cons_iff: "js_split c s = p # q # ps \<longleftrightarrow>
    (\<exists>s'. s = p @ c # s' \<and> c \<notin> set p \<and> js_split c s' = q # ps)"
proof (induction s arbitrary: p)
  case (Cons x xs)
  show ?case
  proof (cases "x = c")
    case True
    then show ?thesis by (cases p) auto
  next
    case False
    obtain y ys where ys: "js_split c xs = y # ys" by (cases "js_split c xs") auto
    show ?thesis
    proof
      assume h: "js_split c (x # xs) = p # q # ps"
      with False ys have "p = x # y" "ys = q # ps" by auto
      with ys Cons.IH [of y] False show "\<exists>s'. x # xs = p @ c # s' \<and> c \<notin> set p \<and> js_split c s' = q # ps" by auto
    next
      assume "\<exists>s'. x # xs = p @ c # s' \<and> c \<notin> set p \<and> js_split c s' = q # ps"
      then show "js_split c (x # xs) = p # q # ps" using js_split_append by fastforce
    qed
  qed
qed simp

lemma lower_char_idem [simp]: "lower_char (lower_char c) = lower_char c"
proof -
  have "of_char c < (256 :: nat)" using nat_of_char_less_256 .
  then show ?thesis by (auto simp: lower_char_def Let_def)
qed

lemma toLowerCase_idem [simp]: "toLowerCase (toLowerCase s) = toLowerCase s"
  by (simp add: toLowerCase_def)

lemma white_lower [simp]: "js_white (lower_char c) \<longleftrightarrow> js_white c"
proof -
  have "of_char c < (256 :: nat)" using nat_of_char_less_256 .
  then show ?thesis by (auto simp: lower_char_def js_white_def Let_def)
qed

lemma trim_lower: "js_trim (toLowerCase s) = toLowerCase (js_trim s)"
proof -
  have "dropWhile js_white (map lower_char t) = map lower_char (dropWhile js_white t)" for t
    by (induction t) auto
  then show ?thesis by (simp add: js_trim_def toLowerCase_def rev_map)
qed

definition trim_end :: "string \<Rightarrow> string" where
  "trim_end s = rev (dropWhile js_white (rev s))"

lemma trim_end_append: "trim_end (s @ [c]) = (if js_white c then trim_end s else s @ [c])"
  by (simp add: trim_end_def)

lemma trim_end_idem: "trim_end (trim_end s) = trim_end s"
  by (induction s rule: rev_induct) (simp_all add: trim_end_append, simp add: trim_end_def)

lemma trim_end_prefix: "\<exists>e. s = trim_end s @ e"
  by (metis rev_append rev_rev_ident takeWhile_dropWhile_id trim_end_def)

lemma trim_end_start: "dropWhile js_white s = s \<Longrightarrow> dropWhile js_white (trim_end s) = trim_end s"
  using trim_end_prefix [of s] by (cases "trim_end s") (auto simp: dropWhile_eq_self_iff dest: arg_cong [where f = hd])

lemma trim_idem [simp]: "js_trim (js_trim s) = js_trim s"
proof -
  have t: "js_trim s = trim_end (dropWhile js_white s)" for s
    by (simp add: js_trim_def trim_end_def)
  show ?thesis
    unfolding t by (simp add: trim_end_start trim_end_idem dropWhile_idem)
qed

end
