(* ===== verification/Tokens.thy ===== *)
theory Tokens
  imports World Js_Strings
begin

text \<open>
  \<open>TokenService\<close> of \<^verbatim>\<open>src/modules/auth/services/token.service.ts\<close>: refresh tokens and their rotation.

  The SHA-256 digest (\<open>sha256\<close>) and the signing of access tokens (\<open>sign\<close>, which reads the clock and
  may throw) are parameters. The text of 48 random bytes is drawn from the supply the ids come from.

  \<open>rotate\<close> is written in the three steps another request may run between: the read with its checks
  (\<open>rotate_read\<close>), the claim (\<open>rotate_claim\<close>) and the issue of the successor (\<open>issueTokens\<close>).
\<close>

record JwtPayload =
  j_sub :: uuid
  j_role :: UserRole
  j_iat :: "int option"
  j_exp :: "int option"

record TokenPair =
  tp_accessToken :: string
  tp_refreshToken :: string

definition DAY_IN_MS :: int where "DAY_IN_MS = 24 * 60 * 60 * 1000"

definition REFRESH_TOKEN_TTL_DEFAULT_DAYS :: int where "REFRESH_TOKEN_TTL_DEFAULT_DAYS = 7"

definition refresh_days :: "config \<Rightarrow> int" where
  "refresh_days c = (case cfg_refresh_days c of None \<Rightarrow> REFRESH_TOKEN_TTL_DEFAULT_DAYS | Some days \<Rightarrow> days)"

abbreviation invalid_refresh_token :: exn where
  "invalid_refresh_token \<equiv> UnauthorizedException ''Invalid refresh token''"

section \<open>Issuing\<close>

definition hashRefreshToken :: "(string \<Rightarrow> string) \<Rightarrow> string \<Rightarrow> string" where
  "hashRefreshToken sha256 token = sha256 token"

definition insert_refresh_token :: "uuid \<Rightarrow> uuid \<Rightarrow> string \<Rightarrow> int \<Rightarrow> (world, unit) app" where
  "insert_refresh_token userId familyId tokenHash expiresAt =
     bind_app random_uuid (\<lambda>rid. bind_app read_clock (\<lambda>now.
     bind_app (query (\<lambda>d. row_where (\<lambda>r. rt_tokenHash r = tokenHash) (refresh_tokens d))) (\<lambda>other.
       if other \<noteq> None then throw_app (unique_violation ''refresh_tokens'')
       else execute (\<lambda>d. d\<lparr>refresh_tokens := refresh_tokens d @
              [\<lparr>rt_id = rid, rt_userId = userId, rt_user = None, rt_familyId = familyId,
                rt_tokenHash = tokenHash, rt_expiresAt = DateObj expiresAt, rt_revoked = False,
                rt_createdAt = DateObj now\<rparr>]\<rparr>))))"

definition createRefreshToken :: "(string \<Rightarrow> string) \<Rightarrow> uuid \<Rightarrow> uuid \<Rightarrow> (world, string) app" where
  "createRefreshToken sha256 userId familyId =
     bind_app random_uuid (\<lambda>refreshToken.
     bind_app (gets_app (\<lambda>w. refresh_days (cfg w))) (\<lambda>days.
     bind_app read_clock (\<lambda>now.
       then_app (insert_refresh_token userId familyId (hashRefreshToken sha256 refreshToken)
                   (now + days * DAY_IN_MS))
         (return_app refreshToken))))"

definition signAsync :: "(JwtPayload \<Rightarrow> int \<Rightarrow> exn + string) \<Rightarrow> JwtPayload \<Rightarrow> (world, string) app" where
  "signAsync sign payload = (\<lambda>w. (sign payload (clock w), w))"

definition issueTokens ::
    "(string \<Rightarrow> string) \<Rightarrow> (JwtPayload \<Rightarrow> int \<Rightarrow> exn + string) \<Rightarrow> UserEntity \<Rightarrow> uuid option \<Rightarrow>
     (world, TokenPair) app" where
  "issueTokens sha256 sign user familyId =
     bind_app (case familyId of None \<Rightarrow> random_uuid | Some f \<Rightarrow> return_app f) (\<lambda>family.
     bind_app (signAsync sign \<lparr>j_sub = u_id user, j_role = u_role user, j_iat = None, j_exp = None\<rparr>)
       (\<lambda>accessToken.
     bind_app (createRefreshToken sha256 (u_id user) family) (\<lambda>refreshToken.
       return_app \<lparr>tp_accessToken = accessToken, tp_refreshToken = refreshToken\<rparr>)))"

section \<open>Rotation\<close>

definition revoke :: "RefreshTokenEntity \<Rightarrow> RefreshTokenEntity" where
  "revoke r = r\<lparr>rt_revoked := True\<rparr>"

definition revokeFamilyOnReuse :: "RefreshTokenEntity \<Rightarrow> (world, 'a) app" where
  "revokeFamilyOnReuse stored =
     then_app (execute (\<lambda>d. d\<lparr>refresh_tokens :=
         update_where (\<lambda>r. rt_familyId r = rt_familyId stored) revoke (refresh_tokens d)\<rparr>))
       (throw_app invalid_refresh_token)"

text \<open>The lookup by hash with the relation \<open>user\<close>.\<close>

definition find_refresh_token :: "(string \<Rightarrow> string) \<Rightarrow> string \<Rightarrow> database \<Rightarrow> RefreshTokenEntity option" where
  "find_refresh_token sha256 presentedToken d =
     map_option (\<lambda>r. r\<lparr>rt_user := row_where (\<lambda>u. u_id u = rt_userId r) (users d)\<rparr>)
       (row_where (\<lambda>r. rt_tokenHash r = hashRefreshToken sha256 presentedToken) (refresh_tokens d))"

definition rotate_read :: "(string \<Rightarrow> string) \<Rightarrow> string \<Rightarrow> (world, RefreshTokenEntity) app" where
  "rotate_read sha256 presentedToken =
     bind_app (query (find_refresh_token sha256 presentedToken)) (\<lambda>found.
       case found of
         None \<Rightarrow> throw_app invalid_refresh_token
       | Some stored \<Rightarrow>
           if (case rt_user stored of None \<Rightarrow> False | Some user \<Rightarrow> u_disabled user)
           then throw_app invalid_refresh_token
           else if rt_revoked stored then revokeFamilyOnReuse stored
           else bind_app read_clock (\<lambda>now.
             if getTime (rt_expiresAt stored) \<le> now \<or> rt_user stored = None
             then throw_app invalid_refresh_token
             else return_app stored))"

definition rotate_guard :: "uuid \<Rightarrow> RefreshTokenEntity \<Rightarrow> bool" where
  "rotate_guard tid r \<longleftrightarrow> rt_id r = tid \<and> rt_revoked r = False"

definition rotate_claim :: "RefreshTokenEntity \<Rightarrow> (world, unit) app" where
  "rotate_claim stored =
     bind_app (query (\<lambda>d. affected (rotate_guard (rt_id stored)) (refresh_tokens d))) (\<lambda>claim.
     then_app (execute (\<lambda>d. d\<lparr>refresh_tokens :=
         update_where (rotate_guard (rt_id stored)) revoke (refresh_tokens d)\<rparr>))
       (if claim = 0 then revokeFamilyOnReuse stored else return_app ()))"

definition rotate_issue ::
    "(string \<Rightarrow> string) \<Rightarrow> (JwtPayload \<Rightarrow> int \<Rightarrow> exn + string) \<Rightarrow> RefreshTokenEntity \<Rightarrow>
     (world, TokenPair) app" where
  "rotate_issue sha256 sign stored =
     (case rt_user stored of
        None \<Rightarrow> throw_app (JsError ''TypeError'')
      | Some user \<Rightarrow> issueTokens sha256 sign user (Some (rt_familyId stored)))"

definition rotate ::
    "(string \<Rightarrow> string) \<Rightarrow> (JwtPayload \<Rightarrow> int \<Rightarrow> exn + string) \<Rightarrow> string \<Rightarrow> (world, TokenPair) app" where
  "rotate sha256 sign presentedToken =
     bind_app (rotate_read sha256 presentedToken) (\<lambda>stored.
     then_app (rotate_claim stored) (rotate_issue sha256 sign stored))"

interpretation rotation: keyed_claim "rotate_guard tid" revoke rt_id tid for tid
  by unfold_locales (auto simp: rotate_guard_def revoke_def)

section \<open>Runs\<close>

definition after_revoke :: "(RefreshTokenEntity \<Rightarrow> bool) \<Rightarrow> world \<Rightarrow> world" where
  "after_revoke p w = w\<lparr>db := (db w)\<lparr>refresh_tokens := update_where p revoke (refresh_tokens (db w))\<rparr>\<rparr>"

lemma revokeFamily_run:
  "revokeFamilyOnReuse stored w = (Inl invalid_refresh_token, after_revoke (\<lambda>r. rt_familyId r = rt_familyId stored) w)"
  by (simp add: revokeFamilyOnReuse_def after_revoke_def)

lemma rotate_claim_run: "rotate_claim stored w =
    (if affected (rotate_guard (rt_id stored)) (refresh_tokens (db w)) = 0
     then (Inl invalid_refresh_token, after_revoke (\<lambda>r. rt_familyId r = rt_familyId stored) w)
     else (Inr (), after_revoke (rotate_guard (rt_id stored)) w))"
proof -
  have "w\<lparr>db := (db w)\<lparr>refresh_tokens := update_where g f (refresh_tokens (db w))\<rparr>\<rparr> = w"
    if "affected g (refresh_tokens (db w)) = 0" for g f
    using affected_0_update [OF that] by simp
  then show ?thesis
    by (simp add: rotate_claim_def revokeFamily_run after_revoke_def)
qed

lemma rotate_read_run: "rotate_read sha256 p w =
    (case find_refresh_token sha256 p (db w) of
       None \<Rightarrow> (Inl invalid_refresh_token, w)
     | Some stored \<Rightarrow>
         (case rt_user stored of
            None \<Rightarrow> if rt_revoked stored then revokeFamilyOnReuse stored w else (Inl invalid_refresh_token, w)
          | Some user \<Rightarrow>
              if u_disabled user then (Inl invalid_refresh_token, w)
              else if rt_revoked stored then revokeFamilyOnReuse stored w
              else if getTime (rt_expiresAt stored) \<le> clock w then (Inl invalid_refresh_token, w)
              else (Inr stored, w)))"
  by (simp add: rotate_read_def split: option.splits)

definition new_token :: "(string \<Rightarrow> string) \<Rightarrow> uuid \<Rightarrow> uuid \<Rightarrow> nat \<Rightarrow> world \<Rightarrow> RefreshTokenEntity" where
  "new_token sha256 userId familyId n w = \<lparr>rt_id = uuid_supply w (Suc n), rt_userId = userId, rt_user = None,
     rt_familyId = familyId, rt_tokenHash = sha256 (uuid_supply w n),
     rt_expiresAt = DateObj (clock w + refresh_days (cfg w) * DAY_IN_MS), rt_revoked = False,
     rt_createdAt = DateObj (clock w)\<rparr>"

lemma createRefreshToken_run: "createRefreshToken sha256 userId familyId w =
    (if sha256 (uuid_supply w (drawn w)) \<in> rt_tokenHash ` set (refresh_tokens (db w))
     then (Inl (unique_violation ''refresh_tokens''), w\<lparr>drawn := drawn w + 2\<rparr>)
     else (Inr (uuid_supply w (drawn w)), w\<lparr>drawn := drawn w + 2, db := (db w)\<lparr>refresh_tokens :=
         refresh_tokens (db w) @ [new_token sha256 userId familyId (drawn w) w]\<rparr>\<rparr>))"
proof -
  have "h \<in> rt_tokenHash ` set t \<longleftrightarrow> row_where (\<lambda>r. rt_tokenHash r = h) t \<noteq> None"
    for h and t :: "RefreshTokenEntity list"
    by (induction t) auto
  then show ?thesis
    by (simp add: createRefreshToken_def insert_refresh_token_def hashRefreshToken_def new_token_def
        bind_app_def then_app_def)
qed

lemma issueTokens_run: "issueTokens sha256 sign user (Some f) w =
    (case sign \<lparr>j_sub = u_id user, j_role = u_role user, j_iat = None, j_exp = None\<rparr> (clock w) of
       Inl e \<Rightarrow> (Inl e, w)
     | Inr a \<Rightarrow> (case createRefreshToken sha256 (u_id user) f w of
         (Inl e, w') \<Rightarrow> (Inl e, w')
       | (Inr t, w') \<Rightarrow> (Inr \<lparr>tp_accessToken = a, tp_refreshToken = t\<rparr>, w')))"
  by (simp add: issueTokens_def signAsync_def bind_app_def split: sum.splits prod.splits)

lemma issueTokens_new_family: "issueTokens sha256 sign user None w =
    issueTokens sha256 sign user (Some (uuid_supply w (drawn w))) (w\<lparr>drawn := Suc (drawn w)\<rparr>)"
  by (simp add: issueTokens_def)

section \<open>Histories\<close>

text \<open>
  What every operation keeps: ids and digests are unique, no row has an id still to be drawn, and a
  revoked row stays, revoked and otherwise unchanged.
\<close>

definition tokens_inv :: "world \<Rightarrow> bool" where
  "tokens_inv w \<longleftrightarrow> distinct (map rt_id (refresh_tokens (db w))) \<and>
     distinct (map rt_tokenHash (refresh_tokens (db w))) \<and> fresh_supply w \<and>
     (\<forall>r \<in> set (refresh_tokens (db w)). \<forall>n \<ge> drawn w. rt_id r \<noteq> uuid_supply w n)"

definition token_step :: "world \<Rightarrow> world \<Rightarrow> bool" where
  "token_step w w' \<longleftrightarrow> tokens_inv w' \<and>
     (\<forall>r \<in> set (refresh_tokens (db w)). rt_revoked r \<longrightarrow> r \<in> set (refresh_tokens (db w')))"

lemma step_refl: "tokens_inv w \<Longrightarrow> token_step w w"
  by (simp add: token_step_def)

lemma step_trans: "token_step u v \<Longrightarrow> token_step v w \<Longrightarrow> token_step u w"
  by (simp add: token_step_def)

lemma step_inv: "token_step w w' \<Longrightarrow> tokens_inv w'"
  by (simp add: token_step_def)

lemma step_frame:
  assumes "tokens_inv w" "refresh_tokens (db w') = refresh_tokens (db w)" "uuid_supply w' = uuid_supply w"
    "drawn w \<le> drawn w'"
  shows "token_step w w'"
  using assms by (auto simp: token_step_def tokens_inv_def fresh_supply_def)

lemma revoke_simps [simp]:
  "rt_id (revoke r) = rt_id r" "rt_tokenHash (revoke r) = rt_tokenHash r" "rt_familyId (revoke r) = rt_familyId r"
  "rt_revoked (revoke r) = True" "rt_userId (revoke r) = rt_userId r" "rt_expiresAt (revoke r) = rt_expiresAt r"
  by (simp_all add: revoke_def)

lemma revoke_idle: "rt_revoked r \<Longrightarrow> revoke r = r"
  by (simp add: revoke_def)

lemma step_revoke:
  assumes "tokens_inv w" shows "token_step w (after_revoke p w)"
proof -
  have "r \<in> set (update_where p revoke t)" if "r \<in> set t" "rt_revoked r" for r t
    using that revoke_idle [of r] by (auto simp: set_update_where rev_image_eqI)
  then show ?thesis
    using assms by (auto simp: token_step_def tokens_inv_def after_revoke_def fresh_supply_def set_update_where)
qed

lemma step_create:
  assumes "tokens_inv w" shows "token_step w (snd (createRefreshToken sha256 userId familyId w))"
proof -
  have "uuid_supply w (Suc (drawn w)) \<noteq> rt_id r" if "r \<in> set (refresh_tokens (db w))" for r
    using assms that by (metis tokens_inv_def le_SucI order_refl)
  moreover have "uuid_supply w (Suc (drawn w)) \<noteq> uuid_supply w n" if "n \<ge> Suc (Suc (drawn w))" for n
    using assms that by (auto simp: tokens_inv_def fresh_supply_def dest: injD [of _ "Suc (drawn w)" n])
  ultimately show ?thesis
    using assms
    by (auto simp: createRefreshToken_run token_step_def tokens_inv_def fresh_supply_def new_token_def)
qed

lemma step_issue_family: "tokens_inv w \<Longrightarrow> token_step w (snd (issueTokens sha256 sign user (Some f) w))"
  using step_create [of w sha256 "u_id user" f]
  by (auto simp: issueTokens_run step_refl split: sum.splits prod.splits)

lemma step_issue:
  assumes "tokens_inv w" shows "token_step w (snd (issueTokens sha256 sign user f w))"
proof (cases f)
  case None
  have s: "token_step w (w\<lparr>drawn := Suc (drawn w)\<rparr>)"
    using assms by (intro step_frame) auto
  have "token_step (w\<lparr>drawn := Suc (drawn w)\<rparr>) (snd (issueTokens sha256 sign user f w))"
    unfolding None issueTokens_new_family by (intro step_issue_family step_inv [OF s])
  with s show ?thesis by (rule step_trans)
qed (simp add: assms step_issue_family)

lemma step_rotate_read: "tokens_inv w \<Longrightarrow> token_step w (snd (rotate_read sha256 p w))"
  by (auto simp: rotate_read_run revokeFamily_run step_refl step_revoke split: option.splits)

lemma step_rotate_claim: "tokens_inv w \<Longrightarrow> token_step w (snd (rotate_claim stored w))"
  by (simp add: rotate_claim_run step_revoke)

lemma step_rotate_issue: "tokens_inv w \<Longrightarrow> token_step w (snd (rotate_issue sha256 sign stored w))"
  by (simp add: rotate_issue_def step_refl step_issue split: option.splits)

lemma step_bind:
  assumes "token_step w (snd (m w))" and "\<And>a v. tokens_inv v \<Longrightarrow> token_step v (snd (k a v))"
  shows "token_step w (snd (bind_app m k w))"
proof (cases "m w")
  case (Pair r v)
  with assms(1) have v: "token_step w v" by simp
  have "token_step v (snd (k a v))" for a
    using step_inv [OF v] by (rule assms(2))
  with v step_trans [OF v] Pair show ?thesis
    by (cases r) (simp_all add: bind_app_def)
qed

lemma step_rotate: "tokens_inv w \<Longrightarrow> token_step w (snd (rotate sha256 sign p w))"
  unfolding rotate_def then_app_def
  by (intro step_bind step_rotate_read step_rotate_claim step_rotate_issue)

text \<open>
  What requests do to the tokens, in any order: a whole rotation, a login, or, when another request
  runs between its steps, the claim of a token read earlier, the issue of its successor and the
  revocation of a family.
\<close>

datatype token_action =
    DoRotate string
  | DoLogin UserEntity
  | DoClaim RefreshTokenEntity
  | DoIssue RefreshTokenEntity
  | DoRevokeFamily RefreshTokenEntity

fun run_token_action ::
    "(string \<Rightarrow> string) \<Rightarrow> (JwtPayload \<Rightarrow> int \<Rightarrow> exn + string) \<Rightarrow> token_action \<Rightarrow> world \<Rightarrow> world" where
  "run_token_action sha256 sign (DoRotate p) w = snd (rotate sha256 sign p w)"
| "run_token_action sha256 sign (DoLogin user) w = snd (issueTokens sha256 sign user None w)"
| "run_token_action sha256 sign (DoClaim stored) w = snd (rotate_claim stored w)"
| "run_token_action sha256 sign (DoIssue stored) w = snd (rotate_issue sha256 sign stored w)"
| "run_token_action sha256 sign (DoRevokeFamily stored) w =
     snd ((revokeFamilyOnReuse stored :: (world, unit) app) w)"

lemma step_action: "tokens_inv w \<Longrightarrow> token_step w (run_token_action sha256 sign a w)"
  by (cases a) (simp_all add: step_rotate step_issue step_rotate_claim step_rotate_issue revokeFamily_run step_revoke)

lemma step_history: "tokens_inv w \<Longrightarrow> token_step w (fold (run_token_action sha256 sign) acts w)"
proof (induction acts arbitrary: w)
  case (Cons a acts)
  then show ?case
    using step_action [of w sha256 sign a] by (simp, blast intro: step_trans step_inv)
qed (simp add: step_refl)

lemma find_unique:
  assumes "tokens_inv w" and "r \<in> set (refresh_tokens (db w))" and "rt_tokenHash r = sha256 p"
  shows "find_refresh_token sha256 p (db w) = Some (r\<lparr>rt_user := row_where (\<lambda>u. u_id u = rt_userId r) (users (db w))\<rparr>)"
  using assms row_where_key [of rt_tokenHash "refresh_tokens (db w)" r]
  by (simp add: find_refresh_token_def hashRefreshToken_def tokens_inv_def)

lemma revoked_refused:
  assumes "tokens_inv w" and "r \<in> set (refresh_tokens (db w))" and "rt_tokenHash r = sha256 p" and "rt_revoked r"
  shows "fst (rotate sha256 sign p w) = Inl invalid_refresh_token"
proof -
  have "fst (rotate_read sha256 p w) = Inl invalid_refresh_token"
    using assms by (simp add: rotate_read_run find_unique revokeFamily_run split: option.splits)
  then show ?thesis
    by (cases "rotate_read sha256 p w") (auto simp: rotate_def bind_app_def)
qed

lemma revoked_claim_refused:
  assumes "tokens_inv w" and "r \<in> set (refresh_tokens (db w))" and "rt_id r = rt_id stored" and "rt_revoked r"
  shows "fst (rotate_claim stored w) = Inl invalid_refresh_token"
proof -
  have "x = r" if "x \<in> set (refresh_tokens (db w))" "rt_id x = rt_id r" for x
    using that assms(1,2) inj_onD [of rt_id "set (refresh_tokens (db w))" x r]
    by (auto simp: tokens_inv_def distinct_map)
  then have "affected (rotate_guard (rt_id stored)) (refresh_tokens (db w)) = 0"
    using assms(3,4) by (auto simp: affected_0 rotate_guard_def)
  then show ?thesis by (simp add: rotate_claim_run)
qed

section \<open>Properties\<close>

lemma find_refresh_Some:
  assumes "find_refresh_token sha256 p d = Some stored"
  obtains r where "r \<in> set (refresh_tokens d)" "rt_tokenHash r = sha256 p"
    "stored = r\<lparr>rt_user := row_where (\<lambda>u. u_id u = rt_userId r) (users d)\<rparr>"
  using assms by (auto simp: find_refresh_token_def hashRefreshToken_def dest!: row_where_Some)

lemma rotate_read_Inr:
  assumes "rotate_read sha256 p w = (Inr stored, w')"
  shows "w' = w \<and> find_refresh_token sha256 p (db w) = Some stored \<and>
    (\<exists>user. rt_user stored = Some user \<and> \<not> u_disabled user) \<and> \<not> rt_revoked stored \<and>
    clock w < getTime (rt_expiresAt stored)"
  using assms by (auto simp: rotate_read_run revokeFamily_run split: option.splits if_splits)

lemma after_claim_revoked:
  assumes "find_refresh_token sha256 p (db w) = Some stored" and "rotate_claim stored w = (Inr (), w')"
  shows "\<exists>r \<in> set (refresh_tokens (db w')). rt_revoked r \<and> rt_tokenHash r = sha256 p \<and> rt_id r = rt_id stored"
proof -
  obtain r where r: "r \<in> set (refresh_tokens (db w))" "rt_tokenHash r = sha256 p" "rt_id stored = rt_id r"
    using assms(1) by (rule find_refresh_Some) simp
  have w': "w' = after_revoke (rotate_guard (rt_id stored)) w"
    using assms(2) by (simp add: rotate_claim_run split: if_splits)
  show ?thesis
  proof (cases "rt_revoked r")
    case True
    with r show ?thesis
      by (intro bexI [of _ r]) (auto simp: w' after_revoke_def set_update_where rotate_guard_def)
  next
    case False
    with r show ?thesis
      by (intro bexI [of _ "revoke r"]) (auto simp: w' after_revoke_def set_update_where rotate_guard_def)
  qed
qed

text \<open>
  C17: A refresh token is exchanged at most once. After a rotation succeeded, whatever happens to the
  tokens since, presenting the same token again fails with the generic error, and so does the claim of
  a concurrent request whose read came before (the double submit).
\<close>

theorem rotation_single_use:
  assumes "tokens_inv w" and "rotate sha256 sign p w = (Inr pair, w')"
  shows "fst (rotate sha256 sign p (fold (run_token_action sha256 sign) acts w')) =
       Inl (UnauthorizedException ''Invalid refresh token'') \<and>
     (\<exists>stored. rotate_read sha256 p w = (Inr stored, w) \<and>
       fst (rotate_claim stored (fold (run_token_action sha256 sign) acts w')) =
         Inl (UnauthorizedException ''Invalid refresh token''))"
proof -
  let ?v = "fold (run_token_action sha256 sign) acts w'"
  obtain stored w1 w2 where run: "rotate_read sha256 p w = (Inr stored, w1)" "rotate_claim stored w1 = (Inr (), w2)"
    "rotate_issue sha256 sign stored w2 = (Inr pair, w')"
    using assms(2) by (auto simp: rotate_def bind_app_Inr then_app_Inr)
  have w1: "w1 = w" "find_refresh_token sha256 p (db w) = Some stored"
    using rotate_read_Inr [OF run(1)] by simp_all
  obtain r where r: "r \<in> set (refresh_tokens (db w2))" "rt_revoked r" "rt_tokenHash r = sha256 p" "rt_id r = rt_id stored"
    using after_claim_revoked [OF w1(2)] run(2) w1(1) by blast
  have "tokens_inv w2"
    using step_rotate_claim [OF assms(1), of stored] run(2) w1(1) by (simp add: step_inv)
  then have "token_step w2 w'"
    using step_rotate_issue [of w2 sha256 sign stored] run(3) by simp
  with step_history [OF step_inv [OF this]] have step: "token_step w2 ?v"
    by (blast intro: step_trans)
  with r have "r \<in> set (refresh_tokens (db ?v))" "tokens_inv ?v"
    by (auto simp: token_step_def)
  with r show ?thesis
    using revoked_refused [of ?v r sha256 p sign] revoked_claim_refused [of ?v r stored] run(1) w1(1) by blast
qed

definition token_example :: world where
  "token_example = empty_world\<lparr>db := empty_db\<lparr>
     users := [\<lparr>u_id = ''u'', u_email = ''a@b.c'', u_password = ''x'', u_role = USER, u_disabled = False,
       u_createdAt = DateObj 0\<rparr>],
     refresh_tokens := [\<lparr>rt_id = ''t'', rt_userId = ''u'', rt_user = None, rt_familyId = ''f'',
       rt_tokenHash = ''secret'', rt_expiresAt = DateObj 1000, rt_revoked = False, rt_createdAt = DateObj 0\<rparr>]\<rparr>\<rparr>"

definition example_sign :: "JwtPayload \<Rightarrow> int \<Rightarrow> exn + string" where
  "example_sign payload now = Inr (''jwt:'' @ j_sub payload)"

lemma token_example_inv [simp]: "tokens_inv token_example"
proof -
  have "''t'' \<noteq> replicate n CHR ''i''" for n by (cases n) auto
  then show ?thesis
    using fresh_empty_world by (simp add: tokens_inv_def token_example_def empty_db_def fresh_supply_def empty_world_def)
qed

lemma token_example_rotate: "rotate rev example_sign ''terces'' token_example =
    (Inr \<lparr>tp_accessToken = ''jwt:u'', tp_refreshToken = []\<rparr>,
     snd (rotate rev example_sign ''terces'' token_example))"
  by (simp add: rotate_def rotate_read_run find_refresh_token_def hashRefreshToken_def bind_app_def then_app_def
      rotate_claim_run after_revoke_def rotate_issue_def issueTokens_run createRefreshToken_run example_sign_def
      rotate_guard_def revoke_def
      token_example_def empty_world_def)

theorem rotation_single_use_witness:
  "fst (rotate rev example_sign ''terces'' (fold (run_token_action rev example_sign) [DoRotate ''x'']
       (snd (rotate rev example_sign ''terces'' token_example)))) =
       Inl (UnauthorizedException ''Invalid refresh token'') \<and>
     (\<exists>stored. rotate_read rev ''terces'' token_example = (Inr stored, token_example) \<and>
       fst (rotate_claim stored (fold (run_token_action rev example_sign) [DoRotate ''x'']
         (snd (rotate rev example_sign ''terces'' token_example)))) =
         Inl (UnauthorizedException ''Invalid refresh token''))"
  by (rule rotation_single_use [OF token_example_inv token_example_rotate])

lemma claim_free:
  assumes "rotate_read sha256 p w = (Inr stored, w')"
  shows "affected (rotate_guard (rt_id stored)) (refresh_tokens (db w)) \<noteq> 0"
proof -
  have f: "find_refresh_token sha256 p (db w) = Some stored" "\<not> rt_revoked stored"
    using rotate_read_Inr [OF assms] by simp_all
  then obtain r where "r \<in> set (refresh_tokens (db w))"
    "stored = r\<lparr>rt_user := row_where (\<lambda>u. u_id u = rt_userId r) (users (db w))\<rparr>"
    by (elim find_refresh_Some)
  with f(2) show ?thesis by (auto simp: affected_0 rotate_guard_def)
qed

definition payload_of :: "UserEntity \<Rightarrow> JwtPayload" where
  "payload_of user = \<lparr>j_sub = u_id user, j_role = u_role user, j_iat = None, j_exp = None\<rparr>"

text \<open>
  \<open>rotate\<close> on every branch. An unknown token, a token of a disabled user and an expired token are
  refused and change nothing; a token already rotated is refused and revokes every token of its family
  and none of another; all with the same generic error. Otherwise the presented token alone is revoked
  and one successor of the same family is stored, as a digest, with a full lifetime.
\<close>

theorem rotate_outcomes:
  assumes signed: "\<And>payload now. sign payload now = Inr (jwt payload now)"
    and fresh: "sha256 (uuid_supply w (drawn w)) \<notin> rt_tokenHash ` set (refresh_tokens (db w))"
  shows "rotate sha256 sign p w =
    (case find_refresh_token sha256 p (db w) of
       None \<Rightarrow> (Inl (UnauthorizedException ''Invalid refresh token''), w)
     | Some stored \<Rightarrow>
         if \<exists>user. rt_user stored = Some user \<and> u_disabled user
         then (Inl (UnauthorizedException ''Invalid refresh token''), w)
         else if rt_revoked stored
         then (Inl (UnauthorizedException ''Invalid refresh token''), w\<lparr>db := (db w)\<lparr>refresh_tokens :=
            map (\<lambda>r. if rt_familyId r = rt_familyId stored then r\<lparr>rt_revoked := True\<rparr> else r) (refresh_tokens (db w))\<rparr>\<rparr>)
         else (case rt_user stored of
           None \<Rightarrow> (Inl (UnauthorizedException ''Invalid refresh token''), w)
         | Some user \<Rightarrow>
             if getTime (rt_expiresAt stored) \<le> clock w
             then (Inl (UnauthorizedException ''Invalid refresh token''), w)
             else (Inr \<lparr>tp_accessToken = jwt (payload_of user) (clock w), tp_refreshToken = uuid_supply w (drawn w)\<rparr>,
               w\<lparr>drawn := drawn w + 2, db := (db w)\<lparr>refresh_tokens :=
                 map (\<lambda>r. if rt_id r = rt_id stored \<and> \<not> rt_revoked r then r\<lparr>rt_revoked := True\<rparr> else r)
                   (refresh_tokens (db w)) @
                 [\<lparr>rt_id = uuid_supply w (Suc (drawn w)), rt_userId = u_id user, rt_user = None,
                    rt_familyId = rt_familyId stored, rt_tokenHash = sha256 (uuid_supply w (drawn w)),
                    rt_expiresAt = DateObj (clock w + refresh_days (cfg w) * 86400000), rt_revoked = False,
                    rt_createdAt = DateObj (clock w)\<rparr>]\<rparr>\<rparr>)))"
proof (cases "rotate_read sha256 p w")
  case (Pair res v)
  show ?thesis
  proof (cases res)
    case (Inl e)
    with Pair show ?thesis
      by (auto simp: rotate_def bind_app_def rotate_read_run revokeFamily_run after_revoke_def update_where_def revoke_def
          split: option.splits if_splits)
  next
    case (Inr stored)
    with Pair have run: "rotate_read sha256 p w = (Inr stored, v)" by simp
    obtain user where st: "v = w" "find_refresh_token sha256 p (db w) = Some stored" "rt_user stored = Some user"
      "\<not> u_disabled user" "\<not> rt_revoked stored" "clock w < getTime (rt_expiresAt stored)"
      using rotate_read_Inr [OF run] by blast
    have hashes: "rt_tokenHash ` set (update_where g revoke t) = rt_tokenHash ` set t" for g and t :: "RefreshTokenEntity list"
      by (induction t) auto
    let ?w = "after_revoke (rotate_guard (rt_id stored)) w"
    have claim: "rotate_claim stored w = (Inr (), ?w)"
      using claim_free [OF run] by (simp add: rotate_claim_run)
    have "rotate_issue sha256 sign stored ?w =
      (Inr \<lparr>tp_accessToken = jwt (payload_of user) (clock w), tp_refreshToken = uuid_supply w (drawn w)\<rparr>,
       ?w\<lparr>drawn := drawn w + 2, db := (db ?w)\<lparr>refresh_tokens := refresh_tokens (db ?w) @
         [new_token sha256 (u_id user) (rt_familyId stored) (drawn w) ?w]\<rparr>\<rparr>)"
      using fresh by (simp add: rotate_issue_def st(3) issueTokens_run signed createRefreshToken_run after_revoke_def
          hashes payload_of_def)
    then have "rotate sha256 sign p w =
      (Inr \<lparr>tp_accessToken = jwt (payload_of user) (clock w), tp_refreshToken = uuid_supply w (drawn w)\<rparr>,
       ?w\<lparr>drawn := drawn w + 2, db := (db ?w)\<lparr>refresh_tokens := refresh_tokens (db ?w) @
         [new_token sha256 (u_id user) (rt_familyId stored) (drawn w) ?w]\<rparr>\<rparr>)"
      by (simp add: rotate_def bind_app_def then_app_def run st(1) claim)
    then show ?thesis
      using st by (simp add: after_revoke_def new_token_def DAY_IN_MS_def update_where_def rotate_guard_def revoke_def)
  qed
qed

definition example_jwt :: "JwtPayload \<Rightarrow> int \<Rightarrow> string" where
  "example_jwt payload now = ''jwt:'' @ j_sub payload"

lemma token_example_fresh:
  "rev (uuid_supply token_example (drawn token_example)) \<notin> rt_tokenHash ` set (refresh_tokens (db token_example))"
  by (simp add: token_example_def empty_world_def)

theorem rotate_outcomes_witness:
  "rotate rev example_sign ''terces'' token_example =
     (Inr \<lparr>tp_accessToken = ''jwt:u'', tp_refreshToken = []\<rparr>, token_example\<lparr>drawn := 2,
        db := (db token_example)\<lparr>refresh_tokens := refresh_tokens (db (after_revoke (\<lambda>r. True) token_example)) @
          [\<lparr>rt_id = ''i'', rt_userId = ''u'', rt_user = None, rt_familyId = ''f'', rt_tokenHash = [],
             rt_expiresAt = DateObj (7 * 86400000), rt_revoked = False, rt_createdAt = DateObj 0\<rparr>]\<rparr>\<rparr>)"
proof -
  have "example_sign payload now = Inr (example_jwt payload now)" for payload now
    by (simp add: example_sign_def example_jwt_def)
  then show ?thesis
    by (subst rotate_outcomes [where jwt = example_jwt])
       (simp_all add: find_refresh_token_def hashRefreshToken_def token_example_def empty_world_def payload_of_def
        after_revoke_def revoke_def refresh_days_def example_jwt_def)
qed

text \<open>
  Reuse detection can miss the successor. Two requests present one token and both read it as valid;
  the winner claims it, the loser's claim fails and revokes the whole family, and only then does the
  winner store its successor: every token of the family is revoked but that one, which is valid, in
  the revoked family, and can be exchanged.
\<close>

theorem reuse_race_successor_survives:
  assumes read: "rotate_read sha256 p w = (Inr stored, w)"
    and signed: "\<And>payload now. sign payload now = Inr (jwt payload now)"
    and inv: "tokens_inv w" and days: "0 < refresh_days (cfg w)"
    and fresh: "sha256 (uuid_supply w (drawn w)) \<notin> rt_tokenHash ` set (refresh_tokens (db w))"
  shows "\<exists>w1 w2 w3 pair. rotate_claim stored w = (Inr (), w1) \<and>
     rotate_claim stored w1 = (Inl (UnauthorizedException ''Invalid refresh token''), w2) \<and>
     rotate_issue sha256 sign stored w2 = (Inr pair, w3) \<and>
     (\<forall>r \<in> set (refresh_tokens (db w2)). rt_familyId r = rt_familyId stored \<longrightarrow> rt_revoked r) \<and>
     (\<exists>next. rotate_read sha256 (tp_refreshToken pair) w3 = (Inr next, w3) \<and> rt_familyId next = rt_familyId stored)"
proof -
  obtain user where st: "find_refresh_token sha256 p (db w) = Some stored" "rt_user stored = Some user" "\<not> u_disabled user"
    using rotate_read_Inr [OF read] by blast
  obtain r where "stored = r\<lparr>rt_user := row_where (\<lambda>u. u_id u = rt_userId r) (users (db w))\<rparr>"
    using st(1) by (rule find_refresh_Some)
  with st(2) have user: "row_where (\<lambda>u. u_id u = u_id user) (users (db w)) = Some user"
    using row_where_Some by fastforce
  have hashes: "rt_tokenHash ` set (update_where g revoke t) = rt_tokenHash ` set t" for g and t :: "RefreshTokenEntity list"
    by (induction t) auto
  let ?w1 = "after_revoke (rotate_guard (rt_id stored)) w"
  let ?w2 = "after_revoke (\<lambda>r. rt_familyId r = rt_familyId stored) ?w1"
  let ?t = "new_token sha256 (u_id user) (rt_familyId stored) (drawn w) w"
  let ?w3 = "?w2\<lparr>drawn := drawn w + 2, db := (db ?w2)\<lparr>refresh_tokens := refresh_tokens (db ?w2) @ [?t]\<rparr>\<rparr>"
  have frame: "drawn ?w2 = drawn w" "uuid_supply ?w2 = uuid_supply w" "clock ?w2 = clock w" "cfg ?w2 = cfg w"
    "users (db ?w2) = users (db w)" "rt_tokenHash ` set (refresh_tokens (db ?w2)) = rt_tokenHash ` set (refresh_tokens (db w))"
    by (simp_all add: after_revoke_def hashes)
  have claims: "rotate_claim stored w = (Inr (), ?w1)" "rotate_claim stored ?w1 = (Inl invalid_refresh_token, ?w2)"
    using claim_free [OF read] rotation.second_claim_misses [of "rt_id stored" "refresh_tokens (db w)"]
    by (simp_all add: rotate_claim_run after_revoke_def)
  have issue: "rotate_issue sha256 sign stored ?w2 =
      (Inr \<lparr>tp_accessToken = jwt (payload_of user) (clock w), tp_refreshToken = uuid_supply w (drawn w)\<rparr>, ?w3)"
    using fresh by (simp add: rotate_issue_def st(2) issueTokens_run signed createRefreshToken_run frame
        payload_of_def new_token_def)
  have "tokens_inv ?w3"
    using step_inv [OF step_rotate_issue [of ?w2 sha256 sign stored]] step_inv [OF step_revoke] inv issue by simp
  then have found: "find_refresh_token sha256 (uuid_supply w (drawn w)) (db ?w3) = Some (?t\<lparr>rt_user := Some user\<rparr>)"
    using find_unique [of ?w3 ?t sha256 "uuid_supply w (drawn w)"] user by (simp add: new_token_def frame)
  have "rotate_read sha256 (uuid_supply w (drawn w)) ?w3 = (Inr (?t\<lparr>rt_user := Some user\<rparr>), ?w3)"
    unfolding rotate_read_run found using st(3) days by (simp add: new_token_def frame DAY_IN_MS_def)
  moreover have "\<forall>r \<in> set (refresh_tokens (db ?w2)). rt_familyId r = rt_familyId stored \<longrightarrow> rt_revoked r"
    by (auto simp: after_revoke_def set_update_where)
  moreover have "rt_familyId (?t\<lparr>rt_user := Some user\<rparr>) = rt_familyId stored" by (simp add: new_token_def)
  ultimately show ?thesis
    using claims issue by (intro exI [of _ ?w1] exI [of _ ?w2] exI [of _ ?w3] exI) (auto intro!: exI)
qed

theorem reuse_race_successor_survives_witness:
  "\<exists>stored w1 w2 w3 pair. rotate_claim stored token_example = (Inr (), w1) \<and>
     rotate_claim stored w1 = (Inl (UnauthorizedException ''Invalid refresh token''), w2) \<and>
     rotate_issue rev example_sign stored w2 = (Inr pair, w3) \<and>
     (\<forall>r \<in> set (refresh_tokens (db w2)). rt_familyId r = rt_familyId stored \<longrightarrow> rt_revoked r) \<and>
     (\<exists>next. rotate_read rev (tp_refreshToken pair) w3 = (Inr next, w3) \<and> rt_familyId next = rt_familyId stored)"
proof -
  have "\<exists>stored. rotate_read rev ''terces'' token_example = (Inr stored, token_example)"
    by (simp add: rotate_read_run find_refresh_token_def hashRefreshToken_def token_example_def empty_world_def)
  then obtain stored where read: "rotate_read rev ''terces'' token_example = (Inr stored, token_example)" by blast
  have signed: "example_sign payload now = Inr (example_jwt payload now)" for payload now
    by (simp add: example_sign_def example_jwt_def)
  have "0 < refresh_days (cfg token_example)"
    by (simp add: token_example_def empty_world_def refresh_days_def)
  then have "\<exists>w1 w2 w3 pair. rotate_claim stored token_example = (Inr (), w1) \<and>
     rotate_claim stored w1 = (Inl (UnauthorizedException ''Invalid refresh token''), w2) \<and>
     rotate_issue rev example_sign stored w2 = (Inr pair, w3) \<and>
     (\<forall>r \<in> set (refresh_tokens (db w2)). rt_familyId r = rt_familyId stored \<longrightarrow> rt_revoked r) \<and>
     (\<exists>next. rotate_read rev (tp_refreshToken pair) w3 = (Inr next, w3) \<and> rt_familyId next = rt_familyId stored)"
    by (rule reuse_race_successor_survives [OF read signed token_example_inv _ token_example_fresh])
  then show ?thesis by blast
qed

end
