(* ===== verification/Auth.thy ===== *)
theory Auth
  imports Tokens
begin

text \<open>
  Accounts and access: \<open>AuthService\<close>, \<open>UserService\<close>, the refresh cookie, the two guards and the auth
  and admin controllers of \<^verbatim>\<open>src/modules/auth\<close>, with \<open>normalizeEmail\<close> and the hooks of \<open>UserEntity\<close>.

  \<open>bcrypt_hash\<close> (password, cost, salt) and \<open>bcrypt_compare\<close> are parameters, as are \<open>sha256\<close>, \<open>sign\<close>
  and \<open>verify\<close> (the token and the time to the payload, or \<open>None\<close> when it throws). The log lines are
  left out.
\<close>

section \<open>Emails and the users table\<close>

definition normalizeEmail :: "string \<Rightarrow> string" where
  "normalizeEmail email = toLowerCase (js_trim email)"

text \<open>The \<open>BeforeInsert\<close> and \<open>BeforeUpdate\<close> hook; an empty email is falsy.\<close>

definition normalizeEmail_hook :: "UserEntity \<Rightarrow> UserEntity" where
  "normalizeEmail_hook user =
     (if u_email user \<noteq> [] then user\<lparr>u_email := normalizeEmail (u_email user)\<rparr> else user)"

definition insert_user :: "string \<Rightarrow> string \<Rightarrow> (world, UserEntity) app" where
  "insert_user email password =
     bind_app random_uuid (\<lambda>uid. bind_app read_clock (\<lambda>now.
       let user = normalizeEmail_hook \<lparr>u_id = uid, u_email = email, u_password = password, u_role = USER,
             u_disabled = False, u_createdAt = DateObj now\<rparr>
       in bind_app (query (\<lambda>d. row_where (\<lambda>u. u_email u = u_email user) (users d))) (\<lambda>other.
            if other \<noteq> None then throw_app (unique_violation ''users'')
            else then_app (execute (\<lambda>d. d\<lparr>users := users d @ [user]\<rparr>)) (return_app user))))"

section \<open>AuthService\<close>

definition BCRYPT_SALT_ROUNDS :: nat where "BCRYPT_SALT_ROUNDS = 10"

definition DUMMY_PASSWORD_HASH :: string where
  "DUMMY_PASSWORD_HASH = ''$2b$10$xxXAnAbW0LPKpm7mhKYEbu/8wJV8K51H7x/qrnGzLJB/4s1dtYRJa''"

record LoginDTO =
  ld_email :: string
  ld_password :: string

definition find_user_by_email :: "string \<Rightarrow> database \<Rightarrow> UserEntity option" where
  "find_user_by_email email d = row_where (\<lambda>u. u_email u = email) (users d)"

definition login_check :: "(string \<Rightarrow> string \<Rightarrow> bool) \<Rightarrow> LoginDTO \<Rightarrow> (world, UserEntity) app" where
  "login_check bcrypt_compare loginDTO =
     bind_app (query (find_user_by_email (normalizeEmail (ld_email loginDTO)))) (\<lambda>found.
       let passwordMatches = bcrypt_compare (ld_password loginDTO)
             (case found of Some user \<Rightarrow> u_password user | None \<Rightarrow> DUMMY_PASSWORD_HASH)
       in case found of
            None \<Rightarrow> throw_app (UnauthorizedException ''Invalid credentials'')
          | Some user \<Rightarrow>
              if \<not> passwordMatches then throw_app (UnauthorizedException ''Invalid credentials'')
              else if u_disabled user then throw_app (UnauthorizedException ''Invalid credentials'')
              else return_app user)"

definition login ::
    "(string \<Rightarrow> string) \<Rightarrow> (JwtPayload \<Rightarrow> int \<Rightarrow> exn + string) \<Rightarrow> (string \<Rightarrow> string \<Rightarrow> bool) \<Rightarrow>
     LoginDTO \<Rightarrow> (world, TokenPair) app" where
  "login sha256 sign bcrypt_compare loginDTO =
     bind_app (login_check bcrypt_compare loginDTO) (\<lambda>user. issueTokens sha256 sign user None)"

fun is_unique_error :: "exn \<Rightarrow> bool" where
  "is_unique_error (QueryFailedError code tab) \<longleftrightarrow> code = ''23505'' \<or> code = ''SQLITE_CONSTRAINT_UNIQUE''"
| "is_unique_error error \<longleftrightarrow> False"

definition register :: "(string \<Rightarrow> nat \<Rightarrow> string \<Rightarrow> string) \<Rightarrow> LoginDTO \<Rightarrow> (world, UserEntity) app" where
  "register bcrypt_hash registerDTO =
     bind_app random_uuid (\<lambda>salt.
       let hashedPassword = bcrypt_hash (ld_password registerDTO) BCRYPT_SALT_ROUNDS salt
       in try_catch (insert_user (ld_email registerDTO) hashedPassword)
            (\<lambda>error. if is_unique_error error
                then throw_app (ConflictException ''Email already registered'')
                else throw_app error))"

definition refresh_pair ::
    "(string \<Rightarrow> string) \<Rightarrow> (JwtPayload \<Rightarrow> int \<Rightarrow> exn + string) \<Rightarrow> string \<Rightarrow> (world, TokenPair) app" where
  "refresh_pair sha256 sign refreshToken = rotate sha256 sign refreshToken"

section \<open>UserService\<close>

fun created_time :: "UserEntity \<Rightarrow> int" where
  "created_time u = getTime (u_createdAt u)"

definition listUsers :: "database \<Rightarrow> UserEntity list" where
  "listUsers d = sort_key created_time (users d)"

definition setDisabled :: "uuid \<Rightarrow> bool \<Rightarrow> (world, UserEntity) app" where
  "setDisabled uid disabled =
     bind_app (query (\<lambda>d. row_where (\<lambda>u. u_id u = uid) (users d))) (\<lambda>found.
       case found of
         None \<Rightarrow> throw_app (NotFoundException ''User not found'')
       | Some user \<Rightarrow>
           let saved = normalizeEmail_hook (user\<lparr>u_disabled := disabled\<rparr>)
           in then_app (execute (\<lambda>d. d\<lparr>users := update_where (\<lambda>u. u_id u = uid) (\<lambda>u. saved) (users d)\<rparr>))
                (return_app saved))"

definition disableUser :: "uuid \<Rightarrow> (world, UserEntity) app" where
  "disableUser uid = setDisabled uid True"

definition enableUser :: "uuid \<Rightarrow> (world, UserEntity) app" where
  "enableUser uid = setDisabled uid False"

section \<open>The refresh cookie\<close>

definition REFRESH_TOKEN_COOKIE :: string where "REFRESH_TOKEN_COOKIE = ''refresh_token''"
definition REFRESH_TOKEN_COOKIE_PATH :: string where "REFRESH_TOKEN_COOKIE_PATH = ''/auth/refresh''"

record CookieOptions =
  co_httpOnly :: bool
  co_secure :: bool
  co_sameSite :: string
  co_path :: string
  co_maxAge :: int

text \<open>\<open>cookie_samesite\<close> and \<open>node_env\<close> are the environment variables, when set.\<close>

definition buildRefreshTokenCookieOptions :: "string option \<Rightarrow> string option \<Rightarrow> config \<Rightarrow> CookieOptions" where
  "buildRefreshTokenCookieOptions cookie_samesite node_env configService =
     (let days = refresh_days configService;
          sameSite = (case cookie_samesite of None \<Rightarrow> ''strict'' | Some s \<Rightarrow> s);
          isProduction = (node_env = Some ''production'')
      in \<lparr>co_httpOnly = True, co_secure = (isProduction \<or> sameSite = ''none''), co_sameSite = sameSite,
          co_path = REFRESH_TOKEN_COOKIE_PATH, co_maxAge = days * DAY_IN_MS\<rparr>)"

section \<open>Guards\<close>

text \<open>\<open>request.headers.authorization?.split(' ') ?? []\<close>; \<open>None\<close> is \<open>undefined\<close>.\<close>

definition extractBearerToken :: "string option \<Rightarrow> string option" where
  "extractBearerToken authorization =
     (case authorization of
        None \<Rightarrow> None
      | Some header \<Rightarrow>
          (case js_split CHR '' '' header of
             scheme # token # _ \<Rightarrow> if scheme = ''Bearer'' then Some token else None
           | _ \<Rightarrow> None))"

definition JwtAuthGuard_canActivate ::
    "(string \<Rightarrow> int \<Rightarrow> JwtPayload option) \<Rightarrow> string option \<Rightarrow> (world, JwtPayload) app" where
  "JwtAuthGuard_canActivate verify authorization =
     (case extractBearerToken authorization of
        None \<Rightarrow> throw_app (UnauthorizedException ''Unauthorized'')
      | Some token \<Rightarrow>
          if token = [] then throw_app (UnauthorizedException ''Unauthorized'')
          else bind_app read_clock (\<lambda>now.
            case verify token now of
              None \<Rightarrow> throw_app (UnauthorizedException ''Unauthorized'')
            | Some payload \<Rightarrow> return_app payload))"

definition RolesGuard_canActivate :: "UserRole list option \<Rightarrow> JwtPayload option \<Rightarrow> (world, unit) app" where
  "RolesGuard_canActivate requiredRoles user =
     (if (case requiredRoles of None \<Rightarrow> True | Some rs \<Rightarrow> length rs = 0) then return_app ()
      else if (case user of None \<Rightarrow> False | Some u \<Rightarrow> j_role u = ADMIN \<or> j_role u \<in> set (the requiredRoles))
      then return_app ()
      else throw_app (ForbiddenException ''Insufficient permissions''))"

text \<open>\<open>UseGuards(JwtAuthGuard, RolesGuard)\<close> with \<open>Roles(...)\<close>: the guards in order, then the handler.\<close>

definition guarded ::
    "(string \<Rightarrow> int \<Rightarrow> JwtPayload option) \<Rightarrow> UserRole list \<Rightarrow> string option \<Rightarrow>
     (JwtPayload \<Rightarrow> (world, 'a) app) \<Rightarrow> (world, 'a) app" where
  "guarded verify roles authorization handler =
     bind_app (JwtAuthGuard_canActivate verify authorization) (\<lambda>user.
     then_app (RolesGuard_canActivate (Some roles) (Some user)) (handler user))"

section \<open>Controllers\<close>

record UserResponseDTO =
  ud_id :: uuid
  ud_email :: string
  ud_role :: UserRole
  ud_disabled :: bool
  ud_createdAt :: js_time

definition toUserResponseDTO :: "UserEntity \<Rightarrow> UserResponseDTO" where
  "toUserResponseDTO user = \<lparr>ud_id = u_id user, ud_email = u_email user, ud_role = u_role user,
     ud_disabled = u_disabled user, ud_createdAt = u_createdAt user\<rparr>"

definition admin_list ::
    "(string \<Rightarrow> int \<Rightarrow> JwtPayload option) \<Rightarrow> string option \<Rightarrow> (world, UserResponseDTO list) app" where
  "admin_list verify authorization = guarded verify [ADMIN] authorization (\<lambda>_.
     bind_app (query listUsers) (\<lambda>us. return_app (map toUserResponseDTO us)))"

definition admin_disable ::
    "(string \<Rightarrow> int \<Rightarrow> JwtPayload option) \<Rightarrow> string option \<Rightarrow> uuid \<Rightarrow> (world, UserResponseDTO) app" where
  "admin_disable verify authorization uid = guarded verify [ADMIN] authorization (\<lambda>_.
     bind_app (disableUser uid) (\<lambda>user. return_app (toUserResponseDTO user)))"

definition admin_enable ::
    "(string \<Rightarrow> int \<Rightarrow> JwtPayload option) \<Rightarrow> string option \<Rightarrow> uuid \<Rightarrow> (world, UserResponseDTO) app" where
  "admin_enable verify authorization uid = guarded verify [ADMIN] authorization (\<lambda>_.
     bind_app (enableUser uid) (\<lambda>user. return_app (toUserResponseDTO user)))"

definition auth_register ::
    "(string \<Rightarrow> nat \<Rightarrow> string \<Rightarrow> string) \<Rightarrow> LoginDTO \<Rightarrow> (world, UserResponseDTO) app" where
  "auth_register bcrypt_hash registerDTO =
     bind_app (register bcrypt_hash registerDTO) (\<lambda>user. return_app (toUserResponseDTO user))"

text \<open>The body and the cookie the response sets.\<close>

record auth_response =
  ar_accessToken :: string
  ar_cookie :: "string \<times> string \<times> CookieOptions"

definition setRefreshCookie :: "string option \<Rightarrow> string option \<Rightarrow> config \<Rightarrow> string \<Rightarrow> string \<times> string \<times> CookieOptions" where
  "setRefreshCookie samesite env c refreshToken =
     (REFRESH_TOKEN_COOKIE, refreshToken, buildRefreshTokenCookieOptions samesite env c)"

definition auth_reply :: "string option \<Rightarrow> string option \<Rightarrow> TokenPair \<Rightarrow> (world, auth_response) app" where
  "auth_reply samesite env pair = bind_app (gets_app cfg) (\<lambda>c. return_app
     \<lparr>ar_accessToken = tp_accessToken pair, ar_cookie = setRefreshCookie samesite env c (tp_refreshToken pair)\<rparr>)"

definition auth_login ::
    "string option \<Rightarrow> string option \<Rightarrow> (string \<Rightarrow> string) \<Rightarrow> (JwtPayload \<Rightarrow> int \<Rightarrow> exn + string) \<Rightarrow>
     (string \<Rightarrow> string \<Rightarrow> bool) \<Rightarrow> LoginDTO \<Rightarrow> (world, auth_response) app" where
  "auth_login samesite env sha256 sign bcrypt_compare loginDTO =
     bind_app (login sha256 sign bcrypt_compare loginDTO) (auth_reply samesite env)"

text \<open>\<open>cookies\<close>: the cookies the middleware parsed, \<open>None\<close> when there is no cookie object.\<close>

definition auth_refresh ::
    "string option \<Rightarrow> string option \<Rightarrow> (string \<Rightarrow> string) \<Rightarrow> (JwtPayload \<Rightarrow> int \<Rightarrow> exn + string) \<Rightarrow>
     (string \<Rightarrow> string option) option \<Rightarrow> (world, auth_response) app" where
  "auth_refresh samesite env sha256 sign cookies =
     (case (case cookies of None \<Rightarrow> None | Some m \<Rightarrow> m REFRESH_TOKEN_COOKIE) of
        None \<Rightarrow> throw_app invalid_refresh_token
      | Some presented \<Rightarrow>
          if presented = [] then throw_app invalid_refresh_token
          else bind_app (refresh_pair sha256 sign presented) (auth_reply samesite env))"

definition auth_me ::
    "(string \<Rightarrow> int \<Rightarrow> JwtPayload option) \<Rightarrow> string option \<Rightarrow> (world, uuid \<times> UserRole) app" where
  "auth_me verify authorization = guarded verify [USER] authorization (\<lambda>user.
     return_app (j_sub user, j_role user))"

section \<open>Runs\<close>

lemma normalizeEmail_idem [simp]: "normalizeEmail (normalizeEmail e) = normalizeEmail e"
  by (simp add: normalizeEmail_def trim_lower)

lemma normalizeEmail_Nil [simp]: "normalizeEmail [] = []"
  by (simp add: normalizeEmail_def toLowerCase_def js_trim_def)

lemma hook_simps [simp]:
  "u_email (normalizeEmail_hook u) = normalizeEmail (u_email u)" "u_id (normalizeEmail_hook u) = u_id u"
  "u_password (normalizeEmail_hook u) = u_password u" "u_disabled (normalizeEmail_hook u) = u_disabled u"
  "u_role (normalizeEmail_hook u) = u_role u" "u_createdAt (normalizeEmail_hook u) = u_createdAt u"
  by (auto simp: normalizeEmail_hook_def)

lemma hook_idle: "normalizeEmail (u_email u) = u_email u \<Longrightarrow> normalizeEmail_hook u = u"
  by (cases u) (simp add: normalizeEmail_hook_def)

definition new_user :: "string \<Rightarrow> string \<Rightarrow> uuid \<Rightarrow> int \<Rightarrow> UserEntity" where
  "new_user email password uid now = \<lparr>u_id = uid, u_email = normalizeEmail email, u_password = password,
     u_role = USER, u_disabled = False, u_createdAt = DateObj now\<rparr>"

lemma register_run: "register bcrypt_hash dto w =
    (let user = new_user (ld_email dto) (bcrypt_hash (ld_password dto) 10 (uuid_supply w (drawn w)))
           (uuid_supply w (Suc (drawn w))) (clock w)
     in if normalizeEmail (ld_email dto) \<in> u_email ` set (users (db w))
        then (Inl (ConflictException ''Email already registered''), w\<lparr>drawn := drawn w + 2\<rparr>)
        else (Inr user, w\<lparr>drawn := drawn w + 2, db := (db w)\<lparr>users := users (db w) @ [user]\<rparr>\<rparr>))"
proof -
  have e: "h \<in> u_email ` set t \<longleftrightarrow> row_where (\<lambda>r. u_email r = h) t \<noteq> None" for h and t :: "UserEntity list"
    by (induction t) auto
  have h: "normalizeEmail_hook \<lparr>u_id = i, u_email = m, u_password = p, u_role = USER, u_disabled = False,
      u_createdAt = DateObj t\<rparr> = new_user m p i t" for i m p t
    by (simp add: normalizeEmail_hook_def new_user_def)
  have m: "u_email (new_user m p i t) = normalizeEmail m" for m p i t by (simp add: new_user_def)
  show ?thesis
    by (simp add: register_def insert_user_def Let_def try_catch_def e h m BCRYPT_SALT_ROUNDS_def bind_app_def then_app_def)
qed

lemma setDisabled_run: "setDisabled uid b w =
    (case row_where (\<lambda>u. u_id u = uid) (users (db w)) of
       None \<Rightarrow> (Inl (NotFoundException ''User not found''), w)
     | Some user \<Rightarrow> (Inr (normalizeEmail_hook (user\<lparr>u_disabled := b\<rparr>)),
         w\<lparr>db := (db w)\<lparr>users := update_where (\<lambda>u. u_id u = uid) (\<lambda>u. normalizeEmail_hook (user\<lparr>u_disabled := b\<rparr>))
           (users (db w))\<rparr>\<rparr>))"
  by (simp add: setDisabled_def Let_def split: option.splits)

section \<open>The accounts\<close>

text \<open>Emails are stored normalised, and ids and emails are unique.\<close>

definition users_inv :: "world \<Rightarrow> bool" where
  "users_inv w \<longleftrightarrow> distinct (map u_id (users (db w))) \<and> distinct (map u_email (users (db w))) \<and>
     (\<forall>u \<in> set (users (db w)). normalizeEmail (u_email u) = u_email u) \<and> fresh_supply w \<and>
     (\<forall>u \<in> set (users (db w)). \<forall>n \<ge> drawn w. u_id u \<noteq> uuid_supply w n)"

definition set_flag :: "uuid \<Rightarrow> bool \<Rightarrow> UserEntity \<Rightarrow> UserEntity" where
  "set_flag uid b u = (if u_id u = uid then u\<lparr>u_disabled := b\<rparr> else u)"

lemma set_flag_simps [simp]:
  "u_id (set_flag uid b u) = u_id u" "u_email (set_flag uid b u) = u_email u"
  "u_password (set_flag uid b u) = u_password u" "u_role (set_flag uid b u) = u_role u"
  "u_disabled (set_flag uid b u) = (if u_id u = uid then b else u_disabled u)"
  by (simp_all add: set_flag_def)

lemma flag_undo: "(u_id u = uid \<Longrightarrow> \<not> u_disabled u) \<Longrightarrow> set_flag uid False (set_flag uid True u) = u"
  by (cases u) (auto simp: set_flag_def)

lemma setDisabled_effect:
  assumes "users_inv w" and "user \<in> set (users (db w))" and "u_id user = uid"
  shows "setDisabled uid b w = (Inr (set_flag uid b user), w\<lparr>db := (db w)\<lparr>users := map (set_flag uid b) (users (db w))\<rparr>\<rparr>)"
proof -
  have found: "row_where (\<lambda>u. u_id u = uid) (users (db w)) = Some user"
    using assms row_where_key [of u_id "users (db w)" user] by (simp add: users_inv_def)
  have hook: "normalizeEmail_hook (user\<lparr>u_disabled := b\<rparr>) = set_flag uid b user"
    using assms by (simp add: hook_idle users_inv_def set_flag_def)
  have "u = user" if "u \<in> set (users (db w))" "u_id u = uid" for u
    using assms that inj_onD [of u_id "set (users (db w))" u user] by (auto simp: users_inv_def distinct_map)
  then have "update_where (\<lambda>u. u_id u = uid) (\<lambda>u. set_flag uid b user) (users (db w)) = map (set_flag uid b) (users (db w))"
    by (auto simp: update_where_def set_flag_def)
  then show ?thesis by (simp add: setDisabled_run found hook)
qed

lemma users_inv_flag:
  assumes "users_inv w"
  shows "users_inv (w\<lparr>db := (db w)\<lparr>users := map (set_flag uid b) (users (db w))\<rparr>\<rparr>)"
  using assms by (auto simp: users_inv_def fresh_supply_def comp_def)

lemma users_inv_setDisabled:
  assumes "users_inv w" shows "users_inv (snd (setDisabled uid b w))"
proof (cases "row_where (\<lambda>u. u_id u = uid) (users (db w))")
  case None
  with assms show ?thesis by (simp add: setDisabled_run)
next
  case (Some user)
  with row_where_Some [OF Some] show ?thesis
    using setDisabled_effect [OF assms, of user uid b] by (simp add: users_inv_flag [OF assms])
qed

lemma users_inv_register:
  assumes "users_inv w" shows "users_inv (snd (register bcrypt_hash dto w))"
proof -
  have 1: "uuid_supply w (Suc (drawn w)) \<noteq> u_id u" if "u \<in> set (users (db w))" for u
    using assms that unfolding users_inv_def by (metis le_SucI order_refl)
  have 2: "uuid_supply w (Suc (drawn w)) \<noteq> uuid_supply w n" if "n \<ge> Suc (Suc (drawn w))" for n
    using assms that by (auto simp: users_inv_def fresh_supply_def dest: injD [of _ "Suc (drawn w)" n])
  show ?thesis
    using assms 1 2 by (auto simp: register_run Let_def users_inv_def fresh_supply_def new_user_def)
qed

datatype account_action = DoRegister LoginDTO | DoDisable uuid | DoEnable uuid

fun run_account_action :: "(string \<Rightarrow> nat \<Rightarrow> string \<Rightarrow> string) \<Rightarrow> account_action \<Rightarrow> world \<Rightarrow> world" where
  "run_account_action bcrypt_hash (DoRegister dto) w = snd (register bcrypt_hash dto w)"
| "run_account_action bcrypt_hash (DoDisable uid) w = snd (disableUser uid w)"
| "run_account_action bcrypt_hash (DoEnable uid) w = snd (enableUser uid w)"

lemma users_inv_history: "users_inv w \<Longrightarrow> users_inv (fold (run_account_action bcrypt_hash) acts w)"
proof (induction acts arbitrary: w)
  case (Cons a acts)
  then show ?case
    by (cases a) (simp_all add: users_inv_register users_inv_setDisabled disableUser_def enableUser_def)
qed simp

section \<open>Properties\<close>

text \<open>What is documented of bcrypt: a password matches its own hash, whatever the cost and salt.\<close>

definition bcrypt_ok :: "(string \<Rightarrow> nat \<Rightarrow> string \<Rightarrow> string) \<Rightarrow> (string \<Rightarrow> string \<Rightarrow> bool) \<Rightarrow> bool" where
  "bcrypt_ok bcrypt_hash bcrypt_compare \<longleftrightarrow> (\<forall>p rounds salt. bcrypt_compare p (bcrypt_hash p rounds salt))"

definition example_hash :: "string \<Rightarrow> nat \<Rightarrow> string \<Rightarrow> string" where
  "example_hash p rounds salt = p @ ''$'' @ salt"

definition example_compare :: "string \<Rightarrow> string \<Rightarrow> bool" where
  "example_compare p h \<longleftrightarrow> take (Suc (length p)) h = p @ ''$''"

lemma example_bcrypt_ok [simp]: "bcrypt_ok example_hash example_compare"
  by (simp add: bcrypt_ok_def example_hash_def example_compare_def)

text \<open>
  C28: Emails are one identity whatever their case and surrounding blanks: after any sequence of
  registrations, disablings and enablings the stored emails are normalised and pairwise different; a
  successful registration is a new enabled \<open>USER\<close> that can log in with any spelling of the email and
  its password; and any spelling of a registered email is a 409 that changes no account.
\<close>

theorem accounts_by_email:
  assumes "users_inv w" and "bcrypt_ok bcrypt_hash bcrypt_compare"
    and "normalizeEmail other = normalizeEmail (ld_email dto)"
  shows "let v = fold (run_account_action bcrypt_hash) acts w in
     distinct (map u_email (users (db v))) \<and> normalizeEmail ` u_email ` set (users (db v)) = u_email ` set (users (db v)) \<and>
     (case register bcrypt_hash dto v of
        (Inr user, w1) \<Rightarrow> user \<in> set (users (db w1)) \<and> u_role user = USER \<and> \<not> u_disabled user \<and>
          fst (login_check bcrypt_compare \<lparr>ld_email = other, ld_password = ld_password dto\<rparr> w1) = Inr user \<and>
          (\<forall>p. fst (register bcrypt_hash \<lparr>ld_email = other, ld_password = p\<rparr> w1) =
             Inl (ConflictException ''Email already registered'') \<and>
             db (snd (register bcrypt_hash \<lparr>ld_email = other, ld_password = p\<rparr> w1)) = db w1)
      | (Inl e, w1) \<Rightarrow> e = ConflictException ''Email already registered'' \<and> db w1 = db v \<and>
          (\<exists>user \<in> set (users (db v)). u_email user = normalizeEmail (ld_email dto)))"
proof -
  let ?v = "fold (run_account_action bcrypt_hash) acts w"
  have inv: "users_inv ?v" using assms(1) by (rule users_inv_history)
  then have stored: "distinct (map u_email (users (db ?v)))"
    "normalizeEmail ` u_email ` set (users (db ?v)) = u_email ` set (users (db ?v))"
    by (simp_all add: users_inv_def image_image)
  have "case register bcrypt_hash dto v of
        (Inr user, w1) \<Rightarrow> user \<in> set (users (db w1)) \<and> u_role user = USER \<and> \<not> u_disabled user \<and>
          fst (login_check bcrypt_compare \<lparr>ld_email = other, ld_password = ld_password dto\<rparr> w1) = Inr user \<and>
          (\<forall>p. fst (register bcrypt_hash \<lparr>ld_email = other, ld_password = p\<rparr> w1) =
             Inl (ConflictException ''Email already registered'') \<and>
             db (snd (register bcrypt_hash \<lparr>ld_email = other, ld_password = p\<rparr> w1)) = db w1)
      | (Inl e, w1) \<Rightarrow> e = ConflictException ''Email already registered'' \<and> db w1 = db v \<and>
          (\<exists>user \<in> set (users (db v)). u_email user = normalizeEmail (ld_email dto))" for v
  proof (cases "normalizeEmail (ld_email dto) \<in> u_email ` set (users (db v))")
    case True
    then show ?thesis by (auto simp: register_run Let_def)
  next
    case False
    then have "row_where (\<lambda>u. u_email u = normalizeEmail (ld_email dto)) (users (db v)) = None"
      by (force simp: row_where_None)
    with False assms(2,3) show ?thesis
      by (auto simp: register_run Let_def login_check_def find_user_by_email_def row_where_append new_user_def bcrypt_ok_def)
  qed
  with stored show ?thesis by (simp add: Let_def)
qed

theorem accounts_by_email_witness:
  "let v = fold (run_account_action example_hash) [DoRegister \<lparr>ld_email = ''x@y.z'', ld_password = ''p''\<rparr>] empty_world in
     distinct (map u_email (users (db v))) \<and> normalizeEmail ` u_email ` set (users (db v)) = u_email ` set (users (db v)) \<and>
     (case register example_hash \<lparr>ld_email = ''A@b.c'', ld_password = ''q''\<rparr> v of
        (Inr user, w1) \<Rightarrow> user \<in> set (users (db w1)) \<and> u_role user = USER \<and> \<not> u_disabled user \<and>
          fst (login_check example_compare \<lparr>ld_email = '' a@B.c'', ld_password = ld_password \<lparr>ld_email = ''A@b.c'', ld_password = ''q''\<rparr>\<rparr> w1) = Inr user \<and>
          (\<forall>p. fst (register example_hash \<lparr>ld_email = '' a@B.c'', ld_password = p\<rparr> w1) =
             Inl (ConflictException ''Email already registered'') \<and>
             db (snd (register example_hash \<lparr>ld_email = '' a@B.c'', ld_password = p\<rparr> w1)) = db w1)
      | (Inl e, w1) \<Rightarrow> e = ConflictException ''Email already registered'' \<and> db w1 = db v \<and>
          (\<exists>user \<in> set (users (db v)). u_email user = normalizeEmail (ld_email \<lparr>ld_email = ''A@b.c'', ld_password = ''q''\<rparr>)))"
proof (rule accounts_by_email)
  show "users_inv empty_world"
    using fresh_empty_world by (simp add: users_inv_def empty_world_def empty_db_def)
  show "normalizeEmail '' a@B.c'' = normalizeEmail (ld_email \<lparr>ld_email = ''A@b.c'', ld_password = ''q''\<rparr>)"
    by code_simp
qed simp

text \<open>
  Disabling an account takes effect at once on everything the server checks: the user's next login
  fails with the generic error and every refresh token they hold is refused, without reuse detection
  (nothing is revoked); enabling it again makes both work as before.
\<close>

theorem disabled_user_locked_out:
  assumes "users_inv w" and "user \<in> set (users (db w))"
    and "normalizeEmail (ld_email dto) = u_email user"
    and "find_refresh_token sha256 p (db w) = Some stored" and "rt_userId stored = u_id user"
  shows "\<exists>w1. disableUser (u_id user) w = (Inr (user\<lparr>u_disabled := True\<rparr>), w1) \<and>
     login sha256 sign bcrypt_compare dto w1 = (Inl (UnauthorizedException ''Invalid credentials''), w1) \<and>
     rotate sha256 sign p w1 = (Inl (UnauthorizedException ''Invalid refresh token''), w1) \<and>
     (\<not> u_disabled user \<longrightarrow> snd (enableUser (u_id user) w1) = w)"
proof -
  let ?w1 = "w\<lparr>db := (db w)\<lparr>users := map (set_flag (u_id user) True) (users (db w))\<rparr>\<rparr>"
  have run: "disableUser (u_id user) w = (Inr (user\<lparr>u_disabled := True\<rparr>), ?w1)"
    using setDisabled_effect [OF assms(1,2) refl, of True] by (simp add: disableUser_def set_flag_def)
  have inv: "users_inv ?w1" using assms(1) by (rule users_inv_flag)
  have key: "row_where (\<lambda>u. k u = v) (map (set_flag i b) t) = map_option (set_flag i b) (row_where (\<lambda>u. k u = v) t)"
    if "\<And>u. k (set_flag i b u) = k u" for k :: "UserEntity \<Rightarrow> string" and v i b t
    using that by (induction t) auto
  have em: "row_where (\<lambda>u. u_email u = u_email user) (users (db w)) = Some user"
    and uid: "row_where (\<lambda>u. u_id u = u_id user) (users (db w)) = Some user"
    using assms(1,2) row_where_key [of u_email "users (db w)" user] row_where_key [of u_id "users (db w)" user]
    by (simp_all add: users_inv_def)
  have login: "login sha256 sign bcrypt_compare dto ?w1 = (Inl (UnauthorizedException ''Invalid credentials''), ?w1)"
    by (simp add: login_def login_check_def find_user_by_email_def assms(3) key em Let_def bind_app_def)
  obtain r where "row_where (\<lambda>r. rt_tokenHash r = sha256 p) (refresh_tokens (db w)) = Some r" "rt_userId r = u_id user"
    using assms(4,5) by (auto simp: find_refresh_token_def hashRefreshToken_def)
  then have "\<exists>s. find_refresh_token sha256 p (db ?w1) = Some s \<and> rt_user s = Some (set_flag (u_id user) True user)"
    by (simp add: find_refresh_token_def hashRefreshToken_def key uid)
  then have refused: "rotate sha256 sign p ?w1 = (Inl (UnauthorizedException ''Invalid refresh token''), ?w1)"
    by (auto simp: rotate_def bind_app_def rotate_read_run)
  have restored: "snd (enableUser (u_id user) ?w1) = w" if "\<not> u_disabled user"
  proof -
    have "u = user" if "u \<in> set (users (db w))" "u_id u = u_id user" for u
      using assms(1,2) that inj_onD [of u_id "set (users (db w))" u user] by (auto simp: users_inv_def distinct_map)
    then have "set_flag (u_id user) False (set_flag (u_id user) True u) = u" if "u \<in> set (users (db w))" for u
      using \<open>\<not> u_disabled user\<close> that by (intro flag_undo) blast
    then have "map (set_flag (u_id user) False) (map (set_flag (u_id user) True) (users (db w))) = users (db w)"
      by (simp add: map_idI)
    then show ?thesis
      using setDisabled_effect [OF inv, of "set_flag (u_id user) True user" "u_id user" False] assms(2)
      by (simp add: enableUser_def)
  qed
  show ?thesis using run login refused restored by blast
qed

lemma token_example_users [simp]: "users_inv token_example"
proof -
  have "normalizeEmail ''a@b.c'' = ''a@b.c''" by code_simp
  moreover have "''u'' \<noteq> replicate n CHR ''i''" for n by (cases n) auto
  ultimately show ?thesis
    using fresh_empty_world by (simp add: users_inv_def token_example_def empty_world_def fresh_supply_def)
qed

theorem disabled_user_locked_out_witness:
  "let user = hd (users (db token_example)) in
   \<exists>w1. disableUser (u_id user) token_example = (Inr (user\<lparr>u_disabled := True\<rparr>), w1) \<and>
     login rev example_sign example_compare \<lparr>ld_email = ''a@b.c '', ld_password = ''p''\<rparr> w1 =
       (Inl (UnauthorizedException ''Invalid credentials''), w1) \<and>
     rotate rev example_sign ''terces'' w1 = (Inl (UnauthorizedException ''Invalid refresh token''), w1) \<and>
     (\<not> u_disabled user \<longrightarrow> snd (enableUser (u_id user) w1) = token_example)"
proof -
  have "normalizeEmail ''a@b.c '' = ''a@b.c''" by code_simp
  then have dto: "normalizeEmail (ld_email \<lparr>ld_email = ''a@b.c '', ld_password = ''p''\<rparr>) = u_email (hd (users (db token_example)))"
    by (simp add: token_example_def)
  have "\<exists>stored. find_refresh_token rev ''terces'' (db token_example) = Some stored \<and>
      rt_userId stored = u_id (hd (users (db token_example)))"
    by (simp add: find_refresh_token_def hashRefreshToken_def token_example_def)
  then obtain stored where s: "find_refresh_token rev ''terces'' (db token_example) = Some stored"
      "rt_userId stored = u_id (hd (users (db token_example)))" by blast
  have "hd (users (db token_example)) \<in> set (users (db token_example))"
    by (simp add: token_example_def)
  from disabled_user_locked_out [OF token_example_users this dto s] show ?thesis
    unfolding Let_def .
qed

subsection \<open>Access control\<close>

text \<open>
  What the guards promise: the caller presented \<open>Bearer\<close>, a blank and a non-empty token the verifier
  accepts at this moment (anything after a second blank is ignored), and its role is among the route's,
  or it is an \<open>ADMIN\<close>.
\<close>

definition bearer :: "string option \<Rightarrow> string \<Rightarrow> bool" where
  "bearer authorization token \<longleftrightarrow> token \<noteq> [] \<and> CHR '' '' \<notin> set token \<and>
     (authorization = Some (''Bearer '' @ token) \<or> (\<exists>rest. authorization = Some (''Bearer '' @ token @ '' '' @ rest)))"

definition granted :: "(string \<Rightarrow> int \<Rightarrow> JwtPayload option) \<Rightarrow> UserRole list \<Rightarrow> string option \<Rightarrow> int \<Rightarrow> JwtPayload \<Rightarrow> bool" where
  "granted verify roles authorization now payload \<longleftrightarrow>
     (\<exists>token. bearer authorization token \<and> verify token now = Some payload) \<and>
     (roles = [] \<or> j_role payload = ADMIN \<or> j_role payload \<in> set roles)"

lemma js_split_one: "js_split c s = [q] \<longleftrightarrow> s = q \<and> c \<notin> set q"
proof
  assume h: "js_split c s = [q]"
  have "c \<notin> set s" using h
    by (induction s arbitrary: q) (auto split: if_splits list.splits)
  with h js_split_none [of c s] show "s = q \<and> c \<notin> set q" by simp
qed (simp add: js_split_none)

lemma split_token: "js_split c s = q # ps \<longleftrightarrow> c \<notin> set q \<and> (s = q \<and> ps = [] \<or> (\<exists>s'. s = q @ c # s' \<and> js_split c s' = ps))"
  by (cases ps) (auto simp: js_split_one js_split_Cons_iff)

lemma split_bearer: "(\<exists>ps. js_split CHR '' '' header = ''Bearer'' # token # ps) \<longleftrightarrow> CHR '' '' \<notin> set token \<and>
    (header = ''Bearer '' @ token \<or> (\<exists>rest. header = ''Bearer '' @ token @ '' '' @ rest))"
proof -
  have "(\<exists>ps. js_split CHR '' '' header = ''Bearer'' # token # ps) \<longleftrightarrow>
      (\<exists>ps s. header = ''Bearer '' @ s \<and> js_split CHR '' '' s = token # ps)"
    by (simp add: js_split_Cons_iff)
  also have "\<dots> \<longleftrightarrow> (\<exists>s. header = ''Bearer '' @ s \<and> CHR '' '' \<notin> set token \<and>
      (s = token \<or> (\<exists>rest. s = token @ CHR '' '' # rest)))"
    unfolding split_token by blast
  finally show ?thesis by auto
qed

lemma extractBearerToken_Some:
  "extractBearerToken authorization = Some token \<and> token \<noteq> [] \<longleftrightarrow> bearer authorization token"
proof (cases authorization)
  case (Some header)
  have "extractBearerToken authorization = Some token \<longleftrightarrow> (\<exists>ps. js_split CHR '' '' header = ''Bearer'' # token # ps)"
    by (simp add: extractBearerToken_def Some split: list.splits)
  then show ?thesis unfolding split_bearer by (auto simp: bearer_def Some)
qed (simp add: extractBearerToken_def bearer_def)

lemma bearer_unique: "bearer authorization t \<Longrightarrow> bearer authorization t' \<Longrightarrow> t = t'"
  by (simp flip: extractBearerToken_Some)

lemma guarded_allowed:
  assumes "granted verify rs authorization (clock w) payload"
  shows "guarded verify rs authorization h w = h payload w"
proof -
  from assms obtain token where t: "bearer authorization token" "verify token (clock w) = Some payload"
    and r: "rs = [] \<or> j_role payload = ADMIN \<or> j_role payload \<in> set rs"
    by (auto simp: granted_def)
  from t(1) have "extractBearerToken authorization = Some token" "token \<noteq> []"
    by (simp_all flip: extractBearerToken_Some)
  with t(2) r show ?thesis
    by (auto simp: guarded_def JwtAuthGuard_canActivate_def RolesGuard_canActivate_def bind_app_def then_app_def)
qed

lemma guarded_refused:
  assumes "\<nexists>payload. granted verify rs authorization (clock w) payload"
  shows "guarded verify rs authorization h w \<in>
    {(Inl (UnauthorizedException ''Unauthorized''), w), (Inl (ForbiddenException ''Insufficient permissions''), w)}"
proof (cases "\<exists>token payload. bearer authorization token \<and> verify token (clock w) = Some payload")
  case True
  then obtain token payload where t: "bearer authorization token" "verify token (clock w) = Some payload" by blast
  with assms have "rs \<noteq> []" "j_role payload \<noteq> ADMIN" "j_role payload \<notin> set rs"
    unfolding granted_def by blast+
  moreover from t(1) have "extractBearerToken authorization = Some token" "token \<noteq> []"
    by (simp_all flip: extractBearerToken_Some)
  ultimately show ?thesis
    using t(2) by (simp add: guarded_def JwtAuthGuard_canActivate_def RolesGuard_canActivate_def bind_app_def then_app_def)
next
  case False
  then show ?thesis
    by (auto simp: guarded_def JwtAuthGuard_canActivate_def bind_app_def extractBearerToken_Some [symmetric] split: option.splits)
qed

lemma guarded_idle: "\<nexists>payload. granted verify rs authorization (clock w) payload \<Longrightarrow> snd (guarded verify rs authorization h w) = w"
  using guarded_refused [of verify rs authorization w h] by auto

text \<open>
  A guarded route runs its handler, on the payload of the caller's token, exactly when the caller is
  granted the route; otherwise it answers 401 or 403 and nothing has changed. So the admin routes do
  nothing for a caller who is not an \<open>ADMIN\<close>.
\<close>

theorem guards_enforce_roles:
  "(\<forall>payload. granted verify roles authorization (clock w) payload \<longrightarrow>
      guarded verify roles authorization handler w = handler payload w) \<and>
   ((\<nexists>payload. granted verify roles authorization (clock w) payload) \<longrightarrow>
      guarded verify roles authorization handler w \<in>
        {(Inl (UnauthorizedException ''Unauthorized''), w), (Inl (ForbiddenException ''Insufficient permissions''), w)}) \<and>
   ((\<nexists>payload. granted verify [ADMIN] authorization (clock w) payload) \<longrightarrow>
      snd (admin_list verify authorization w) = w \<and> snd (admin_disable verify authorization uid w) = w \<and>
      snd (admin_enable verify authorization uid w) = w)"
  by (intro conjI impI allI guarded_allowed guarded_refused) (simp_all add: admin_list_def admin_disable_def admin_enable_def guarded_idle)

definition example_verify :: "string \<Rightarrow> int \<Rightarrow> JwtPayload option" where
  "example_verify token now = (if token = ''good'' then Some \<lparr>j_sub = ''u'', j_role = USER, j_iat = None, j_exp = None\<rparr> else None)"

theorem guards_enforce_roles_witness:
  "fst (guarded example_verify [USER] (Some ''Bearer good'') (\<lambda>user. return_app (j_sub user)) token_example) = Inr ''u'' \<and>
   snd (admin_disable example_verify (Some ''Bearer good'') ''u'' token_example) = token_example"
proof -
  let ?p = "\<lparr>j_sub = ''u'', j_role = USER, j_iat = None, j_exp = None\<rparr>"
  have b: "bearer (Some ''Bearer good'') token \<longleftrightarrow> token = ''good''" for token
    by (simp flip: extractBearerToken_Some add: extractBearerToken_def) auto
  have g: "granted example_verify [USER] (Some ''Bearer good'') (clock token_example) ?p"
    by (simp add: granted_def b example_verify_def)
  have n: "\<nexists>payload. granted example_verify [ADMIN] (Some ''Bearer good'') (clock token_example) payload"
    by (auto simp: granted_def b example_verify_def)
  show ?thesis
    using guards_enforce_roles [of example_verify "[USER]" "Some ''Bearer good''" token_example "\<lambda>user. return_app (j_sub user)" "''u''"]
      g n by auto
qed

text \<open>
  A login that succeeds is one of an enabled account whose stored hash matches the password. It
  stores one refresh token, which starts a family of its own, and hands the caller that token's text,
  of which the server keeps the digest only, in a cookie scripts cannot read, sent to the rotation
  endpoint alone, over HTTPS in production and for cross-site use, which the browser drops at the very
  time the stored token expires.
\<close>

theorem login_issues_session:
  assumes "auth_login samesite env sha256 sign bcrypt_compare dto w = (Inr resp, w')"
  shows "\<exists>user r token opts. row_where (\<lambda>u. u_email u = normalizeEmail (ld_email dto)) (users (db w)) = Some user \<and>
     bcrypt_compare (ld_password dto) (u_password user) \<and> \<not> u_disabled user \<and>
     db w' = (db w)\<lparr>refresh_tokens := refresh_tokens (db w) @ [r]\<rparr> \<and>
     rt_userId r = u_id user \<and> rt_familyId r = uuid_supply w (drawn w) \<and> \<not> rt_revoked r \<and>
     rt_tokenHash r = sha256 token \<and> ar_cookie resp = (''refresh_token'', token, opts) \<and>
     rt_expiresAt r = DateObj (clock w + co_maxAge opts) \<and> co_httpOnly opts \<and> co_path opts = ''/auth/refresh'' \<and>
     (env = Some ''production'' \<or> samesite = Some ''none'' \<longrightarrow> co_secure opts)"
proof -
  obtain pair v where l: "login sha256 sign bcrypt_compare dto w = (Inr pair, v)"
    and reply: "auth_reply samesite env pair v = (Inr resp, w')"
    using assms by (auto simp: auth_login_def bind_app_Inr)
  obtain user v0 where c: "login_check bcrypt_compare dto w = (Inr user, v0)"
    and i: "issueTokens sha256 sign user None v0 = (Inr pair, v)"
    using l by (auto simp: login_def bind_app_Inr)
  have u: "v0 = w" "row_where (\<lambda>u. u_email u = normalizeEmail (ld_email dto)) (users (db w)) = Some user"
    "bcrypt_compare (ld_password dto) (u_password user)" "\<not> u_disabled user"
    using c by (auto simp: login_check_def find_user_by_email_def Let_def split: option.splits if_splits)
  let ?w = "w\<lparr>drawn := Suc (drawn w)\<rparr>"
  let ?r = "new_token sha256 (u_id user) (uuid_supply w (drawn w)) (Suc (drawn w)) w"
  have p: "tp_refreshToken pair = uuid_supply w (Suc (drawn w))" "cfg v = cfg w"
    "db v = (db w)\<lparr>refresh_tokens := refresh_tokens (db w) @ [?r]\<rparr>"
    using i unfolding u(1) issueTokens_new_family
    by (auto simp: issueTokens_run createRefreshToken_run new_token_def split: sum.splits if_splits)
  have w': "w' = v" "ar_cookie resp = (''refresh_token'', tp_refreshToken pair, buildRefreshTokenCookieOptions samesite env (cfg v))"
    using reply by (auto simp: auth_reply_def setRefreshCookie_def REFRESH_TOKEN_COOKIE_def)
  have "co_maxAge (buildRefreshTokenCookieOptions samesite env (cfg v)) = refresh_days (cfg w) * DAY_IN_MS"
    "co_httpOnly (buildRefreshTokenCookieOptions samesite env (cfg v))"
    "co_path (buildRefreshTokenCookieOptions samesite env (cfg v)) = ''/auth/refresh''"
    "env = Some ''production'' \<or> samesite = Some ''none'' \<longrightarrow> co_secure (buildRefreshTokenCookieOptions samesite env (cfg v))"
    by (auto simp: buildRefreshTokenCookieOptions_def Let_def REFRESH_TOKEN_COOKIE_PATH_def p)
  with u p w' show ?thesis
    by (intro exI [of _ user] exI [of _ ?r] exI [of _ "tp_refreshToken pair"]
        exI [of _ "buildRefreshTokenCookieOptions samesite env (cfg v)"]) (simp add: new_token_def)
qed

theorem login_issues_session_witness:
  "let w = token_example\<lparr>db := (db token_example)\<lparr>users := [\<lparr>u_id = ''u'', u_email = ''a@b.c'', u_password = ''pw$s'',
       u_role = USER, u_disabled = False, u_createdAt = DateObj 0\<rparr>]\<rparr>\<rparr>;
     dto = \<lparr>ld_email = ''a@b.c'', ld_password = ''pw''\<rparr>;
     run = auth_login None None rev example_sign example_compare dto w
   in \<exists>resp. fst run = Inr resp \<and>
     (\<exists>user r token opts. row_where (\<lambda>u. u_email u = normalizeEmail (ld_email dto)) (users (db w)) = Some user \<and>
     example_compare (ld_password dto) (u_password user) \<and> \<not> u_disabled user \<and>
     db (snd run) = (db w)\<lparr>refresh_tokens := refresh_tokens (db w) @ [r]\<rparr> \<and>
     rt_userId r = u_id user \<and> rt_familyId r = uuid_supply w (drawn w) \<and> \<not> rt_revoked r \<and>
     rt_tokenHash r = rev token \<and> ar_cookie resp = (''refresh_token'', token, opts) \<and>
     rt_expiresAt r = DateObj (clock w + co_maxAge opts) \<and> co_httpOnly opts \<and> co_path opts = ''/auth/refresh'' \<and>
     (None = Some ''production'' \<or> None = Some ''none'' \<longrightarrow> co_secure opts))"
proof -
  let ?w = "token_example\<lparr>db := (db token_example)\<lparr>users := [\<lparr>u_id = ''u'', u_email = ''a@b.c'', u_password = ''pw$s'',
       u_role = USER, u_disabled = False, u_createdAt = DateObj 0\<rparr>]\<rparr>\<rparr>"
  let ?dto = "\<lparr>ld_email = ''a@b.c'', ld_password = ''pw''\<rparr>"
  have e: "normalizeEmail ''a@b.c'' = ''a@b.c''" by code_simp
  obtain resp w' where run: "auth_login None None rev example_sign example_compare ?dto ?w = (Inr resp, w')"
    by (simp add: auth_login_def login_def login_check_def find_user_by_email_def e example_compare_def Let_def
        issueTokens_new_family issueTokens_run createRefreshToken_run example_sign_def auth_reply_def bind_app_def
        token_example_def empty_world_def)
  from login_issues_session [OF run] show ?thesis
    unfolding Let_def run fst_conv snd_conv by blast
qed

end
