(* ===== verification/Correlation.thy ===== *)
theory Correlation
  imports World Js_Strings
begin

text \<open>
  The correlation id of \<^verbatim>\<open>src/common/correlation/correlation.ts\<close>: adopted from an inbound header
  or generated, kept in the continuation-local context of a request or of a consumed message, and
  read back by whoever announces an event.
\<close>

section \<open>Adopt or generate\<close>

datatype header_value = NoHeader | HeaderText string | HeaderList "string list"

definition resolveCorrelationId :: "header_value \<Rightarrow> (world, string) app" where
  "resolveCorrelationId headerValue =
     (case headerValue of
        HeaderText v \<Rightarrow> if js_trim v \<noteq> [] then return_app v else random_uuid
      | HeaderList vs \<Rightarrow> (case vs of [] \<Rightarrow> random_uuid | v # _ \<Rightarrow> return_app v)
      | NoHeader \<Rightarrow> random_uuid)"

section \<open>The context\<close>

definition getCorrelationId :: "(world, string option) app" where
  "getCorrelationId = gets_app (\<lambda>w. case cls w of None \<Rightarrow> None | Some v \<Rightarrow> v)"

text \<open>\<open>cls.run\<close>: the context set inside is gone when the work settles.\<close>

definition cls_run :: "string \<Rightarrow> (world, 'a) app \<Rightarrow> (world, 'a) app" where
  "cls_run cid work = (\<lambda>w. case work (w\<lparr>cls := Some (Some cid)\<rparr>) of
     (r, w') \<Rightarrow> (r, w'\<lparr>cls := cls w\<rparr>))"

definition runWithCorrelationId :: "header_value \<Rightarrow> (world, 'a) app \<Rightarrow> (world, 'a) app" where
  "runWithCorrelationId header work = bind_app (resolveCorrelationId header) (\<lambda>cid. cls_run cid work)"

text \<open>The HTTP middleware: the id is stored for the request and echoed on the response.\<close>

definition correlationClsModule :: "header_value \<Rightarrow> (world, 'a) app \<Rightarrow> (world, string \<times> 'a) app" where
  "correlationClsModule header handler =
     bind_app (resolveCorrelationId header) (\<lambda>cid.
       cls_run cid (bind_app handler (\<lambda>r. return_app (cid, r))))"

section \<open>Facts\<close>

lemma resolve_text: "js_trim v \<noteq> [] \<Longrightarrow> resolveCorrelationId (HeaderText v) = return_app v"
  by (simp add: resolveCorrelationId_def)

lemma resolve_run:
  "\<exists>cid n. resolveCorrelationId h w = (Inr cid, w\<lparr>drawn := n\<rparr>) \<and> drawn w \<le> n"
proof -
  have "random_uuid w = (Inr (uuid_supply w (drawn w)), w\<lparr>drawn := Suc (drawn w)\<rparr>) \<and>
      drawn w \<le> Suc (drawn w)" by simp
  moreover have "return_app v w = (Inr v, w\<lparr>drawn := drawn w\<rparr>) \<and> drawn w \<le> drawn w" for v :: string
    by simp
  ultimately show ?thesis
    unfolding resolveCorrelationId_def
    by (cases h) (simp_all only: header_value.case if_split list.split split: if_split list.split, blast+)
qed

lemma run_getCorrelationId [simp]:
  "getCorrelationId w = (Inr (case cls w of None \<Rightarrow> None | Some v \<Rightarrow> v), w)"
  by (simp add: getCorrelationId_def)

lemma cls_run_restores [simp]: "cls (snd (cls_run cid work w)) = cls w"
  by (simp add: cls_run_def split: prod.splits)

lemma keeps_cls_run [keeps_rules]:
  assumes "keeps (\<lambda>w. P (db w)) m"
  shows "keeps (\<lambda>w. P (db w)) (cls_run cid m)"
proof (rule keepsI)
  fix w :: world
  assume "P (db w)"
  then show "P (db (snd (cls_run cid m w)))"
    using keepsD [OF assms, of "w\<lparr>cls := Some (Some cid)\<rparr>"]
    by (cases "m (w\<lparr>cls := Some (Some cid)\<rparr>)") (simp add: cls_run_def)
qed

lemma keeps_resolve [keeps_rules]: "keeps (\<lambda>w. P (db w)) (resolveCorrelationId h)"
proof (rule keepsI)
  fix w :: world
  assume "P (db w)"
  moreover obtain cid n where "resolveCorrelationId h w = (Inr cid, w\<lparr>drawn := n\<rparr>)"
    using resolve_run by blast
  ultimately show "P (db (snd (resolveCorrelationId h w)))" by simp
qed

lemma keeps_runWithCorrelationId [keeps_rules]:
  "keeps (\<lambda>w. P (db w)) m \<Longrightarrow> keeps (\<lambda>w. P (db w)) (runWithCorrelationId h m)"
  by (simp add: runWithCorrelationId_def keeps_rules)

end
