(* ===== verification/Inbox.thy ===== *)
theory Inbox
  imports Correlation
begin

text \<open>
  The consumer side of messaging: \<open>InboxService.runOnce\<close>
  (\<^verbatim>\<open>src/modules/messaging/inbox/inbox.service.ts\<close>) and \<open>processEventOnce\<close>
  (\<^verbatim>\<open>src/modules/messaging/process-event-once.ts\<close>).

  The source checks for an inbox record and then runs the work and inserts the record, all in one
  transaction. The check reads only, so \<open>runOnce\<close> is the check followed by \<open>runOnce_work\<close>, a
  transaction of the rest; a delivery that lost a race is \<open>runOnce_work\<close> run in a state where the
  other delivery has committed its record. \<open>idempotent_receiver\<close> is the contract its clients use.
\<close>

section \<open>InboxService\<close>

definition UNIQUE_VIOLATION :: string where "UNIQUE_VIOLATION = ''23505''"
definition INBOX_TABLE :: string where "INBOX_TABLE = ''processed_messages''"

fun isInboxDuplicate :: "exn \<Rightarrow> bool" where
  "isInboxDuplicate (QueryFailedError code tab) \<longleftrightarrow> code = UNIQUE_VIOLATION \<and> tab = INBOX_TABLE"
| "isInboxDuplicate error \<longleftrightarrow> False"

definition inbox_record :: "string \<Rightarrow> string \<Rightarrow> ProcessedMessageEntity \<Rightarrow> bool" where
  "inbox_record messageId consumer r \<longleftrightarrow> pm_messageId r = messageId \<and> pm_consumer r = consumer"

text \<open>The insert, on a table whose primary key is the pair.\<close>

definition insert_processed :: "string \<Rightarrow> string \<Rightarrow> (world, unit) app" where
  "insert_processed messageId consumer = (\<lambda>w.
     if row_where (inbox_record messageId consumer) (processed_messages (db w)) \<noteq> None
     then (Inl (unique_violation INBOX_TABLE), w)
     else (Inr (), w\<lparr>db := (db w)\<lparr>processed_messages := processed_messages (db w) @
             [\<lparr>pm_messageId = messageId, pm_consumer = consumer,
               pm_processedAt = DateObj (clock w)\<rparr>]\<rparr>\<rparr>))"

definition runOnce_work :: "string \<Rightarrow> string \<Rightarrow> (world, unit) app \<Rightarrow> (world, bool) app" where
  "runOnce_work messageId consumer work =
     try_catch
       (transaction
         (then_app work (then_app (insert_processed messageId consumer) (return_app True))))
       (\<lambda>error. if isInboxDuplicate error then return_app False else throw_app error)"

definition runOnce :: "string \<Rightarrow> string \<Rightarrow> (world, unit) app \<Rightarrow> (world, bool) app" where
  "runOnce messageId consumer work =
     bind_app (query (\<lambda>d. row_where (inbox_record messageId consumer) (processed_messages d)))
       (\<lambda>existing. if existing \<noteq> None then return_app False
                   else runOnce_work messageId consumer work)"

section \<open>processEventOnce\<close>

text \<open>A delivered message: the properties and headers the program reads, and its content.\<close>

record ConsumeMessage =
  msg_messageId :: "string option"
  msg_correlation :: header_value
  msg_attempts :: "nat option"
  msg_routingKey :: string
  msg_content :: order_event

datatype EventOutcome = OutProcessed | OutSkipped | OutNack

definition timed_consumer :: "string \<Rightarrow> (world, 'a) app \<Rightarrow> (world, 'a) app" where
  "timed_consumer consumer work = (\<lambda>w. case work w of (r, w') \<Rightarrow>
     (r, w'\<lparr>collectors :=
        stopConsumerTimer consumer (of_int (clock w' - clock w) / 1000) (collectors w')\<rparr>))"

definition processEventOnce ::
    "ConsumeMessage \<Rightarrow> string \<Rightarrow> (world, unit) app \<Rightarrow> (world, EventOutcome) app" where
  "processEventOnce amqpMsg consumer work =
     (case msg_messageId amqpMsg of
        None \<Rightarrow> then_app (record_metric (recordConsumerOutcome consumer OutcomeFailed))
                  (return_app OutNack)
      | Some messageId \<Rightarrow>
          if messageId = []
          then then_app (record_metric (recordConsumerOutcome consumer OutcomeFailed))
                 (return_app OutNack)
          else bind_app (timed_consumer consumer (runOnce messageId consumer work)) (\<lambda>ran.
            then_app
              (record_metric (recordConsumerOutcome consumer (if ran then Processed else Skipped)))
              (return_app (if ran then OutProcessed else OutSkipped))))"

section \<open>How a delivery runs\<close>

definition in_inbox :: "world \<Rightarrow> string \<times> string \<Rightarrow> bool" where
  "in_inbox w k \<longleftrightarrow>
     row_where (inbox_record (fst k) (snd k)) (processed_messages (db w)) \<noteq> None"

definition record_inbox :: "string \<Rightarrow> string \<Rightarrow> world \<Rightarrow> world" where
  "record_inbox messageId consumer w = w\<lparr>db := (db w)\<lparr>processed_messages := processed_messages (db w) @
     [\<lparr>pm_messageId = messageId, pm_consumer = consumer, pm_processedAt = DateObj (clock w)\<rparr>]\<rparr>\<rparr>"

lemma in_inbox_record [simp]:
  "in_inbox (record_inbox m c w) k \<longleftrightarrow> k = (m, c) \<or> in_inbox w k"
  by (cases k) (auto simp: in_inbox_def record_inbox_def inbox_record_def row_where_append
      split: option.splits)

lemma runOnce_skip: "in_inbox w (m, c) \<Longrightarrow> runOnce m c work w = (Inr False, w)"
  by (simp add: runOnce_def in_inbox_def)

lemma runOnce_throw:
  "\<not> in_inbox w (m, c) \<Longrightarrow> work w = (Inl e, w') \<Longrightarrow> \<not> isInboxDuplicate e \<Longrightarrow>
    runOnce m c work w = (Inl e, w'\<lparr>db := db w\<rparr>)"
  by (simp add: runOnce_def runOnce_work_def in_inbox_def transaction_def app_defs)

lemma runOnce_done:
  "\<not> in_inbox w (m, c) \<Longrightarrow> work w = (Inr (), w') \<Longrightarrow> \<not> in_inbox w' (m, c) \<Longrightarrow>
    runOnce m c work w = (Inr True, record_inbox m c w')"
  by (simp add: runOnce_def runOnce_work_def in_inbox_def transaction_def app_defs
      insert_processed_def record_inbox_def)

text \<open>The lost race: the record is there, put by a delivery that committed after the check.\<close>

lemma runOnce_work_raced:
  "work w = (Inr (), w') \<Longrightarrow> in_inbox w' (m, c) \<Longrightarrow>
    runOnce_work m c work w = (Inr False, w'\<lparr>db := db w\<rparr>)"
  by (simp add: runOnce_work_def in_inbox_def transaction_def app_defs insert_processed_def
      UNIQUE_VIOLATION_def)

lemma keeps_insert_processed:
  "(\<And>d r. P d \<Longrightarrow> P (d\<lparr>processed_messages := r\<rparr>)) \<Longrightarrow> keeps (\<lambda>w. P (db w)) (insert_processed m c)"
  by (simp add: keeps_def insert_processed_def)

lemma keeps_runOnce:
  assumes "keeps (\<lambda>w. P (db w)) work" and "\<And>d r. P d \<Longrightarrow> P (d\<lparr>processed_messages := r\<rparr>)"
  shows "keeps (\<lambda>w. P (db w)) (runOnce m c work)"
  unfolding runOnce_def runOnce_work_def
  by (intro keeps_rules assms keeps_insert_processed)

lemma keeps_timed_consumer [keeps_rules]:
  "keeps (\<lambda>w. P (db w)) m \<Longrightarrow> keeps (\<lambda>w. P (db w)) (timed_consumer c m)"
  by (simp add: keeps_def timed_consumer_def split: prod.splits) (metis snd_conv)

lemma keeps_processEventOnce:
  assumes "keeps (\<lambda>w. P (db w)) work" and "\<And>d r. P d \<Longrightarrow> P (d\<lparr>processed_messages := r\<rparr>)"
  shows "keeps (\<lambda>w. P (db w)) (processEventOnce msg c work)"
  unfolding processEventOnce_def
  by (intro keeps_rules keeps_runOnce assms)

section \<open>The contract of the inbox\<close>

text \<open>
  \<open>deliver\<close> runs a list of deliveries, each with the key it is filed under and its work, and lists
  what each of them returned. A receiver that skips recorded keys and records the keys it ran lets
  no key run twice, however the deliveries of different keys are ordered and however often they fail.
\<close>

fun deliver :: "('k \<Rightarrow> ('s, unit) app \<Rightarrow> ('s, bool) app) \<Rightarrow> ('k \<times> ('s, unit) app) list \<Rightarrow> 's \<Rightarrow>
    (exn + bool) list \<times> 's" where
  "deliver run [] s = ([], s)"
| "deliver run ((k, work) # ds) s =
     (case run k work s of (r, s') \<Rightarrow> (case deliver run ds s' of (rs, t) \<Rightarrow> (r # rs, t)))"

definition keys_run :: "('k \<times> 'w) list \<Rightarrow> (exn + bool) list \<Rightarrow> 'k list" where
  "keys_run ds rs = map (\<lambda>p. fst (fst p)) (filter (\<lambda>p. snd p = Inr True) (zip ds rs))"

locale idempotent_receiver =
  fixes seen :: "'s \<Rightarrow> 'k \<Rightarrow> bool" and run :: "'k \<Rightarrow> ('s, unit) app \<Rightarrow> ('s, bool) app"
    and polite :: "('s, unit) app \<Rightarrow> bool"
  assumes skip: "seen s k \<Longrightarrow> run k work s = (Inr False, s)"
    and ran: "run k work s = (Inr True, s') \<Longrightarrow> seen s' k"
    and kept: "polite work \<Longrightarrow> seen s j \<Longrightarrow> run k work s = (r, s') \<Longrightarrow> seen s' j"
begin

lemma seen_never_runs:
  "list_all (polite \<circ> snd) ds \<Longrightarrow> seen s k \<Longrightarrow> deliver run ds s = (rs, t) \<Longrightarrow>
    k \<notin> set (keys_run ds rs)"
proof (induction ds arbitrary: s rs)
  case (Cons d ds)
  obtain j work where d: "d = (j, work)" by (cases d)
  obtain r s' where r: "run j work s = (r, s')" by (cases "run j work s")
  from Cons.prems r d obtain rs' where rs: "rs = r # rs'" "deliver run ds s' = (rs', t)"
    by (auto split: prod.splits)
  from kept [of work s k j r s'] Cons.prems r d have "seen s' k" by simp
  with Cons.IH Cons.prems(1) rs(2) have "k \<notin> set (keys_run ds rs')" by simp
  moreover have "r \<noteq> Inr True" if "j = k" using skip [of s k work] Cons.prems(2) r that by auto
  ultimately show ?case by (auto simp: keys_run_def rs(1) d)
qed (simp add: keys_run_def)

lemma at_most_once:
  "list_all (polite \<circ> snd) ds \<Longrightarrow> deliver run ds s = (rs, t) \<Longrightarrow> distinct (keys_run ds rs)"
proof (induction ds arbitrary: s rs)
  case (Cons d ds)
  obtain j work where d: "d = (j, work)" by (cases d)
  obtain r s' where r: "run j work s = (r, s')" by (cases "run j work s")
  from Cons.prems r d obtain rs' where rs: "rs = r # rs'" "deliver run ds s' = (rs', t)"
    by (auto split: prod.splits)
  from Cons rs(2) have "distinct (keys_run ds rs')" by simp
  moreover have "j \<notin> set (keys_run ds rs')" if "r = Inr True"
    using seen_never_runs [of ds s' j rs' t] ran [of j work s s'] Cons.prems(1) rs(2) r that
    by (simp add: comp_def)
  ultimately show ?case by (auto simp: keys_run_def rs(1) d)
qed (simp add: keys_run_def)

end

text \<open>A work that leaves the inbox table alone, as every consumer's does.\<close>

definition polite_work :: "(world, unit) app \<Rightarrow> bool" where
  "polite_work work \<longleftrightarrow> same (\<lambda>w. processed_messages (db w)) work"

lemma polite_in_inbox:
  assumes "polite_work work" and "work w = (r, w')"
  shows "in_inbox w' k \<longleftrightarrow> in_inbox w k"
  using same_run [OF assms(1) [unfolded polite_work_def] assms(2)] by (simp add: in_inbox_def)

lemma runOnce_keeps_inbox:
  assumes "polite_work work" and "in_inbox w j" and "runOnce m c work w = (r, w')"
  shows "in_inbox w' j"
proof -
  have "P (db w) \<Longrightarrow> P (db (snd (runOnce m c work w)))"
    if "P = (\<lambda>d. row_where (inbox_record (fst j) (snd j)) (processed_messages d) \<noteq> None)" for P
  proof -
    assume P: "P (db w)"
    have "keeps (\<lambda>w. P (db w)) work"
      using assms(1) by (auto simp: keeps_def polite_work_def same_def that)
    moreover have "keeps (\<lambda>w. P (db w)) (insert_processed m c)"
      by (auto simp: keeps_def insert_processed_def that row_where_append split: option.splits)
    ultimately have "keeps (\<lambda>w. P (db w)) (runOnce m c work)"
      unfolding runOnce_def runOnce_work_def by (intro keeps_rules)
    with P show ?thesis by (rule keepsD [rotated])
  qed
  with assms(2,3) show ?thesis unfolding in_inbox_def by (metis snd_conv)
qed

lemma runOnce_work_True:
  assumes "runOnce_work m c work w = (Inr True, w')"
  shows "\<exists>t. work w = (Inr (), t) \<and> w' = record_inbox m c t"
proof -
  obtain r t where r: "work w = (r, t)" by (cases "work w")
  show ?thesis
  proof (cases r)
    case (Inl e)
    with assms r show ?thesis
      by (simp add: runOnce_work_def transaction_def app_defs split: if_splits)
  next
    case (Inr u)
    with assms r show ?thesis
      by (simp add: runOnce_work_def transaction_def app_defs insert_processed_def record_inbox_def
          split: if_splits)
  qed
qed

lemma runOnce_True_recorded:
  assumes "runOnce m c work w = (Inr True, w')"
  shows "in_inbox w' (m, c)"
proof -
  from assms have "runOnce_work m c work w = (Inr True, w')"
    by (simp add: runOnce_def split: if_splits)
  from runOnce_work_True [OF this] show ?thesis by auto
qed

interpretation inbox: idempotent_receiver in_inbox "\<lambda>k. runOnce (fst k) (snd k)" polite_work
proof
  show "in_inbox w k \<Longrightarrow> runOnce (fst k) (snd k) work w = (Inr False, w)" for w k work
    by (simp add: runOnce_skip)
  show "runOnce (fst k) (snd k) work w = (Inr True, w') \<Longrightarrow> in_inbox w' k" for k work w w'
    using runOnce_True_recorded [of "fst k" "snd k"] by simp
  show "polite_work work \<Longrightarrow> in_inbox w j \<Longrightarrow> runOnce (fst k) (snd k) work w = (r, w') \<Longrightarrow>
      in_inbox w' j" for work w j k r w'
    by (rule runOnce_keeps_inbox)
qed

section \<open>Properties\<close>

text \<open>
  C14: Exactly-once effect. In any sequence of deliveries, of any messages to any consumers, some
  throwing and some redelivered, no message runs twice for the same consumer.
\<close>

theorem inbox_at_most_once:
  assumes "list_all (polite_work \<circ> snd) ds"
  shows "distinct (keys_run ds (fst (deliver (\<lambda>k. runOnce (fst k) (snd k)) ds w)))"
  by (rule inbox.at_most_once [OF assms, of w _ "snd (deliver (\<lambda>k. runOnce (fst k) (snd k)) ds w)"]) simp

theorem inbox_at_most_once_witness:
  "distinct (keys_run [((''m'', ''payment''), return_app () :: (world, unit) app),
       ((''m'', ''payment''), return_app ())]
     (fst (deliver (\<lambda>k. runOnce (fst k) (snd k))
       [((''m'', ''payment''), return_app ()), ((''m'', ''payment''), return_app ())] empty_world)))"
proof -
  have "list_all (polite_work \<circ> snd)
      [((''m'', ''payment''), return_app ()), ((''m'', ''payment''), return_app ())]"
    by (simp add: polite_work_def same_return)
  then show ?thesis by (rule inbox_at_most_once)
qed

text \<open>
  Every way a delivery can end. A recorded message is skipped and nothing changes; a work that
  throws leaves the database as it was and its error passes through, so a retry starts afresh; a
  work that completes is committed together with its record; and a work that completes after another
  delivery has committed the record is rolled back and reported as already processed.
\<close>

theorem runOnce_outcomes:
  assumes "polite_work work" and "work w = (r, w')"
    and "case r of Inl e \<Rightarrow> \<not> isInboxDuplicate e | Inr _ \<Rightarrow> True"
  shows "runOnce m c work w =
      (if in_inbox w (m, c) then (Inr False, w)
       else case r of Inl e' \<Rightarrow> (Inl e', w'\<lparr>db := db w\<rparr>) | Inr _ \<Rightarrow> (Inr True, record_inbox m c w')) \<and>
    (in_inbox w (m, c) \<and> r = Inr () \<longrightarrow> runOnce_work m c work w = (Inr False, w'\<lparr>db := db w\<rparr>))"
proof -
  have i: "in_inbox w' (m, c) \<longleftrightarrow> in_inbox w (m, c)" using polite_in_inbox assms(1,2) by blast
  show ?thesis
  proof (cases r)
    case (Inl x)
    with assms(2,3) show ?thesis by (auto simp: runOnce_skip runOnce_throw)
  next
    case (Inr x)
    then show ?thesis using assms(2) i runOnce_done runOnce_work_raced
      by (auto simp: runOnce_skip)
  qed
qed

theorem runOnce_outcomes_witness:
  "runOnce_work ''m'' ''payment'' (return_app ()) (record_inbox ''m'' ''payment'' empty_world) =
     (Inr False, record_inbox ''m'' ''payment'' empty_world)"
proof -
  let ?w = "record_inbox ''m'' ''payment'' empty_world"
  have "polite_work (return_app ())" by (simp add: polite_work_def same_return)
  moreover have "return_app () ?w = (Inr (), ?w)" by simp
  moreover have "case Inr () of Inl e \<Rightarrow> \<not> isInboxDuplicate e | Inr _ \<Rightarrow> True" by simp
  ultimately show ?thesis
    using runOnce_outcomes [of "return_app ()" ?w "Inr ()" ?w "''m''" "''payment''"] by simp
qed

end
