(* ===== verification/Retry.thy ===== *)
theory Retry
  imports Inbox Decimals
begin

text \<open>
  The bounded-retry error handler of \<^verbatim>\<open>src/modules/messaging/retry-error-handler.ts\<close>. The channel is
  the list of declared wait queues, what was sent to them, and what was acknowledged or refused;
  declaring a queue that exists with other arguments closes the channel, as AMQP prescribes. A
  message comes back from its wait queue through the default exchange, so with the work queue's name
  as its routing key (\<open>dead_lettered\<close>).

  Delays are whole milliseconds, as \<open>x-message-ttl\<close> takes no other value.
\<close>

section \<open>The handler\<close>

definition DEFAULT_MAX_RETRIES :: nat where "DEFAULT_MAX_RETRIES = 3"
definition DEFAULT_BASE_DELAY_MS :: nat where "DEFAULT_BASE_DELAY_MS = 1000"

definition consumerOf :: "string \<Rightarrow> string" where
  "consumerOf queue = takeWhile (\<lambda>c. c \<noteq> CHR ''.'') queue"

text \<open>\<open>fromEnv\<close> is \<open>Number(process.env.RABBITMQ_RETRY_BASE_DELAY_MS)\<close>, \<open>None\<close> when that is not finite.\<close>

definition baseDelayMs :: "int option \<Rightarrow> nat" where
  "baseDelayMs fromEnv =
     (case fromEnv of Some n \<Rightarrow> if n \<ge> 0 then nat n else DEFAULT_BASE_DELAY_MS
                    | None \<Rightarrow> DEFAULT_BASE_DELAY_MS)"

definition retryDelayMs :: "nat \<Rightarrow> nat \<Rightarrow> nat" where
  "retryDelayMs attempt base = base * 2 ^ (attempt - 1)"

definition retryQueueName :: "string \<Rightarrow> nat \<Rightarrow> string" where
  "retryQueueName queue delayMs = queue @ ''.retry.'' @ show_nat delayMs @ ''ms''"

record channel =
  ch_queues :: "(string \<times> nat \<times> string) list" \<comment> \<open>name, \<open>x-message-ttl\<close>, \<open>x-dead-letter-routing-key\<close>\<close>
  ch_sent :: "(string \<times> ConsumeMessage) list"
  ch_acked :: "ConsumeMessage list"
  ch_nacked :: "ConsumeMessage list"

definition assertQueue :: "string \<Rightarrow> nat \<Rightarrow> string \<Rightarrow> channel \<Rightarrow> exn + channel" where
  "assertQueue name ttl deadLetterKey ch =
     (case map_of (ch_queues ch) name of
        None \<Rightarrow> Inr (ch\<lparr>ch_queues := ch_queues ch @ [(name, ttl, deadLetterKey)]\<rparr>)
      | Some args \<Rightarrow> if args = (ttl, deadLetterKey) then Inr ch
                     else Inl (JsError ''PRECONDITION_FAILED''))"

definition createRetryErrorHandler ::
    "string \<Rightarrow> nat \<Rightarrow> nat \<Rightarrow> ConsumeMessage \<Rightarrow> channel \<times> collectors \<Rightarrow> exn + channel \<times> collectors" where
  "createRetryErrorHandler queue maxRetries base msg s =
     (let (ch, c) = s;
          attempts = (case msg_attempts msg of None \<Rightarrow> 0 | Some n \<Rightarrow> n)
      in if attempts < maxRetries
         then let attempt = attempts + 1;
                  delayMs = retryDelayMs attempt base;
                  waitQueue = retryQueueName queue delayMs
              in (case assertQueue waitQueue delayMs queue ch of
                    Inl e \<Rightarrow> Inl e
                  | Inr ch' \<Rightarrow>
                      Inr (ch'\<lparr>ch_sent := ch_sent ch' @ [(waitQueue, msg\<lparr>msg_attempts := Some attempt\<rparr>)],
                               ch_acked := ch_acked ch' @ [msg]\<rparr>,
                           recordConsumerOutcome (consumerOf queue) Retried c))
         else Inr (ch\<lparr>ch_nacked := ch_nacked ch @ [msg]\<rparr>,
                   recordConsumerOutcome (consumerOf queue) OutcomeFailed c))"

section \<open>Queue names\<close>

lemma split_last_dot:
  assumes "xs @ CHR ''.'' # ys = xs' @ CHR ''.'' # ys'" and "CHR ''.'' \<notin> set ys" "CHR ''.'' \<notin> set ys'"
  shows "xs = xs' \<and> ys = ys'"
proof -
  have r: "rev ys @ CHR ''.'' # rev xs = rev ys' @ CHR ''.'' # rev xs'"
    using arg_cong [OF assms(1), of rev] by simp
  have "takeWhile (\<lambda>c. c \<noteq> CHR ''.'') (rev z @ CHR ''.'' # u) = rev z" if "CHR ''.'' \<notin> set z" for z u
    by (subst takeWhile_append2) (use that in auto)
  from this [OF assms(2), of "rev xs"] this [OF assms(3), of "rev xs'"] have "rev ys = rev ys'"
    unfolding r by simp
  with r show ?thesis by simp
qed

lemma retryQueueName_inj: "retryQueueName q d = retryQueueName q' d' \<longleftrightarrow> q = q' \<and> d = d'"
proof
  assume "retryQueueName q d = retryQueueName q' d'"
  then have "(q @ ''.retry'') @ CHR ''.'' # (show_nat d @ ''ms'') =
      (q' @ ''.retry'') @ CHR ''.'' # (show_nat d' @ ''ms'')"
    by (simp add: retryQueueName_def)
  from split_last_dot [OF this] have "q = q'" and s: "show_nat d = show_nat d'"
    using dot_not_digit [of d] dot_not_digit [of d'] by auto
  moreover have "d = d'" using arg_cong [OF s, of read_nat] by simp
  ultimately show "q = q' \<and> d = d'" by simp
qed simp

text \<open>Every wait queue declared so far has the arguments its name says.\<close>

definition wait_queues_ok :: "channel \<Rightarrow> bool" where
  "wait_queues_ok ch \<longleftrightarrow>
     list_all (\<lambda>(name, ttl, key). name = retryQueueName key ttl) (ch_queues ch)"

lemma assertQueue_ok:
  assumes "wait_queues_ok ch"
  shows "\<exists>ch'. assertQueue (retryQueueName q d) d q ch = Inr ch' \<and> wait_queues_ok ch' \<and>
    ch_sent ch' = ch_sent ch \<and> ch_acked ch' = ch_acked ch \<and> ch_nacked ch' = ch_nacked ch"
proof (cases "map_of (ch_queues ch) (retryQueueName q d)")
  case (Some args)
  obtain ttl key where args: "args = (ttl, key)" by (cases args)
  from assms map_of_SomeD [OF Some] args have "retryQueueName q d = retryQueueName key ttl"
    by (auto simp: wait_queues_ok_def list_all_iff)
  with assms Some args show ?thesis by (auto simp: assertQueue_def retryQueueName_inj)
qed (use assms in \<open>simp add: assertQueue_def wait_queues_ok_def\<close>)

section \<open>The life of a failing message\<close>

definition dead_lettered :: "string \<Rightarrow> ConsumeMessage \<Rightarrow> ConsumeMessage" where
  "dead_lettered queue msg = msg\<lparr>msg_routingKey := queue\<rparr>"

abbreviation attempts_of :: "ConsumeMessage \<Rightarrow> nat" where
  "attempts_of msg \<equiv> (case msg_attempts msg of None \<Rightarrow> 0 | Some n \<Rightarrow> n)"

text \<open>
  The redeliveries of a message whose handling always throws: how long each waited and what was
  delivered. It follows the handler itself: what the handler parks is what comes back.
\<close>

definition idle_channel :: channel where
  "idle_channel = \<lparr>ch_queues = [], ch_sent = [], ch_acked = [], ch_nacked = []\<rparr>"

definition parked :: "string \<Rightarrow> nat \<Rightarrow> nat \<Rightarrow> ConsumeMessage \<Rightarrow> (nat \<times> ConsumeMessage) option" where
  "parked queue maxRetries base msg =
     (case createRetryErrorHandler queue maxRetries base msg (idle_channel, \<lparr>prom = [], sink = None\<rparr>) of
        Inl _ \<Rightarrow> None
      | Inr (ch, _) \<Rightarrow>
          (case (ch_queues ch, ch_sent ch) of
             ([(_, ttl, key)], [(_, m)]) \<Rightarrow> Some (ttl, dead_lettered key m)
           | _ \<Rightarrow> None))"

lemma parked_eq: "parked queue maxRetries base msg =
    (if attempts_of msg < maxRetries
     then Some (retryDelayMs (attempts_of msg + 1) base,
                dead_lettered queue (msg\<lparr>msg_attempts := Some (attempts_of msg + 1)\<rparr>))
     else None)"
  by (simp add: parked_def createRetryErrorHandler_def idle_channel_def assertQueue_def Let_def)

function redeliveries :: "string \<Rightarrow> nat \<Rightarrow> nat \<Rightarrow> ConsumeMessage \<Rightarrow> (nat \<times> ConsumeMessage) list" where
  "redeliveries queue maxRetries base msg =
     (case parked queue maxRetries base msg of
        None \<Rightarrow> []
      | Some (delay, m) \<Rightarrow> (delay, m) # redeliveries queue maxRetries base m)"
  by pat_completeness auto

termination
  by (relation "measure (\<lambda>(queue, maxRetries, base, msg). maxRetries - attempts_of msg)")
    (auto simp: parked_eq dead_lettered_def split: if_splits option.splits)

declare redeliveries.simps [simp del]

lemma redeliveries_from:
  "redeliveries queue (n + k) base (msg\<lparr>msg_attempts := Some n, msg_routingKey := queue\<rparr>) =
     map (\<lambda>i. (base * 2 ^ i, msg\<lparr>msg_attempts := Some (Suc i), msg_routingKey := queue\<rparr>)) [n..<n + k]"
proof (induction k arbitrary: n)
  case 0
  show ?case by (simp add: redeliveries.simps parked_eq)
next
  case (Suc k)
  have "redeliveries queue (n + Suc k) base (msg\<lparr>msg_attempts := Some n, msg_routingKey := queue\<rparr>) =
      (base * 2 ^ n, msg\<lparr>msg_attempts := Some (Suc n), msg_routingKey := queue\<rparr>) #
        redeliveries queue (Suc n + k) base (msg\<lparr>msg_attempts := Some (Suc n), msg_routingKey := queue\<rparr>)"
    by (subst redeliveries.simps) (simp add: parked_eq dead_lettered_def retryDelayMs_def)
  also have "\<dots> = (base * 2 ^ n, msg\<lparr>msg_attempts := Some (Suc n), msg_routingKey := queue\<rparr>) #
      map (\<lambda>i. (base * 2 ^ i, msg\<lparr>msg_attempts := Some (Suc i), msg_routingKey := queue\<rparr>)) [Suc n..<Suc n + k]"
    by (subst Suc.IH) (rule refl)
  finally show ?case by (simp add: upt_rec [of n])
qed

lemma sum_powers: "sum_list (map (\<lambda>i. base * 2 ^ i) [0..<n]) + base = base * 2 ^ n" for base :: nat
  by (induction n) simp_all

lemma retry_facts:
  "redeliveries queue maxRetries base (msg\<lparr>msg_attempts := None\<rparr>) =
     map (\<lambda>i. (base * 2 ^ i, msg\<lparr>msg_attempts := Some (Suc i), msg_routingKey := queue\<rparr>)) [0..<maxRetries] \<and>
   map (\<lambda>(d, m). (msg_messageId m, msg_correlation m))
     (redeliveries queue maxRetries base (msg\<lparr>msg_attempts := None\<rparr>)) =
     replicate maxRetries (msg_messageId msg, msg_correlation msg) \<and>
   sum_list (map fst (redeliveries queue maxRetries base (msg\<lparr>msg_attempts := None\<rparr>))) =
     base * (2 ^ maxRetries - 1)"
proof -
  have r: "redeliveries queue maxRetries base (msg\<lparr>msg_attempts := None\<rparr>) =
     map (\<lambda>i. (base * 2 ^ i, msg\<lparr>msg_attempts := Some (Suc i), msg_routingKey := queue\<rparr>)) [0..<maxRetries]"
  proof (cases maxRetries)
    case 0
    then show ?thesis by (simp add: redeliveries.simps parked_eq)
  next
    case (Suc k)
    have "redeliveries queue (Suc k) base (msg\<lparr>msg_attempts := None\<rparr>) =
        (base, msg\<lparr>msg_attempts := Some 1, msg_routingKey := queue\<rparr>) #
          redeliveries queue (1 + k) base (msg\<lparr>msg_attempts := Some 1, msg_routingKey := queue\<rparr>)"
      by (subst redeliveries.simps) (simp add: parked_eq dead_lettered_def retryDelayMs_def)
    then show ?thesis unfolding redeliveries_from by (simp add: Suc upt_rec [of 0])
  qed
  moreover have "sum_list (map (\<lambda>i. base * 2 ^ i) [0..<maxRetries]) = base * (2 ^ maxRetries - 1)"
    using sum_powers [of base maxRetries] by (simp add: diff_mult_distrib2)
  ultimately show ?thesis by (simp add: comp_def map_replicate_const)
qed

section \<open>Properties\<close>

text \<open>
  C29: The retry schedule. A message whose handling always throws is redelivered exactly \<open>maxRetries\<close>
  times, after base, twice base, four times base and so on; it keeps its message id and its
  correlation header through every hop, and arrives on the first retry with the work queue's name for
  a routing key. The whole schedule takes \<open>base * (2 ^ maxRetries - 1)\<close> milliseconds.
\<close>

theorem retry_schedule:
  "redeliveries queue maxRetries base (msg\<lparr>msg_attempts := None\<rparr>) =
     map (\<lambda>i. (base * 2 ^ i, msg\<lparr>msg_attempts := Some (Suc i), msg_routingKey := queue\<rparr>)) [0..<maxRetries] \<and>
   map (\<lambda>(d, m). (msg_messageId m, msg_correlation m))
     (redeliveries queue maxRetries base (msg\<lparr>msg_attempts := None\<rparr>)) =
     replicate maxRetries (msg_messageId msg, msg_correlation msg) \<and>
   sum_list (map fst (redeliveries queue maxRetries base (msg\<lparr>msg_attempts := None\<rparr>))) =
     base * (2 ^ maxRetries - 1)"
  by (rule retry_facts)

text \<open>
  No two wait queues clash: the name of a wait queue determines its work queue and its delay, so
  from a channel whose wait queues were declared by this handler, for whatever queues and delays, the
  handler never meets a queue with other arguments. It either parks the message once and acknowledges
  it, or refuses it once, and counts that.
\<close>

theorem retry_handler_total:
  assumes "wait_queues_ok ch"
  shows "\<exists>ch'. createRetryErrorHandler queue maxRetries base msg (ch, c) =
      Inr (ch', recordConsumerOutcome (consumerOf queue)
        (if attempts_of msg < maxRetries then Retried else OutcomeFailed) c) \<and>
    wait_queues_ok ch' \<and>
    (if attempts_of msg < maxRetries
     then ch_sent ch' = ch_sent ch @ [(retryQueueName queue (base * 2 ^ attempts_of msg),
            msg\<lparr>msg_attempts := Some (attempts_of msg + 1)\<rparr>)] \<and>
          ch_acked ch' = ch_acked ch @ [msg] \<and> ch_nacked ch' = ch_nacked ch
     else ch_sent ch' = ch_sent ch \<and> ch_acked ch' = ch_acked ch \<and> ch_nacked ch' = ch_nacked ch @ [msg])"
proof (cases "attempts_of msg < maxRetries")
  case True
  obtain ch1 where "assertQueue (retryQueueName queue (retryDelayMs (attempts_of msg + 1) base))
      (retryDelayMs (attempts_of msg + 1) base) queue ch = Inr ch1" "wait_queues_ok ch1"
      "ch_sent ch1 = ch_sent ch" "ch_acked ch1 = ch_acked ch" "ch_nacked ch1 = ch_nacked ch"
    using assertQueue_ok [OF assms] by blast
  with True show ?thesis
    by (simp add: createRetryErrorHandler_def Let_def retryDelayMs_def wait_queues_ok_def)
next
  case False
  with assms show ?thesis by (simp add: createRetryErrorHandler_def Let_def wait_queues_ok_def)
qed

theorem retry_handler_total_witness:
  "\<exists>ch' c'. createRetryErrorHandler (queue_name QPayment) 3 1000
      \<lparr>msg_messageId = Some ''m'', msg_correlation = NoHeader, msg_attempts = Some 3,
        msg_routingKey = queue_name QPayment, msg_content = OrderCompletedEvent ''o'' ''u'' (IsoString 0)\<rparr>
      (idle_channel, \<lparr>prom = [], sink = None\<rparr>) = Inr (ch', c') \<and> length (ch_nacked ch') = 1"
proof -
  have "wait_queues_ok idle_channel" by (simp add: wait_queues_ok_def idle_channel_def)
  from retry_handler_total [OF this, of "queue_name QPayment" 3 1000
      "\<lparr>msg_messageId = Some ''m'', msg_correlation = NoHeader, msg_attempts = Some 3,
        msg_routingKey = queue_name QPayment, msg_content = OrderCompletedEvent ''o'' ''u'' (IsoString 0)\<rparr>"]
  show ?thesis by (fastforce simp: idle_channel_def)
qed

end
