(* ===== verification/Registry.thy ===== *)
theory Registry
  imports Collectors Retry
begin

text \<open>
  The Prometheus collectors as \<^verbatim>\<open>src/modules/metrics/metrics.collectors.ts\<close> and \<open>MetricsModule\<close> declare
  them, the names the durable history knows (\<^verbatim>\<open>metrics.constants.ts\<close>), and the two remaining recorders:
  \<open>HttpMetricsInterceptor\<close> and \<open>SystemMetricsSamplerService\<close>. \<open>prom-client\<close> rejects an update whose labels
  are not the declared ones; that no update is such is the typing of the collectors, \<open>registry_ok\<close>.
\<close>

section \<open>Declarations\<close>

datatype collector_kind = CounterKind | HistogramKind "rat list"

record collector =
  col_kind :: collector_kind
  col_name :: string
  col_help :: string
  col_labelNames :: "string list"

definition DURATION_BUCKETS :: "rat list" where
  "DURATION_BUCKETS = [5/1000, 1/100, 25/1000, 5/100, 1/10, 25/100, 1/2, 1, 5/2, 5]"

definition STAGE_BUCKETS :: "rat list" where
  "STAGE_BUCKETS = [5/100, 1/10, 25/100, 1/2, 1, 2, 5, 10, 30, 60]"

definition consumerMessagesTotal :: collector where
  "consumerMessagesTotal = \<lparr>col_kind = CounterKind, col_name = ''consumer_messages_total'',
     col_help = ''Messages handled by each consumer, by outcome.'', col_labelNames = [''consumer'', ''outcome'']\<rparr>"

definition consumerProcessingDuration :: collector where
  "consumerProcessingDuration = \<lparr>col_kind = HistogramKind DURATION_BUCKETS,
     col_name = ''consumer_processing_duration_seconds'',
     col_help = ''Time a consumer spends processing a single message.'', col_labelNames = [''consumer'']\<rparr>"

definition ordersTerminalTotal :: collector where
  "ordersTerminalTotal = \<lparr>col_kind = CounterKind, col_name = ''orders_terminal_total'',
     col_help = ''Orders reaching a terminal state, by state.'', col_labelNames = [''state'']\<rparr>"

definition dbQueryDuration :: collector where
  "dbQueryDuration = \<lparr>col_kind = HistogramKind DURATION_BUCKETS, col_name = ''db_query_duration_seconds'',
     col_help = ''Duration of database operations, by operation.'', col_labelNames = [''operation'']\<rparr>"

definition outboxRelayedTotal :: collector where
  "outboxRelayedTotal = \<lparr>col_kind = CounterKind, col_name = ''outbox_relayed_messages_total'',
     col_help = ''Messages successfully relayed from the outbox table to the broker.'', col_labelNames = []\<rparr>"

definition ordersCreatedTotal :: collector where
  "ordersCreatedTotal = \<lparr>col_kind = CounterKind, col_name = ''orders_created_total'',
     col_help = ''Orders created at checkout.'', col_labelNames = []\<rparr>"

definition orderStageDuration :: collector where
  "orderStageDuration = \<lparr>col_kind = HistogramKind STAGE_BUCKETS, col_name = ''order_stage_duration_seconds'',
     col_help = ''Time an order spends in each pipeline stage (see OrderStage).'', col_labelNames = [''stage'']\<rparr>"

definition orderFailuresTotal :: collector where
  "orderFailuresTotal = \<lparr>col_kind = CounterKind, col_name = ''order_failures_total'',
     col_help = ''Orders that ended FAILED, by reason (insufficient_stock, payment_declined, ...).'',
     col_labelNames = [''reason'']\<rparr>"

definition paymentAuthorizationsTotal :: collector where
  "paymentAuthorizationsTotal = \<lparr>col_kind = CounterKind, col_name = ''payment_authorizations_total'',
     col_help = ''Payment authorization attempts, by outcome (see PaymentOutcome).'', col_labelNames = [''outcome'']\<rparr>"

definition cacheRequestsTotal :: collector where
  "cacheRequestsTotal = \<lparr>col_kind = CounterKind, col_name = ''cache_requests_total'',
     col_help = ''Cache-aside reads, by key class (prefix before the first \":\") and result. Hit rate = hit / (hit + miss).'',
     col_labelNames = [''key_class'', ''result'']\<rparr>"

definition HTTP_REQUEST_DURATION_SECONDS :: string where
  "HTTP_REQUEST_DURATION_SECONDS = ''http_request_duration_seconds''"

text \<open>The histogram \<open>MetricsModule\<close> provides.\<close>

definition httpRequestDuration :: collector where
  "httpRequestDuration = \<lparr>col_kind = HistogramKind DURATION_BUCKETS, col_name = HTTP_REQUEST_DURATION_SECONDS,
     col_help = ''HTTP request duration in seconds, by method, route and status.'',
     col_labelNames = [''method'', ''route'', ''status_code'']\<rparr>"

definition declared_collectors :: "collector list" where
  "declared_collectors = [consumerMessagesTotal, consumerProcessingDuration, ordersTerminalTotal, dbQueryDuration,
     outboxRelayedTotal, ordersCreatedTotal, orderStageDuration, orderFailuresTotal, paymentAuthorizationsTotal,
     cacheRequestsTotal, httpRequestDuration]"

definition PERSISTED_METRICS :: "string list" where
  "PERSISTED_METRICS = [''consumer_messages'', ''consumer_processing_duration_ms'', ''orders_terminal'',
     ''db_query_duration_ms'', ''http_request_duration_ms'', ''stock_replenished'', ''outbox_relayed'',
     ''event_loop_lag_ms'', ''event_loop_lag_max_ms'', ''memory_heap_used_bytes'', ''memory_rss_bytes'',
     ''cpu_percent'', ''orders_created'', ''order_stage_duration_ms'', ''order_failures'',
     ''payment_authorizations'']"

section \<open>HttpMetricsInterceptor\<close>

definition SCRAPE_ROUTE :: string where "SCRAPE_ROUTE = ''/metrics''"

text \<open>\<open>request.route\<close> may be missing, or have no \<open>path\<close>.\<close>

definition routePattern :: "string option option \<Rightarrow> string" where
  "routePattern route = (case route of Some (Some path) \<Rightarrow> path | _ \<Rightarrow> ''unknown'')"

text \<open>How the handler's observable settles: a value with the response's status, or an error with its own.\<close>

datatype http_outcome = Responded nat | Raised "nat option"

definition observe_request :: "string \<Rightarrow> string \<Rightarrow> rat \<Rightarrow> nat \<Rightarrow> collectors \<Rightarrow> collectors" where
  "observe_request meth route seconds statusCode c =
     (let ls = [(''method'', meth), (''route'', route), (''status_code'', show_nat statusCode)]
      in recordMetricSample ''http_request_duration_ms'' (seconds * 1000) ls
           (prom_add (Observe HTTP_REQUEST_DURATION_SECONDS ls seconds) c))"

definition intercept ::
    "string \<Rightarrow> string option option \<Rightarrow> string \<Rightarrow> http_outcome \<Rightarrow> rat \<Rightarrow> collectors \<Rightarrow> collectors" where
  "intercept context_type route meth outcome seconds c =
     (if context_type \<noteq> ''http'' then c
      else if routePattern route = SCRAPE_ROUTE then c
      else observe_request meth (routePattern route) seconds
             (case outcome of Responded statusCode \<Rightarrow> statusCode
              | Raised status \<Rightarrow> (case status of None \<Rightarrow> 500 | Some n \<Rightarrow> n)) c)"

section \<open>SystemMetricsSamplerService\<close>

text \<open>
  \<open>mean\<close> and \<open>max\<close> are the delays of the monitor in nanoseconds (\<open>None\<close>: \<open>NaN\<close>); \<open>elapsed\<close> is the time since
  the previous tick in nanoseconds, \<open>user\<close> and \<open>system\<close> the processor time in microseconds.
\<close>

definition sampleEventLoopLag :: "rat option \<Rightarrow> rat \<Rightarrow> collectors \<Rightarrow> collectors" where
  "sampleEventLoopLag mean mx c =
     (case mean of
        None \<Rightarrow> c
      | Some m \<Rightarrow> recordMetricSample ''event_loop_lag_max_ms'' (mx / 1000000) []
                    (recordMetricSample ''event_loop_lag_ms'' (m / 1000000) [] c))"

definition sampleMemory :: "nat \<Rightarrow> nat \<Rightarrow> collectors \<Rightarrow> collectors" where
  "sampleMemory heapUsed rss c =
     recordMetricSample ''memory_rss_bytes'' (of_nat rss) []
       (recordMetricSample ''memory_heap_used_bytes'' (of_nat heapUsed) [] c)"

definition sampleCpu :: "int \<Rightarrow> rat \<Rightarrow> rat \<Rightarrow> collectors \<Rightarrow> collectors" where
  "sampleCpu elapsed user system c =
     (let elapsedMicros = of_int elapsed / 1000
      in if elapsedMicros \<le> 0 then c
         else recordMetricSample ''cpu_percent'' ((user + system) / elapsedMicros * 100) [] c)"

definition sample_system ::
    "rat option \<Rightarrow> rat \<Rightarrow> nat \<Rightarrow> nat \<Rightarrow> int \<Rightarrow> rat \<Rightarrow> rat \<Rightarrow> collectors \<Rightarrow> collectors" where
  "sample_system mean mx heapUsed rss elapsed user system c =
     sampleCpu elapsed user system (sampleMemory heapUsed rss (sampleEventLoopLag mean mx c))"

section \<open>Typing\<close>

fun update_fits :: "prom_update \<Rightarrow> collector \<Rightarrow> bool" where
  "update_fits (Inc name ls k) col \<longleftrightarrow> col_name col = name \<and> col_kind col = CounterKind \<and> map fst ls = col_labelNames col"
| "update_fits (Observe name ls x) col \<longleftrightarrow> col_name col = name \<and> col_kind col \<noteq> CounterKind \<and> map fst ls = col_labelNames col"

definition registry_ok :: "collectors \<Rightarrow> bool" where
  "registry_ok c \<longleftrightarrow> list_all (\<lambda>u. list_ex (update_fits u) declared_collectors) (prom c) \<and>
     (case sink c of None \<Rightarrow> True | Some xs \<Rightarrow> list_all (\<lambda>x. s_metric x \<in> set PERSISTED_METRICS) xs)"

lemmas declaration_defs = declared_collectors_def consumerMessagesTotal_def consumerProcessingDuration_def
  ordersTerminalTotal_def dbQueryDuration_def outboxRelayedTotal_def ordersCreatedTotal_def orderStageDuration_def
  orderFailuresTotal_def paymentAuthorizationsTotal_def cacheRequestsTotal_def httpRequestDuration_def
  HTTP_REQUEST_DURATION_SECONDS_def

lemma registry_sample: "registry_ok c \<Longrightarrow> metric \<in> set PERSISTED_METRICS \<Longrightarrow> registry_ok (recordMetricSample metric v ls c)"
  by (simp add: registry_ok_def sink_recordMetricSample split: option.splits)

lemma registry_prom: "registry_ok c \<Longrightarrow> list_ex (update_fits u) declared_collectors \<Longrightarrow> registry_ok (prom_add u c)"
  by (simp add: registry_ok_def)

text \<open>Every call that reaches a collector or the durable sink.\<close>

datatype recorder_call =
    CallConsumerOutcome string ConsumerOutcome
  | CallStopConsumerTimer string rat
  | CallTerminalState string
  | CallOutboxRelayed nat
  | CallCacheRequest string bool
  | CallOrderCreated
  | CallOrderStage OrderStage rat
  | CallOrderFailure string
  | CallPaymentOutcome PaymentOutcome
  | CallDbDuration string rat
  | CallIntercept string "string option option" string http_outcome rat
  | CallSampleSystem "rat option" rat nat nat int rat rat
  | CallReplenished rat string

fun record_call :: "recorder_call \<Rightarrow> collectors \<Rightarrow> collectors" where
  "record_call (CallConsumerOutcome consumer outcome) = recordConsumerOutcome consumer outcome"
| "record_call (CallStopConsumerTimer consumer seconds) = stopConsumerTimer consumer seconds"
| "record_call (CallTerminalState state) = recordTerminalState state"
| "record_call (CallOutboxRelayed n) = recordOutboxRelayed n"
| "record_call (CallCacheRequest keyClass hit) = recordCacheRequest keyClass hit"
| "record_call CallOrderCreated = recordOrderCreated"
| "record_call (CallOrderStage stage seconds) = recordOrderStage stage seconds"
| "record_call (CallOrderFailure reason) = recordOrderFailure reason"
| "record_call (CallPaymentOutcome outcome) = recordPaymentOutcome outcome"
| "record_call (CallDbDuration operation seconds) = recordDbDuration operation seconds"
| "record_call (CallIntercept kind route meth outcome seconds) = intercept kind route meth outcome seconds"
| "record_call (CallSampleSystem mean mx heapUsed rss elapsed user system) =
     sample_system mean mx heapUsed rss elapsed user system"
| "record_call (CallReplenished amount productId) =
     recordMetricSample ''stock_replenished'' amount [(''productId'', productId)]"

lemma registry_call:
  assumes "registry_ok c" shows "registry_ok (record_call call c)"
  using assms
  by (cases call)
    (auto simp: collector_defs intercept_def observe_request_def sample_system_def sampleCpu_def sampleMemory_def
      sampleEventLoopLag_def Let_def declaration_defs PERSISTED_METRICS_def split: option.split
      intro!: registry_sample registry_prom)

section \<open>Properties\<close>

text \<open>
  C34: The collectors are well typed: whatever calls are made, in any order, every update goes to a declared
  collector of the right kind with exactly its label names (\<open>prom-client\<close> would throw on any other), and
  every sample handed to the durable sink has a name \<open>GET /metrics/history\<close> accepts.
\<close>

theorem collectors_well_typed:
  "let c = fold record_call calls \<lparr>prom = [], sink = Some []\<rparr> in
     list_all (\<lambda>u. list_ex (update_fits u) declared_collectors) (prom c) \<and>
     list_all (\<lambda>x. s_metric x \<in> set PERSISTED_METRICS) (case sink c of None \<Rightarrow> [] | Some xs \<Rightarrow> xs)"
proof -
  have "registry_ok (fold record_call calls c)" if "registry_ok c" for c
    using that by (induction calls arbitrary: c) (simp_all add: registry_call)
  from this [of "\<lparr>prom = [], sink = Some []\<rparr>"] show ?thesis
    by (auto simp: Let_def registry_ok_def split: option.splits)
qed

text \<open>
  A request over HTTP is timed once, whether it returns or throws, under its route pattern and status
  (500 for an error that has none); a scrape of \<^verbatim>\<open>/metrics\<close> and a message handler leave the collectors as
  they are.
\<close>

theorem requests_timed_once:
  "let c' = intercept kind route meth outcome seconds c in
     if kind = ''http'' \<and> routePattern route \<noteq> ''/metrics''
     then prom c' = prom c @ [Observe ''http_request_duration_seconds'' [(''method'', meth), (''route'', routePattern route),
            (''status_code'', show_nat (case outcome of Responded n \<Rightarrow> n | Raised (Some n) \<Rightarrow> n | Raised None \<Rightarrow> 500))] seconds]
     else c' = c"
  by (auto simp: Let_def intercept_def observe_request_def SCRAPE_ROUTE_def HTTP_REQUEST_DURATION_SECONDS_def
      split: http_outcome.split option.split)

end
