(* ===== verification/Metrics_History.thy ===== *)
theory Metrics_History
  imports Registry "HOL-Library.Multiset"
begin

text \<open>
  \<open>GET /metrics/history\<close>: \<open>MetricsHistoryService\<close> of \<^verbatim>\<open>src/modules/metrics/metrics-history.service.ts\<close>, its
  DTOs and the entity. The two SQL queries are written out as list functions over the table; values
  are exact rationals. Rows with equal times come in no specified order; they come in table order here.
  The two dates of the query are the instants the request names.
\<close>

section \<open>Data\<close>

record MetricEventEntity =
  me_id :: uuid
  me_metric :: string
  me_value :: rat
  me_labels :: "labels option"
  me_recordedAt :: int

datatype MetricResolution =
    RAW | ONE_MINUTE | FIVE_MINUTES | FIFTEEN_MINUTES | ONE_HOUR | SIX_HOURS | TWELVE_HOURS | ONE_DAY | ONE_WEEK
  | ONE_MONTH

fun BUCKET_SECONDS :: "MetricResolution \<Rightarrow> int option" where
  "BUCKET_SECONDS ONE_MINUTE = Some 60"
| "BUCKET_SECONDS FIVE_MINUTES = Some (5 * 60)"
| "BUCKET_SECONDS FIFTEEN_MINUTES = Some (15 * 60)"
| "BUCKET_SECONDS ONE_HOUR = Some 3600"
| "BUCKET_SECONDS SIX_HOURS = Some (6 * 3600)"
| "BUCKET_SECONDS TWELVE_HOURS = Some (12 * 3600)"
| "BUCKET_SECONDS ONE_DAY = Some (24 * 3600)"
| "BUCKET_SECONDS ONE_WEEK = Some (7 * 24 * 3600)"
| "BUCKET_SECONDS ONE_MONTH = Some (30 * 24 * 3600)"
| "BUCKET_SECONDS RAW = None"

definition SINCE_THE_BEGINNING :: int where "SINCE_THE_BEGINNING = 0"
definition MAX_POINTS :: nat where "MAX_POINTS = 500"

record MetricsHistoryQueryDTO =
  mq_metric :: string
  mq_resolution :: "MetricResolution option"
  mq_from :: "int option"
  mq_to :: "int option"

record MetricHistoryPointDTO =
  mp_bucketStart :: js_time
  mp_count :: nat
  mp_sum :: rat
  mp_avg :: rat
  mp_min :: rat
  mp_max :: rat

record MetricsHistoryResponseDTO =
  mr_metricName :: string
  mr_resolution :: MetricResolution
  mr_points :: "MetricHistoryPointDTO list"

section \<open>The service\<close>

definition history_rows :: "string \<Rightarrow> int \<Rightarrow> int \<Rightarrow> MetricEventEntity table \<Rightarrow> MetricEventEntity list" where
  "history_rows metric since until t =
     rows_where (\<lambda>r. me_metric r = metric \<and> me_recordedAt r \<ge> since \<and> me_recordedAt r \<le> until) t"

definition queryRaw :: "string \<Rightarrow> int \<Rightarrow> int \<Rightarrow> MetricEventEntity table \<Rightarrow> MetricHistoryPointDTO list" where
  "queryRaw metric since until t =
     map (\<lambda>r. \<lparr>mp_bucketStart = IsoString (me_recordedAt r), mp_count = 1, mp_sum = me_value r, mp_avg = me_value r,
            mp_min = me_value r, mp_max = me_value r\<rparr>)
       (rev (take MAX_POINTS (sort_key (\<lambda>r. - me_recordedAt r) (history_rows metric since until t))))"

text \<open>\<open>to_timestamp(floor(extract(epoch from \<dots>) / width) * width)\<close>, in milliseconds.\<close>

definition bucket_of :: "int \<Rightarrow> int \<Rightarrow> int" where
  "bucket_of widthSeconds recordedAt =
     \<lfloor>(of_int recordedAt / 1000 :: rat) / of_int widthSeconds\<rfloor> * widthSeconds * 1000"

definition bucket_point :: "int \<Rightarrow> int \<Rightarrow> MetricEventEntity list \<Rightarrow> MetricHistoryPointDTO" where
  "bucket_point widthSeconds start rows =
     (let vs = map me_value (filter (\<lambda>r. bucket_of widthSeconds (me_recordedAt r) = start) rows)
      in \<lparr>mp_bucketStart = IsoString start, mp_count = length vs, mp_sum = sum_list vs,
          mp_avg = sum_list vs / of_nat (length vs), mp_min = foldr min vs (hd vs), mp_max = foldr max vs (hd vs)\<rparr>)"

text \<open>\<open>GROUP BY\<close>, \<open>ORDER BY \<dots> DESC LIMIT\<close>, then \<open>ORDER BY \<dots> ASC\<close>.\<close>

definition recent_buckets :: "int \<Rightarrow> MetricEventEntity list \<Rightarrow> int list" where
  "recent_buckets widthSeconds rows =
     sort (take MAX_POINTS (rev (sort (remdups (map (\<lambda>r. bucket_of widthSeconds (me_recordedAt r)) rows)))))"

definition queryBucketed :: "string \<Rightarrow> int \<Rightarrow> int \<Rightarrow> int \<Rightarrow> MetricEventEntity table \<Rightarrow> MetricHistoryPointDTO list" where
  "queryBucketed metric since until widthSeconds t =
     (let rows = history_rows metric since until t
      in map (\<lambda>start. bucket_point widthSeconds start rows) (recent_buckets widthSeconds rows))"

definition query_history :: "MetricsHistoryQueryDTO \<Rightarrow> int \<Rightarrow> MetricEventEntity table \<Rightarrow> MetricsHistoryResponseDTO" where
  "query_history dto now t =
     (let resolution = (case mq_resolution dto of None \<Rightarrow> RAW | Some r \<Rightarrow> r);
          until = (case mq_to dto of None \<Rightarrow> now | Some x \<Rightarrow> x);
          since = (case mq_from dto of None \<Rightarrow> SINCE_THE_BEGINNING | Some x \<Rightarrow> x);
          points = (case BUCKET_SECONDS resolution of
              None \<Rightarrow> queryRaw (mq_metric dto) since until t
            | Some width \<Rightarrow> queryBucketed (mq_metric dto) since until width t)
      in \<lparr>mr_metricName = mq_metric dto, mr_resolution = resolution, mr_points = points\<rparr>)"

section \<open>Lemmas\<close>

lemma width_pos: "BUCKET_SECONDS r = Some width \<Longrightarrow> 0 < width"
  by (cases r) auto

lemma bucket_contains: "0 < width \<Longrightarrow> bucket_of width x \<le> x \<and> x < bucket_of width x + width * 1000"
proof -
  assume w: "0 < width"
  have "(of_int x / 1000 :: rat) / of_int width = of_int x / of_int (width * 1000)" by simp
  then have "bucket_of width x = x div (width * 1000) * (width * 1000)"
    by (simp only: bucket_of_def floor_divide_of_int_eq mult.assoc)
  moreover have "x = x div (width * 1000) * (width * 1000) + x mod (width * 1000)" by (rule div_mult_mod_eq [symmetric])
  moreover have "0 \<le> x mod (width * 1000)" "x mod (width * 1000) < width * 1000" using w by simp_all
  ultimately show ?thesis by linarith
qed

lemma foldr_min: "(foldr min vs (v::rat) \<le> v) \<and> (\<forall>x \<in> set vs. foldr min vs v \<le> x) \<and> foldr min vs v \<in> insert v (set vs)"
  by (induction vs) (auto simp: min_def)

lemma foldr_max: "(v::rat) \<le> foldr max vs v \<and> (\<forall>x \<in> set vs. x \<le> foldr max vs v) \<and> foldr max vs v \<in> insert v (set vs)"
  by (induction vs) (auto simp: max_def)

text \<open>Taking the first of a descending list: what is left out is no later than what is taken.\<close>

lemma sorted_take_rest:
  assumes "sorted_wrt (\<lambda>a b. f b \<le> (f a :: int)) xs" and "x \<in> set (drop n xs)" and "y \<in> set (take n xs)"
  shows "f x \<le> f y"
proof -
  have "sorted_wrt (\<lambda>a b. f b \<le> f a) (take n xs @ drop n xs)" using assms(1) by simp
  then show ?thesis using assms(2,3) unfolding sorted_wrt_append by blast
qed

lemma recent_sorted: "sorted_wrt (<) (recent_buckets width rows)"
  by (simp add: recent_buckets_def strict_sorted_iff distinct_take)

lemma recent_length: "length (recent_buckets width rows) \<le> 500"
  by (simp add: recent_buckets_def MAX_POINTS_def)

lemma recent_subset: "set (recent_buckets width rows) \<subseteq> (\<lambda>r. bucket_of width (me_recordedAt r)) ` set rows"
  by (auto simp: recent_buckets_def dest!: in_set_takeD)

lemma recent_rest:
  assumes "r \<in> set rows" and "bucket_of width (me_recordedAt r) \<notin> set (recent_buckets width rows)"
  shows "length (recent_buckets width rows) = 500 \<and>
    (\<forall>b \<in> set (recent_buckets width rows). bucket_of width (me_recordedAt r) \<le> b)"
proof -
  let ?bs = "rev (sort (remdups (map (\<lambda>r. bucket_of width (me_recordedAt r)) rows)))"
  let ?b = "bucket_of width (me_recordedAt r)"
  have "?b \<in> set ?bs" using assms(1) by simp
  moreover have "?b \<notin> set (take MAX_POINTS ?bs)" using assms(2) by (simp add: recent_buckets_def)
  ultimately have d: "?b \<in> set (drop MAX_POINTS ?bs)"
    by (metis Un_iff append_take_drop_id set_append)
  then have "MAX_POINTS < length ?bs" by (cases "MAX_POINTS < length ?bs") simp_all
  moreover have "sorted_wrt (\<lambda>a b. b \<le> a) ?bs" by (simp add: sorted_wrt_rev)
  then have "?b \<le> b" if "b \<in> set (take MAX_POINTS ?bs)" for b
    using sorted_take_rest [where f = "\<lambda>x. x", OF _ d that] by simp
  ultimately show ?thesis by (simp add: recent_buckets_def MAX_POINTS_def)
qed

section \<open>Properties\<close>

lemma bucket_point_exact:
  assumes b: "b \<in> set (recent_buckets width rows)"
  defines "mine \<equiv> filter (\<lambda>r. bucket_of width (me_recordedAt r) = b) rows"
  defines "p \<equiv> bucket_point width b rows"
  shows "mine \<noteq> []" and "mp_count p = length mine" and "mp_sum p = sum_list (map me_value mine)"
    and "mp_avg p * of_nat (mp_count p) = mp_sum p"
    and "mp_min p = Min (set (map me_value mine))" and "mp_max p = Max (set (map me_value mine))"
proof -
  let ?vs = "map me_value mine"
  show ne: "mine \<noteq> []" using b subsetD [OF recent_subset] by (fastforce simp: mine_def filter_empty_conv)
  then have vs: "?vs \<noteq> []" by (simp only: map_is_Nil_conv not_False_eq_True)
  note hd = vs hd_in_set [OF vs]
  have "foldr min ?vs (hd ?vs) = Min (set ?vs)" "foldr max ?vs (hd ?vs) = Max (set ?vs)"
    using foldr_min [of ?vs "hd ?vs"] foldr_max [of "hd ?vs" ?vs] hd
    by (intro Min_eqI [symmetric] Max_eqI [symmetric]; auto simp: insert_absorb simp del: set_map)+
  then show "mp_count p = length mine" "mp_sum p = sum_list ?vs" "mp_avg p * of_nat (mp_count p) = mp_sum p"
    "mp_min p = Min (set ?vs)" "mp_max p = Max (set ?vs)"
    using ne vs by (simp_all add: p_def bucket_point_def Let_def flip: mine_def)
qed

text \<open>
  C30: A bucketed history has at most 500 points in strictly chronological order; every point is a bucket
  of the resolution's width that holds matching samples, with their number, sum, average, minimum and
  maximum; every matching sample lies in its bucket, and its bucket is among the points unless 500 later
  ones are.
\<close>

theorem buckets_recent_and_exact:
  assumes "BUCKET_SECONDS resolution = Some width"
  shows "let rows = history_rows metric since until t;
       pts = queryBucketed metric since until width t in
     length pts \<le> 500 \<and> sorted_wrt (<) (map (\<lambda>p. getTime (mp_bucketStart p)) pts) \<and>
     (\<forall>p \<in> set pts. let mine = filter (\<lambda>r. bucket_of width (me_recordedAt r) = getTime (mp_bucketStart p)) rows;
          vs = map me_value mine in
        mine \<noteq> [] \<and> mp_count p = length mine \<and> mp_sum p = sum_list vs \<and> mp_avg p * of_nat (mp_count p) = mp_sum p \<and>
        mp_min p = Min (set vs) \<and> mp_max p = Max (set vs)) \<and>
     (\<forall>r \<in> set rows. let b = bucket_of width (me_recordedAt r) in
        b \<le> me_recordedAt r \<and> me_recordedAt r < b + width * 1000 \<and>
        (b \<in> (\<lambda>p. getTime (mp_bucketStart p)) ` set pts \<or>
         length pts = 500 \<and> (\<forall>p \<in> set pts. b \<le> getTime (mp_bucketStart p))))"
proof -
  let ?rows = "history_rows metric since until t"
  let ?pts = "queryBucketed metric since until width t"
  let ?bs = "recent_buckets width ?rows"
  have pts: "?pts = map (\<lambda>start. bucket_point width start ?rows) ?bs"
    by (simp add: queryBucketed_def Let_def)
  have start: "getTime (mp_bucketStart (bucket_point width b rs)) = b" for b rs
    by (simp add: bucket_point_def Let_def)
  have starts: "map (\<lambda>p. getTime (mp_bucketStart p)) ?pts = ?bs"
    unfolding pts by (simp add: start comp_def)
  have point: "let mine = filter (\<lambda>r. bucket_of width (me_recordedAt r) = getTime (mp_bucketStart p)) ?rows;
          vs = map me_value mine in
        mine \<noteq> [] \<and> mp_count p = length mine \<and> mp_sum p = sum_list vs \<and> mp_avg p * of_nat (mp_count p) = mp_sum p \<and>
        mp_min p = Min (set vs) \<and> mp_max p = Max (set vs)" if p: "p \<in> set ?pts" for p
  proof -
    obtain b where b: "b \<in> set ?bs" "p = bucket_point width b ?rows" using p unfolding pts by auto
    show ?thesis using bucket_point_exact [OF b(1)] unfolding b(2) start Let_def by blast
  qed
  have set: "(\<lambda>p. getTime (mp_bucketStart p)) ` set ?pts = set ?bs"
    using arg_cong [OF starts, of set] by simp
  have len: "length ?pts = length ?bs" by (simp add: pts)
  have "\<forall>r \<in> set ?rows. bucket_of width (me_recordedAt r) \<in> set ?bs \<or>
      length ?bs = 500 \<and> (\<forall>b \<in> set ?bs. bucket_of width (me_recordedAt r) \<le> b)"
    using recent_rest by blast
  then have cover: "\<forall>r \<in> set ?rows. bucket_of width (me_recordedAt r) \<in> (\<lambda>p. getTime (mp_bucketStart p)) ` set ?pts \<or>
      length ?pts = 500 \<and> (\<forall>p \<in> set ?pts. bucket_of width (me_recordedAt r) \<le> getTime (mp_bucketStart p))"
    unfolding len set [symmetric] by blast
  have w: "bucket_of width (me_recordedAt r) \<le> me_recordedAt r \<and>
      me_recordedAt r < bucket_of width (me_recordedAt r) + width * 1000" for r
    using width_pos [OF assms] by (rule bucket_contains)
  have len: "length ?pts \<le> 500" "sorted_wrt (<) (map (\<lambda>p. getTime (mp_bucketStart p)) ?pts)"
    using recent_length [of width ?rows] recent_sorted [of width ?rows] by (simp_all only: len starts)
  show ?thesis
    unfolding Let_def
    by (intro conjI ballI len(1) len(2)) (insert point [unfolded Let_def] cover w, blast+)
qed

text \<open>
  The raw history is the most recent 500 matching samples, or all of them when there are fewer, one
  point for each with its value and time, oldest first; a sample left out is no later than any returned.
\<close>

theorem raw_history_recent:
  "let rows = history_rows metric since until t; pts = queryRaw metric since until t in
     length pts = min 500 (length rows) \<and>
     sorted (map (\<lambda>p. getTime (mp_bucketStart p)) pts) \<and>
     (\<exists>shown left. mset rows = mset shown + mset left \<and>
        map (\<lambda>p. (getTime (mp_bucketStart p), mp_sum p)) pts = map (\<lambda>r. (me_recordedAt r, me_value r)) shown \<and>
        (\<forall>r \<in> set left. \<forall>s \<in> set shown. me_recordedAt r \<le> me_recordedAt s))"
proof -
  let ?rows = "history_rows metric since until t"
  let ?desc = "sort_key (\<lambda>r. - me_recordedAt r) ?rows"
  let ?shown = "rev (take MAX_POINTS ?desc)" and ?left = "drop MAX_POINTS ?desc"
  have "sorted (map (\<lambda>r. - me_recordedAt r) ?desc)" by simp
  then have d: "sorted_wrt (\<lambda>a b. me_recordedAt b \<le> me_recordedAt a) ?desc"
    by (simp only: sorted_map neg_le_iff_le)
  have "mset (take MAX_POINTS ?desc) + mset ?left = mset ?desc"
    by (simp only: mset_append [symmetric] append_take_drop_id)
  then have "mset ?rows = mset ?shown + mset ?left" by (simp only: mset_sort mset_rev)
  moreover have "\<forall>r \<in> set ?left. \<forall>s \<in> set ?shown. me_recordedAt r \<le> me_recordedAt s"
    using sorted_take_rest [OF d] by simp
  moreover have "sorted_wrt (\<lambda>a b. me_recordedAt b \<le> me_recordedAt a) (take MAX_POINTS ?desc)"
    using d by (rule sorted_wrt_take)
  then have "sorted (map me_recordedAt ?shown)" by (simp add: sorted_map sorted_wrt_rev)
  moreover have "map (\<lambda>p. (getTime (mp_bucketStart p), mp_sum p)) (queryRaw metric since until t) =
      map (\<lambda>r. (me_recordedAt r, me_value r)) ?shown"
    by (simp add: queryRaw_def comp_def)
  moreover have "map (\<lambda>p. getTime (mp_bucketStart p)) (queryRaw metric since until t) = map me_recordedAt ?shown"
    by (simp add: queryRaw_def comp_def)
  moreover have "length (queryRaw metric since until t) = min 500 (length ?rows)"
    by (simp add: queryRaw_def MAX_POINTS_def)
  ultimately show ?thesis
    unfolding Let_def by (intro conjI exI [of _ ?shown] exI [of _ ?left]) simp_all
qed

text \<open>A table with samples of one metric, two in one minute and one later, and one of another.\<close>

definition history_example :: "MetricEventEntity table" where
  "history_example =
     [\<lparr>me_id = ''a'', me_metric = ''orders_created'', me_value = 1, me_labels = None, me_recordedAt = 61000\<rparr>,
      \<lparr>me_id = ''b'', me_metric = ''orders_created'', me_value = 1, me_labels = None, me_recordedAt = 119999\<rparr>,
      \<lparr>me_id = ''c'', me_metric = ''orders_created'', me_value = 1, me_labels = None, me_recordedAt = 600000\<rparr>,
      \<lparr>me_id = ''d'', me_metric = ''cpu_percent'', me_value = 12, me_labels = None, me_recordedAt = 70000\<rparr>]"

lemma history_example_buckets:
  "map (\<lambda>p. (mp_bucketStart p, mp_count p)) (queryBucketed ''orders_created'' 0 700000 60 history_example) =
     [(IsoString 60000, 2), (IsoString 600000, 1)]"
  by code_simp

theorem buckets_recent_and_exact_witness:
  "let rows = history_rows ''orders_created'' 0 700000 history_example;
       pts = queryBucketed ''orders_created'' 0 700000 60 history_example in
     length pts \<le> 500 \<and> sorted_wrt (<) (map (\<lambda>p. getTime (mp_bucketStart p)) pts) \<and>
     (\<forall>p \<in> set pts. let mine = filter (\<lambda>r. bucket_of 60 (me_recordedAt r) = getTime (mp_bucketStart p)) rows;
          vs = map me_value mine in
        mine \<noteq> [] \<and> mp_count p = length mine \<and> mp_sum p = sum_list vs \<and> mp_avg p * of_nat (mp_count p) = mp_sum p \<and>
        mp_min p = Min (set vs) \<and> mp_max p = Max (set vs)) \<and>
     (\<forall>r \<in> set rows. let b = bucket_of 60 (me_recordedAt r) in
        b \<le> me_recordedAt r \<and> me_recordedAt r < b + 60 * 1000 \<and>
        (b \<in> (\<lambda>p. getTime (mp_bucketStart p)) ` set pts \<or>
         length pts = 500 \<and> (\<forall>p \<in> set pts. b \<le> getTime (mp_bucketStart p))))"
  by (rule buckets_recent_and_exact [of ONE_MINUTE]) simp

theorem raw_history_recent_witness:
  "let rows = history_rows ''orders_created'' 0 700000 history_example;
       pts = queryRaw ''orders_created'' 0 700000 history_example in
     length pts = min 500 (length rows) \<and>
     sorted (map (\<lambda>p. getTime (mp_bucketStart p)) pts) \<and>
     (\<exists>shown left. mset rows = mset shown + mset left \<and>
        map (\<lambda>p. (getTime (mp_bucketStart p), mp_sum p)) pts = map (\<lambda>r. (me_recordedAt r, me_value r)) shown \<and>
        (\<forall>r \<in> set left. \<forall>s \<in> set shown. me_recordedAt r \<le> me_recordedAt s))"
  by (rule raw_history_recent)

end
