(* ===== verification/Web_Edge.thy ===== *)
theory Web_Edge
  imports Auth Metrics_History Correlation Decimals
begin

text \<open>
  The edges of the service around its controllers: the request log with the correlation id of
  \<^verbatim>\<open>src/common/correlation/correlation.logger.ts\<close> and \<^verbatim>\<open>src/common/interceptors/logging.interceptor.ts\<close>, the
  history and health routes, and the broker topology of \<^verbatim>\<open>src/modules/messaging/messaging.module.ts\<close>.
\<close>

section \<open>Log lines\<close>

datatype log_level = LogLevel | ErrorLevel | WarnLevel | DebugLevel | VerboseLevel

datatype log_message = LogText string | LogValue \<comment> \<open>any other value\<close>

text \<open>\<open>cls w\<close> is the running context and the id in it.\<close>

definition decorate :: "log_message \<Rightarrow> world \<Rightarrow> log_message" where
  "decorate message w = (case message of
     LogValue \<Rightarrow> message
   | LogText text \<Rightarrow> (case cls w of
       None \<Rightarrow> message
     | Some cid \<Rightarrow> if cid \<noteq> None \<and> cid \<noteq> Some [] then LogText (''['' @ the cid @ ''] '' @ text) else message))"

text \<open>Every level hands the decorated message on to the console.\<close>

definition logger_line :: "log_level \<Rightarrow> log_message \<Rightarrow> world \<Rightarrow> log_level \<times> log_message" where
  "logger_line level message w = (level, decorate message w)"

record http_exchange =
  hx_method :: string
  hx_originalUrl :: string

text \<open>How a handler ended: with the response's status, or with an error that may carry one.\<close>

datatype handled = HandlerDone int | HandlerError "int option"

definition request_line :: "http_exchange \<Rightarrow> int \<Rightarrow> int \<Rightarrow> string" where
  "request_line x status elapsed =
     hx_method x @ '' '' @ hx_originalUrl x @ '' '' @ show_int status @ '' - '' @ show_int elapsed @ ''ms''"

definition logging_intercept :: "http_exchange \<Rightarrow> int \<Rightarrow> int \<Rightarrow> handled \<Rightarrow> world \<Rightarrow> log_level \<times> log_message" where
  "logging_intercept x startedAt ended outcome w = (let elapsed = ended - startedAt in
     case outcome of
       HandlerDone status \<Rightarrow> logger_line LogLevel (LogText (request_line x status elapsed)) w
     | HandlerError status \<Rightarrow>
         logger_line ErrorLevel (LogText (request_line x (case status of Some n \<Rightarrow> n | None \<Rightarrow> 500) elapsed)) w)"

section \<open>Routes\<close>

text \<open>\<open>GET /metrics/history\<close>: any caller with a valid token; the rows are the table the service reads.\<close>

definition history_get :: "(string \<Rightarrow> int \<Rightarrow> JwtPayload option) \<Rightarrow> string option \<Rightarrow> MetricsHistoryQueryDTO \<Rightarrow> MetricEventEntity table \<Rightarrow>
    (world, MetricsHistoryResponseDTO) app" where
  "history_get verify authorization dto events =
     bind_app (JwtAuthGuard_canActivate verify authorization) (\<lambda>_. bind_app read_clock (\<lambda>t. return_app (query_history dto t events)))"

definition health :: string where "health = ''Healthy''"

section \<open>Topology\<close>

record exchange_def =
  xd_name :: string
  xd_type :: string

record queue_def =
  qd_name :: string
  qd_exchange :: string
  qd_routingKey :: string
  qd_createQueueIfNotExists :: bool
  qd_durable :: bool

record topology =
  tp_uri :: string
  tp_exchanges :: "exchange_def list"
  tp_queues :: "queue_def list"

definition messagingTopology :: "string \<Rightarrow> topology" where
  "messagingTopology uri = \<lparr>tp_uri = uri,
     tp_exchanges = [\<lparr>xd_name = ORDER_EXCHANGE, xd_type = ''topic''\<rparr>, \<lparr>xd_name = ORDER_DLX, xd_type = ''topic''\<rparr>],
     tp_queues = [\<lparr>qd_name = ORDER_DLQ, qd_exchange = ORDER_DLX, qd_routingKey = ''#'', qd_createQueueIfNotExists = True, qd_durable = True\<rparr>]\<rparr>"

section \<open>Facts\<close>

text \<open>Inside a request's context every text carries the request's id; a value that is no text never does.\<close>

lemma context_prefixes: "cid \<noteq> [] \<Longrightarrow> decorate (LogText t) (w\<lparr>cls := Some (Some cid)\<rparr>) = LogText (''['' @ cid @ ''] '' @ t)"
  "decorate (LogText t) (w\<lparr>cls := None\<rparr>) = LogText t" "decorate LogValue w = LogValue"
  by (simp_all add: decorate_def)

text \<open>A request is logged once; an error without a status is logged as 500, and at the error level.\<close>

lemma request_logged:
  "logging_intercept x a b (HandlerDone n) w = (LogLevel, decorate (LogText (request_line x n (b - a))) w)"
  "logging_intercept x a b (HandlerError None) w = (ErrorLevel, decorate (LogText (request_line x 500 (b - a))) w)"
  by (simp_all add: logging_intercept_def logger_line_def Let_def)

lemma history_needs_token:
  assumes "fst (JwtAuthGuard_canActivate verify authorization w) = Inl e"
  shows "fst (history_get verify authorization dto events w) = Inl e"
  using assms by (cases "JwtAuthGuard_canActivate verify authorization w") (auto simp: history_get_def bind_app_def)

text \<open>Every queue the topology declares hangs on an exchange it declares.\<close>

lemma topology_closed: "qd_exchange ` set (tp_queues (messagingTopology uri)) \<subseteq> xd_name ` set (tp_exchanges (messagingTopology uri))"
  by (simp add: messagingTopology_def)

end
