(* ===== verification/Http_Routes.thy ===== *)
theory Http_Routes
  imports Web_Edge
begin

text \<open>
  The routes of the service as data: what the decorators of the controllers declare (method, path, guards,
  roles, pipes, status, documented answers), the rules the DTO classes declare for their properties, and the
  options of the validation pipe of \<^verbatim>\<open>src/common/validation/validation-pipe.ts\<close>. Http_Api runs requests
  against them.
\<close>

section \<open>Rules of the DTO classes\<close>

text \<open>A parsed JSON value; the keys of an object are distinct.\<close>

datatype json_value = JNull | JBool bool | JNum rat | JText string | JArray "json_value list" | JObject "(string \<times> json_value) list"

text \<open>The decorators of class-validator the classes use.\<close>

datatype rule =
    IsEmail | IsStrongPassword | MaxLength nat | IsString | IsNotEmpty | IsUUID | IsInt | Min int
  | IsIn "string list" | IsEnum "string list" | IsOptional | IsISO8601

type_synonym dto_class = "(string \<times> rule list) list"

definition RegisterDTO_class :: dto_class where
  "RegisterDTO_class = [(''email'', [IsEmail]), (''password'', [IsStrongPassword, MaxLength 72])]"

definition LoginDTO_class :: dto_class where
  "LoginDTO_class = [(''email'', [IsEmail]), (''password'', [IsString, IsNotEmpty])]"

definition SetCartItemDTO_class :: dto_class where
  "SetCartItemDTO_class = [(''productId'', [IsUUID]), (''quantity'', [IsInt, Min 1])]"

text \<open>The values of the enum \<open>MetricResolution\<close>, in its order.\<close>

fun resolution_text :: "MetricResolution \<Rightarrow> string" where
  "resolution_text RAW = ''raw''"
| "resolution_text ONE_MINUTE = ''1m''"
| "resolution_text FIVE_MINUTES = ''5m''"
| "resolution_text FIFTEEN_MINUTES = ''15m''"
| "resolution_text ONE_HOUR = ''1h''"
| "resolution_text SIX_HOURS = ''6h''"
| "resolution_text TWELVE_HOURS = ''12h''"
| "resolution_text ONE_DAY = ''1d''"
| "resolution_text ONE_WEEK = ''1w''"
| "resolution_text ONE_MONTH = ''1mo''"

definition all_resolutions :: "MetricResolution list" where
  "all_resolutions = [RAW, ONE_MINUTE, FIVE_MINUTES, FIFTEEN_MINUTES, ONE_HOUR, SIX_HOURS, TWELVE_HOURS, ONE_DAY, ONE_WEEK, ONE_MONTH]"

definition MetricsHistoryQueryDTO_class :: dto_class where
  "MetricsHistoryQueryDTO_class =
     [(''metric'', [IsIn PERSISTED_METRICS]), (''resolution'', [IsOptional, IsEnum (map resolution_text all_resolutions)]),
      (''from'', [IsOptional, IsISO8601]), (''to'', [IsOptional, IsISO8601])]"

section \<open>The validation pipe\<close>

record pipe_options =
  whitelist :: bool
  forbidNonWhitelisted :: bool
  transform_instances :: bool

definition buildValidationPipe :: pipe_options where
  "buildValidationPipe = \<lparr>whitelist = True, forbidNonWhitelisted = True, transform_instances = True\<rparr>"

text \<open>
  The pipe of Nest with class-validator, a parameter: the complaints about a value under options and a class.
  \<open>meets\<close> is what the documentation says a value accepted under a rule is (\<open>None\<close>: the property is missing),
  and \<open>pipe_documented\<close> that a value without complaints is an object with no property the class does not
  declare, whose properties meet their rules, unless one is optional and missing or null. Of the rules for
  formats only that they accept texts alone is used; \<open>IsUUID\<close> accepts what \<open>ParseUUIDPipe\<close> does.
\<close>

type_synonym validation = "pipe_options \<Rightarrow> dto_class \<Rightarrow> json_value \<Rightarrow> string list"

fun meets :: "(string \<Rightarrow> bool) \<Rightarrow> rule \<Rightarrow> json_value option \<Rightarrow> bool" where
  "meets uuid IsUUID v = (\<exists>s. v = Some (JText s) \<and> uuid s)"
| "meets uuid IsInt v = (\<exists>n. v = Some (JNum (of_int n)))"
| "meets uuid (Min m) v = (\<exists>q. v = Some (JNum q) \<and> of_int m \<le> q)"
| "meets uuid (MaxLength n) v = (\<exists>s. v = Some (JText s) \<and> length s \<le> n)"
| "meets uuid IsNotEmpty v = (v \<noteq> None \<and> v \<noteq> Some JNull \<and> v \<noteq> Some (JText []))"
| "meets uuid (IsIn xs) v = (\<exists>s \<in> set xs. v = Some (JText s))"
| "meets uuid (IsEnum xs) v = (\<exists>s \<in> set xs. v = Some (JText s))"
| "meets uuid IsOptional v = True"
| "meets uuid r v = (\<exists>s. v = Some (JText s))"

definition meets_all :: "(string \<Rightarrow> bool) \<Rightarrow> rule list \<Rightarrow> json_value option \<Rightarrow> bool" where
  "meets_all uuid rs v \<longleftrightarrow> IsOptional \<in> set rs \<and> (v = None \<or> v = Some JNull) \<or> (\<forall>r \<in> set rs. meets uuid r v)"

definition pipe_documented :: "(string \<Rightarrow> bool) \<Rightarrow> validation \<Rightarrow> bool" where
  "pipe_documented uuid validate \<longleftrightarrow> (\<forall>c v. validate buildValidationPipe c v = [] \<longrightarrow>
     (\<exists>ps. v = JObject ps \<and> fst ` set ps \<subseteq> fst ` set c \<and> (\<forall>(p, rs) \<in> set c. meets_all uuid rs (map_of ps p))))"

section \<open>Controllers and handlers\<close>

datatype http_method = GET | POST | PATCH | DELETE

datatype guard = UseJwtAuthGuard | UseRolesGuard

text \<open>Where a handler's parameters come from and which pipe they pass; \<open>@CurrentUser\<close>, \<open>@Req\<close> and \<open>@Res\<close> pass none.\<close>

datatype input = NoInput | UuidParam string | BodyOf dto_class | QueryOf dto_class

text \<open>\<open>roles\<close>: what \<open>@Roles\<close> declares. \<open>documented\<close>: the statuses of the \<open>@Api...Response\<close> decorators.\<close>

record controller =
  ct_prefix :: string
  ct_guards :: "guard list"
  ct_roles :: "UserRole list option"
  ct_documented :: "nat list"

record handler =
  hd_method :: http_method
  hd_path :: string
  hd_guards :: "guard list"
  hd_roles :: "UserRole list option"
  hd_code :: "nat option" \<comment> \<open>\<open>@HttpCode\<close>\<close>
  hd_documented :: "nat list"
  hd_input :: input

definition AppController :: controller where
  "AppController = \<lparr>ct_prefix = '''', ct_guards = [], ct_roles = None, ct_documented = []\<rparr>"

definition AppController_health :: handler where
  "AppController_health = \<lparr>hd_method = GET, hd_path = ''/health'', hd_guards = [], hd_roles = None, hd_code = None,
     hd_documented = [200], hd_input = NoInput\<rparr>"

definition AuthController :: controller where
  "AuthController = \<lparr>ct_prefix = ''auth'', ct_guards = [], ct_roles = None, ct_documented = []\<rparr>"

definition AuthController_register :: handler where
  "AuthController_register = \<lparr>hd_method = POST, hd_path = ''/register'', hd_guards = [], hd_roles = None, hd_code = Some 201,
     hd_documented = [201, 400, 409], hd_input = BodyOf RegisterDTO_class\<rparr>"

definition AuthController_login :: handler where
  "AuthController_login = \<lparr>hd_method = POST, hd_path = ''/login'', hd_guards = [], hd_roles = None, hd_code = Some 200,
     hd_documented = [200, 400, 401], hd_input = BodyOf LoginDTO_class\<rparr>"

definition AuthController_refresh :: handler where
  "AuthController_refresh = \<lparr>hd_method = POST, hd_path = ''/refresh'', hd_guards = [], hd_roles = None, hd_code = Some 200,
     hd_documented = [200, 401], hd_input = NoInput\<rparr>"

definition AuthController_me :: handler where
  "AuthController_me = \<lparr>hd_method = GET, hd_path = ''/me'', hd_guards = [UseJwtAuthGuard, UseRolesGuard],
     hd_roles = Some [USER], hd_code = None, hd_documented = [200, 401], hd_input = NoInput\<rparr>"

definition AdminUserController :: controller where
  "AdminUserController = \<lparr>ct_prefix = ''admin/users'', ct_guards = [UseJwtAuthGuard, UseRolesGuard],
     ct_roles = Some [ADMIN], ct_documented = [401, 403]\<rparr>"

definition AdminUserController_list :: handler where
  "AdminUserController_list = \<lparr>hd_method = GET, hd_path = '''', hd_guards = [], hd_roles = None, hd_code = None,
     hd_documented = [200], hd_input = NoInput\<rparr>"

definition AdminUserController_disable :: handler where
  "AdminUserController_disable = \<lparr>hd_method = PATCH, hd_path = '':id/disable'', hd_guards = [], hd_roles = None,
     hd_code = Some 200, hd_documented = [200, 404], hd_input = UuidParam ''id''\<rparr>"

definition AdminUserController_enable :: handler where
  "AdminUserController_enable = \<lparr>hd_method = PATCH, hd_path = '':id/enable'', hd_guards = [], hd_roles = None,
     hd_code = Some 200, hd_documented = [200, 404], hd_input = UuidParam ''id''\<rparr>"

definition ProductsController :: controller where
  "ProductsController = \<lparr>ct_prefix = ''products'', ct_guards = [UseJwtAuthGuard], ct_roles = None, ct_documented = [401]\<rparr>"

definition ProductsController_list :: handler where
  "ProductsController_list = \<lparr>hd_method = GET, hd_path = '''', hd_guards = [], hd_roles = None, hd_code = None,
     hd_documented = [200], hd_input = NoInput\<rparr>"

definition CartController :: controller where
  "CartController = \<lparr>ct_prefix = ''cart'', ct_guards = [UseJwtAuthGuard], ct_roles = None, ct_documented = [401]\<rparr>"

definition CartController_get :: handler where
  "CartController_get = \<lparr>hd_method = GET, hd_path = '''', hd_guards = [], hd_roles = None, hd_code = None,
     hd_documented = [200], hd_input = NoInput\<rparr>"

definition CartController_setItem :: handler where
  "CartController_setItem = \<lparr>hd_method = POST, hd_path = ''items'', hd_guards = [], hd_roles = None, hd_code = Some 200,
     hd_documented = [200, 404], hd_input = BodyOf SetCartItemDTO_class\<rparr>"

definition CartController_removeItem :: handler where
  "CartController_removeItem = \<lparr>hd_method = DELETE, hd_path = ''items/:productId'', hd_guards = [], hd_roles = None,
     hd_code = Some 200, hd_documented = [200], hd_input = UuidParam ''productId''\<rparr>"

definition CartController_checkout :: handler where
  "CartController_checkout = \<lparr>hd_method = POST, hd_path = ''checkout'', hd_guards = [], hd_roles = None, hd_code = None,
     hd_documented = [201, 409], hd_input = NoInput\<rparr>"

definition OrdersController :: controller where
  "OrdersController = \<lparr>ct_prefix = ''orders'', ct_guards = [UseJwtAuthGuard], ct_roles = None, ct_documented = [401]\<rparr>"

definition OrdersController_list :: handler where
  "OrdersController_list = \<lparr>hd_method = GET, hd_path = '''', hd_guards = [], hd_roles = None, hd_code = None,
     hd_documented = [200], hd_input = NoInput\<rparr>"

definition OrdersController_getById :: handler where
  "OrdersController_getById = \<lparr>hd_method = GET, hd_path = '':id'', hd_guards = [], hd_roles = None, hd_code = None,
     hd_documented = [200, 400, 404], hd_input = UuidParam ''id''\<rparr>"

definition OrdersController_pay :: handler where
  "OrdersController_pay = \<lparr>hd_method = POST, hd_path = '':id/pay'', hd_guards = [], hd_roles = None, hd_code = Some 200,
     hd_documented = [200, 400, 404, 409], hd_input = UuidParam ''id''\<rparr>"

definition OrdersController_cancel :: handler where
  "OrdersController_cancel = \<lparr>hd_method = POST, hd_path = '':id/cancel'', hd_guards = [], hd_roles = None, hd_code = Some 200,
     hd_documented = [200, 400, 404, 409], hd_input = UuidParam ''id''\<rparr>"

definition MetricsHistoryController :: controller where
  "MetricsHistoryController = \<lparr>ct_prefix = ''metrics/history'', ct_guards = [UseJwtAuthGuard], ct_roles = None,
     ct_documented = [401]\<rparr>"

definition MetricsHistoryController_get :: handler where
  "MetricsHistoryController_get = \<lparr>hd_method = GET, hd_path = '''', hd_guards = [], hd_roles = None, hd_code = None,
     hd_documented = [200], hd_input = QueryOf MetricsHistoryQueryDTO_class\<rparr>"

section \<open>Routes\<close>

datatype endpoint =
    Health | Register | Login | Refresh | Me | ListUsers | DisableUser | EnableUser | ListProducts
  | GetCart | SetItem | RemoveItem | Checkout | ListOrders | GetOrder | PayOrder | CancelOrder | GetHistory

fun declared :: "endpoint \<Rightarrow> controller \<times> handler" where
  "declared Health = (AppController, AppController_health)"
| "declared Register = (AuthController, AuthController_register)"
| "declared Login = (AuthController, AuthController_login)"
| "declared Refresh = (AuthController, AuthController_refresh)"
| "declared Me = (AuthController, AuthController_me)"
| "declared ListUsers = (AdminUserController, AdminUserController_list)"
| "declared DisableUser = (AdminUserController, AdminUserController_disable)"
| "declared EnableUser = (AdminUserController, AdminUserController_enable)"
| "declared ListProducts = (ProductsController, ProductsController_list)"
| "declared GetCart = (CartController, CartController_get)"
| "declared SetItem = (CartController, CartController_setItem)"
| "declared RemoveItem = (CartController, CartController_removeItem)"
| "declared Checkout = (CartController, CartController_checkout)"
| "declared ListOrders = (OrdersController, OrdersController_list)"
| "declared GetOrder = (OrdersController, OrdersController_getById)"
| "declared PayOrder = (OrdersController, OrdersController_pay)"
| "declared CancelOrder = (OrdersController, OrdersController_cancel)"
| "declared GetHistory = (MetricsHistoryController, MetricsHistoryController_get)"

text \<open>Guards of the class run before those of the handler; \<open>getAllAndOverride\<close> takes the handler's roles first.\<close>

definition guards_of :: "endpoint \<Rightarrow> guard list" where
  "guards_of e = (case declared e of (c, h) \<Rightarrow> ct_guards c @ hd_guards h)"

definition roles_of :: "endpoint \<Rightarrow> UserRole list option" where
  "roles_of e = (case declared e of (c, h) \<Rightarrow> case hd_roles h of Some rs \<Rightarrow> Some rs | None \<Rightarrow> ct_roles c)"

definition method_of :: "endpoint \<Rightarrow> http_method" where "method_of e = hd_method (snd (declared e))"
definition input_of :: "endpoint \<Rightarrow> input" where "input_of e = hd_input (snd (declared e))"

definition documented_of :: "endpoint \<Rightarrow> nat list" where
  "documented_of e = (case declared e of (c, h) \<Rightarrow> ct_documented c @ hd_documented h)"

text \<open>Without \<open>@HttpCode\<close> a \<open>POST\<close> answers 201 and any other method 200.\<close>

definition success_status :: "endpoint \<Rightarrow> nat" where
  "success_status e = (case hd_code (snd (declared e)) of
     Some n \<Rightarrow> n | None \<Rightarrow> if method_of e = POST then 201 else 200)"

text \<open>The path of a route, segment by segment; a segment that starts with a colon takes any text.\<close>

definition segments :: "string \<Rightarrow> string list" where
  "segments path = filter (\<lambda>s. s \<noteq> []) (js_split CHR ''/'' path)"

definition pattern_of :: "endpoint \<Rightarrow> string list" where
  "pattern_of e = (case declared e of (c, h) \<Rightarrow> segments (ct_prefix c) @ segments (hd_path h))"

definition segment_matches :: "string \<Rightarrow> string \<Rightarrow> bool" where
  "segment_matches p s \<longleftrightarrow> (if hd p = CHR '':'' then s \<noteq> [] else s = p)"

definition route_matches :: "http_method \<Rightarrow> string list \<Rightarrow> endpoint \<Rightarrow> bool" where
  "route_matches m path e \<longleftrightarrow> method_of e = m \<and> list_all2 segment_matches (pattern_of e) path"

text \<open>The path Express reports for the route.\<close>

definition route_path :: "endpoint \<Rightarrow> string" where
  "route_path e = concat (map (\<lambda>s. CHR ''/'' # s) (pattern_of e))"

lemmas route_defs = AppController_def AppController_health_def AuthController_def AuthController_register_def
  AuthController_login_def AuthController_refresh_def AuthController_me_def AdminUserController_def
  AdminUserController_list_def AdminUserController_disable_def AdminUserController_enable_def ProductsController_def
  ProductsController_list_def CartController_def CartController_get_def CartController_setItem_def
  CartController_removeItem_def CartController_checkout_def OrdersController_def OrdersController_list_def
  OrdersController_getById_def OrdersController_pay_def OrdersController_cancel_def MetricsHistoryController_def
  MetricsHistoryController_get_def

text \<open>The table, route by route.\<close>

lemma pattern_simps [simp]:
  "pattern_of Health = [''health'']" "pattern_of Register = [''auth'', ''register'']"
  "pattern_of Login = [''auth'', ''login'']" "pattern_of Refresh = [''auth'', ''refresh'']"
  "pattern_of Me = [''auth'', ''me'']" "pattern_of ListUsers = [''admin'', ''users'']"
  "pattern_of DisableUser = [''admin'', ''users'', '':id'', ''disable'']"
  "pattern_of EnableUser = [''admin'', ''users'', '':id'', ''enable'']"
  "pattern_of ListProducts = [''products'']" "pattern_of GetCart = [''cart'']"
  "pattern_of SetItem = [''cart'', ''items'']" "pattern_of RemoveItem = [''cart'', ''items'', '':productId'']"
  "pattern_of Checkout = [''cart'', ''checkout'']" "pattern_of ListOrders = [''orders'']"
  "pattern_of GetOrder = [''orders'', '':id'']" "pattern_of PayOrder = [''orders'', '':id'', ''pay'']"
  "pattern_of CancelOrder = [''orders'', '':id'', ''cancel'']" "pattern_of GetHistory = [''metrics'', ''history'']"
  by (simp_all add: pattern_of_def segments_def route_defs)

lemma guards_simps [simp]:
  "guards_of e = (if e \<in> {Health, Register, Login, Refresh} then []
     else if e \<in> {Me, ListUsers, DisableUser, EnableUser} then [UseJwtAuthGuard, UseRolesGuard] else [UseJwtAuthGuard])"
  by (cases e) (simp_all add: guards_of_def route_defs)

lemma roles_simps [simp]:
  "roles_of e = (if e = Me then Some [USER] else if e \<in> {ListUsers, DisableUser, EnableUser} then Some [ADMIN] else None)"
  by (cases e) (simp_all add: roles_of_def route_defs)

lemma method_simps [simp]:
  "method_of e = (if e \<in> {Register, Login, Refresh, SetItem, Checkout, PayOrder, CancelOrder} then POST
     else if e \<in> {DisableUser, EnableUser} then PATCH else if e = RemoveItem then DELETE else GET)"
  by (cases e) (simp_all add: method_of_def route_defs)

lemma success_simps [simp]: "success_status e = (if e \<in> {Register, Checkout} then 201 else 200)"
  by (cases e) (simp_all add: success_status_def route_defs)

text \<open>No two routes answer the same request, so the order in which they are registered does not matter.\<close>

lemma routes_unambiguous:
  assumes "route_matches m path e" and "route_matches m path e'"
  shows "e = e'"
  using assms
  by (cases e; cases e') (auto simp: route_matches_def segment_matches_def list_all2_Cons1)

text \<open>There is no route to create an order but the checkout of a cart.\<close>

lemma no_post_orders: "\<not> route_matches POST [''orders''] e"
  by (cases e) (simp_all add: route_matches_def segment_matches_def)

end
