(* ===== verification/Gateway.thy ===== *)
theory Gateway
  imports Retry
begin

text \<open>
  \<open>PaymentGateway\<close> of \<^verbatim>\<open>src/modules/payment/payment.gateway.ts\<close>: the claim-before-charge ledger.
  The provider is the parameter \<open>ch\<close> of \<open>authorize\<close>; \<open>charge\<close> is the simulated one of the source. The
  keys it is called with are noted in \<open>provider_calls\<close>.

  \<open>authorize\<close> is the part up to the decision whether to charge, and the charge with its recording; a
  crash between the two leaves an undecided claim, which is what the second part's absence models.
\<close>

section \<open>The ledger\<close>

record PaymentResult =
  authorized :: bool
  declineReason :: "string option"

definition STALE_CLAIM_SECONDS :: int where "STALE_CLAIM_SECONDS = 30"

definition charge :: "order_event \<Rightarrow> string \<Rightarrow> (world, PaymentResult) app" where
  "charge event idempotencyKey =
     then_app (modify_app (\<lambda>w. w\<lparr>provider_calls := provider_calls w @ [idempotencyKey]\<rparr>))
       (return_app \<lparr>authorized = True, declineReason = None\<rparr>)"

definition toResult :: "PaymentAuthorizationEntity \<Rightarrow> PaymentResult" where
  "toResult record = (if pa_authorized record = Some True
     then \<lparr>authorized = True, declineReason = None\<rparr>
     else \<lparr>authorized = False, declineReason = pa_declineReason record\<rparr>)"

text \<open>\<open>INSERT ... ON CONFLICT ("orderId") DO NOTHING RETURNING\<close>.\<close>

definition claim :: "uuid \<Rightarrow> (world, bool) app" where
  "claim orderId = bind_app read_clock (\<lambda>now.
     bind_app (query (\<lambda>d. row_where (\<lambda>r. pa_orderId r = orderId) (payment_authorizations d))) (\<lambda>found.
       if found \<noteq> None then return_app False
       else then_app (execute (\<lambda>d. d\<lparr>payment_authorizations := payment_authorizations d @
              [\<lparr>pa_orderId = orderId, pa_authorized = None, pa_declineReason = None,
                pa_createdAt = DateObj now\<rparr>]\<rparr>))
            (return_app True)))"

definition isClaimStale :: "uuid \<Rightarrow> (world, bool) app" where
  "isClaimStale orderId = bind_app read_clock (\<lambda>now.
     bind_app (query (\<lambda>d. rows_where (\<lambda>r. pa_orderId r = orderId \<and> pa_authorized r = None)
         (payment_authorizations d))) (\<lambda>rows.
       return_app (case rows of [] \<Rightarrow> False
         | r # _ \<Rightarrow> getTime (pa_createdAt r) < now - STALE_CLAIM_SECONDS * 1000)))"

section \<open>authorize\<close>

text \<open>\<open>None\<close>: this delivery is to charge.\<close>

definition authorize_claim :: "uuid \<Rightarrow> (world, PaymentResult option) app" where
  "authorize_claim orderId = bind_app (claim orderId) (\<lambda>won.
     if won then return_app None
     else bind_app (query (\<lambda>d. row_where (\<lambda>r. pa_orderId r = orderId) (payment_authorizations d)))
       (\<lambda>existing.
          case (case existing of None \<Rightarrow> None | Some r \<Rightarrow> if pa_authorized r \<noteq> None then Some r else None) of
            Some r \<Rightarrow> then_app (record_metric (recordPaymentOutcome Deduplicated))
                        (return_app (Some (toResult r)))
          | None \<Rightarrow> bind_app (isClaimStale orderId) (\<lambda>stale.
              if \<not> stale
              then then_app (record_metric (recordPaymentOutcome InFlight))
                     (throw_app (PaymentInFlightError orderId))
              else then_app (record_metric (recordPaymentOutcome Takeover)) (return_app None))))"

definition decide_guard :: "uuid \<Rightarrow> PaymentAuthorizationEntity \<Rightarrow> bool" where
  "decide_guard orderId r \<longleftrightarrow> pa_orderId r = orderId \<and> pa_authorized r = None"

definition decide_assign :: "PaymentResult \<Rightarrow> PaymentAuthorizationEntity \<Rightarrow> PaymentAuthorizationEntity" where
  "decide_assign result r =
     r\<lparr>pa_authorized := Some (authorized result), pa_declineReason := declineReason result\<rparr>"

definition authorize_charge ::
    "(order_event \<Rightarrow> string \<Rightarrow> (world, PaymentResult) app) \<Rightarrow> order_event \<Rightarrow> (world, PaymentResult) app" where
  "authorize_charge ch event = bind_app (ch event (ev_orderId event)) (\<lambda>result.
     then_app (record_metric (recordPaymentOutcome (if authorized result then Authorized else Declined)))
     (then_app (execute (\<lambda>d. d\<lparr>payment_authorizations :=
         update_where (decide_guard (ev_orderId event)) (decide_assign result) (payment_authorizations d)\<rparr>))
       (return_app result)))"

definition authorize ::
    "(order_event \<Rightarrow> string \<Rightarrow> (world, PaymentResult) app) \<Rightarrow> order_event \<Rightarrow> (world, PaymentResult) app" where
  "authorize ch event = bind_app (authorize_claim (ev_orderId event)) (\<lambda>stored.
     case stored of Some result \<Rightarrow> return_app result | None \<Rightarrow> authorize_charge ch event)"

section \<open>The decision of an order\<close>

text \<open>
  The abstract ledger: nothing, an undecided claim with its age, or a decision. A decision is written
  once.
\<close>

datatype ledger = Unclaimed | Undecided int | Decided PaymentResult

definition ledger_row :: "PaymentAuthorizationEntity \<Rightarrow> ledger" where
  "ledger_row r =
     (if pa_authorized r = None then Undecided (getTime (pa_createdAt r)) else Decided (toResult r))"

definition ledger_of :: "database \<Rightarrow> uuid \<Rightarrow> ledger" where
  "ledger_of d orderId = (case row_where (\<lambda>r. pa_orderId r = orderId) (payment_authorizations d) of
     None \<Rightarrow> Unclaimed | Some r \<Rightarrow> ledger_row r)"

definition ledger_ok :: "database \<Rightarrow> bool" where
  "ledger_ok d \<longleftrightarrow> distinct (map pa_orderId (payment_authorizations d))"


lemma run_claim: "claim oid w = (case ledger_of (db w) oid of
    Unclaimed \<Rightarrow> (Inr True, w\<lparr>db := (db w)\<lparr>payment_authorizations := payment_authorizations (db w) @
      [\<lparr>pa_orderId = oid, pa_authorized = None, pa_declineReason = None,
        pa_createdAt = DateObj (clock w)\<rparr>]\<rparr>\<rparr>)
  | _ \<Rightarrow> (Inr False, w))"
  by (auto simp: claim_def ledger_of_def ledger_row_def split: option.splits)

lemma rows_of_key:
  "distinct (map pa_orderId t) \<Longrightarrow> rows_where (\<lambda>r. pa_orderId r = oid \<and> q r) t =
    (case row_where (\<lambda>r. pa_orderId r = oid) t of None \<Rightarrow> [] | Some r \<Rightarrow> if q r then [r] else [])"
proof (induction t)
  case (Cons r t)
  have "rows_where (\<lambda>r. pa_orderId r = oid \<and> q r) t = []" if "pa_orderId r = oid"
    using Cons.prems that by (auto simp: rows_where_def filter_empty_conv image_iff)
  with Cons show ?case by (auto simp: rows_where_def split: option.splits)
qed (simp add: rows_where_def)

lemma run_isClaimStale:
  assumes "ledger_ok (db w)"
  shows "isClaimStale oid w = (Inr (case ledger_of (db w) oid of
    Undecided t \<Rightarrow> t < clock w - 30000 | _ \<Rightarrow> False), w)"
  using rows_of_key [OF assms [unfolded ledger_ok_def], of oid "\<lambda>r. pa_authorized r = None"]
  by (simp add: isClaimStale_def ledger_of_def ledger_row_def STALE_CLAIM_SECONDS_def split: option.splits)

text \<open>Up to the decision whether to charge, by the state of the ledger.\<close>

lemma run_authorize_claim:
  assumes "ledger_ok (db w)"
  shows "authorize_claim oid w = (case ledger_of (db w) oid of
      Unclaimed \<Rightarrow> (Inr None, snd (claim oid w))
    | Decided result \<Rightarrow> (Inr (Some result),
        w\<lparr>collectors := recordPaymentOutcome Deduplicated (collectors w)\<rparr>)
    | Undecided t \<Rightarrow> if t < clock w - 30000
        then (Inr None, w\<lparr>collectors := recordPaymentOutcome Takeover (collectors w)\<rparr>)
        else (Inl (PaymentInFlightError oid),
          w\<lparr>collectors := recordPaymentOutcome InFlight (collectors w)\<rparr>))"
proof (cases "row_where (\<lambda>r. pa_orderId r = oid) (payment_authorizations (db w))")
  case None
  then have "ledger_of (db w) oid = Unclaimed" by (simp add: ledger_of_def)
  then show ?thesis by (simp add: authorize_claim_def bind_app_def run_claim)
next
  case (Some r)
  then have l: "ledger_of (db w) oid = ledger_row r" by (simp add: ledger_of_def)
  show ?thesis
    using Some l run_isClaimStale [OF assms, of oid]
    by (simp add: authorize_claim_def bind_app_def [of "claim _"] run_claim ledger_row_def
        bind_app_def [of "isClaimStale _"])
qed

lemma ledger_of_decide:
  "ledger_of (d\<lparr>payment_authorizations := update_where (decide_guard oid) (decide_assign result)
      (payment_authorizations d)\<rparr>) v =
    (case ledger_of d v of
       Undecided t \<Rightarrow> if v = oid then Decided (toResult (decide_assign result \<lparr>pa_orderId = oid,
           pa_authorized = None, pa_declineReason = None, pa_createdAt = DateObj t\<rparr>)) else Undecided t
     | l \<Rightarrow> l)"
proof -
  have "row_where (\<lambda>r. pa_orderId r = v) (update_where (decide_guard oid) (decide_assign result) t) =
      map_option (\<lambda>r. if decide_guard oid r then decide_assign result r else r)
        (row_where (\<lambda>r. pa_orderId r = v) t)" for t
    by (rule row_where_update_key) (simp add: decide_assign_def)
  then show ?thesis
    by (auto simp: ledger_of_def ledger_row_def toResult_def decide_guard_def decide_assign_def
        split: option.splits dest!: row_where_Some)
qed

lemma toResult_decide: "toResult (decide_assign result r) =
    (if authorized result then \<lparr>authorized = True, declineReason = None\<rparr>
     else \<lparr>authorized = False, declineReason = declineReason result\<rparr>)"
  by (simp add: toResult_def decide_assign_def)


lemma ledger_claim:
  assumes "ledger_of (db w) oid = Unclaimed"
  shows "ledger_of (db (snd (claim oid w))) = (ledger_of (db w))(oid := Undecided (clock w))"
    "ledger_ok (db w) \<Longrightarrow> ledger_ok (db (snd (claim oid w)))"
proof -
  have n: "row_where (\<lambda>r. pa_orderId r = oid) (payment_authorizations (db w)) = None"
    using assms by (auto simp: ledger_of_def ledger_row_def split: option.splits if_splits)
  show "ledger_of (db (snd (claim oid w))) = (ledger_of (db w))(oid := Undecided (clock w))"
    by (rule ext) (use n in \<open>auto simp: run_claim assms ledger_of_def [of "db w\<lparr>payment_authorizations := _\<rparr>"]
        ledger_of_def [of "db w"] row_where_append ledger_row_def split: option.splits\<close>)
  show "ledger_ok (db w) \<Longrightarrow> ledger_ok (db (snd (claim oid w)))"
    using n by (auto simp: run_claim assms ledger_ok_def row_where_None)
qed

section \<open>The provider\<close>

text \<open>
  The contract every provider the source names offers: a request is answered by its idempotency key
  alone, so a repeated one gets the original answer.
\<close>

definition answers ::
    "(string \<Rightarrow> PaymentResult) \<Rightarrow> (order_event \<Rightarrow> string \<Rightarrow> (world, PaymentResult) app) \<Rightarrow> bool" where
  "answers psp ch \<longleftrightarrow> (\<forall>event key w.
     ch event key w = (Inr (psp key), w\<lparr>provider_calls := provider_calls w @ [key]\<rparr>))"

lemma charge_answers: "answers (\<lambda>_. \<lparr>authorized = True, declineReason = None\<rparr>) charge"
  by (simp add: answers_def charge_def)

definition decision :: "PaymentResult \<Rightarrow> PaymentResult" where
  "decision result = (if authorized result then \<lparr>authorized = True, declineReason = None\<rparr>
     else \<lparr>authorized = False, declineReason = declineReason result\<rparr>)"

lemma decision_simps [simp]: "decision (decision r) = decision r" "authorized (decision r) = authorized r"
  "decision (toResult row) = toResult row"
  by (simp_all add: decision_def toResult_def)

lemma run_authorize_charge:
  assumes "answers psp ch"
  shows "authorize_charge ch event w = (Inr (psp (ev_orderId event)),
    w\<lparr>provider_calls := provider_calls w @ [ev_orderId event],
      collectors := recordPaymentOutcome (if authorized (psp (ev_orderId event)) then Authorized else Declined)
        (collectors w),
      db := (db w)\<lparr>payment_authorizations := update_where (decide_guard (ev_orderId event))
        (decide_assign (psp (ev_orderId event))) (payment_authorizations (db w))\<rparr>\<rparr>)"
  using assms by (simp add: authorize_charge_def bind_app_def answers_def)

lemma authorize_charge_ledger:
  assumes "answers psp ch" and "\<exists>t. ledger_of (db w) (ev_orderId event) = Undecided t"
  shows "ledger_of (db (snd (authorize_charge ch event w))) =
    (ledger_of (db w))(ev_orderId event := Decided (decision (psp (ev_orderId event))))"
proof (rule ext)
  fix v
  show "ledger_of (db (snd (authorize_charge ch event w))) v =
    ((ledger_of (db w))(ev_orderId event := Decided (decision (psp (ev_orderId event))))) v"
    using assms(2)
    by (auto simp: run_authorize_charge [OF assms(1)] ledger_of_decide toResult_decide decision_def
        split: ledger.splits)
qed

lemma authorize_cases:
  assumes "ledger_ok (db w)" and "answers psp ch" and "oid = ev_orderId event"
  shows "case ledger_of (db w) oid of
      Decided result \<Rightarrow> fst (authorize ch event w) = Inr result \<and>
        db (snd (authorize ch event w)) = db w \<and>
        provider_calls (snd (authorize ch event w)) = provider_calls w
    | Undecided t \<Rightarrow>
        if t < clock w - 30000
        then fst (authorize ch event w) = Inr (psp oid) \<and>
          provider_calls (snd (authorize ch event w)) = provider_calls w @ [oid] \<and>
          ledger_of (db (snd (authorize ch event w))) = (ledger_of (db w))(oid := Decided (decision (psp oid)))
        else fst (authorize ch event w) = Inl (PaymentInFlightError oid) \<and>
          db (snd (authorize ch event w)) = db w \<and>
          provider_calls (snd (authorize ch event w)) = provider_calls w
    | Unclaimed \<Rightarrow> fst (authorize ch event w) = Inr (psp oid) \<and>
        provider_calls (snd (authorize ch event w)) = provider_calls w @ [oid] \<and>
        ledger_of (db (snd (authorize ch event w))) = (ledger_of (db w))(oid := Decided (decision (psp oid)))"
proof (cases "ledger_of (db w) oid")
  case Unclaimed
  have "authorize ch event w = authorize_charge ch event (snd (claim oid w))"
    using run_authorize_claim [OF assms(1), of oid] Unclaimed by (simp add: authorize_def bind_app_def assms(3))
  moreover have "provider_calls (snd (claim oid w)) = provider_calls w"
    by (simp add: run_claim Unclaimed)
  ultimately show ?thesis
    using authorize_charge_ledger [OF assms(2), of "snd (claim oid w)" event] ledger_claim(1) [OF Unclaimed]
    unfolding Unclaimed by (simp add: run_authorize_charge [OF assms(2)] flip: assms(3))
next
  case (Undecided t)
  show ?thesis
  proof (cases "t < clock w - 30000")
    case True
    let ?w = "w\<lparr>collectors := recordPaymentOutcome Takeover (collectors w)\<rparr>"
    have "authorize ch event w = authorize_charge ch event ?w"
      using run_authorize_claim [OF assms(1), of oid] Undecided True
      by (simp add: authorize_def bind_app_def assms(3))
    with authorize_charge_ledger [OF assms(2), of ?w event] Undecided True show ?thesis
      by (simp add: run_authorize_charge [OF assms(2)] assms(3))
  next
    case False
    with run_authorize_claim [OF assms(1), of oid] Undecided show ?thesis
      by (simp add: authorize_def bind_app_def assms(3))
  qed
next
  case (Decided result)
  with run_authorize_claim [OF assms(1), of oid] show ?thesis
    by (simp add: authorize_def bind_app_def assms(3))
qed

section \<open>Properties\<close>

text \<open>
  C23: \<open>authorize\<close> by the state of the ledger. An order nobody claimed is claimed and charged once; a
  stored decision is returned without a call to the provider; a claim of up to thirty seconds is
  somebody's live charge and is refused without a call; an older one is taken over, charged again with
  the order's id for an idempotency key. A charge leaves its decision in the ledger, and no other
  order's entry changes.
\<close>

theorem authorize_by_ledger:
  assumes "ledger_ok (db w)" and "answers psp ch" and "oid = ev_orderId event"
  shows "case ledger_of (db w) oid of
      Decided result \<Rightarrow> fst (authorize ch event w) = Inr result \<and>
        db (snd (authorize ch event w)) = db w \<and>
        provider_calls (snd (authorize ch event w)) = provider_calls w
    | Undecided t \<Rightarrow>
        if t < clock w - 30000
        then fst (authorize ch event w) = Inr (psp oid) \<and>
          provider_calls (snd (authorize ch event w)) = provider_calls w @ [oid] \<and>
          ledger_of (db (snd (authorize ch event w))) = (ledger_of (db w))(oid := Decided (decision (psp oid)))
        else fst (authorize ch event w) = Inl (PaymentInFlightError oid) \<and>
          db (snd (authorize ch event w)) = db w \<and>
          provider_calls (snd (authorize ch event w)) = provider_calls w
    | Unclaimed \<Rightarrow> fst (authorize ch event w) = Inr (psp oid) \<and>
        provider_calls (snd (authorize ch event w)) = provider_calls w @ [oid] \<and>
        ledger_of (db (snd (authorize ch event w))) = (ledger_of (db w))(oid := Decided (decision (psp oid)))"
  by (rule authorize_cases [OF assms])

theorem authorize_by_ledger_witness:
  "fst (authorize charge (InventoryReservedEvent ''o'' ''u'' (IsoString 0)) empty_world) =
     Inr \<lparr>authorized = True, declineReason = None\<rparr>"
proof -
  have "ledger_ok (db empty_world)" "ledger_of (db empty_world) ''o'' = Unclaimed"
    by (simp_all add: ledger_ok_def ledger_of_def empty_world_def empty_db_def)
  with authorize_by_ledger [OF _ charge_answers refl, of empty_world
      "InventoryReservedEvent ''o'' ''u'' (IsoString 0)"] show ?thesis by simp
qed




definition ledger_says :: "(string \<Rightarrow> PaymentResult) \<Rightarrow> database \<Rightarrow> bool" where
  "ledger_says psp d \<longleftrightarrow> ledger_ok d \<and>
     (\<forall>oid result. ledger_of d oid = Decided result \<longrightarrow> result = decision (psp oid))"

lemma ledger_says_cong: "payment_authorizations d' = payment_authorizations d \<Longrightarrow>
    ledger_says psp d' = ledger_says psp d"
  by (simp add: ledger_says_def ledger_ok_def ledger_of_def)







text \<open>The times at which a list of waits, one after the other, ends.\<close>

fun elapsed :: "nat \<Rightarrow> nat list \<Rightarrow> nat list" where
  "elapsed n [] = [n]"
| "elapsed n (d # ds) = n # elapsed (n + d) ds"

text \<open>
  A claim whose owner crashed is not taken over by its own message. Redelivered within 23 seconds
  of the claim, the message meets a live claim at every one of its retries, as the whole default
  schedule takes seven seconds and a claim is live for thirty, so it ends in the dead-letter queue with
  the order undecided: the takeover branch needs a delivery that comes later.
\<close>

theorem crashed_claim_outlives_retries:
  assumes "ledger_ok (db w)" and "ledger_of (db w) oid = Undecided t"
    and "clock w \<le> t + 23000" and "oid = ev_orderId event"
  shows "list_all (\<lambda>n. fst (authorize ch event (w\<lparr>clock := clock w + int n\<rparr>)) =
      Inl (PaymentInFlightError oid))
    (elapsed 0 (map fst (redeliveries (queue_name QPayment) DEFAULT_MAX_RETRIES DEFAULT_BASE_DELAY_MS
      (msg\<lparr>msg_attempts := None\<rparr>))))"
proof -
  have r: "fst (authorize ch event (w\<lparr>clock := clock w + int n\<rparr>)) = Inl (PaymentInFlightError oid)"
    if "n \<le> 7000" for n
    using run_authorize_claim [of "w\<lparr>clock := clock w + int n\<rparr>" oid] assms that
    by (simp add: authorize_def bind_app_def)
  have "map fst (redeliveries (queue_name QPayment) DEFAULT_MAX_RETRIES DEFAULT_BASE_DELAY_MS
      (msg\<lparr>msg_attempts := None\<rparr>)) = [1000, 2000, 4000]"
    using retry_facts [of "queue_name QPayment" DEFAULT_MAX_RETRIES DEFAULT_BASE_DELAY_MS msg]
    by (simp add: DEFAULT_MAX_RETRIES_def DEFAULT_BASE_DELAY_MS_def upt_rec comp_def)
  then show ?thesis using r [of 0] r [of 1000] r [of 3000] r [of 7000] by simp
qed

definition crashed_world :: world where
  "crashed_world = empty_world\<lparr>db := empty_db\<lparr>payment_authorizations := [\<lparr>pa_orderId = ''o'',
     pa_authorized = None, pa_declineReason = None, pa_createdAt = DateObj 0\<rparr>]\<rparr>\<rparr>"

theorem crashed_claim_outlives_retries_witness:
  "fst (authorize charge (InventoryReservedEvent ''o'' ''u'' (IsoString 0)) crashed_world) =
     Inl (PaymentInFlightError ''o'')"
proof -
  have "ledger_ok (db crashed_world)" "ledger_of (db crashed_world) ''o'' = Undecided 0"
    "clock crashed_world \<le> 0 + 23000"
    by (simp_all add: ledger_ok_def ledger_of_def ledger_row_def crashed_world_def empty_world_def)
  from crashed_claim_outlives_retries [OF this, of "InventoryReservedEvent ''o'' ''u'' (IsoString 0)" charge
      "\<lparr>msg_messageId = Some ''m'', msg_correlation = NoHeader, msg_attempts = None,
        msg_routingKey = routing_key KInventoryReserved,
        msg_content = InventoryReservedEvent ''o'' ''u'' (IsoString 0)\<rparr>"]
  have "list_all (\<lambda>n. fst (authorize charge (InventoryReservedEvent ''o'' ''u'' (IsoString 0))
        (crashed_world\<lparr>clock := clock crashed_world + int n\<rparr>)) = Inl (PaymentInFlightError ''o''))
      (elapsed 0 (map fst (redeliveries (queue_name QPayment) DEFAULT_MAX_RETRIES DEFAULT_BASE_DELAY_MS
        (\<lparr>msg_messageId = Some ''m'', msg_correlation = NoHeader, msg_attempts = None,
          msg_routingKey = routing_key KInventoryReserved,
          msg_content = InventoryReservedEvent ''o'' ''u'' (IsoString 0)\<rparr>\<lparr>msg_attempts := None\<rparr>))))"
    by simp
  moreover have "P 0" if "list_all P (elapsed 0 xs)" for P xs
    using that by (cases xs) simp_all
  ultimately show ?thesis by fastforce
qed

end
