(* ===== verification/Cache.thy ===== *)
theory Cache
  imports World "HOL-Library.AList"
begin

text \<open>
  \<open>CacheService\<close> of \<^verbatim>\<open>src/modules/cache/cache.service.ts\<close>: the fail-open cache-aside helper and
  its hit and miss counters. The Redis client is the server state of \<^verbatim>\<open>World\<close>: a command is
  answered when the server is up and rejects otherwise; an entry is gone once its time to live has
  passed. \<open>kv_store\<close> is the contract of the store and gives the coherence argument of cache-aside
  reads: entries that agree with the truth keep agreeing when every change of the truth drops the
  keys it changes.
\<close>

section \<open>The store\<close>

definition store_get :: "int \<Rightarrow> (string \<Rightarrow> (int \<times> 'v) option) \<Rightarrow> string \<Rightarrow> 'v option" where
  "store_get time m k =
     (case m k of None \<Rightarrow> None | Some (expires, v) \<Rightarrow> if time < expires then Some v else None)"

definition store_set ::
    "int \<Rightarrow> int \<Rightarrow> string \<Rightarrow> 'v \<Rightarrow> (string \<Rightarrow> (int \<times> 'v) option) \<Rightarrow> (string \<Rightarrow> (int \<times> 'v) option)" where
  "store_set time ttl k v m = m(k \<mapsto> (time + ttl * 1000, v))"

definition store_del ::
    "string list \<Rightarrow> (string \<Rightarrow> (int \<times> 'v) option) \<Rightarrow> (string \<Rightarrow> (int \<times> 'v) option)" where
  "store_del ks m = (\<lambda>k. if k \<in> set ks then None else m k)"

locale kv_store =
  fixes lookup :: "'m \<Rightarrow> 'k \<Rightarrow> 'v option"
    and put :: "'k \<Rightarrow> 'v \<Rightarrow> 'm \<Rightarrow> 'm"
    and drop_keys :: "'k list \<Rightarrow> 'm \<Rightarrow> 'm"
  assumes lookup_put: "lookup (put k v m) k' = (if k' = k then Some v else lookup m k')"
    and lookup_drop: "lookup (drop_keys ks m) k = (if k \<in> set ks then None else lookup m k)"
begin

text \<open>A fill with the current truth keeps a coherent cache coherent.\<close>

lemma coherent_put:
  assumes "\<And>k v. lookup m k = Some v \<Longrightarrow> truth k = Some v" and "truth k = Some v"
    and "lookup (put k v m) k' = Some v'"
  shows "truth k' = Some v'"
  using assms by (auto simp: lookup_put split: if_splits)

text \<open>So does a change of the truth that drops every key it changes.\<close>

lemma coherent_drop:
  assumes "\<And>k v. lookup m k = Some v \<Longrightarrow> truth k = Some v"
    and "\<And>k. k \<notin> set ks \<Longrightarrow> truth' k = truth k"
    and "lookup (drop_keys ks m) k' = Some v'"
  shows "truth' k' = Some v'"
  using assms by (auto simp: lookup_drop split: if_splits)

lemma dropped_misses: "k \<in> set ks \<Longrightarrow> lookup (drop_keys ks m) k = None"
  by (simp add: lookup_drop)

end

interpretation redis_kv:
  kv_store "store_get time" "store_set time (1 + int ttl)" store_del
  for time :: int and ttl :: nat
  by unfold_locales (auto simp: store_get_def store_set_def store_del_def)

text \<open>Time only removes entries: a later read finds what an earlier one found, or nothing.\<close>

lemma store_get_later:
  "time \<le> later \<Longrightarrow> store_get later m k = Some v \<Longrightarrow> store_get time m k = Some v"
  by (auto simp: store_get_def split: option.splits if_splits)

section \<open>Redis commands\<close>

definition redis_get :: "string \<Rightarrow> (world, json_text option) app" where
  "redis_get key = (\<lambda>w.
     if redis_up (redis w) then (Inr (store_get (clock w) (redis_store (redis w)) key), w)
     else (Inl (JsError ''Redis''), w))"

definition redis_set :: "string \<Rightarrow> json_text \<Rightarrow> int \<Rightarrow> (world, unit) app" where
  "redis_set key v ttl = (\<lambda>w.
     if redis_up (redis w) \<and> 0 < ttl
     then (Inr (), w\<lparr>redis := (redis w)\<lparr>redis_store :=
             store_set (clock w) ttl key v (redis_store (redis w))\<rparr>\<rparr>)
     else (Inl (JsError ''Redis''), w))"

definition redis_del :: "string list \<Rightarrow> (world, unit) app" where
  "redis_del ks = (\<lambda>w.
     if redis_up (redis w)
     then (Inr (), w\<lparr>redis := (redis w)\<lparr>redis_store := store_del ks (redis_store (redis w))\<rparr>\<rparr>)
     else (Inl (JsError ''Redis''), w))"

text \<open>\<open>JSON.parse\<close> of a stored text, and what \<open>JSON.stringify\<close> does to an order's dates.\<close>

definition json_parse :: "json_text \<Rightarrow> (world, json_text) app" where
  "json_parse t = (if t = NotJson then throw_app (JsError ''SyntaxError'') else return_app t)"

definition jsonify_order :: "OrderEntity \<Rightarrow> OrderEntity" where
  "jsonify_order ord = ord\<lparr>o_paymentInitiatedAt := map_option toISOString (o_paymentInitiatedAt ord),
     o_createdAt := toISOString (o_createdAt ord), o_updatedAt := toISOString (o_updatedAt ord)\<rparr>"

fun json_stringify :: "json_text \<Rightarrow> json_text" where
  "json_stringify (JsonOrder ord) = JsonOrder (jsonify_order ord)"
| "json_stringify (JsonOrders os) = JsonOrders (map jsonify_order os)"
| "json_stringify NotJson = NotJson"

section \<open>CacheService\<close>

definition keyClass :: "string \<Rightarrow> string" where
  "keyClass key = takeWhile (\<lambda>c. c \<noteq> CHR '':'') key"

record CacheClassStats =
  hits :: nat
  misses :: nat
  hitRate :: rat

definition withRate :: "nat \<Rightarrow> nat \<Rightarrow> CacheClassStats" where
  "withRate h m = \<lparr>hits = h, misses = m,
     hitRate = (if h + m = 0 then 0 else of_nat h / of_nat (h + m))\<rparr>"

definition cache_record :: "string \<Rightarrow> bool \<Rightarrow> (world, unit) app" where
  "cache_record key hit = modify_app (\<lambda>w.
     let cl = keyClass key;
         counts = (case map_of (cache_stats w) cl of None \<Rightarrow> (0, 0) | Some c \<Rightarrow> c);
         counts' = (if hit then (fst counts + 1, snd counts) else (fst counts, snd counts + 1))
     in w\<lparr>cache_stats := AList.update cl counts' (cache_stats w),
          collectors := recordCacheRequest cl hit (collectors w)\<rparr>)"

definition cache_get :: "string \<Rightarrow> (world, json_text option) app" where
  "cache_get key = bind_app (gets_app (\<lambda>w. cfg_cache_enabled (cfg w))) (\<lambda>enabled.
     if \<not> enabled then return_app None
     else try_catch
       (bind_app (redis_get key) (\<lambda>raw.
          then_app (cache_record key (raw \<noteq> None))
            (case raw of
               None \<Rightarrow> return_app None
             | Some text \<Rightarrow> bind_app (json_parse text) (\<lambda>v. return_app (Some v)))))
       (\<lambda>error. then_app (cache_record key False) (return_app None)))"

definition cache_set :: "string \<Rightarrow> json_text \<Rightarrow> int \<Rightarrow> (world, unit) app" where
  "cache_set key v ttlSeconds = bind_app (gets_app (\<lambda>w. cfg_cache_enabled (cfg w))) (\<lambda>enabled.
     if \<not> enabled then return_app ()
     else try_catch (redis_set key (json_stringify v) ttlSeconds) (\<lambda>error. return_app ()))"

definition cache_del :: "string list \<Rightarrow> (world, unit) app" where
  "cache_del keys = bind_app (gets_app (\<lambda>w. cfg_cache_enabled (cfg w))) (\<lambda>enabled.
     if \<not> enabled \<or> length keys = 0 then return_app ()
     else try_catch (redis_del keys) (\<lambda>error. return_app ()))"

text \<open>\<open>getStats\<close>: per key class in insertion order, and overall.\<close>

definition getStats :: "world \<Rightarrow> (string \<times> CacheClassStats) list \<times> CacheClassStats" where
  "getStats w =
     (map (\<lambda>(cl, h, m). (cl, withRate h m)) (cache_stats w),
      withRate (sum_list (map (\<lambda>(cl, h, m). h) (cache_stats w)))
               (sum_list (map (\<lambda>(cl, h, m). m) (cache_stats w))))"

section \<open>What the service guarantees\<close>

text \<open>
  Every operation returns; what it may touch is the store, the counters and the collectors.
\<close>

definition outside_cache :: "world \<Rightarrow> world" where
  "outside_cache w = w\<lparr>redis := \<lparr>redis_up = True, redis_store = (\<lambda>_. None)\<rparr>,
     collectors := \<lparr>prom = [], sink = None\<rparr>, cache_stats := []\<rparr>"

lemmas cache_defs = cache_get_def cache_set_def cache_del_def cache_record_def redis_get_def
  redis_set_def redis_del_def json_parse_def

lemma cache_record_run: "\<exists>w'. cache_record key hit w = (Inr (), w') \<and> outside_cache w' = outside_cache w \<and>
    redis w' = redis w"
  by (simp add: cache_record_def outside_cache_def Let_def)

lemma cache_get_run: "\<exists>v w'. cache_get key w = (Inr v, w') \<and> outside_cache w' = outside_cache w \<and>
    redis w' = redis w"
  by (auto simp: cache_defs app_defs outside_cache_def Let_def split: option.splits)

lemma cache_set_run: "\<exists>w'. cache_set key v ttl w = (Inr (), w') \<and> outside_cache w' = outside_cache w"
  by (auto simp: cache_defs app_defs outside_cache_def)

lemma cache_del_run: "\<exists>w'. cache_del ks w = (Inr (), w') \<and> outside_cache w' = outside_cache w"
  by (auto simp: cache_defs app_defs outside_cache_def)

lemma outside_cacheD:
  assumes "outside_cache w' = outside_cache w"
  shows "db w' = db w" "clock w' = clock w" "drawn w' = drawn w" "uuid_supply w' = uuid_supply w"
    "broker w' = broker w" "provider_calls w' = provider_calls w" "cls w' = cls w" "cfg w' = cfg w"
    "mails w' = mails w" "shortProductId w' = shortProductId w"
proof -
  have "f (outside_cache w') = f (outside_cache w)" for f :: "world \<Rightarrow> 'a" using assms by simp
  from this [of db] show "db w' = db w" by (simp add: outside_cache_def)
next
  show "clock w' = clock w" using arg_cong [OF assms, of clock] by (simp add: outside_cache_def)
  show "drawn w' = drawn w" using arg_cong [OF assms, of drawn] by (simp add: outside_cache_def)
  show "uuid_supply w' = uuid_supply w"
    using arg_cong [OF assms, of uuid_supply] by (simp add: outside_cache_def)
  show "broker w' = broker w" using arg_cong [OF assms, of broker] by (simp add: outside_cache_def)
  show "provider_calls w' = provider_calls w"
    using arg_cong [OF assms, of provider_calls] by (simp add: outside_cache_def)
  show "cls w' = cls w" using arg_cong [OF assms, of cls] by (simp add: outside_cache_def)
  show "cfg w' = cfg w" using arg_cong [OF assms, of cfg] by (simp add: outside_cache_def)
  show "mails w' = mails w" using arg_cong [OF assms, of mails] by (simp add: outside_cache_def)
  show "shortProductId w' = shortProductId w"
    using arg_cong [OF assms, of shortProductId] by (simp add: outside_cache_def)
qed

lemma same_outside_cache_get: "same outside_cache (cache_get key)"
  by (rule sameI) (metis cache_get_run snd_conv)

lemma same_outside_cache_set: "same outside_cache (cache_set key v ttl)"
  by (rule sameI) (metis cache_set_run snd_conv)

lemma same_outside_cache_del: "same outside_cache (cache_del ks)"
  by (rule sameI) (metis cache_del_run snd_conv)

lemma same_db_cache [same_rules]:
  "same (\<lambda>w. g (db w)) (cache_get key)" "same (\<lambda>w. g (db w)) (cache_set key v ttl)"
  "same (\<lambda>w. g (db w)) (cache_del ks)"
  by (auto intro!: sameI intro: arg_cong [where f = g]
    outside_cacheD(1) [OF sameD [OF same_outside_cache_get]]
    outside_cacheD(1) [OF sameD [OF same_outside_cache_set]]
    outside_cacheD(1) [OF sameD [OF same_outside_cache_del]])

lemma keeps_db_cache [keeps_rules]:
  "keeps (\<lambda>w. P (db w)) (cache_get key)" "keeps (\<lambda>w. P (db w)) (cache_set key v ttl)"
  "keeps (\<lambda>w. P (db w)) (cache_del ks)"
  by (auto intro: same_keeps same_db_cache)

text \<open>What the operations do when the cache is on and the server answers.\<close>

definition cache_on :: "world \<Rightarrow> bool" where
  "cache_on w \<longleftrightarrow> cfg_cache_enabled (cfg w) \<and> redis_up (redis w) \<and> 0 < cfg_cache_ttl (cfg w)"

abbreviation cached :: "world \<Rightarrow> string \<Rightarrow> json_text option" where
  "cached w k \<equiv> store_get (clock w) (redis_store (redis w)) k"

lemma cache_set_on:
  "cache_on w \<Longrightarrow> 0 < ttl \<Longrightarrow>
    cached (snd (cache_set key v ttl w)) k =
      (if k = key then Some (json_stringify v) else cached w k)"
  by (simp add: cache_defs app_defs cache_on_def store_get_def store_set_def)

lemma cache_del_on:
  "cache_on w \<Longrightarrow> cached (snd (cache_del ks w)) k = (if k \<in> set ks then None else cached w k)"
  by (cases "ks = []")
    (auto simp: cache_defs app_defs cache_on_def store_get_def store_del_def split: option.splits)

lemma cached_cache_get [simp]: "cached (snd (cache_get key w)) k = cached w k"
  using cache_get_run [of key w] by (auto dest: outside_cacheD)

lemma cache_get_on:
  assumes "cache_on w"
  shows "fst (cache_get key w) = Inr (case cached w key of Some NotJson \<Rightarrow> None | r \<Rightarrow> r)"
  using assms by (auto simp: cache_defs app_defs cache_on_def Let_def split: option.splits json_text.splits)

subsection \<open>The operations as functions of the state\<close>

text \<open>
  As they always return, the callers' proofs compute with the value read (\<open>cache_hit\<close>) and the
  states the operations leave (\<open>after_get\<close>, \<open>after_set\<close>, \<open>after_del\<close>).
\<close>

definition after_get :: "string \<Rightarrow> world \<Rightarrow> world" where
  "after_get key w = snd (cache_get key w)"

definition after_set :: "string \<Rightarrow> json_text \<Rightarrow> int \<Rightarrow> world \<Rightarrow> world" where
  "after_set key x ttl w = snd (cache_set key x ttl w)"

definition after_del :: "string list \<Rightarrow> world \<Rightarrow> world" where
  "after_del ks w = snd (cache_del ks w)"

definition cache_hit :: "string \<Rightarrow> world \<Rightarrow> json_text option" where
  "cache_hit key w =
     (if cfg_cache_enabled (cfg w) \<and> redis_up (redis w)
      then case cached w key of Some NotJson \<Rightarrow> None | r \<Rightarrow> r else None)"

lemma run_cache_get: "cache_get key w = (Inr (cache_hit key w), after_get key w)"
proof -
  have "fst (cache_get key w) = Inr (cache_hit key w)"
    by (auto simp: cache_defs app_defs cache_hit_def Let_def split: option.splits json_text.splits)
  then show ?thesis by (simp add: after_get_def prod_eq_iff)
qed

lemma run_cache_set: "cache_set key x ttl w = (Inr (), after_set key x ttl w)"
  using cache_set_run [of key x ttl w] by (auto simp: after_set_def)

lemma run_cache_del: "cache_del ks w = (Inr (), after_del ks w)"
  using cache_del_run [of ks w] by (auto simp: after_del_def)

lemma bind_cache_get [simp]: "bind_app (cache_get key) k w = k (cache_hit key w) (after_get key w)"
  by (simp add: bind_app_def run_cache_get)

lemma then_cache_set [simp]: "then_app (cache_set key x ttl) k w = k (after_set key x ttl w)"
  by (simp add: app_defs run_cache_set)

lemma then_cache_del [simp]: "then_app (cache_del ks) k w = k (after_del ks w)"
  by (simp add: app_defs run_cache_del)

lemmas outside_get = outside_cacheD [OF sameD [OF same_outside_cache_get], folded after_get_def]
lemmas outside_set = outside_cacheD [OF sameD [OF same_outside_cache_set], folded after_set_def]
lemmas outside_del = outside_cacheD [OF sameD [OF same_outside_cache_del], folded after_del_def]

declare outside_get [simp] outside_set [simp] outside_del [simp]

lemma redis_after_get [simp]: "redis (after_get key w) = redis w"
  using cache_get_run [of key w] by (auto simp: after_get_def)

lemma redis_after_set: "redis (after_set key x ttl w) =
    (if cfg_cache_enabled (cfg w) \<and> redis_up (redis w) \<and> 0 < ttl
     then (redis w)\<lparr>redis_store := store_set (clock w) ttl key (json_stringify x) (redis_store (redis w))\<rparr>
     else redis w)"
  by (simp add: after_set_def cache_defs app_defs)

lemma redis_after_del: "redis (after_del ks w) =
    (if cfg_cache_enabled (cfg w) \<and> redis_up (redis w)
     then (redis w)\<lparr>redis_store := store_del ks (redis_store (redis w))\<rparr> else redis w)"
  by (cases "ks = []") (auto simp: after_del_def cache_defs app_defs store_del_def)

section \<open>Properties\<close>

text \<open>
  the cache fails open. Whether the server is up or down, whatever is stored under the key,
  with the cache enabled or not, \<open>get\<close>, \<open>set\<close> and \<open>del\<close> return, and the database, the clock, the
  broker and the identifiers drawn are as before; with the server down a \<open>get\<close> is a miss.
\<close>

theorem cache_fails_open:
  "\<exists>v wg ws wd. cache_get key w = (Inr v, wg) \<and> cache_set key x ttl w = (Inr (), ws) \<and>
     cache_del ks w = (Inr (), wd) \<and>
     outside_cache wg = outside_cache w \<and> outside_cache ws = outside_cache w \<and>
     outside_cache wd = outside_cache w \<and> (redis_up (redis w) \<or> v = None)"
proof -
  obtain v wg where g: "cache_get key w = (Inr v, wg)" "outside_cache wg = outside_cache w"
    using cache_get_run by blast
  obtain ws where s: "cache_set key x ttl w = (Inr (), ws)" "outside_cache ws = outside_cache w"
    using cache_set_run by blast
  obtain wd where d: "cache_del ks w = (Inr (), wd)" "outside_cache wd = outside_cache w"
    using cache_del_run by blast
  have "redis_up (redis w) \<or> v = None"
    using g(1) by (auto simp: cache_defs app_defs split: if_splits)
  with g s d show ?thesis by blast
qed

text \<open>
  a value set with a positive time to live is what the next \<open>get\<close> of its key returns, as its
  JSON text; a dropped key misses, and no other key is affected by either.
\<close>

theorem cache_set_get_del:
  assumes "cache_on w" and "0 < ttl" and "x \<noteq> NotJson"
  shows "fst (cache_get key (snd (cache_set key x ttl w))) = Inr (Some (json_stringify x)) \<and>
    fst (cache_get key (snd (cache_del [key] w))) = Inr None \<and>
    (k \<noteq> key \<longrightarrow> cached (snd (cache_set key x ttl w)) k = cached w k \<and>
                 cached (snd (cache_del [key] w)) k = cached w k)"
proof -
  have "cache_on (snd (cache_set key x ttl w))" "cache_on (snd (cache_del [key] w))"
    using assms by (simp_all add: cache_on_def cache_defs app_defs)
  moreover have "json_stringify x \<noteq> NotJson" using assms(3) by (cases x) auto
  ultimately show ?thesis using assms(1,2)
    by (simp add: cache_get_on cache_set_on cache_del_on split: json_text.splits)
qed

theorem cache_set_get_del_witness:
  "fst (cache_get ''k'' (snd (cache_set ''k'' (JsonOrders []) 60 empty_world))) =
     Inr (Some (JsonOrders []))"
proof -
  have "cache_on empty_world" by (simp add: cache_on_def empty_world_def)
  from cache_set_get_del [OF this, of 60 "JsonOrders []" "''k''"] show ?thesis by simp
qed

text \<open>The counts of one key class.\<close>

definition class_counts :: "world \<Rightarrow> string \<Rightarrow> nat \<times> nat" where
  "class_counts w cl = (case map_of (cache_stats w) cl of None \<Rightarrow> (0, 0) | Some c \<Rightarrow> c)"

text \<open>
  reading a key whose stored text is not JSON counts it twice, once as a hit (the key was found)
  and once more as a miss (its text did not parse), although the caller sees one miss; every other
  enabled read is counted once.
\<close>

theorem cache_get_counts:
  assumes "cfg_cache_enabled (cfg w)" and "class_counts w (keyClass key) = (h, m)"
  shows "class_counts (snd (cache_get key w)) (keyClass key) =
    (if \<not> redis_up (redis w) \<or> cached w key = None then (h, m + 1)
     else if cached w key = Some NotJson then (h + 1, m + 1) else (h + 1, m))"
  using assms
  by (auto simp: cache_defs app_defs class_counts_def Let_def update_conv' split: option.splits)

theorem cache_get_counts_witness:
  "class_counts (snd (cache_get ''order:1''
      (empty_world\<lparr>redis := \<lparr>redis_up = True, redis_store = [''order:1'' \<mapsto> (9, NotJson)]\<rparr>\<rparr>)))
    ''order'' = (1, 1)"
proof -
  let ?w = "empty_world\<lparr>redis := \<lparr>redis_up = True, redis_store = [''order:1'' \<mapsto> (9, NotJson)]\<rparr>\<rparr>"
  have k: "keyClass ''order:1'' = ''order''" by (simp add: keyClass_def)
  have "cfg_cache_enabled (cfg ?w)" "class_counts ?w (keyClass ''order:1'') = (0, 0)"
    by (simp_all add: empty_world_def class_counts_def)
  from cache_get_counts [OF this] show ?thesis
    by (simp add: k empty_world_def store_get_def)
qed

lemma withRate_bounds: "0 \<le> hitRate (withRate h m) \<and> hitRate (withRate h m) \<le> 1"
  by (simp add: withRate_def divide_simps)

text \<open>
  the hit rate reported by \<open>getStats\<close>, per class and overall, lies between 0 and 1, and with no
  reads at all it is 0.
\<close>

theorem hit_rate_bounds:
  "list_all (\<lambda>(cl, st). 0 \<le> hitRate st \<and> hitRate st \<le> 1) (fst (getStats w)) \<and>
   0 \<le> hitRate (snd (getStats w)) \<and> hitRate (snd (getStats w)) \<le> 1 \<and>
   hitRate (withRate 0 0) = 0"
  using withRate_bounds by (auto simp: getStats_def list_all_iff withRate_def [of 0 0])

end
