(* ===== verification/Order_State_Machine.thy ===== *)
theory Order_State_Machine
  imports Entities
begin

text \<open>
  The order lifecycle of \<^verbatim>\<open>src/modules/orders/order-state-machine.ts\<close>, the single source of
  truth for the legal status transitions. \<open>ranked_machine\<close> is the contract a lifecycle without
  cycles satisfies (every transition raises a rank), with what its clients use: no status is
  visited twice, a run has bounded length, and a status that is never left stays.
\<close>

section \<open>The table of transitions\<close>

fun ORDER_TRANSITIONS :: "OrderStatus \<Rightarrow> OrderStatus list" where
  "ORDER_TRANSITIONS PENDING = [RESERVED, FAILED, CANCELLED]"
| "ORDER_TRANSITIONS RESERVED = [PAID, FAILED, CANCELLED]"
| "ORDER_TRANSITIONS PAID = [COMPLETED]"
| "ORDER_TRANSITIONS COMPLETED = []"
| "ORDER_TRANSITIONS FAILED = []"
| "ORDER_TRANSITIONS CANCELLED = []"

definition isTransitionAllowed :: "OrderStatus \<Rightarrow> OrderStatus \<Rightarrow> bool" where
  "isTransitionAllowed from_status to_status \<longleftrightarrow> to_status \<in> set (ORDER_TRANSITIONS from_status)"

definition isTerminalStatus :: "OrderStatus \<Rightarrow> bool" where
  "isTerminalStatus status \<longleftrightarrow> length (ORDER_TRANSITIONS status) = 0"

lemma isTerminalStatus_simps [simp]:
  "isTerminalStatus PENDING \<longleftrightarrow> False" "isTerminalStatus RESERVED \<longleftrightarrow> False"
  "isTerminalStatus PAID \<longleftrightarrow> False" "isTerminalStatus COMPLETED \<longleftrightarrow> True"
  "isTerminalStatus FAILED \<longleftrightarrow> True" "isTerminalStatus CANCELLED \<longleftrightarrow> True"
  by (simp_all add: isTerminalStatus_def)

lemma isTransitionAllowed_simps [simp]:
  "isTransitionAllowed PENDING s \<longleftrightarrow> s = RESERVED \<or> s = FAILED \<or> s = CANCELLED"
  "isTransitionAllowed RESERVED s \<longleftrightarrow> s = PAID \<or> s = FAILED \<or> s = CANCELLED"
  "isTransitionAllowed PAID s \<longleftrightarrow> s = COMPLETED"
  "isTransitionAllowed COMPLETED s \<longleftrightarrow> False"
  "isTransitionAllowed FAILED s \<longleftrightarrow> False"
  "isTransitionAllowed CANCELLED s \<longleftrightarrow> False"
  by (auto simp: isTransitionAllowed_def)

lemma terminal_not_allowed: "isTerminalStatus s \<Longrightarrow> \<not> isTransitionAllowed s t"
  by (simp add: isTerminalStatus_def isTransitionAllowed_def)

lemma terminal_iff_stuck: "isTerminalStatus s \<longleftrightarrow> (\<forall>t. \<not> isTransitionAllowed s t)"
  by (cases s) auto

section \<open>Runs\<close>

text \<open>\<open>is_run next s ts\<close>: from \<open>s\<close>, the statuses \<open>ts\<close> are taken one after the other.\<close>

fun is_run :: "('s \<Rightarrow> 's list) \<Rightarrow> 's \<Rightarrow> 's list \<Rightarrow> bool" where
  "is_run nxt s [] \<longleftrightarrow> True"
| "is_run nxt s (t # ts) \<longleftrightarrow> t \<in> set (nxt s) \<and> is_run nxt t ts"

locale ranked_machine =
  fixes nxt :: "'s \<Rightarrow> 's list" and rank :: "'s \<Rightarrow> nat" and top :: nat
  assumes rank_step: "t \<in> set (nxt s) \<Longrightarrow> rank s < rank t"
    and rank_top: "rank s \<le> top"
begin

lemma run_rank: "is_run nxt s ts \<Longrightarrow> t \<in> set ts \<Longrightarrow> rank s < rank t"
proof (induction ts arbitrary: s)
  case (Cons u ts)
  then show ?case using rank_step [of u s] by fastforce
qed simp

lemma run_distinct: "is_run nxt s ts \<Longrightarrow> distinct (s # ts)"
proof (induction ts arbitrary: s)
  case (Cons u ts)
  then have "distinct (u # ts)" by (metis is_run.simps(2))
  moreover have "s \<notin> set (u # ts)" using run_rank [OF Cons.prems] by fastforce
  ultimately show ?case by simp
qed simp

lemma run_length: "is_run nxt s ts \<Longrightarrow> rank s + length ts \<le> top"
proof (induction ts arbitrary: s)
  case Nil
  show ?case using rank_top by simp
next
  case (Cons u ts)
  then show ?case using rank_step [of u s] by fastforce
qed

lemma stuck_run: "nxt s = [] \<Longrightarrow> is_run nxt s ts \<Longrightarrow> ts = []"
  by (cases ts) auto

text \<open>From any status, a status with no way out is reached.\<close>

lemma run_to_end: "\<exists>ts. is_run nxt s ts \<and> nxt (last (s # ts)) = []"
proof (induction "top - rank s" arbitrary: s rule: less_induct)
  case less
  show ?case
  proof (cases "nxt s")
    case Nil
    then show ?thesis by (intro exI [of _ "[]"]) simp
  next
    case (Cons t rest)
    then have t: "t \<in> set (nxt s)" by simp
    then have "top - rank t < top - rank s" using rank_step [OF t] rank_top [of t] by linarith
    then obtain ts where "is_run nxt t ts" "nxt (last (t # ts)) = []" using less by blast
    with t show ?thesis by (intro exI [of _ "t # ts"]) auto
  qed
qed

end

fun status_rank :: "OrderStatus \<Rightarrow> nat" where
  "status_rank PENDING = 0"
| "status_rank RESERVED = 1"
| "status_rank PAID = 2"
| "status_rank COMPLETED = 3"
| "status_rank FAILED = 3"
| "status_rank CANCELLED = 3"

interpretation order_fsm: ranked_machine ORDER_TRANSITIONS status_rank 3
proof
  show "status_rank s < status_rank t" if "t \<in> set (ORDER_TRANSITIONS s)" for s t
    using that by (cases s) auto
  show "status_rank s \<le> 3" for s
    by (cases s) simp_all
qed

text \<open>The legal runs in full: there are few enough to list.\<close>

lemma runs_from_terminal: "isTerminalStatus s \<Longrightarrow> is_run ORDER_TRANSITIONS s ts \<longleftrightarrow> ts = []"
  using order_fsm.stuck_run [of s ts] by (auto simp: isTerminalStatus_def)

lemma runs_from_PAID: "is_run ORDER_TRANSITIONS PAID ts \<longleftrightarrow> ts = [] \<or> ts = [COMPLETED]"
  by (cases ts) (auto simp: runs_from_terminal)

lemma runs_from_RESERVED:
  "is_run ORDER_TRANSITIONS RESERVED ts \<longleftrightarrow>
     ts = [] \<or> ts = [PAID] \<or> ts = [PAID, COMPLETED] \<or> ts = [FAILED] \<or> ts = [CANCELLED]"
proof (cases ts)
  case (Cons t us)
  then show ?thesis by (auto simp: runs_from_PAID runs_from_terminal)
qed simp

lemma runs_from_PENDING:
  "is_run ORDER_TRANSITIONS PENDING ts \<longleftrightarrow>
     ts = [] \<or> ts = [FAILED] \<or> ts = [CANCELLED] \<or>
     (\<exists>us. ts = RESERVED # us \<and> is_run ORDER_TRANSITIONS RESERVED us)"
proof (cases ts)
  case (Cons t us)
  then show ?thesis by (cases us) auto
qed simp

text \<open>
  an order that runs through the state machine from \<open>PENDING\<close> never visits a status twice,
  makes at most three transitions, and if it ends \<open>COMPLETED\<close> it went through \<open>RESERVED\<close> and
  \<open>PAID\<close>, in that order and nothing else.
\<close>

theorem lifecycle_runs:
  assumes "is_run ORDER_TRANSITIONS PENDING ts"
  shows "distinct (PENDING # ts) \<and> length ts \<le> 3 \<and>
    (last (PENDING # ts) = COMPLETED \<longrightarrow> ts = [RESERVED, PAID, COMPLETED])"
proof (intro conjI impI)
  show "distinct (PENDING # ts)" using assms by (rule order_fsm.run_distinct)
  show "length ts \<le> 3" using order_fsm.run_length [OF assms] by simp
  show "ts = [RESERVED, PAID, COMPLETED]" if "last (PENDING # ts) = COMPLETED"
    using assms that by (auto simp: runs_from_PENDING runs_from_RESERVED)
qed

theorem lifecycle_runs_witness:
  "distinct [PENDING, RESERVED, PAID, COMPLETED] \<and> length [RESERVED, PAID, COMPLETED] \<le> 3"
  using lifecycle_runs [of "[RESERVED, PAID, COMPLETED]"] by simp

text \<open>
  the terminal statuses are exactly \<open>COMPLETED\<close>, \<open>FAILED\<close> and \<open>CANCELLED\<close>; they are
  exactly the statuses no transition leaves, and from every status a terminal one is reached.
\<close>

theorem terminal_statuses:
  "{s. isTerminalStatus s} = {COMPLETED, FAILED, CANCELLED} \<and>
   {s. isTerminalStatus s} = {s. {t. isTransitionAllowed s t} = {}} \<and>
   (\<exists>ts. is_run ORDER_TRANSITIONS status ts \<and> isTerminalStatus (last (status # ts)))"
proof (intro conjI)
  show "{s. isTerminalStatus s} = {COMPLETED, FAILED, CANCELLED}"
    by (auto elim: isTerminalStatus_def [THEN iffD1, elim_format] ORDER_TRANSITIONS.elims)
  show "{s. isTerminalStatus s} = {s. {t. isTransitionAllowed s t} = {}}"
    by (auto simp: terminal_iff_stuck)
  show "\<exists>ts. is_run ORDER_TRANSITIONS status ts \<and> isTerminalStatus (last (status # ts))"
    using order_fsm.run_to_end [of status] by (simp add: isTerminalStatus_def)
qed

end
