(* ===== verification/Products.thy ===== *)
theory Products
  imports World "HOL-Library.List_Lexorder" "HOL-Library.Multiset"
begin

text \<open>
  \<open>ProductsService\<close> of \<^verbatim>\<open>src/modules/products/products.service.ts\<close> and its response DTO: the
  catalog reads, \<open>reserveStock\<close> (one conditional \<open>UPDATE\<close> per line, compensated when a line is
  short) and \<open>restoreStock\<close>.

  The abstract view of the products table is the stock of each product, \<open>stock_of\<close>; \<open>demand\<close> adds up
  what a list of lines asks of a product. \<open>stock_provider\<close> states what the callers of the service
  rely on, reservation being all or nothing, and is interpreted on the service's model.
\<close>

type_synonym StockLine = OrderCreatedEventLine

section \<open>Catalog reads\<close>

text \<open>
  \<open>ORDER BY name\<close> compares names by the collation of the database, a parameter here.
\<close>

definition list_products :: "(string \<Rightarrow> 'k::linorder) \<Rightarrow> database \<Rightarrow> ProductEntity list" where
  "list_products collate d =
     sort_key (\<lambda>r. collate (p_name r)) (rows_where (\<lambda>r. p_active r = True) (products d))"

definition findByIds :: "uuid list \<Rightarrow> database \<Rightarrow> ProductEntity list" where
  "findByIds ids d =
     (if length ids = 0 then []
      else rows_where (\<lambda>r. p_id r \<in> set ids \<and> p_active r = True) (products d))"

record ProductResponseDTO =
  pd_id :: uuid
  pd_name :: string
  pd_sku :: string
  pd_stock :: int

definition toProductResponseDTO :: "ProductEntity \<Rightarrow> ProductResponseDTO" where
  "toProductResponseDTO product =
     \<lparr>pd_id = p_id product, pd_name = p_name product, pd_sku = p_sku product,
      pd_stock = p_stock product\<rparr>"

definition products_controller_list ::
    "(string \<Rightarrow> 'k::linorder) \<Rightarrow> database \<Rightarrow> ProductResponseDTO list" where
  "products_controller_list collate d = map toProductResponseDTO (list_products collate d)"

section \<open>Stock updates\<close>

text \<open>\<open>UPDATE products SET stock = f(stock), updatedAt = now WHERE p\<close>, with the row count.\<close>

definition update_stock :: "(ProductEntity \<Rightarrow> bool) \<Rightarrow> (int \<Rightarrow> int) \<Rightarrow> (world, nat) app" where
  "update_stock p f = (\<lambda>w.
     if list_ex (\<lambda>r. p r \<and> \<not> int4 (f (p_stock r))) (products (db w)) then (Inl out_of_range, w)
     else (Inr (affected p (products (db w))),
           w\<lparr>db := (db w)\<lparr>products := update_where p
               (\<lambda>r. r\<lparr>p_stock := f (p_stock r), p_updatedAt := DateObj (clock w)\<rparr>)
               (products (db w))\<rparr>\<rparr>))"

definition restore_line :: "StockLine \<Rightarrow> (world, unit) app" where
  "restore_line line =
     bind_app (update_stock (\<lambda>r. p_id r = l_productId line) (\<lambda>s. s + l_quantity line))
       (\<lambda>_. return_app ())"

definition restoreStock :: "StockLine list \<Rightarrow> (world, unit) app" where
  "restoreStock lines = for_each restore_line lines"

text \<open>
  The loop of \<open>reserveStock\<close>; \<open>applied\<close> are the lines already decremented. The \<open>catch\<close> block
  restores them before it rethrows. A statement the database itself refused has aborted the
  transaction the loop runs in, so the first restoring statement is refused too (25P02) and that
  error leaves the block instead.
\<close>

definition reserve_catch :: "StockLine list \<Rightarrow> exn \<Rightarrow> (world, unit) app" where
  "reserve_catch applied error =
     then_app
       (when_app (length applied > 0)
         (case error of QueryFailedError _ _ \<Rightarrow> throw_app tx_aborted | _ \<Rightarrow> restoreStock applied))
       (throw_app error)"

fun reserve_loop :: "StockLine list \<Rightarrow> StockLine list \<Rightarrow> (world, unit) app" where
  "reserve_loop applied [] = return_app ()"
| "reserve_loop applied (line # lines) = (\<lambda>w.
     case update_stock (\<lambda>r. p_id r = l_productId line \<and> p_stock r \<ge> l_quantity line)
            (\<lambda>s. s - l_quantity line) w of
       (Inl error, w') \<Rightarrow> reserve_catch applied error w'
     | (Inr n, w') \<Rightarrow>
         if n = 0
         then reserve_catch applied (InsufficientStockError (l_productId line)) w'
         else reserve_loop (applied @ [line]) lines w')"

definition reserveStock :: "StockLine list \<Rightarrow> (world, unit) app" where
  "reserveStock lines = reserve_loop [] lines"

section \<open>The abstract view\<close>

definition stock_of :: "database \<Rightarrow> uuid \<Rightarrow> int option" where
  "stock_of d pid = map_option p_stock (row_where (\<lambda>r. p_id r = pid) (products d))"

fun demand :: "StockLine list \<Rightarrow> uuid \<Rightarrow> int" where
  "demand [] pid = 0"
| "demand (l # ls) pid = (if l_productId l = pid then l_quantity l else 0) + demand ls pid"

definition take_stock :: "(uuid \<Rightarrow> int option) \<Rightarrow> StockLine list \<Rightarrow> (uuid \<Rightarrow> int option)" where
  "take_stock st ls = (\<lambda>pid. map_option (\<lambda>s. s - demand ls pid) (st pid))"

definition give_stock :: "(uuid \<Rightarrow> int option) \<Rightarrow> StockLine list \<Rightarrow> (uuid \<Rightarrow> int option)" where
  "give_stock st ls = (\<lambda>pid. map_option (\<lambda>s. s + demand ls pid) (st pid))"

text \<open>Every product asked for exists and has what all its lines together ask of it.\<close>

definition enough_stock :: "(uuid \<Rightarrow> int option) \<Rightarrow> StockLine list \<Rightarrow> bool" where
  "enough_stock st ls \<longleftrightarrow>
     list_all (\<lambda>l. case st (l_productId l) of None \<Rightarrow> False
                   | Some s \<Rightarrow> demand ls (l_productId l) \<le> s) ls"

text \<open>Quantities are positive: \<open>SetCartItemDTO\<close> admits no other.\<close>

definition lines_ok :: "StockLine list \<Rightarrow> bool" where
  "lines_ok ls \<longleftrightarrow> list_all (\<lambda>l. 0 < l_quantity l) ls"

text \<open>The invariant of the products table: ids are unique, stock is a non-negative \<open>integer\<close>.\<close>

definition products_ok :: "database \<Rightarrow> bool" where
  "products_ok d \<longleftrightarrow> distinct (map p_id (products d)) \<and>
     list_all (\<lambda>r. 0 \<le> p_stock r \<and> int4 (p_stock r)) (products d)"

lemma lines_ok_simps [simp]:
  "lines_ok []" "lines_ok (l # ls) \<longleftrightarrow> 0 < l_quantity l \<and> lines_ok ls"
  by (simp_all add: lines_ok_def)

lemma lines_ok_append [simp]: "lines_ok (xs @ ys) \<longleftrightarrow> lines_ok xs \<and> lines_ok ys"
  by (simp add: lines_ok_def)

lemma demand_append [simp]: "demand (xs @ ys) pid = demand xs pid + demand ys pid"
  by (induction xs) simp_all

lemma demand_nonneg: "lines_ok ls \<Longrightarrow> 0 \<le> demand ls pid"
  by (induction ls) auto

lemma demand_other: "pid \<notin> l_productId ` set ls \<Longrightarrow> demand ls pid = 0"
  by (induction ls) auto

lemma take_give [simp]: "give_stock (take_stock st ls) ls = st"
  by (rule ext) (simp add: give_stock_def take_stock_def option.map_comp comp_def option.map_ident)

lemma take_stock_simps:
  "take_stock st [] = st"
  "take_stock st (xs @ ys) = take_stock (take_stock st xs) ys"
  by (rule ext, simp add: take_stock_def option.map_comp comp_def option.map_ident algebra_simps)+

lemma products_okD:
  assumes "products_ok d" and "stock_of d pid = Some s"
  shows "0 \<le> s" and "int4 s"
  using assms by (auto simp: products_ok_def stock_of_def list_all_iff dest: row_where_Some)

section \<open>One update\<close>

lemma stock_of_update_where:
  assumes "distinct (map p_id (products d))"
  shows "stock_of (d\<lparr>products := update_where (\<lambda>r. p_id r = pid \<and> q (p_stock r))
      (\<lambda>r. r\<lparr>p_stock := f (p_stock r), p_updatedAt := t\<rparr>) (products d)\<rparr>) =
    (\<lambda>v. if v = pid then map_option (\<lambda>s. if q s then f s else s) (stock_of d v) else stock_of d v)"
proof (rule ext)
  fix v
  let ?p = "\<lambda>r. p_id r = pid \<and> q (p_stock r)"
  let ?f = "\<lambda>r. r\<lparr>p_stock := f (p_stock r), p_updatedAt := t\<rparr>"
  have "row_where (\<lambda>r. p_id r = v) (update_where ?p ?f (products d)) =
      map_option (\<lambda>r. if ?p r then ?f r else r) (row_where (\<lambda>r. p_id r = v) (products d))"
    by (rule row_where_update_key) simp
  then show "stock_of (d\<lparr>products := update_where ?p ?f (products d)\<rparr>) v =
      (if v = pid then map_option (\<lambda>s. if q s then f s else s) (stock_of d v) else stock_of d v)"
    by (auto simp: stock_of_def dest!: row_where_Some split: option.splits)
      (auto simp: map_option_case split: option.splits dest!: row_where_Some)
qed

lemma affected_stock:
  assumes "distinct (map p_id (products d))"
  shows "affected (\<lambda>r. p_id r = pid \<and> q (p_stock r)) (products d) =
    (case stock_of d pid of None \<Rightarrow> 0 | Some s \<Rightarrow> if q s then 1 else 0)"
proof -
  have "affected (\<lambda>r. p_id r = pid \<and> q (p_stock r)) t =
      (case map_option p_stock (row_where (\<lambda>r. p_id r = pid) t) of None \<Rightarrow> 0
       | Some s \<Rightarrow> if q s then 1 else 0)" if "distinct (map p_id t)" for t
    using that
  proof (induction t)
    case (Cons r t)
    have "p_id r = pid \<Longrightarrow> affected (\<lambda>r. p_id r = pid \<and> q (p_stock r)) t = 0"
      using Cons.prems by (auto simp: affected_0 image_iff)
    with Cons show ?case by auto
  qed simp
  with assms show ?thesis by (simp add: stock_of_def)
qed

text \<open>The result of one stock update on a table with unique ids, by the stock of its product.\<close>

lemma update_stock_run:
  fixes w :: world
  assumes ok: "products_ok (db w)"
    and range: "\<And>s. stock_of (db w) pid = Some s \<Longrightarrow> q s \<Longrightarrow> 0 \<le> f s \<and> int4 (f s)"
  defines "n \<equiv> (case stock_of (db w) pid of None \<Rightarrow> 0 | Some s \<Rightarrow> if q s then (1::nat) else 0)"
  shows "\<exists>ps.
    update_stock (\<lambda>r. p_id r = pid \<and> q (p_stock r)) f w =
       (Inr n, w\<lparr>db := (db w)\<lparr>products := ps\<rparr>\<rparr>) \<and>
    products_ok ((db w)\<lparr>products := ps\<rparr>) \<and>
    stock_of ((db w)\<lparr>products := ps\<rparr>) = (\<lambda>v. if v = pid
       then map_option (\<lambda>s. if q s then f s else s) (stock_of (db w) v) else stock_of (db w) v)"
proof (intro exI conjI)
  let ?p = "\<lambda>r. p_id r = pid \<and> q (p_stock r)"
  let ?f = "\<lambda>r. r\<lparr>p_stock := f (p_stock r), p_updatedAt := DateObj (clock w)\<rparr>"
  let ?ps = "update_where ?p ?f (products (db w))"
  have dist: "distinct (map p_id (products (db w)))" using ok by (simp add: products_ok_def)
  have in_range: "0 \<le> f (p_stock r) \<and> int4 (f (p_stock r))" if "r \<in> set (products (db w))" "?p r" for r
    using that range [of "p_stock r"] row_where_key [OF dist that(1)] by (auto simp: stock_of_def)
  then show "update_stock ?p f w = (Inr n, w\<lparr>db := (db w)\<lparr>products := ?ps\<rparr>\<rparr>)"
    unfolding n_def affected_stock [OF dist, symmetric]
    by (auto simp: update_stock_def list_ex_iff)
  show "products_ok ((db w)\<lparr>products := ?ps\<rparr>)"
    using ok in_range by (auto simp: products_ok_def list_all_iff set_update_where)
  show "stock_of ((db w)\<lparr>products := ?ps\<rparr>) = (\<lambda>v. if v = pid
       then map_option (\<lambda>s. if q s then f s else s) (stock_of (db w) v) else stock_of (db w) v)"
    by (rule stock_of_update_where [OF dist])
qed

section \<open>Reservation\<close>

definition with_products :: "world \<Rightarrow> ProductEntity table \<Rightarrow> world" where
  "with_products w ps = w\<lparr>db := (db w)\<lparr>products := ps\<rparr>\<rparr>"

lemma with_products_twice [simp]: "with_products (with_products w ps) qs = with_products w qs"
  by (simp add: with_products_def)

lemma db_with_products [simp]: "db (with_products w ps) = (db w)\<lparr>products := ps\<rparr>"
  by (simp add: with_products_def)

definition fits :: "(uuid \<Rightarrow> int option) \<Rightarrow> StockLine list \<Rightarrow> bool" where
  "fits st ls \<longleftrightarrow> (\<forall>pid s. st pid = Some s \<longrightarrow> int4 (s + demand ls pid))"

lemma int4_below: "int4 n \<Longrightarrow> 0 \<le> m \<Longrightarrow> m \<le> n \<Longrightarrow> int4 m"
  by (simp add: int4_def)

lemma fitsD: "fits st ls \<Longrightarrow> st pid = Some s \<Longrightarrow> int4 (s + demand ls pid)"
  by (simp add: fits_def)

lemma fits_give:
  assumes "fits st (l # ls)"
  shows "fits (give_stock st [l]) ls"
  unfolding fits_def
proof (intro allI impI)
  fix pid s
  assume "give_stock st [l] pid = Some s"
  then obtain z where "st pid = Some z" "s = z + demand [l] pid"
    by (auto simp: give_stock_def)
  with fitsD [OF assms this(1)] show "int4 (s + demand ls pid)"
    by (simp add: add.assoc)
qed

lemma fits_one: "fits st (l # ls) \<Longrightarrow> lines_ok (l # ls) \<Longrightarrow> st (l_productId l) = Some s \<Longrightarrow>
    0 \<le> s \<Longrightarrow> int4 (s + l_quantity l)"
  using demand_nonneg [of ls "l_productId l"] fitsD [of st "l # ls" "l_productId l" s]
  by (auto intro: int4_below)

lemma restore_line_run:
  assumes ok: "products_ok (db w)" and q: "0 < l_quantity l"
    and fit: "\<And>s. stock_of (db w) (l_productId l) = Some s \<Longrightarrow> int4 (s + l_quantity l)"
  obtains ps where "restore_line l w = (Inr (), with_products w ps)"
    "products_ok (db (with_products w ps))"
    "stock_of (db (with_products w ps)) = give_stock (stock_of (db w)) [l]"
proof -
  have "0 \<le> s + l_quantity l \<and> int4 (s + l_quantity l)"
    if "stock_of (db w) (l_productId l) = Some s" for s
    using fit [OF that] products_okD(1) [OF ok that] q by simp
  then obtain n ps where r: "update_stock (\<lambda>r. p_id r = l_productId l) (\<lambda>s. s + l_quantity l) w =
       (Inr n, w\<lparr>db := (db w)\<lparr>products := ps\<rparr>\<rparr>)"
    and o: "products_ok ((db w)\<lparr>products := ps\<rparr>)"
    and st: "stock_of ((db w)\<lparr>products := ps\<rparr>) = (\<lambda>v. if v = l_productId l
       then map_option (\<lambda>s. s + l_quantity l) (stock_of (db w) v) else stock_of (db w) v)"
    using update_stock_run [where pid = "l_productId l" and q = "\<lambda>_. True"
      and f = "\<lambda>s. s + l_quantity l", OF ok] unfolding if_True simp_thms by blast
  show ?thesis
  proof
    show "restore_line l w = (Inr (), with_products w ps)"
      by (simp add: restore_line_def bind_app_def r with_products_def)
    show "products_ok (db (with_products w ps))" using o by simp
    show "stock_of (db (with_products w ps)) = give_stock (stock_of (db w)) [l]"
      by (rule ext) (auto simp: st give_stock_def option.map_ident)
  qed
qed

lemma restoreStock_run:
  assumes "products_ok (db w)" and "lines_ok ls" and "fits (stock_of (db w)) ls"
  shows "\<exists>ps. restoreStock ls w = (Inr (), with_products w ps) \<and>
    products_ok (db (with_products w ps)) \<and>
    stock_of (db (with_products w ps)) = give_stock (stock_of (db w)) ls"
  using assms
proof (induction ls arbitrary: w)
  case Nil
  then show ?case
    by (intro exI [of _ "products (db w)"])
      (simp add: restoreStock_def with_products_def give_stock_def option.map_ident)
next
  case (Cons l ls)
  from Cons.prems have q: "0 < l_quantity l" and ls: "lines_ok ls" by simp_all
  have "int4 (s + l_quantity l)" if "stock_of (db w) (l_productId l) = Some s" for s
    using fits_one [OF Cons.prems(3,2) that] products_okD(1) [OF Cons.prems(1) that] by simp
  from restore_line_run [OF Cons.prems(1) q this] obtain ps
    where r: "restore_line l w = (Inr (), with_products w ps)"
      and o: "products_ok (db (with_products w ps))"
      and st: "stock_of (db (with_products w ps)) = give_stock (stock_of (db w)) [l]"
    by blast
  have "fits (stock_of (db (with_products w ps))) ls"
    using fits_give [OF Cons.prems(3)] by (simp add: st del: db_with_products)
  from Cons.IH [OF o ls this] obtain qs
    where "restoreStock ls (with_products w ps) = (Inr (), with_products w qs)"
      "products_ok (db (with_products w qs))"
      "stock_of (db (with_products w qs)) = give_stock (give_stock (stock_of (db w)) [l]) ls"
    by (auto simp del: db_with_products simp: st)
  moreover have "give_stock (give_stock st [l]) ls = give_stock st (l # ls)" for st
    by (rule ext) (simp add: give_stock_def option.map_comp comp_def algebra_simps)
  ultimately show ?case
    by (intro exI [of _ qs]) (simp add: restoreStock_def app_defs r)
qed

lemma enough_stock_Cons:
  assumes "lines_ok (l # ls)"
  shows "enough_stock st (l # ls) \<longleftrightarrow>
    (case st (l_productId l) of None \<Rightarrow> False | Some s \<Rightarrow> l_quantity l \<le> s) \<and>
    enough_stock (take_stock st [l]) ls"
proof -
  have nn: "0 \<le> demand ls p" for p using assms by (simp add: demand_nonneg)
  have eq: "(case st p of None \<Rightarrow> False | Some s \<Rightarrow> demand (l # ls) p \<le> s) \<longleftrightarrow>
      (case take_stock st [l] p of None \<Rightarrow> False | Some s \<Rightarrow> demand ls p \<le> s)" for p
    by (auto simp: take_stock_def split: option.splits)
  have last: "demand ls (l_productId l) = 0 \<or> (\<exists>m \<in> set ls. l_productId m = l_productId l)"
    by (metis demand_other image_iff)
  show ?thesis
    using nn [of "l_productId l"] last eq
    by (fastforce simp: enough_stock_def list_all_iff take_stock_def split: option.splits)
qed

text \<open>
  The loop, started with some lines already applied: it ends with every remaining line taken, or
  with the first short product named and the applied lines given back.
\<close>

lemma reserve_loop_run:
  assumes "products_ok (db w)" and "lines_ok ls" and "lines_ok applied"
    and "fits (stock_of (db w)) applied"
  shows "\<exists>ps. products_ok (db (with_products w ps)) \<and>
    (if enough_stock (stock_of (db w)) ls
     then reserve_loop applied ls w = (Inr (), with_products w ps) \<and>
       stock_of (db (with_products w ps)) = take_stock (stock_of (db w)) ls
     else (\<exists>pid. reserve_loop applied ls w = (Inl (InsufficientStockError pid), with_products w ps)) \<and>
       stock_of (db (with_products w ps)) = give_stock (stock_of (db w)) applied)"
  using assms
proof (induction ls arbitrary: w applied)
  case Nil
  then show ?case
    by (intro exI [of _ "products (db w)"])
      (simp add: enough_stock_def take_stock_simps with_products_def)
next
  case (Cons l ls)
  let ?st = "stock_of (db w)" and ?pid = "l_productId l" and ?q = "l_quantity l"
  let ?hit = "case ?st ?pid of None \<Rightarrow> False | Some s \<Rightarrow> ?q \<le> s"
  have "0 \<le> s - ?q \<and> int4 (s - ?q)" if "?st ?pid = Some s" "?q \<le> s" for s
    using products_okD [OF Cons.prems(1) that(1)] Cons.prems(2) that(2)
    by (auto intro: int4_below)
  then obtain ps where r: "update_stock (\<lambda>r. p_id r = ?pid \<and> ?q \<le> p_stock r) (\<lambda>s. s - ?q) w =
      (Inr (case ?st ?pid of None \<Rightarrow> 0 | Some s \<Rightarrow> if ?q \<le> s then 1 else 0), with_products w ps)"
    and o: "products_ok (db (with_products w ps))"
    and st: "stock_of (db (with_products w ps)) = (\<lambda>v. if v = ?pid
       then map_option (\<lambda>s. if ?q \<le> s then s - ?q else s) (?st v) else ?st v)"
    using update_stock_run [where pid = ?pid and q = "\<lambda>s. ?q \<le> s" and f = "\<lambda>s. s - ?q",
      OF Cons.prems(1)] unfolding with_products_def by auto
  show ?case
  proof (cases ?hit)
    case True
    then have n: "(case ?st ?pid of None \<Rightarrow> 0 | Some s \<Rightarrow> if ?q \<le> s then 1 else (0::nat)) = 1"
      by (simp split: option.splits)
    have st': "stock_of (db (with_products w ps)) = take_stock ?st [l]"
      unfolding st using True
      by (intro ext) (auto simp: take_stock_def option.map_ident split: option.splits)
    have give: "give_stock (take_stock ?st [l]) (applied @ [l]) = give_stock ?st applied"
      by (rule ext) (simp add: give_stock_def take_stock_def option.map_comp comp_def)
    have "fits (take_stock ?st [l]) (applied @ [l])"
      using Cons.prems(4) by (auto simp: fits_def take_stock_def)
    moreover have "lines_ok ls" "lines_ok (applied @ [l])" using Cons.prems by simp_all
    ultimately obtain qs where qs: "products_ok (db (with_products w qs)) \<and>
      (if enough_stock (take_stock ?st [l]) ls
       then reserve_loop (applied @ [l]) ls (with_products w ps) = (Inr (), with_products w qs) \<and>
         stock_of (db (with_products w qs)) = take_stock (take_stock ?st [l]) ls
       else (\<exists>pid. reserve_loop (applied @ [l]) ls (with_products w ps) =
           (Inl (InsufficientStockError pid), with_products w qs)) \<and>
         stock_of (db (with_products w qs)) = give_stock ?st applied)"
      using Cons.IH [OF o, of "applied @ [l]"] unfolding st' give with_products_twice by blast
    have "reserve_loop applied (l # ls) w = reserve_loop (applied @ [l]) ls (with_products w ps)"
      using r n by simp
    then show ?thesis
      using qs True unfolding enough_stock_Cons [OF Cons.prems(2)]
      using take_stock_simps(2) [of ?st "[l]" ls]
      by (intro exI [of _ qs]) (simp del: db_with_products)
  next
    case False
    then have n: "(case ?st ?pid of None \<Rightarrow> 0 | Some s \<Rightarrow> if ?q \<le> s then 1 else (0::nat)) = 0"
      by (simp split: option.splits)
    have st': "stock_of (db (with_products w ps)) = ?st"
      unfolding st using False by (intro ext) (auto split: option.splits)
    have "fits (stock_of (db (with_products w ps))) applied" using Cons.prems(4) unfolding st' .
    from restoreStock_run [OF o Cons.prems(3) this] obtain qs
      where "restoreStock applied (with_products w ps) = (Inr (), with_products w qs)"
        "products_ok (db (with_products w qs))"
        "stock_of (db (with_products w qs)) = give_stock ?st applied"
      unfolding st' with_products_twice by blast
    then have "if applied = [] then True else
        reserve_catch applied (InsufficientStockError ?pid) (with_products w ps) =
          (Inl (InsufficientStockError ?pid), with_products w qs)"
      by (simp add: reserve_catch_def app_defs)
    moreover have "reserve_loop applied (l # ls) w =
        reserve_catch applied (InsufficientStockError ?pid) (with_products w ps)"
      using r n by simp
    moreover have "\<not> enough_stock ?st (l # ls)"
      using False enough_stock_Cons [OF Cons.prems(2)] by blast
    moreover have "give_stock ?st [] = ?st" by (simp add: give_stock_def option.map_ident)
    ultimately show ?thesis
      using o st' \<open>products_ok (db (with_products w qs))\<close>
        \<open>stock_of (db (with_products w qs)) = give_stock ?st applied\<close>
      by (cases "applied = []")
        (intro exI [of _ ps], simp add: reserve_catch_def app_defs del: db_with_products,
         intro exI [of _ qs], simp del: db_with_products)
  qed
qed

lemma reserveStock_run:
  assumes "products_ok (db w)" and "lines_ok ls"
  shows "\<exists>ps. products_ok (db (with_products w ps)) \<and>
    (if enough_stock (stock_of (db w)) ls
     then reserveStock ls w = (Inr (), with_products w ps) \<and>
       stock_of (db (with_products w ps)) = take_stock (stock_of (db w)) ls
     else (\<exists>pid. reserveStock ls w = (Inl (InsufficientStockError pid), with_products w ps)) \<and>
       stock_of (db (with_products w ps)) = stock_of (db w))"
proof -
  have "fits (stock_of (db w)) []" using products_okD(2) [OF assms(1)] by (simp add: fits_def)
  moreover have "give_stock (stock_of (db w)) [] = stock_of (db w)"
    by (rule ext) (simp add: give_stock_def option.map_ident)
  ultimately show ?thesis
    using reserve_loop_run [OF assms lines_ok_simps(1)] unfolding reserveStock_def by metis
qed

section \<open>The contract of the service\<close>

text \<open>
  What \<open>InventoryConsumer\<close> and \<open>OrdersService.cancelOrder\<close> rely on. \<open>serve\<close> is a sequence of
  reservations, each by an order of its own, with the accepted ones in order; \<open>accepted\<close> is what the
  sequence should accept.
\<close>

fun serve :: "(StockLine list \<Rightarrow> ('s, unit) app) \<Rightarrow> StockLine list list \<Rightarrow> 's \<Rightarrow>
    StockLine list list \<times> 's" where
  "serve reserve [] s = ([], s)"
| "serve reserve (ls # lss) s =
     (case reserve ls s of
        (Inl _, s') \<Rightarrow> serve reserve lss s'
      | (Inr _, s') \<Rightarrow> (case serve reserve lss s' of (done_ls, t) \<Rightarrow> (ls # done_ls, t)))"

fun accepted :: "(uuid \<Rightarrow> int option) \<Rightarrow> StockLine list list \<Rightarrow> StockLine list list" where
  "accepted st [] = []"
| "accepted st (ls # lss) =
     (if enough_stock st ls then ls # accepted (take_stock st ls) lss else accepted st lss)"

locale stock_provider =
  fixes invar :: "'s \<Rightarrow> bool" and stock :: "'s \<Rightarrow> uuid \<Rightarrow> int option"
    and reserve :: "StockLine list \<Rightarrow> ('s, unit) app" and restore :: "StockLine list \<Rightarrow> ('s, unit) app"
  assumes stock_range: "invar s \<Longrightarrow> stock s pid = Some n \<Longrightarrow> 0 \<le> n \<and> int4 n"
    and reserve_enough: "invar s \<Longrightarrow> lines_ok ls \<Longrightarrow> enough_stock (stock s) ls \<Longrightarrow>
      \<exists>s'. reserve ls s = (Inr (), s') \<and> invar s' \<and> stock s' = take_stock (stock s) ls"
    and reserve_short: "invar s \<Longrightarrow> lines_ok ls \<Longrightarrow> \<not> enough_stock (stock s) ls \<Longrightarrow>
      \<exists>pid s'. reserve ls s = (Inl (InsufficientStockError pid), s') \<and> invar s' \<and> stock s' = stock s"
    and restore_gives: "invar s \<Longrightarrow> lines_ok ls \<Longrightarrow> fits (stock s) ls \<Longrightarrow>
      \<exists>s'. restore ls s = (Inr (), s') \<and> invar s' \<and> stock s' = give_stock (stock s) ls"
begin

lemma reserve_succeeds_iff:
  "invar s \<Longrightarrow> lines_ok ls \<Longrightarrow> fst (reserve ls s) = Inr () \<longleftrightarrow> enough_stock (stock s) ls"
  by (metis fst_conv reserve_enough reserve_short Inl_Inr_False)

lemma reserve_stock: "invar s \<Longrightarrow> lines_ok ls \<Longrightarrow> stock (snd (reserve ls s)) =
    (if enough_stock (stock s) ls then take_stock (stock s) ls else stock s)"
  by (metis snd_conv reserve_enough reserve_short)

lemma reserve_invar: "invar s \<Longrightarrow> lines_ok ls \<Longrightarrow> invar (snd (reserve ls s))"
  by (metis snd_conv reserve_enough reserve_short)

lemma reserve_restore:
  assumes "invar s" "lines_ok ls" "reserve ls s = (Inr (), s')"
  shows "\<exists>t. restore ls s' = (Inr (), t) \<and> stock t = stock s"
proof -
  have e: "enough_stock (stock s) ls" using reserve_succeeds_iff assms by force
  from reserve_enough [OF assms(1,2) this] assms(3)
  have s': "invar s'" "stock s' = take_stock (stock s) ls" by auto
  have "fits (stock s') ls"
    using stock_range [OF assms(1)] by (auto simp: fits_def s'(2) take_stock_def)
  from restore_gives [OF s'(1) assms(2) this] show ?thesis by (auto simp: s'(2))
qed

lemma serve_accepts:
  "invar s \<Longrightarrow> list_all lines_ok lss \<Longrightarrow>
    fst (serve reserve lss s) = accepted (stock s) lss \<and> invar (snd (serve reserve lss s)) \<and>
    stock (snd (serve reserve lss s)) = take_stock (stock s) (concat (accepted (stock s) lss))"
proof (induction lss arbitrary: s)
  case (Cons ls lss)
  then have ls: "lines_ok ls" and lss: "list_all lines_ok lss" by simp_all
  show ?case
  proof (cases "enough_stock (stock s) ls")
    case True
    from reserve_enough [OF Cons.prems(1) ls this] obtain s' where
      s': "reserve ls s = (Inr (), s')" "invar s'" "stock s' = take_stock (stock s) ls" by blast
    from Cons.IH [OF s'(2) lss] True show ?thesis
      by (cases "serve reserve lss s'") (simp add: s'(1,3) take_stock_simps(2))
  next
    case False
    from reserve_short [OF Cons.prems(1) ls this] obtain pid s' where
      s': "reserve ls s = (Inl (InsufficientStockError pid), s')" "invar s'" "stock s' = stock s"
      by blast
    from Cons.IH [OF s'(2) lss] False show ?thesis by (simp add: s'(1,3))
  qed
qed (simp add: take_stock_simps)

text \<open>No product is oversold, whatever the orders and however many are refused.\<close>

lemma serve_never_oversells:
  assumes "invar s" "list_all lines_ok lss" "stock s pid = Some n"
  shows "demand (concat (fst (serve reserve lss s))) pid \<le> n"
proof -
  from serve_accepts [OF assms(1,2)] assms(3)
  have "invar (snd (serve reserve lss s))"
    "stock (snd (serve reserve lss s)) pid = Some (n - demand (concat (fst (serve reserve lss s))) pid)"
    by (simp_all add: take_stock_def)
  from stock_range [OF this] show ?thesis by simp
qed

end

interpretation shop: stock_provider "\<lambda>w. products_ok (db w)" "\<lambda>w. stock_of (db w)" reserveStock restoreStock
proof unfold_locales
  fix w :: world and ls pid n
  show "products_ok (db w) \<Longrightarrow> stock_of (db w) pid = Some n \<Longrightarrow> 0 \<le> n \<and> int4 n"
    using products_okD by blast
  show "products_ok (db w) \<Longrightarrow> lines_ok ls \<Longrightarrow> enough_stock (stock_of (db w)) ls \<Longrightarrow>
      \<exists>w'. reserveStock ls w = (Inr (), w') \<and> products_ok (db w') \<and>
        stock_of (db w') = take_stock (stock_of (db w)) ls"
    using reserveStock_run by metis
  show "products_ok (db w) \<Longrightarrow> lines_ok ls \<Longrightarrow> \<not> enough_stock (stock_of (db w)) ls \<Longrightarrow>
      \<exists>pid w'. reserveStock ls w = (Inl (InsufficientStockError pid), w') \<and> products_ok (db w') \<and>
        stock_of (db w') = stock_of (db w)"
    using reserveStock_run by metis
  show "products_ok (db w) \<Longrightarrow> lines_ok ls \<Longrightarrow> fits (stock_of (db w)) ls \<Longrightarrow>
      \<exists>w'. restoreStock ls w = (Inr (), w') \<and> products_ok (db w') \<and>
        stock_of (db w') = give_stock (stock_of (db w)) ls"
    using restoreStock_run by metis
qed

lemma products_only_reserve:
  assumes "products_ok (db w)" and "lines_ok ls"
  shows "\<exists>ps. snd (reserveStock ls w) = with_products w ps"
  using reserveStock_run [OF assms] by (metis snd_conv)

section \<open>Properties\<close>

definition shop_product :: "uuid \<Rightarrow> int \<Rightarrow> ProductEntity" where
  "shop_product pid n = \<lparr>p_id = pid, p_name = pid, p_sku = pid, p_stock = n, p_active = True,
     p_createdAt = DateObj 0, p_updatedAt = DateObj 0\<rparr>"

definition shop_world :: world where
  "shop_world = with_products empty_world [shop_product ''a'' 3, shop_product ''b'' 1]"

definition shop_lines :: "StockLine list" where
  "shop_lines = [\<lparr>l_productId = ''a'', l_quantity = 2\<rparr>, \<lparr>l_productId = ''b'', l_quantity = 5\<rparr>]"

lemmas shop_example = shop_world_def shop_lines_def shop_product_def with_products_def
  empty_world_def empty_db_def products_ok_def int4_def

text \<open>
  C11: \<open>reserveStock\<close> is all or nothing. It returns exactly when every product asked for has what the
  lines together ask of it, and then the stock of each product falls by exactly that; otherwise it
  throws and every stock is what it was, the lines already decremented having been given back. Either
  way ids stay unique, no stock is negative, and nothing but the products table changes.
\<close>

theorem reserve_all_or_nothing:
  assumes "products_ok (db w)" and "lines_ok ls"
  shows "(fst (reserveStock ls w) = Inr () \<longleftrightarrow> enough_stock (stock_of (db w)) ls) \<and>
    stock_of (db (snd (reserveStock ls w))) =
      (if enough_stock (stock_of (db w)) ls then take_stock (stock_of (db w)) ls
       else stock_of (db w)) \<and>
    products_ok (db (snd (reserveStock ls w))) \<and>
    (\<exists>ps. snd (reserveStock ls w) = with_products w ps)"
  using shop.reserve_succeeds_iff shop.reserve_stock shop.reserve_invar
    products_only_reserve assms by metis

theorem reserve_all_or_nothing_witness:
  "stock_of (db (snd (reserveStock shop_lines shop_world))) = stock_of (db shop_world) \<and>
   fst (reserveStock shop_lines shop_world) \<noteq> Inr ()"
proof -
  have "products_ok (db shop_world)" "lines_ok shop_lines" "\<not> enough_stock (stock_of (db shop_world)) shop_lines"
    by (simp_all add: shop_example enough_stock_def stock_of_def)
  then show ?thesis using reserve_all_or_nothing [of shop_world shop_lines] by auto
qed

text \<open>
  Restoring exactly what was reserved gives every product its stock back: cancelling an order
  straight after its reservation is the identity on stock, and neither call throws.
\<close>

theorem restore_undoes_reserve:
  assumes "products_ok (db w)" and "lines_ok ls" and "enough_stock (stock_of (db w)) ls"
  shows "fst (then_app (reserveStock ls) (restoreStock ls) w) = Inr () \<and>
    stock_of (db (snd (then_app (reserveStock ls) (restoreStock ls) w))) = stock_of (db w)"
proof -
  from shop.reserve_enough [OF assms] obtain w' where w': "reserveStock ls w = (Inr (), w')" by blast
  from shop.reserve_restore [OF assms(1,2) w'] w' show ?thesis by (auto simp: app_defs)
qed

theorem restore_undoes_reserve_witness:
  "fst (then_app (reserveStock (take 1 shop_lines)) (restoreStock (take 1 shop_lines)) shop_world) = Inr ()"
proof -
  have "products_ok (db shop_world)" "lines_ok (take 1 shop_lines)"
    "enough_stock (stock_of (db shop_world)) (take 1 shop_lines)"
    by (simp_all add: shop_example enough_stock_def stock_of_def)
  from restore_undoes_reserve [OF this] show ?thesis ..
qed

text \<open>
  No overselling. Of any sequence of reservations, those accepted are the ones a first-come
  first-served reading of the stock accepts, they never take more of a product than was there, and
  the refused ones take nothing.
\<close>

theorem never_oversells:
  assumes "products_ok (db w)" and "list_all lines_ok lss" and "stock_of (db w) pid = Some n"
  shows "fst (serve reserveStock lss w) = accepted (stock_of (db w)) lss \<and>
    demand (concat (fst (serve reserveStock lss w))) pid \<le> n \<and>
    stock_of (db (snd (serve reserveStock lss w))) pid =
      Some (n - demand (concat (fst (serve reserveStock lss w))) pid)"
  using shop.serve_accepts [OF assms(1,2)] shop.serve_never_oversells [OF assms] assms(3)
  by (simp add: take_stock_def)

theorem never_oversells_witness:
  "demand (concat (fst (serve reserveStock [take 1 shop_lines, take 1 shop_lines] shop_world))) ''a'' \<le> 3"
proof -
  have "products_ok (db shop_world)" "list_all lines_ok [take 1 shop_lines, take 1 shop_lines]"
    "stock_of (db shop_world) ''a'' = Some 3"
    by (simp_all add: shop_example stock_of_def)
  from never_oversells [OF this] show ?thesis by blast
qed

text \<open>
  The catalog screen lists every product on sale exactly as often as the table has it, no retired
  one, in the order of the names.
\<close>

theorem catalog_lists_active:
  "mset (products_controller_list collate d) =
     image_mset toProductResponseDTO (filter_mset p_active (mset (products d))) \<and>
   sorted (map (\<lambda>r. collate (pd_name r)) (products_controller_list collate d))"
  by (simp add: products_controller_list_def list_products_def rows_where_def comp_def
      toProductResponseDTO_def)

end
