(* ===== verification/Outbox.thy ===== *)
theory Outbox
  imports Correlation "HOL-Library.Multiset"
begin

text \<open>
  The transactional outbox (\<^verbatim>\<open>src/modules/messaging/outbox\<close>, \<^verbatim>\<open>src/modules/messaging/event-publisher.ts\<close>):
  \<open>OutboxService.enqueue\<close> writes an event row inside the caller's transaction,
  \<open>OutboxRelayService\<close> drains the table to the broker, \<open>OutboxCommitSubscriber\<close> wakes the relay.

  What is not the program's is a parameter: \<open>accepts\<close> says which publishes the broker confirms, \<open>locked\<close>
  which rows another instance has locked. The relay's \<open>while\<close> loop runs on fuel, one unit for every
  batch; whether it ends is part of the properties. The scheduling of nudges, polls and drains is a
  step relation over the relay's two flags.
\<close>

section \<open>OutboxService and EventPublisher\<close>

definition enqueue :: "string \<Rightarrow> order_event \<Rightarrow> (world, unit) app" where
  "enqueue routingKey payload =
     bind_app random_uuid (\<lambda>new_id.
     bind_app getCorrelationId (\<lambda>current.
     bind_app (case current of None \<Rightarrow> random_uuid | Some c \<Rightarrow> return_app c) (\<lambda>correlationId.
     bind_app read_clock (\<lambda>now.
       execute (\<lambda>d. d\<lparr>outbox_messages := outbox_messages d @
         [\<lparr>om_id = new_id, om_exchange = ORDER_EXCHANGE, om_routingKey = routingKey,
           om_payload = payload, om_correlationId = correlationId, om_createdAt = DateObj now,
           om_publishedAt = None\<rparr>]\<rparr>)))))"

definition amqp_publish :: "(broker_message \<Rightarrow> bool) \<Rightarrow> broker_message \<Rightarrow> (world, unit) app" where
  "amqp_publish accepts m = (\<lambda>w.
     if accepts m then (Inr (), w\<lparr>broker := broker w @ [m]\<rparr>) else (Inl (JsError ''amqp''), w))"

definition publish ::
    "(broker_message \<Rightarrow> bool) \<Rightarrow> string \<Rightarrow> string \<Rightarrow> order_event \<Rightarrow> string \<Rightarrow> string \<Rightarrow> (world, unit) app" where
  "publish accepts exchange routingKey payload messageId correlationId =
     amqp_publish accepts \<lparr>m_exchange = exchange, m_routingKey = routingKey, m_payload = payload,
       m_messageId = messageId, m_correlationId = correlationId\<rparr>"

section \<open>OutboxRelayService\<close>

definition RELAY_BATCH_SIZE :: nat where "RELAY_BATCH_SIZE = 50"

text \<open>Rows with equal \<open>createdAt\<close> come in no specified order; they come in table order here.\<close>

definition select_batch :: "(uuid \<Rightarrow> bool) \<Rightarrow> database \<Rightarrow> OutboxMessageEntity list" where
  "select_batch locked d =
     take RELAY_BATCH_SIZE (sort_key (\<lambda>r. getTime (om_createdAt r))
       (rows_where (\<lambda>r. om_publishedAt r = None \<and> \<not> locked (om_id r)) (outbox_messages d)))"

fun publish_rows ::
    "(broker_message \<Rightarrow> bool) \<Rightarrow> OutboxMessageEntity list \<Rightarrow> (world, uuid list) app" where
  "publish_rows accepts [] = return_app []"
| "publish_rows accepts (row # batch) =
     bind_app
       (try_catch
         (then_app
           (publish accepts (om_exchange row) (om_routingKey row) (om_payload row) (om_id row)
             (om_correlationId row))
           (return_app [om_id row]))
         (\<lambda>error. return_app []))
       (\<lambda>this. bind_app (publish_rows accepts batch) (\<lambda>rest. return_app (this @ rest)))"

definition mark_published :: "uuid list \<Rightarrow> (world, unit) app" where
  "mark_published ids = bind_app read_clock (\<lambda>now.
     execute (\<lambda>d. d\<lparr>outbox_messages := update_where (\<lambda>r. om_id r \<in> set ids)
       (\<lambda>r. r\<lparr>om_publishedAt := Some (DateObj now)\<rparr>) (outbox_messages d)\<rparr>))"

definition drainOnce :: "(uuid \<Rightarrow> bool) \<Rightarrow> (broker_message \<Rightarrow> bool) \<Rightarrow> (world, nat) app" where
  "drainOnce locked accepts =
     bind_app
       (transaction
         (bind_app (query (select_batch locked)) (\<lambda>batch.
          bind_app (publish_rows accepts batch) (\<lambda>published.
          then_app (when_app (length published > 0) (mark_published published))
            (return_app (length published, length batch))))))
       (\<lambda>(published, claimed).
          then_app (when_app (published > 0) (record_metric (recordOutboxRelayed published)))
            (return_app claimed))"

text \<open>\<open>while ((await this.drainOnce()) === RELAY_BATCH_SIZE);\<close>, one unit of fuel for every batch.\<close>

fun drain_loop :: "nat \<Rightarrow> (uuid \<Rightarrow> bool) \<Rightarrow> (broker_message \<Rightarrow> bool) \<Rightarrow> world \<Rightarrow>
    ((exn + unit) \<times> world) option" where
  "drain_loop 0 locked accepts w = None"
| "drain_loop (Suc fuel) locked accepts w =
     (case drainOnce locked accepts w of
        (Inl e, w') \<Rightarrow> Some (Inl e, w')
      | (Inr claimed, w') \<Rightarrow>
          if claimed = RELAY_BATCH_SIZE then drain_loop fuel locked accepts w'
          else Some (Inr (), w'))"

section \<open>What an enqueue writes\<close>

definition enqueue_correlation :: "world \<Rightarrow> string" where
  "enqueue_correlation w =
     (case cls w of Some (Some c) \<Rightarrow> c | _ \<Rightarrow> uuid_supply w (Suc (drawn w)))"

definition outbox_row :: "string \<Rightarrow> order_event \<Rightarrow> world \<Rightarrow> OutboxMessageEntity" where
  "outbox_row key event w = \<lparr>om_id = uuid_supply w (drawn w), om_exchange = ORDER_EXCHANGE,
     om_routingKey = key, om_payload = event, om_correlationId = enqueue_correlation w,
     om_createdAt = DateObj (clock w), om_publishedAt = None\<rparr>"

definition after_enqueue :: "string \<Rightarrow> order_event \<Rightarrow> world \<Rightarrow> world" where
  "after_enqueue key event w = w\<lparr>db := (db w)\<lparr>outbox_messages := outbox_messages (db w) @
       [outbox_row key event w]\<rparr>,
     drawn := (case cls w of Some (Some _) \<Rightarrow> Suc (drawn w) | _ \<Rightarrow> Suc (Suc (drawn w)))\<rparr>"

lemma run_enqueue [simp]: "enqueue key event w = (Inr (), after_enqueue key event w)"
  by (simp add: enqueue_def app_defs random_uuid_def read_clock_def execute_def getCorrelationId_def
      after_enqueue_def outbox_row_def enqueue_correlation_def split: option.splits)

lemma then_enqueue [simp]: "then_app (enqueue key event) k w = k (after_enqueue key event w)"
  by (simp add: then_app_def bind_app_def)

lemma after_enqueue_simps [simp]:
  "db (after_enqueue key event w) =
     (db w)\<lparr>outbox_messages := outbox_messages (db w) @ [outbox_row key event w]\<rparr>"
  "clock (after_enqueue key event w) = clock w" "cls (after_enqueue key event w) = cls w"
  "cfg (after_enqueue key event w) = cfg w" "redis (after_enqueue key event w) = redis w"
  "uuid_supply (after_enqueue key event w) = uuid_supply w"
  "collectors (after_enqueue key event w) = collectors w"
  "broker (after_enqueue key event w) = broker w"
  "provider_calls (after_enqueue key event w) = provider_calls w"
  "mails (after_enqueue key event w) = mails w"
  "shortProductId (after_enqueue key event w) = shortProductId w"
  by (simp_all add: after_enqueue_def)

lemma drawn_after_enqueue: "drawn w < drawn (after_enqueue key event w)"
  by (simp add: after_enqueue_def split: option.splits)

lemma outbox_row_simps [simp]:
  "om_payload (outbox_row key event w) = event" "om_routingKey (outbox_row key event w) = key"
  "om_publishedAt (outbox_row key event w) = None"
  by (simp_all add: outbox_row_def)

section \<open>One batch\<close>

definition message_of :: "OutboxMessageEntity \<Rightarrow> broker_message" where
  "message_of r = \<lparr>m_exchange = om_exchange r, m_routingKey = om_routingKey r,
     m_payload = om_payload r, m_messageId = om_id r, m_correlationId = om_correlationId r\<rparr>"

lemma message_of_simps [simp]: "m_messageId (message_of r) = om_id r" "m_payload (message_of r) = om_payload r"
  "m_routingKey (message_of r) = om_routingKey r" "m_correlationId (message_of r) = om_correlationId r"
  "m_exchange (message_of r) = om_exchange r"
  by (simp_all add: message_of_def)

lemma publish_rows_run:
  "publish_rows accepts rows w =
     (Inr (map om_id (filter (\<lambda>r. accepts (message_of r)) rows)),
      w\<lparr>broker := broker w @ map message_of (filter (\<lambda>r. accepts (message_of r)) rows)\<rparr>)"
  by (induction rows arbitrary: w)
    (simp_all add: publish_def amqp_publish_def message_of_def app_defs)

definition mark_rows :: "uuid set \<Rightarrow> int \<Rightarrow> OutboxMessageEntity table \<Rightarrow> OutboxMessageEntity table" where
  "mark_rows ids now t = update_where (\<lambda>r. om_id r \<in> ids) (\<lambda>r. r\<lparr>om_publishedAt := Some (DateObj now)\<rparr>) t"

lemma mark_rows_empty [simp]: "mark_rows {} now t = t"
  by (simp add: mark_rows_def update_where_def)

lemma drainOnce_run:
  fixes locked accepts w
  defines "sent \<equiv> filter (\<lambda>r. accepts (message_of r)) (select_batch locked (db w))"
  shows "\<exists>c. drainOnce locked accepts w =
    (Inr (length (select_batch locked (db w))),
     w\<lparr>db := (db w)\<lparr>outbox_messages := mark_rows (om_id ` set sent) (clock w) (outbox_messages (db w))\<rparr>,
       broker := broker w @ map message_of sent, collectors := c\<rparr>)"
proof (cases "sent = []")
  case True
  have "w = w\<lparr>db := (db w)\<lparr>outbox_messages := outbox_messages (db w)\<rparr>, broker := broker w, collectors := collectors w\<rparr>"
    by simp
  moreover have "drainOnce locked accepts w = (Inr (length (select_batch locked (db w))), w)"
    using True by (simp add: drainOnce_def transaction_def publish_rows_run sent_def app_defs query_def)
  ultimately show ?thesis using True by (intro exI [of _ "collectors w"]) simp
next
  case False
  then have "filter (\<lambda>r. accepts (message_of r)) (select_batch locked (db w)) \<noteq> []"
    by (simp add: sent_def)
  then have "drainOnce locked accepts w = (Inr (length (select_batch locked (db w))),
     w\<lparr>db := (db w)\<lparr>outbox_messages := mark_rows (om_id ` set sent) (clock w) (outbox_messages (db w))\<rparr>,
       broker := broker w @ map message_of sent,
       collectors := recordOutboxRelayed (length sent) (collectors w)\<rparr>)"
    by (simp add: drainOnce_def transaction_def publish_rows_run app_defs query_def
        mark_published_def mark_rows_def sent_def read_clock_def execute_def record_metric_def)
  then show ?thesis by blast
qed

section \<open>What a drain leaves\<close>

definition pending :: "(uuid \<Rightarrow> bool) \<Rightarrow> database \<Rightarrow> OutboxMessageEntity list" where
  "pending locked d = sort_key (\<lambda>r. getTime (om_createdAt r))
     (rows_where (\<lambda>r. om_publishedAt r = None \<and> \<not> locked (om_id r)) (outbox_messages d))"

lemma select_batch_pending: "select_batch locked d = take 50 (pending locked d)"
  by (simp add: select_batch_def pending_def RELAY_BATCH_SIZE_def)

definition outbox_ok :: "database \<Rightarrow> bool" where
  "outbox_ok d \<longleftrightarrow> distinct (map om_id (outbox_messages d))"

lemma set_pending: "set (pending locked d) =
    {r \<in> set (outbox_messages d). om_publishedAt r = None \<and> \<not> locked (om_id r)}"
  by (simp add: pending_def rows_where_def)

lemma distinct_pending: "outbox_ok d \<Longrightarrow> distinct (map om_id (pending locked d))"
proof -
  assume "outbox_ok d"
  then have "distinct (map om_id (rows_where (\<lambda>r. om_publishedAt r = None \<and> \<not> locked (om_id r))
      (outbox_messages d)))"
    by (simp add: outbox_ok_def rows_where_def distinct_map_filter)
  moreover have "mset (map om_id (sort_key g xs)) = mset (map om_id xs)"
    for g :: "OutboxMessageEntity \<Rightarrow> int" and xs
    by (simp only: mset_map mset_sort)
  ultimately show ?thesis unfolding pending_def by (metis mset_eq_imp_distinct_iff)
qed

text \<open>Marking the rows of one part of the pending list leaves the other part pending, in order.\<close>

lemma pending_mark:
  assumes "outbox_ok d"
  shows "pending locked (d\<lparr>outbox_messages := mark_rows ids now (outbox_messages d)\<rparr>) =
    filter (\<lambda>r. om_id r \<notin> ids) (pending locked d)"
proof -
  have "rows_where (\<lambda>r. om_publishedAt r = None \<and> \<not> locked (om_id r)) (mark_rows ids now t) =
      filter (\<lambda>r. om_id r \<notin> ids)
        (rows_where (\<lambda>r. om_publishedAt r = None \<and> \<not> locked (om_id r)) t)" for t
    by (induction t) (auto simp: rows_where_def mark_rows_def)
  then show ?thesis by (simp add: pending_def filter_sort)
qed

lemma outbox_ok_mark: "outbox_ok d \<Longrightarrow> outbox_ok (d\<lparr>outbox_messages := mark_rows ids now t\<rparr>) \<longleftrightarrow>
    distinct (map om_id t)"
  by (simp add: outbox_ok_def mark_rows_def)

lemma filter_drop:
  assumes "distinct (map k xs)"
  shows "filter (\<lambda>r. k r \<notin> k ` set (take n xs)) xs = drop n xs"
proof -
  have "distinct (map k (take n xs @ drop n xs))" using assms by simp
  then have "k ` set (take n xs) \<inter> k ` set (drop n xs) = {}" by (simp del: append_take_drop_id)
  then have "filter (\<lambda>r. k r \<notin> k ` set (take n xs)) (take n xs @ drop n xs) = drop n xs"
    by (subst filter_append) (auto simp: filter_empty_conv filter_id_conv)
  then show ?thesis by simp
qed

lemma drainOnce_all:
  assumes "outbox_ok (db w)" and "accepts = (\<lambda>m. True)"
  shows "\<exists>w'. drainOnce locked accepts w = (Inr (min 50 (length (pending locked (db w)))), w') \<and>
    outbox_ok (db w') \<and> pending locked (db w') = drop 50 (pending locked (db w)) \<and>
    broker w' = broker w @ map message_of (take 50 (pending locked (db w)))"
proof -
  let ?sent = "take 50 (pending locked (db w))"
  obtain c where "drainOnce locked accepts w = (Inr (length ?sent),
     w\<lparr>db := (db w)\<lparr>outbox_messages := mark_rows (om_id ` set ?sent) (clock w) (outbox_messages (db w))\<rparr>,
       broker := broker w @ map message_of ?sent, collectors := c\<rparr>)"
    using drainOnce_run [of locked accepts w] assms(2) by (auto simp: select_batch_pending)
  moreover have "length ?sent = min 50 (length (pending locked (db w)))" by simp
  ultimately show ?thesis
    using assms(1) pending_mark [OF assms(1)] filter_drop [OF distinct_pending [OF assms(1)]]
    by (simp add: outbox_ok_mark, simp add: outbox_ok_def)
qed

lemma drain_loop_all:
  assumes "outbox_ok (db w)" and "accepts = (\<lambda>m. True)" and "length (pending locked (db w)) < 50 * fuel"
  shows "\<exists>w'. drain_loop fuel locked accepts w = Some (Inr (), w') \<and>
    pending locked (db w') = [] \<and> broker w' = broker w @ map message_of (pending locked (db w))"
  using assms(1,3)
proof (induction fuel arbitrary: w)
  case (Suc fuel)
  let ?p = "pending locked (db w)"
  obtain w1 where w1: "drainOnce locked accepts w = (Inr (min 50 (length ?p)), w1)"
    "outbox_ok (db w1)" "pending locked (db w1) = drop 50 ?p"
    "broker w1 = broker w @ map message_of (take 50 ?p)"
    using drainOnce_all [OF Suc.prems(1) assms(2)] by blast
  show ?case
  proof (cases "length ?p < 50")
    case True
    then show ?thesis using w1 by (simp add: RELAY_BATCH_SIZE_def)
  next
    case False
    then have "length (pending locked (db w1)) < 50 * fuel" using Suc.prems(2) w1(3) by simp
    from Suc.IH [OF w1(2) this] False w1 show ?thesis
      by (simp add: RELAY_BATCH_SIZE_def flip: map_append)
  qed
qed simp

section \<open>OutboxCommitSubscriber and the relay's flags\<close>




















section \<open>Properties\<close>

definition backlog :: "nat \<Rightarrow> OutboxMessageEntity list" where
  "backlog n = map (\<lambda>i. \<lparr>om_id = replicate i CHR ''m'', om_exchange = ORDER_EXCHANGE,
     om_routingKey = routing_key KCompleted, om_payload = OrderCompletedEvent ''o'' ''u'' (IsoString 0),
     om_correlationId = ''c'', om_createdAt = DateObj (int i), om_publishedAt = None\<rparr>) [0..<n]"

definition backlog_world :: "nat \<Rightarrow> world" where
  "backlog_world n = empty_world\<lparr>db := empty_db\<lparr>outbox_messages := backlog n\<rparr>\<rparr>"

lemma backlog_ok: "outbox_ok (db (backlog_world n))"
  by (auto simp: outbox_ok_def backlog_world_def backlog_def comp_def distinct_map intro!: inj_onI
      dest: arg_cong [where f = length])

lemma length_pending_backlog: "length (pending (\<lambda>_. False) (db (backlog_world n))) = n"
  by (simp add: pending_def rows_where_def backlog_world_def backlog_def filter_id_conv [THEN iffD2])

text \<open>
  A drain is faithful whatever the broker does: it offers the broker the first fifty pending
  rows in order of creation, each as a message whose id is the row's, marks exactly the rows the
  broker confirmed, and leaves every other pending row pending, in order, for the next drain.
\<close>

theorem drain_marks_what_was_sent:
  assumes "outbox_ok (db w)"
  shows "fst (drainOnce locked accepts w) = Inr (min 50 (length (pending locked (db w)))) \<and>
    broker (snd (drainOnce locked accepts w)) = broker w @
      map message_of (filter (\<lambda>r. accepts (message_of r)) (take 50 (pending locked (db w)))) \<and>
    pending locked (db (snd (drainOnce locked accepts w))) =
      filter (\<lambda>r. om_id r \<notin> om_id ` set (filter (\<lambda>r. accepts (message_of r))
        (take 50 (pending locked (db w))))) (pending locked (db w))"
proof -
  let ?sent = "filter (\<lambda>r. accepts (message_of r)) (take 50 (pending locked (db w)))"
  obtain c where "drainOnce locked accepts w = (Inr (length (take 50 (pending locked (db w)))),
     w\<lparr>db := (db w)\<lparr>outbox_messages := mark_rows (om_id ` set ?sent) (clock w) (outbox_messages (db w))\<rparr>,
       broker := broker w @ map message_of ?sent, collectors := c\<rparr>)"
    using drainOnce_run [of locked accepts w] unfolding select_batch_pending by blast
  then show ?thesis
    using pending_mark [OF assms] by (simp add: min.commute del: set_filter)
qed

theorem drain_marks_what_was_sent_witness:
  "fst (drainOnce (\<lambda>_. False) (\<lambda>m. m_messageId m = ''m'') (backlog_world 3)) = Inr 3"
  using drain_marks_what_was_sent [OF backlog_ok [of 3], of "\<lambda>_. False" "\<lambda>m. m_messageId m = ''m''"]
  by (simp add: length_pending_backlog)

text \<open>
  C24: With the broker up, a relay run ends and empties the outbox: every pending row is published
  exactly once, in order of creation, whatever the size of the backlog. One batch more than the
  backlog's full batches is enough fuel.
\<close>

theorem relay_drains_backlog:
  assumes "outbox_ok (db w)" and "accepts = (\<lambda>m. True)"
  shows "\<exists>w'. drain_loop (length (pending locked (db w)) div 50 + 1) locked accepts w =
      Some (Inr (), w') \<and> pending locked (db w') = [] \<and>
      broker w' = broker w @ map message_of (pending locked (db w))"
proof (rule drain_loop_all [OF assms])
  have "n < 50 * (n div 50 + 1)" for n :: nat by presburger
  then show "length (pending locked (db w)) < 50 * (length (pending locked (db w)) div 50 + 1)" .
qed

theorem relay_drains_backlog_witness:
  "\<exists>w'. drain_loop 3 (\<lambda>_. False) (\<lambda>m. True) (backlog_world 120) = Some (Inr (), w') \<and>
     pending (\<lambda>_. False) (db w') = []"
  using relay_drains_backlog [OF backlog_ok [of 120] refl, of "\<lambda>_. False"]
  by (auto simp: length_pending_backlog)

text \<open>
  C25: With the broker refusing, a backlog of fifty rows or more keeps the relay in its loop for
  ever: the loop tests how many rows were claimed, not how many were published, and the next batch
  claims the same fifty rows again. No amount of fuel ends the run, and nothing is published.
\<close>

theorem relay_spins_when_broker_refuses:
  assumes "outbox_ok (db w)" and "accepts = (\<lambda>m. False)" and "50 \<le> length (pending locked (db w))"
  shows "drain_loop fuel locked accepts w = None \<and> broker (snd (drainOnce locked accepts w)) = broker w"
proof -
  have d: "\<exists>c. drainOnce locked accepts w = (Inr 50, w\<lparr>collectors := c\<rparr>)"
    if "50 \<le> length (pending locked (db w))" for w
    using drainOnce_run [of locked accepts w] that
    by (auto simp: select_batch_pending assms(2) min_def)
  have "drain_loop fuel locked accepts w = None"
    using assms(3)
  proof (induction fuel arbitrary: w)
    case (Suc fuel)
    from d [OF Suc.prems] obtain c where "drainOnce locked accepts w = (Inr 50, w\<lparr>collectors := c\<rparr>)" ..
    with Suc.IH [of "w\<lparr>collectors := c\<rparr>"] Suc.prems show ?case by (simp add: RELAY_BATCH_SIZE_def)
  qed simp
  with d [OF assms(3)] show ?thesis by auto
qed

theorem relay_spins_when_broker_refuses_witness:
  "drain_loop 1000 (\<lambda>_. False) (\<lambda>m. False) (backlog_world 50) = None"
  using relay_spins_when_broker_refuses [OF backlog_ok [of 50] refl, of "\<lambda>_. False" 1000]
  by (simp add: length_pending_backlog)



end
