(* ===== verification/Orders.thy ===== *)
theory Orders
  imports Cache Order_State_Machine Products Outbox
begin

text \<open>
  \<open>OrdersService\<close> of \<^verbatim>\<open>src/modules/orders/services/orders.service.ts\<close>, the response DTOs and the
  controller.

  Where the source reads the database and acts on what it read in a later statement, the operation is
  two definitions, the read and the rest, and the operation is their composition: the rest run in a
  state other methods have changed since is a lost race. A statement is atomic.

  TypeORM sets the \<open>updatedAt\<close> column in every update of the entity, so the guarded updates do.
\<close>

section \<open>Keys, tables\<close>

definition orderKey :: "uuid \<Rightarrow> string" where
  "orderKey oid = ''order:'' @ oid"

definition userOrdersKey :: "uuid \<Rightarrow> string" where
  "userOrdersKey userId = ''orders:user:'' @ userId"

lemma order_keys [simp]:
  "orderKey a = orderKey b \<longleftrightarrow> a = b" "userOrdersKey a = userOrdersKey b \<longleftrightarrow> a = b"
  "orderKey a \<noteq> userOrdersKey b" "userOrdersKey b \<noteq> orderKey a"
  by (simp_all add: orderKey_def userOrdersKey_def)

fun TERMINAL_STATE_LABELS :: "OrderStatus \<Rightarrow> string option" where
  "TERMINAL_STATE_LABELS COMPLETED = Some ''completed''"
| "TERMINAL_STATE_LABELS FAILED = Some ''failed''"
| "TERMINAL_STATE_LABELS CANCELLED = Some ''cancelled''"
| "TERMINAL_STATE_LABELS status = None"

text \<open>The \<open>items\<close> relation of an order.\<close>

definition with_items :: "database \<Rightarrow> OrderEntity \<Rightarrow> OrderEntity" where
  "with_items d ord = ord\<lparr>o_items := Some (rows_where (\<lambda>i. oi_orderId i = o_id ord) (order_items d))\<rparr>"

definition items_or_empty :: "OrderEntity \<Rightarrow> OrderItemEntity list" where
  "items_or_empty ord = (case o_items ord of None \<Rightarrow> [] | Some is \<Rightarrow> is)"

text \<open>\<open>UPDATE orders SET ... WHERE guard\<close>, with the row count.\<close>

definition update_orders ::
    "(OrderEntity \<Rightarrow> bool) \<Rightarrow> (int \<Rightarrow> OrderEntity \<Rightarrow> OrderEntity) \<Rightarrow> (world, nat) app" where
  "update_orders guard assign =
     bind_app read_clock (\<lambda>now. bind_app (query (\<lambda>d. affected guard (orders d))) (\<lambda>n.
       then_app (execute (\<lambda>d. d\<lparr>orders := update_where guard (assign now) (orders d)\<rparr>))
         (return_app n)))"

section \<open>createOrder\<close>

record OrderLine =
  ol_productId :: uuid
  ol_productName :: string
  ol_quantity :: int

definition save_order :: "uuid \<Rightarrow> (world, OrderEntity) app" where
  "save_order userId = bind_app random_uuid (\<lambda>oid. bind_app read_clock (\<lambda>now.
     let created = \<lparr>o_id = oid, o_userId = userId, o_status = PENDING, o_paymentInitiatedAt = None,
           o_items = None, o_createdAt = DateObj now, o_updatedAt = DateObj now\<rparr>
     in then_app (execute (\<lambda>d. d\<lparr>orders := orders d @ [created]\<rparr>)) (return_app created)))"

fun save_items :: "uuid \<Rightarrow> OrderLine list \<Rightarrow> (world, OrderItemEntity list) app" where
  "save_items orderId [] = return_app []"
| "save_items orderId (line # lines) = bind_app random_uuid (\<lambda>iid.
     let item = \<lparr>oi_id = iid, oi_orderId = orderId, oi_productId = ol_productId line,
           oi_productName = ol_productName line, oi_quantity = ol_quantity line\<rparr>
     in then_app (execute (\<lambda>d. d\<lparr>order_items := order_items d @ [item]\<rparr>))
          (bind_app (save_items orderId lines) (\<lambda>items. return_app (item # items))))"

definition stock_lines :: "OrderLine list \<Rightarrow> StockLine list" where
  "stock_lines lines =
     map (\<lambda>line. \<lparr>l_productId = ol_productId line, l_quantity = ol_quantity line\<rparr>) lines"

definition createOrder :: "uuid \<Rightarrow> OrderLine list \<Rightarrow> (world, OrderEntity) app" where
  "createOrder userId lines =
     bind_app (timeDb ''order.create'' (transaction
       (bind_app (save_order userId) (\<lambda>saved.
        bind_app (save_items (o_id saved) lines) (\<lambda>items.
          let created = saved\<lparr>o_items := Some items\<rparr>;
              event = OrderCreatedEvent (o_id created) (o_userId created) (stock_lines lines)
                (toISOString (o_createdAt created))
          in then_app (enqueue (routing_key KCreated) event) (return_app created))))))
     (\<lambda>order.
        then_app (record_metric recordOrderCreated)
        (then_app (cache_del [userOrdersKey userId])
          (return_app order)))"

section \<open>Reads\<close>

definition rehydrateOrder :: "OrderEntity \<Rightarrow> OrderEntity" where
  "rehydrateOrder cached_order = cached_order\<lparr>o_createdAt := newDate (o_createdAt cached_order),
     o_updatedAt := newDate (o_updatedAt cached_order)\<rparr>"

text \<open>
  A list read from the cache is mapped; an object that is no list has no \<open>map\<close>. The read of the table
  and the fill of the cache are two steps.
\<close>

definition list_fetch :: "uuid \<Rightarrow> database \<Rightarrow> OrderEntity list" where
  "list_fetch userId d =
     sort_key (\<lambda>r. - getTime (o_createdAt r))
       (map (with_items d) (rows_where (\<lambda>r. o_userId r = userId) (orders d)))"

definition list_fill :: "uuid \<Rightarrow> OrderEntity list \<Rightarrow> (world, OrderEntity list) app" where
  "list_fill userId found = bind_app (gets_app (\<lambda>w. cfg_cache_ttl (cfg w))) (\<lambda>ttl.
     then_app
       (when_app (list_all (\<lambda>order. isTerminalStatus (o_status order)) found)
         (cache_set (userOrdersKey userId) (JsonOrders found) ttl))
       (return_app found))"

definition listOrdersForUser :: "uuid \<Rightarrow> (world, OrderEntity list) app" where
  "listOrdersForUser userId = bind_app (cache_get (userOrdersKey userId)) (\<lambda>hit.
     case hit of
       Some (JsonOrders os) \<Rightarrow> return_app (map rehydrateOrder os)
     | Some _ \<Rightarrow> throw_app (JsError ''TypeError'')
     | None \<Rightarrow> bind_app (timeDb ''orders.list'' (query (list_fetch userId))) (list_fill userId))"

definition find_order :: "uuid \<Rightarrow> uuid \<Rightarrow> database \<Rightarrow> OrderEntity option" where
  "find_order oid userId d = map_option (with_items d)
     (row_where (\<lambda>r. o_id r = oid \<and> o_userId r = userId) (orders d))"

definition getOrderForUser :: "uuid \<Rightarrow> uuid \<Rightarrow> (world, OrderEntity) app" where
  "getOrderForUser oid userId = bind_app (cache_get (orderKey oid)) (\<lambda>hit.
     let from_db = bind_app (timeDb ''order.find'' (query (find_order oid userId))) (\<lambda>found.
           case found of
             None \<Rightarrow> throw_app (NotFoundException ''Order not found'')
           | Some order \<Rightarrow>
               bind_app (gets_app (\<lambda>w. cfg_cache_ttl (cfg w))) (\<lambda>ttl.
               then_app
                 (when_app (isTerminalStatus (o_status order))
                   (cache_set (orderKey oid) (JsonOrder order) ttl))
                 (return_app order)))
     in case hit of
          Some (JsonOrder c) \<Rightarrow> if o_userId c = userId then return_app (rehydrateOrder c) else from_db
        | _ \<Rightarrow> from_db)"

section \<open>transitionOrder\<close>

definition seconds_since :: "int \<Rightarrow> js_time option \<Rightarrow> rat option" where
  "seconds_since now date = map_option (\<lambda>t. of_int (now - getTime (newDate t)) / 1000) date"

definition recordStageTimings ::
    "int \<Rightarrow> OrderEntity \<Rightarrow> OrderStatus \<Rightarrow> OrderStatus \<Rightarrow> collectors \<Rightarrow> collectors" where
  "recordStageTimings now order from_status to_status c =
     (let paidClick = seconds_since now (o_paymentInitiatedAt order);
          stage = (\<lambda>st secs c. case secs of None \<Rightarrow> c | Some s \<Rightarrow> recordOrderStage st s c)
      in if from_status = PENDING then stage Reservation (seconds_since now (Some (o_createdAt order))) c
         else if from_status = RESERVED \<and> paidClick \<noteq> None then stage Payment paidClick c
         else if from_status = PAID \<and> to_status = COMPLETED
         then stage Fulfilment paidClick
                (stage Completion (seconds_since now (Some (o_updatedAt order))) c)
         else c)"

definition transition_find :: "uuid \<Rightarrow> OrderStatus \<Rightarrow> (world, OrderEntity) app" where
  "transition_find orderId to_status =
     bind_app (timeDb ''order.find'' (query (\<lambda>d. row_where (\<lambda>r. o_id r = orderId) (orders d)))) (\<lambda>found.
       case found of
         None \<Rightarrow> throw_app (NotFoundException ''Order not found'')
       | Some order \<Rightarrow>
           if \<not> isTransitionAllowed (o_status order) to_status
           then throw_app (ConflictException (''Illegal order transition: '' @
                  status_text (o_status order) @ '' -> '' @ status_text to_status))
           else return_app order)"

definition transition_apply :: "uuid \<Rightarrow> OrderStatus \<Rightarrow> OrderEntity \<Rightarrow> (world, OrderEntity) app" where
  "transition_apply orderId to_status order =
     bind_app (timeDb ''order.update'' (update_orders
         (\<lambda>r. o_id r = orderId \<and> o_status r = o_status order)
         (\<lambda>now r. r\<lparr>o_status := to_status, o_updatedAt := DateObj now\<rparr>))) (\<lambda>claim.
       if claim = 0
       then throw_app (ConflictException (''Order '' @ orderId @ '' changed concurrently; '' @
              status_text (o_status order) @ '' -> '' @ status_text to_status @ '' not applied''))
       else
         bind_app read_clock (\<lambda>now.
         then_app (case TERMINAL_STATE_LABELS to_status of
                     None \<Rightarrow> return_app ()
                   | Some label \<Rightarrow> record_metric (recordTerminalState label))
         (then_app (record_metric (recordStageTimings now (order\<lparr>o_status := to_status\<rparr>)
                     (o_status order) to_status))
         (then_app (cache_del [orderKey orderId, userOrdersKey (o_userId order)])
           (return_app (order\<lparr>o_status := to_status\<rparr>))))))"

definition transitionOrder :: "uuid \<Rightarrow> OrderStatus \<Rightarrow> (world, OrderEntity) app" where
  "transitionOrder orderId to_status =
     bind_app (transition_find orderId to_status) (transition_apply orderId to_status)"

section \<open>initiatePayment\<close>

definition pay_guard :: "uuid \<Rightarrow> OrderEntity \<Rightarrow> bool" where
  "pay_guard orderId r \<longleftrightarrow> o_id r = orderId \<and> o_status r = RESERVED \<and> o_paymentInitiatedAt r = None"

definition pay_assign :: "int \<Rightarrow> OrderEntity \<Rightarrow> OrderEntity" where
  "pay_assign now r = r\<lparr>o_paymentInitiatedAt := Some (DateObj now), o_updatedAt := DateObj now\<rparr>"

definition payment_check :: "uuid \<Rightarrow> uuid \<Rightarrow> (world, OrderEntity) app" where
  "payment_check orderId userId = bind_app (getOrderForUser orderId userId) (\<lambda>order.
     if o_status order \<noteq> RESERVED
     then throw_app (ConflictException
            (''Order is not awaiting payment (status: '' @ status_text (o_status order) @ '')''))
     else return_app order)"

definition payment_claim :: "uuid \<Rightarrow> OrderEntity \<Rightarrow> (world, OrderEntity) app" where
  "payment_claim orderId order = bind_app read_clock (\<lambda>now.
     let event = InventoryReservedEvent (o_id order) (o_userId order) (IsoString now)
     in bind_app (timeDb ''order.claimPayment'' (transaction
          (bind_app (update_orders (pay_guard orderId) pay_assign) (\<lambda>claim.
             if claim = 0 then return_app False
             else then_app (enqueue (routing_key KInventoryReserved) event) (return_app True)))))
        (\<lambda>claimed.
          if \<not> claimed
          then throw_app (ConflictException ''Payment has already been initiated for this order'')
          else bind_app read_clock (\<lambda>later.
            then_app (cache_del [orderKey orderId])
              (return_app (order\<lparr>o_paymentInitiatedAt := Some (DateObj later)\<rparr>)))))"

definition initiatePayment :: "uuid \<Rightarrow> uuid \<Rightarrow> (world, OrderEntity) app" where
  "initiatePayment orderId userId = bind_app (payment_check orderId userId) (payment_claim orderId)"

section \<open>cancelOrder\<close>

definition cancel_guard :: "uuid \<Rightarrow> OrderEntity \<Rightarrow> bool" where
  "cancel_guard orderId r \<longleftrightarrow> o_id r = orderId \<and>
     (o_status r = PENDING \<or> (o_status r = RESERVED \<and> o_paymentInitiatedAt r = None))"

definition cancel_assign :: "int \<Rightarrow> OrderEntity \<Rightarrow> OrderEntity" where
  "cancel_assign now r = r\<lparr>o_status := CANCELLED, o_updatedAt := DateObj now\<rparr>"

definition cancel_check :: "uuid \<Rightarrow> uuid \<Rightarrow> (world, OrderEntity) app" where
  "cancel_check orderId userId = bind_app (getOrderForUser orderId userId) (\<lambda>order.
     let cancellable = (o_status order = PENDING \<or>
           (o_status order = RESERVED \<and> o_paymentInitiatedAt order = None))
     in if \<not> cancellable
        then throw_app (ConflictException
               (''Order cannot be cancelled (status: '' @ status_text (o_status order) @ '')''))
        else return_app order)"

definition cancel_claim :: "uuid \<Rightarrow> (world, unit) app" where
  "cancel_claim orderId =
     bind_app (timeDb ''order.claimCancel'' (update_orders (cancel_guard orderId) cancel_assign))
       (\<lambda>claim. if claim = 0 then throw_app (ConflictException ''Order can no longer be cancelled'')
                else return_app ())"

definition item_lines :: "OrderEntity \<Rightarrow> StockLine list" where
  "item_lines order =
     map (\<lambda>item. \<lparr>l_productId = oi_productId item, l_quantity = oi_quantity item\<rparr>) (items_or_empty order)"

definition cancel_finish :: "uuid \<Rightarrow> OrderEntity \<Rightarrow> (world, OrderEntity) app" where
  "cancel_finish orderId order =
     (let wasReserved = (o_status order = RESERVED)
      in then_app (when_app wasReserved (restoreStock (item_lines order)))
         (then_app (record_metric (recordTerminalState ''cancelled''))
         (then_app (cache_del [orderKey orderId, userOrdersKey (o_userId order)])
           (return_app (order\<lparr>o_status := CANCELLED\<rparr>)))))"

definition cancelOrder :: "uuid \<Rightarrow> uuid \<Rightarrow> (world, OrderEntity) app" where
  "cancelOrder orderId userId = bind_app (cancel_check orderId userId) (\<lambda>order.
     then_app (cancel_claim orderId) (cancel_finish orderId order))"

section \<open>DTOs and controller\<close>

record OrderItemResponseDTO =
  od_productId :: uuid
  od_productName :: string
  od_quantity :: int

record OrderResponseDTO =
  od_id :: uuid
  od_userId :: uuid
  od_status :: OrderStatus
  od_paymentInitiatedAt :: "js_time option"
  od_items :: "OrderItemResponseDTO list"
  od_createdAt :: js_time
  od_updatedAt :: js_time

definition toOrderItemResponseDTO :: "OrderItemEntity \<Rightarrow> OrderItemResponseDTO" where
  "toOrderItemResponseDTO item = \<lparr>od_productId = oi_productId item,
     od_productName = oi_productName item, od_quantity = oi_quantity item\<rparr>"

definition toOrderResponseDTO :: "OrderEntity \<Rightarrow> OrderResponseDTO" where
  "toOrderResponseDTO order = \<lparr>od_id = o_id order, od_userId = o_userId order,
     od_status = o_status order, od_paymentInitiatedAt = o_paymentInitiatedAt order,
     od_items = map toOrderItemResponseDTO (items_or_empty order),
     od_createdAt = o_createdAt order, od_updatedAt = o_updatedAt order\<rparr>"

definition orders_controller_list :: "uuid \<Rightarrow> (world, OrderResponseDTO list) app" where
  "orders_controller_list sub =
     bind_app (listOrdersForUser sub) (\<lambda>os. return_app (map toOrderResponseDTO os))"

definition orders_controller_getById :: "uuid \<Rightarrow> uuid \<Rightarrow> (world, OrderResponseDTO) app" where
  "orders_controller_getById oid sub =
     bind_app (getOrderForUser oid sub) (\<lambda>order. return_app (toOrderResponseDTO order))"

definition orders_controller_pay :: "uuid \<Rightarrow> uuid \<Rightarrow> (world, OrderResponseDTO) app" where
  "orders_controller_pay oid sub =
     bind_app (initiatePayment oid sub) (\<lambda>order. return_app (toOrderResponseDTO order))"

definition orders_controller_cancel :: "uuid \<Rightarrow> uuid \<Rightarrow> (world, OrderResponseDTO) app" where
  "orders_controller_cancel oid sub =
     bind_app (cancelOrder oid sub) (\<lambda>order. return_app (toOrderResponseDTO order))"

section \<open>How the operations run\<close>

lemma bind_timeDb_query [simp]:
  "bind_app (timeDb n (query f)) k w = k (f (db w)) (w\<lparr>collectors := recordDbDuration n 0 (collectors w)\<rparr>)"
  by (simp add: bind_app_def timeDb_def)

lemma run_update_orders: "update_orders g a w = (Inr (affected g (orders (db w))),
    w\<lparr>db := (db w)\<lparr>orders := update_where g (a (clock w)) (orders (db w))\<rparr>\<rparr>)"
  by (simp add: update_orders_def app_defs query_def execute_def read_clock_def)

lemma bind_timeDb_update_orders [simp]:
  "bind_app (timeDb n (update_orders g a)) k w = k (affected g (orders (db w)))
     (w\<lparr>db := (db w)\<lparr>orders := update_where g (a (clock w)) (orders (db w))\<rparr>,
        collectors := recordDbDuration n 0 (collectors w)\<rparr>)"
  by (simp add: bind_app_def timeDb_def run_update_orders)

lemma db_unchanged_if_none: "affected g (orders d) = 0 \<Longrightarrow> d\<lparr>orders := update_where g f (orders d)\<rparr> = d"
  by (simp add: affected_0_update)

text \<open>\<open>transitionOrder\<close>, by the row it reads and by whether its update hits.\<close>

lemma transition_find_run:
  "transition_find oid st w =
     (case row_where (\<lambda>r. o_id r = oid) (orders (db w)) of
        None \<Rightarrow> Inl (NotFoundException ''Order not found'')
      | Some ord \<Rightarrow>
          if isTransitionAllowed (o_status ord) st then Inr ord
          else Inl (ConflictException (''Illegal order transition: '' @
                 status_text (o_status ord) @ '' -> '' @ status_text st)),
      w\<lparr>collectors := recordDbDuration ''order.find'' 0 (collectors w)\<rparr>)"
  by (simp add: transition_find_def split: option.splits)

lemma transition_apply_lost:
  assumes "affected (\<lambda>r. o_id r = oid \<and> o_status r = o_status ord) (orders (db w)) = 0"
  shows "transition_apply oid st ord w =
    (Inl (ConflictException (''Order '' @ oid @ '' changed concurrently; '' @
        status_text (o_status ord) @ '' -> '' @ status_text st @ '' not applied'')),
     w\<lparr>collectors := recordDbDuration ''order.update'' 0 (collectors w)\<rparr>)"
  using assms by (simp add: transition_apply_def db_unchanged_if_none)

lemma transition_apply_won:
  assumes "affected (\<lambda>r. o_id r = oid \<and> o_status r = o_status ord) (orders (db w)) \<noteq> 0"
  shows "\<exists>c. transition_apply oid st ord w = (Inr (ord\<lparr>o_status := st\<rparr>),
    after_del [orderKey oid, userOrdersKey (o_userId ord)] (w\<lparr>db := (db w)\<lparr>orders :=
      update_where (\<lambda>r. o_id r = oid \<and> o_status r = o_status ord)
        (\<lambda>r. r\<lparr>o_status := st, o_updatedAt := DateObj (clock w)\<rparr>) (orders (db w))\<rparr>, collectors := c\<rparr>))"
  using assms
  by (cases "TERMINAL_STATE_LABELS st") (auto simp: transition_apply_def)

definition orders_ok :: "database \<Rightarrow> bool" where
  "orders_ok d \<longleftrightarrow> distinct (map o_id (orders d)) \<and>
     list_all (\<lambda>r. o_items r = None \<and> o_createdAt r = DateObj (getTime (o_createdAt r)) \<and>
       o_updatedAt r = DateObj (getTime (o_updatedAt r)) \<and>
       map_option newDate (o_paymentInitiatedAt r) = o_paymentInitiatedAt r) (orders d)"

text \<open>The status of an order, the abstract state the lifecycle is about.\<close>

definition status_of :: "database \<Rightarrow> uuid \<Rightarrow> OrderStatus option" where
  "status_of d oid = map_option o_status (row_where (\<lambda>r. o_id r = oid) (orders d))"

lemma status_of_update:
  assumes "\<And>r. o_id (f r) = o_id r" and "\<And>r. o_status (f r) = st" and "distinct (map o_id (orders d))"
    and "row_where (\<lambda>r. o_id r = oid) (orders d) = Some ord" and "p ord" and "\<And>r. p r \<Longrightarrow> o_id r = oid"
  shows "status_of (d\<lparr>orders := update_where p f (orders d)\<rparr>) = (status_of d)(oid \<mapsto> st)"
proof (rule ext)
  fix v
  have "row_where (\<lambda>r. o_id r = v) (update_where p f (orders d)) =
      map_option (\<lambda>r. if p r then f r else r) (row_where (\<lambda>r. o_id r = v) (orders d))"
    by (rule row_where_update_key) (rule assms(1))
  moreover have "\<not> p r" if "row_where (\<lambda>r. o_id r = v) (orders d) = Some r" "v \<noteq> oid" for r
    using row_where_Some [OF that(1)] that(2) assms(6) by auto
  ultimately show "status_of (d\<lparr>orders := update_where p f (orders d)\<rparr>) v = ((status_of d)(oid \<mapsto> st)) v"
    using assms(4,5)
    by (cases "row_where (\<lambda>r. o_id r = v) (orders d)") (auto simp: status_of_def assms(2))
qed

lemma transitionOrder_run:
  assumes "distinct (map o_id (orders (db w)))"
  shows "case status_of (db w) oid of
      None \<Rightarrow> fst (transitionOrder oid st w) = Inl (NotFoundException ''Order not found'') \<and>
        db (snd (transitionOrder oid st w)) = db w
    | Some from \<Rightarrow>
        if isTransitionAllowed from st
        then \<exists>ord. row_where (\<lambda>r. o_id r = oid) (orders (db w)) = Some ord \<and> o_status ord = from \<and>
          fst (transitionOrder oid st w) = Inr (ord\<lparr>o_status := st\<rparr>) \<and>
          status_of (db (snd (transitionOrder oid st w))) = (status_of (db w))(oid \<mapsto> st) \<and>
          db (snd (transitionOrder oid st w)) = (db w)\<lparr>orders :=
            update_where (\<lambda>r. o_id r = oid \<and> o_status r = from)
              (\<lambda>r. r\<lparr>o_status := st, o_updatedAt := DateObj (clock w)\<rparr>) (orders (db w))\<rparr>
        else (\<exists>msg. fst (transitionOrder oid st w) = Inl (ConflictException msg)) \<and>
          db (snd (transitionOrder oid st w)) = db w"
proof (cases "row_where (\<lambda>r. o_id r = oid) (orders (db w))")
  case None
  then show ?thesis
    by (simp add: status_of_def transitionOrder_def bind_app_def transition_find_run)
next
  case (Some ord)
  let ?w = "w\<lparr>collectors := recordDbDuration ''order.find'' 0 (collectors w)\<rparr>"
  show ?thesis
  proof (cases "isTransitionAllowed (o_status ord) st")
    case True
    have "ord \<in> set (orders (db w))" "o_id ord = oid" using row_where_Some [OF Some] by simp_all
    then have "affected (\<lambda>r. o_id r = oid \<and> o_status r = o_status ord) (orders (db ?w)) \<noteq> 0"
      by (intro affected_pos [of ord]) auto
    from transition_apply_won [OF this, of st] Some True
    show ?thesis
      using status_of_update [OF _ _ assms Some, of "\<lambda>r. r\<lparr>o_status := st, o_updatedAt := DateObj (clock w)\<rparr>"
          st "\<lambda>r. o_id r = oid \<and> o_status r = o_status ord"] \<open>o_id ord = oid\<close>
      by (auto simp: status_of_def transitionOrder_def bind_app_def transition_find_run)
  next
    case False
    with Some show ?thesis
      by (simp add: status_of_def transitionOrder_def bind_app_def transition_find_run)
  qed
qed

section \<open>The claims\<close>

text \<open>Payment confirmation and cancellation are atomic claims on the one row of the order.\<close>

interpretation pay: keyed_claim "pay_guard oid" "pay_assign now" o_id oid for oid now
  by unfold_locales (auto simp: pay_guard_def pay_assign_def)

interpretation cancel: keyed_claim "cancel_guard oid" "cancel_assign now" o_id oid for oid now
  by unfold_locales (auto simp: cancel_guard_def cancel_assign_def)

text \<open>Each claim also spends the other's guard.\<close>

lemma pay_spends_cancel: "pay_guard oid r \<Longrightarrow> \<not> cancel_guard oid (pay_assign now r)"
  by (auto simp: pay_guard_def cancel_guard_def pay_assign_def)

lemma cancel_spends_pay: "\<not> pay_guard oid (cancel_assign now r)"
  by (auto simp: pay_guard_def cancel_assign_def)

lemma affected_pay_None: "affected (pay_guard oid) t = 0 \<or> (\<exists>r \<in> set t. pay_guard oid r)"
  by (auto simp: affected_0)

lemma payment_claim_won:
  assumes "affected (pay_guard oid) (orders (db w)) \<noteq> 0"
  shows "\<exists>c. payment_claim oid ord w = (Inr (ord\<lparr>o_paymentInitiatedAt := Some (DateObj (clock w))\<rparr>),
    after_del [orderKey oid] ((after_enqueue (routing_key KInventoryReserved)
      (InventoryReservedEvent (o_id ord) (o_userId ord) (IsoString (clock w)))
      (w\<lparr>db := (db w)\<lparr>orders := update_where (pay_guard oid) (pay_assign (clock w)) (orders (db w))\<rparr>\<rparr>))
        \<lparr>collectors := c\<rparr>))"
  using assms
  by (simp add: payment_claim_def bind_app_def timeDb_def transaction_def run_update_orders
      run_cache_del then_app_def) blast

lemma payment_claim_lost:
  assumes "affected (pay_guard oid) (orders (db w)) = 0"
  shows "payment_claim oid ord w =
    (Inl (ConflictException ''Payment has already been initiated for this order''),
     w\<lparr>collectors := recordDbDuration ''order.claimPayment'' 0 (collectors w)\<rparr>)"
  using assms
  by (simp add: payment_claim_def bind_app_def timeDb_def transaction_def run_update_orders
      db_unchanged_if_none)

lemma cancel_claim_won:
  assumes "affected (cancel_guard oid) (orders (db w)) \<noteq> 0"
  shows "cancel_claim oid w = (Inr (), w\<lparr>db := (db w)\<lparr>orders :=
      update_where (cancel_guard oid) (cancel_assign (clock w)) (orders (db w))\<rparr>,
    collectors := recordDbDuration ''order.claimCancel'' 0 (collectors w)\<rparr>)"
  using assms by (simp add: cancel_claim_def)

lemma cancel_claim_lost:
  assumes "affected (cancel_guard oid) (orders (db w)) = 0"
  shows "cancel_claim oid w = (Inl (ConflictException ''Order can no longer be cancelled''),
    w\<lparr>collectors := recordDbDuration ''order.claimCancel'' 0 (collectors w)\<rparr>)"
  using assms by (simp add: cancel_claim_def db_unchanged_if_none)

section \<open>How createOrder runs\<close>

fun new_items :: "(nat \<Rightarrow> uuid) \<Rightarrow> nat \<Rightarrow> uuid \<Rightarrow> OrderLine list \<Rightarrow> OrderItemEntity list" where
  "new_items ids n orderId [] = []"
| "new_items ids n orderId (line # lines) =
     \<lparr>oi_id = ids n, oi_orderId = orderId, oi_productId = ol_productId line,
      oi_productName = ol_productName line, oi_quantity = ol_quantity line\<rparr> #
       new_items ids (Suc n) orderId lines"

lemma save_items_run:
  "save_items orderId lines w = (Inr (new_items (uuid_supply w) (drawn w) orderId lines),
     w\<lparr>db := (db w)\<lparr>order_items := order_items (db w) @ new_items (uuid_supply w) (drawn w) orderId lines\<rparr>,
       drawn := drawn w + length lines\<rparr>)"
  by (induction lines arbitrary: w) (simp_all add: Let_def, simp add: bind_app_def)

lemma set_new_items: "i \<in> set (new_items ids n orderId lines) \<Longrightarrow> oi_orderId i = orderId"
  by (induction lines arbitrary: n) auto

lemma new_items_lines:
  "map (\<lambda>i. (oi_orderId i, oi_productId i, oi_productName i, oi_quantity i)) (new_items ids n orderId lines) =
   map (\<lambda>l. (orderId, ol_productId l, ol_productName l, ol_quantity l)) lines"
  by (induction lines arbitrary: n) simp_all

definition new_order :: "uuid \<Rightarrow> world \<Rightarrow> OrderEntity" where
  "new_order userId w = \<lparr>o_id = uuid_supply w (drawn w), o_userId = userId, o_status = PENDING,
     o_paymentInitiatedAt = None, o_items = None, o_createdAt = DateObj (clock w),
     o_updatedAt = DateObj (clock w)\<rparr>"

definition order_saved :: "uuid \<Rightarrow> OrderLine list \<Rightarrow> world \<Rightarrow> world" where
  "order_saved userId lines w =
     (let oid = uuid_supply w (drawn w)
      in w\<lparr>db := (db w)\<lparr>orders := orders (db w) @ [new_order userId w],
             order_items := order_items (db w) @ new_items (uuid_supply w) (Suc (drawn w)) oid lines\<rparr>,
           drawn := Suc (drawn w) + length lines\<rparr>)"

definition created_event :: "uuid \<Rightarrow> OrderLine list \<Rightarrow> world \<Rightarrow> order_event" where
  "created_event userId lines w = OrderCreatedEvent (uuid_supply w (drawn w)) userId
     (stock_lines lines) (IsoString (clock w))"

lemma createOrder_run:
  "\<exists>c. createOrder userId lines w =
     (Inr ((new_order userId w)\<lparr>o_items :=
        Some (new_items (uuid_supply w) (Suc (drawn w)) (uuid_supply w (drawn w)) lines)\<rparr>),
      after_del [userOrdersKey userId] ((after_enqueue (routing_key KCreated)
        (created_event userId lines w) (order_saved userId lines w))\<lparr>collectors := c\<rparr>))"
  by (simp add: createOrder_def bind_app_def timeDb_def transaction_def save_order_def save_items_run
      Let_def run_cache_del then_app_def order_saved_def new_order_def created_event_def
      read_clock_def execute_def random_uuid_def record_metric_def) blast

section \<open>Coherence of the by-id cache\<close>

text \<open>
  Whatever is stored under an order's key is that order as the database has it, in a terminal state.
  This needs no invalidation to succeed: a terminal row never changes again.
\<close>

definition order_cache_ok :: "world \<Rightarrow> bool" where
  "order_cache_ok w \<longleftrightarrow> (\<forall>oid t v. redis_store (redis w) (orderKey oid) = Some (t, v) \<longrightarrow>
     (\<exists>r \<in> set (orders (db w)). o_id r = oid \<and> isTerminalStatus (o_status r) \<and>
        v = JsonOrder (jsonify_order (with_items (db w) r))))"

lemma order_cache_mono:
  assumes "order_cache_ok w"
    and "\<And>oid x. redis_store (redis w') (orderKey oid) = Some x \<Longrightarrow> redis_store (redis w) (orderKey oid) = Some x"
    and "\<And>r. r \<in> set (orders (db w)) \<Longrightarrow> isTerminalStatus (o_status r) \<Longrightarrow>
      r \<in> set (orders (db w')) \<and> with_items (db w') r = with_items (db w) r"
  shows "order_cache_ok w'"
  using assms unfolding order_cache_ok_def by metis

lemma store_after_del: "redis_store (redis (after_del ks w)) k = Some x \<Longrightarrow> redis_store (redis w) k = Some x"
  by (auto simp: redis_after_del store_del_def split: if_splits)

lemma cache_ok_update_orders:
  assumes "order_cache_ok w" and "\<And>r. g r \<Longrightarrow> \<not> isTerminalStatus (o_status r)"
    and "\<And>k x. redis_store (redis w') k = Some x \<Longrightarrow> redis_store (redis w) k = Some x"
    and "orders (db w') = update_where g f (orders (db w))" and "order_items (db w') = order_items (db w)"
  shows "order_cache_ok w'"
  using assms(1)
  by (rule order_cache_mono) (use assms(2-5) in \<open>auto simp: set_update_where with_items_def\<close>)

lemma find_order_Some:
  "find_order oid userId d = Some ord \<Longrightarrow>
    \<exists>r \<in> set (orders d). o_id r = oid \<and> o_userId r = userId \<and> ord = with_items d r"
  by (auto simp: find_order_def dest: row_where_Some)

lemma with_items_simps [simp]:
  "o_id (with_items d r) = o_id r" "o_userId (with_items d r) = o_userId r"
  "o_status (with_items d r) = o_status r"
  "o_paymentInitiatedAt (with_items d r) = o_paymentInitiatedAt r"
  by (simp_all add: with_items_def)

lemma jsonify_simps [simp]:
  "o_id (jsonify_order r) = o_id r" "o_userId (jsonify_order r) = o_userId r"
  "o_status (jsonify_order r) = o_status r"
  by (simp_all add: jsonify_order_def)

lemma rehydrate_simps [simp]:
  "o_id (rehydrateOrder r) = o_id r" "o_userId (rehydrateOrder r) = o_userId r"
  "o_status (rehydrateOrder r) = o_status r" "o_items (rehydrateOrder r) = o_items r"
  by (simp_all add: rehydrateOrder_def)

text \<open>What a hit under an order's key can be.\<close>

lemma cache_hit_stored:
  assumes "cache_hit key w = Some x"
  shows "\<exists>t. redis_store (redis w) key = Some (t, x)"
proof -
  from assms have "cached w key = Some x"
    by (auto simp: cache_hit_def split: if_splits option.splits json_text.splits)
  then show ?thesis
    by (auto simp: store_get_def split: option.splits if_splits)
qed

lemma cache_hit_order:
  assumes "order_cache_ok w" and "cache_hit (orderKey oid) w = Some x"
  shows "\<exists>r \<in> set (orders (db w)). o_id r = oid \<and> isTerminalStatus (o_status r) \<and>
    x = JsonOrder (jsonify_order (with_items (db w) r))"
  using cache_hit_stored [OF assms(2)] assms(1) unfolding order_cache_ok_def by blast

definition get_filled :: "uuid \<Rightarrow> uuid \<Rightarrow> world \<Rightarrow> world" where
  "get_filled oid userId w =
     (let w1 = (after_get (orderKey oid) w)\<lparr>collectors :=
           recordDbDuration ''order.find'' 0 (collectors (after_get (orderKey oid) w))\<rparr>
      in case find_order oid userId (db w) of
           None \<Rightarrow> w1
         | Some ord \<Rightarrow> if isTerminalStatus (o_status ord)
                        then after_set (orderKey oid) (JsonOrder ord) (cfg_cache_ttl (cfg w)) w1 else w1)"

lemma getOrder_run:
  "getOrderForUser oid userId w =
     (if \<exists>c. cache_hit (orderKey oid) w = Some (JsonOrder c) \<and> o_userId c = userId
      then (case cache_hit (orderKey oid) w of
              Some (JsonOrder c) \<Rightarrow> (Inr (rehydrateOrder c), after_get (orderKey oid) w))
      else (case find_order oid userId (db w) of
              None \<Rightarrow> Inl (NotFoundException ''Order not found'') | Some ord \<Rightarrow> Inr ord,
            get_filled oid userId w))"
proof -
  let ?w = "(after_get (orderKey oid) w)\<lparr>collectors :=
      recordDbDuration ''order.find'' 0 (collectors (after_get (orderKey oid) w))\<rparr>"
  have "redis_up (redis ?w) = redis_up (redis w)" by simp
  have db: "bind_app (timeDb ''order.find'' (query (find_order oid userId))) (\<lambda>found.
           case found of
             None \<Rightarrow> throw_app (NotFoundException ''Order not found'')
           | Some order \<Rightarrow>
               bind_app (gets_app (\<lambda>w. cfg_cache_ttl (cfg w))) (\<lambda>ttl.
               then_app
                 (when_app (isTerminalStatus (o_status order))
                   (cache_set (orderKey oid) (JsonOrder order) ttl))
                 (return_app order))) (after_get (orderKey oid) w) =
      (case find_order oid userId (db w) of
              None \<Rightarrow> Inl (NotFoundException ''Order not found'') | Some ord \<Rightarrow> Inr ord,
            get_filled oid userId w)"
    by (simp add: get_filled_def Let_def when_app_def split: option.splits)
  show ?thesis
    unfolding getOrderForUser_def bind_cache_get Let_def
    by (cases "cache_hit (orderKey oid) w"; (cases "the (cache_hit (orderKey oid) w)")?)
      (simp_all add: db del: bind_timeDb_query)
qed

lemma db_getOrder [simp]: "db (snd (getOrderForUser oid userId w)) = db w"
  by (simp add: getOrder_run get_filled_def Let_def split: option.splits json_text.splits)

text \<open>The cached order rehydrated: the row's again, its payment date but for the representation.\<close>

lemma rehydrate_jsonify:
  assumes "orders_ok d" and "r \<in> set (orders d)"
  shows "(rehydrateOrder (jsonify_order (with_items d r)))\<lparr>o_paymentInitiatedAt :=
      o_paymentInitiatedAt r\<rparr> = with_items d r"
    "map_option newDate (o_paymentInitiatedAt (rehydrateOrder (jsonify_order (with_items d r)))) =
      o_paymentInitiatedAt r"
proof -
  from assms obtain a b where ab: "o_createdAt r = DateObj a" "o_updatedAt r = DateObj b"
    "map_option newDate (o_paymentInitiatedAt r) = o_paymentInitiatedAt r"
    by (auto simp: orders_ok_def list_all_iff)
  then show "(rehydrateOrder (jsonify_order (with_items d r)))\<lparr>o_paymentInitiatedAt :=
      o_paymentInitiatedAt r\<rparr> = with_items d r"
    by (simp add: rehydrateOrder_def jsonify_order_def with_items_def)
  show "map_option newDate (o_paymentInitiatedAt (rehydrateOrder (jsonify_order (with_items d r)))) =
      o_paymentInitiatedAt r"
    using ab(3) by (simp add: rehydrateOrder_def jsonify_order_def with_items_def option.map_comp comp_def)
qed

text \<open>The answer is the database's.\<close>

lemma getOrder_answer:
  assumes "order_cache_ok w" and "orders_ok (db w)"
  shows "case find_order oid userId (db w) of
      None \<Rightarrow> fst (getOrderForUser oid userId w) = Inl (NotFoundException ''Order not found'')
    | Some ord \<Rightarrow> \<exists>got. fst (getOrderForUser oid userId w) = Inr got \<and>
        got\<lparr>o_paymentInitiatedAt := o_paymentInitiatedAt ord\<rparr> = ord \<and>
        map_option newDate (o_paymentInitiatedAt got) = o_paymentInitiatedAt ord \<and>
        (isTerminalStatus (o_status ord) \<or> got = ord)"
proof (cases "\<exists>c. cache_hit (orderKey oid) w = Some (JsonOrder c) \<and> o_userId c = userId")
  case True
  then obtain c where c: "cache_hit (orderKey oid) w = Some (JsonOrder c)" "o_userId c = userId" by blast
  from cache_hit_order [OF assms(1) c(1)] obtain r where
    r: "r \<in> set (orders (db w))" "o_id r = oid" "isTerminalStatus (o_status r)"
      "c = jsonify_order (with_items (db w) r)" by auto
  have "o_userId r = userId" using c(2) r(4) by simp
  moreover have "distinct (map o_id (orders (db w)))" using assms(2) by (simp add: orders_ok_def)
  ultimately have "row_where (\<lambda>x. o_id x = oid \<and> o_userId x = userId) (orders (db w)) = Some r"
    using r(1,2) by (intro row_where_key_and)
  then have "find_order oid userId (db w) = Some (with_items (db w) r)"
    by (simp add: find_order_def)
  with c r rehydrate_jsonify [OF assms(2) r(1)] show ?thesis
    by (simp add: getOrder_run)
next
  case False
  have "o_paymentInitiatedAt ord = map_option newDate (o_paymentInitiatedAt ord)"
    if "find_order oid userId (db w) = Some ord" for ord
    using find_order_Some [OF that] assms(2) by (auto simp: orders_ok_def list_all_iff)
  then show ?thesis using False by (auto simp: getOrder_run split: option.splits)
qed

text \<open>Every operation keeps the cache coherent, whether or not Redis answers.\<close>

lemma cache_ok_same:
  "order_cache_ok w \<Longrightarrow> redis w' = redis w \<Longrightarrow> orders (db w') = orders (db w) \<Longrightarrow>
    order_items (db w') = order_items (db w) \<Longrightarrow> order_cache_ok w'"
  by (erule order_cache_mono) (auto simp: with_items_def)

lemma cache_ok_set:
  assumes "order_cache_ok w" and "r \<in> set (orders (db w))" and "isTerminalStatus (o_status r)"
  shows "order_cache_ok (after_set (orderKey (o_id r)) (JsonOrder (with_items (db w) r)) ttl w)"
  unfolding order_cache_ok_def
proof (intro allI impI)
  fix oid t v
  assume "redis_store (redis (after_set (orderKey (o_id r)) (JsonOrder (with_items (db w) r)) ttl w))
      (orderKey oid) = Some (t, v)"
  then consider "redis_store (redis w) (orderKey oid) = Some (t, v)"
    | "oid = o_id r" "v = JsonOrder (jsonify_order (with_items (db w) r))"
    by (auto simp: redis_after_set store_set_def split: if_splits)
  then show "\<exists>r' \<in> set (orders (db (after_set (orderKey (o_id r)) (JsonOrder (with_items (db w) r)) ttl w))).
      o_id r' = oid \<and> isTerminalStatus (o_status r') \<and> v = JsonOrder (jsonify_order (with_items
        (db (after_set (orderKey (o_id r)) (JsonOrder (with_items (db w) r)) ttl w)) r'))"
    using assms by cases (auto simp: order_cache_ok_def)
qed

lemma cache_ok_getOrder:
  assumes "order_cache_ok w"
  shows "order_cache_ok (snd (getOrderForUser oid userId w))"
proof -
  let ?w1 = "(after_get (orderKey oid) w)\<lparr>collectors :=
      recordDbDuration ''order.find'' 0 (collectors (after_get (orderKey oid) w))\<rparr>"
  have w1: "order_cache_ok ?w1" by (rule cache_ok_same [OF assms]) simp_all
  have "order_cache_ok (after_get (orderKey oid) w)" by (rule cache_ok_same [OF assms]) simp_all
  moreover have "order_cache_ok (get_filled oid userId w)"
  proof (cases "find_order oid userId (db w)")
    case (Some ord)
    from find_order_Some [OF this] obtain r where
      r: "r \<in> set (orders (db ?w1))" "o_id r = oid" "ord = with_items (db ?w1) r" by auto
    show ?thesis using w1 cache_ok_set [OF w1 r(1)] Some r(2,3) by (auto simp: get_filled_def Let_def)
  qed (use w1 in \<open>simp add: get_filled_def Let_def\<close>)
  ultimately show ?thesis
    by (simp add: getOrder_run split: option.splits json_text.splits)
qed

lemma cache_ok_bind_throws:
  "fst (m w) = Inl e \<Longrightarrow> snd (bind_app m k w) = snd (m w)"
  by (cases "m w") (simp add: bind_app_def)

lemma cache_ok_transition_apply:
  assumes "order_cache_ok w" and "\<not> isTerminalStatus (o_status ord)"
  shows "order_cache_ok (snd (transition_apply oid st ord w))"
proof (cases "affected (\<lambda>r. o_id r = oid \<and> o_status r = o_status ord) (orders (db w)) = 0")
  case True
  show ?thesis by (rule cache_ok_same [OF assms(1)]) (simp_all add: transition_apply_lost [OF True])
next
  case False
  from transition_apply_won [OF False, of st] show ?thesis
    by (elim exE) (rule cache_ok_update_orders [OF assms(1),
      of "\<lambda>r. o_id r = oid \<and> o_status r = o_status ord"],
      use assms(2) in \<open>auto dest!: store_after_del\<close>)
qed

lemma cache_ok_transition:
  assumes "order_cache_ok w"
  shows "order_cache_ok (snd (transitionOrder oid st w))"
proof -
  let ?w = "w\<lparr>collectors := recordDbDuration ''order.find'' 0 (collectors w)\<rparr>"
  have "order_cache_ok ?w" by (rule cache_ok_same [OF assms]) simp_all
  moreover from cache_ok_transition_apply [OF this] terminal_not_allowed
  have "order_cache_ok (snd (transition_apply oid st ord ?w))" if "isTransitionAllowed (o_status ord) st" for ord
    using that by blast
  ultimately show ?thesis
    by (auto simp: transitionOrder_def bind_app_def transition_find_run split: option.splits)
qed

lemma cache_ok_payment_claim:
  assumes "order_cache_ok w"
  shows "order_cache_ok (snd (payment_claim oid ord w))"
proof (cases "affected (pay_guard oid) (orders (db w)) = 0")
  case True
  show ?thesis by (rule cache_ok_same [OF assms]) (simp_all add: payment_claim_lost [OF True])
next
  case False
  from payment_claim_won [OF False, of ord] show ?thesis
    by (elim exE) (rule cache_ok_update_orders [OF assms, of "pay_guard oid"],
      auto dest!: store_after_del simp: pay_guard_def)
qed

lemma restoreStock_frame:
  "same (\<lambda>w. (redis w, orders (db w), order_items (db w))) (restoreStock ls)"
  unfolding restoreStock_def restore_line_def
  by (intro same_rules) (auto intro!: sameI simp: update_stock_def)

lemma cache_ok_restoreStock: "order_cache_ok w \<Longrightarrow> order_cache_ok (snd (restoreStock ls w))"
  using sameD [OF restoreStock_frame, of ls w] by (auto intro: cache_ok_same)

lemma cache_ok_cancel_claim:
  assumes "order_cache_ok w"
  shows "order_cache_ok (snd (cancel_claim oid w))"
proof (cases "affected (cancel_guard oid) (orders (db w)) = 0")
  case True
  show ?thesis by (rule cache_ok_same [OF assms]) (simp_all add: cancel_claim_lost [OF True])
next
  case False
  show ?thesis
    by (rule cache_ok_update_orders [OF assms, of "cancel_guard oid"])
      (auto simp: cancel_claim_won [OF False] cancel_guard_def)
qed

lemma cache_ok_after_del: "order_cache_ok w \<Longrightarrow> order_cache_ok (after_del ks w)"
  by (erule order_cache_mono) (auto dest: store_after_del simp: with_items_def)

lemma cache_ok_cancel_finish:
  assumes "order_cache_ok w"
  shows "order_cache_ok (snd (cancel_finish oid ord w))"
proof -
  have k: "order_cache_ok (snd (then_app (record_metric (recordTerminalState ''cancelled''))
      (then_app (cache_del ks) (return_app x)) u))" if "order_cache_ok u" for u ks and x :: OrderEntity
    using cache_ok_same [OF that, of "u\<lparr>collectors := recordTerminalState ''cancelled'' (collectors u)\<rparr>"]
    by (simp add: cache_ok_after_del)
  show ?thesis
  proof (cases "restoreStock (item_lines ord) w")
    case (Pair r w')
    with cache_ok_restoreStock [OF assms, of "item_lines ord"] have w': "order_cache_ok w'" by simp
    show ?thesis
      using k [OF w'] k [OF assms] w' Pair
      by (cases r) (auto simp: cancel_finish_def Let_def when_app_def then_app_def [of "restoreStock _"]
        bind_app_def [of "restoreStock _"])
  qed
qed

lemma cache_ok_createOrder:
  assumes "order_cache_ok w" and "uuid_supply w (drawn w) \<notin> o_id ` set (orders (db w))"
  shows "order_cache_ok (snd (createOrder userId lines w))"
proof -
  have i: "oi_orderId i \<noteq> o_id r" if "r \<in> set (orders (db w))"
    "i \<in> set (new_items ids n (uuid_supply w (drawn w)) lines)" for r i ids n
    using assms(2) set_new_items [OF that(2)] that(1) by auto
  then have no_items: "filter (\<lambda>i. oi_orderId i = o_id r) (new_items ids n (uuid_supply w (drawn w)) lines) = []"
    if "r \<in> set (orders (db w))" for r ids n
    using that by (auto simp: filter_empty_conv)
  obtain c x where c: "createOrder userId lines w = (Inr x,
      after_del [userOrdersKey userId] ((after_enqueue (routing_key KCreated)
        (created_event userId lines w) (order_saved userId lines w))\<lparr>collectors := c\<rparr>))"
    using createOrder_run by blast
  have "order_cache_ok ((after_enqueue (routing_key KCreated)
        (created_event userId lines w) (order_saved userId lines w))\<lparr>collectors := c\<rparr>)"
    by (rule order_cache_mono [OF assms(1)])
      (simp_all add: order_saved_def Let_def with_items_def rows_where_def no_items)
  then show ?thesis by (simp add: c cache_ok_after_del)
qed

lemma cache_ok_bind:
  "order_cache_ok (snd (m w)) \<Longrightarrow> (\<And>a w'. m w = (Inr a, w') \<Longrightarrow> order_cache_ok (snd (k a w'))) \<Longrightarrow>
    order_cache_ok (snd (bind_app m k w))"
  by (cases "m w") (auto simp: bind_app_def split: sum.splits)

lemma cache_ok_initiatePayment: "order_cache_ok w \<Longrightarrow> order_cache_ok (snd (initiatePayment oid userId w))"
  unfolding initiatePayment_def payment_check_def bind_bind
  by (rule cache_ok_bind [OF cache_ok_getOrder], assumption)
    (use cache_ok_getOrder [of w oid userId] in \<open>auto intro: cache_ok_payment_claim\<close>)

lemma cache_ok_cancelOrder: "order_cache_ok w \<Longrightarrow> order_cache_ok (snd (cancelOrder oid userId w))"
  unfolding cancelOrder_def cancel_check_def bind_bind Let_def
  by (rule cache_ok_bind [OF cache_ok_getOrder], assumption)
    (use cache_ok_getOrder [of w oid userId] in
      \<open>auto intro!: cache_ok_bind cache_ok_cancel_claim cache_ok_cancel_finish simp: then_app_def
        dest: arg_cong [where f = snd] cache_ok_cancel_claim\<close>)

end
