(* ===== verification/Order_Correctness.thy ===== *)
theory Order_Correctness
  imports Orders
begin

text \<open>
  What \<open>OrdersService\<close> guarantees: creation is one transaction, transitions follow the state machine
  and compare-and-set, payment confirmation and cancellation exclude each other and themselves,
  cancelling gives stock back, the cache never changes an answer; and the two interleavings in which
  the service does not keep what its comments promise.
\<close>

section \<open>Examples\<close>

definition example_item :: OrderItemEntity where
  "example_item = \<lparr>oi_id = ''x'', oi_orderId = ''o'', oi_productId = ''a'', oi_productName = ''a'', oi_quantity = 2\<rparr>"

definition example_order :: "OrderStatus \<Rightarrow> OrderEntity" where
  "example_order st = \<lparr>o_id = ''o'', o_userId = ''u'', o_status = st, o_paymentInitiatedAt = None,
     o_items = None, o_createdAt = DateObj 1, o_updatedAt = DateObj 1\<rparr>"

definition example_world :: "OrderStatus \<Rightarrow> world" where
  "example_world st = empty_world\<lparr>db := empty_db\<lparr>orders := [example_order st],
     order_items := [example_item], products := [shop_product ''a'' 3, shop_product ''b'' 1]\<rparr>\<rparr>"

lemmas example_defs = example_world_def example_order_def example_item_def

lemma example_ok [simp]:
  "orders_ok (db (example_world st))" "products_ok (db (example_world st))"
  "order_cache_ok (example_world st)" "distinct (map o_id (orders (db (example_world st))))"
  "stock_of (db (example_world st)) = [''a'' \<mapsto> 3, ''b'' \<mapsto> 1]"
  by (auto simp: example_defs orders_ok_def products_ok_def empty_db_def shop_product_def int4_def
      order_cache_ok_def empty_world_def stock_of_def)

lemma example_find [simp]:
  "find_order ''o'' ''u'' (db (example_world st)) =
     Some ((example_order st)\<lparr>o_items := Some [example_item]\<rparr>)"
  by (simp add: find_order_def with_items_def rows_where_def example_defs empty_db_def)

lemma example_lines: "item_lines ((example_order st)\<lparr>o_items := Some [example_item]\<rparr>) =
    [\<lparr>l_productId = ''a'', l_quantity = 2\<rparr>]"
  by (simp add: item_lines_def items_or_empty_def example_item_def)

lemma example_status [simp]: "status_of (db (example_world st)) ''o'' = Some st"
  by (simp add: status_of_def example_defs empty_db_def)

section \<open>Creation and transitions\<close>

text \<open>
  Creating an order is one atomic change: the returned order is \<open>PENDING\<close>, owned by the caller,
  with one item row for every line in order; the database gains exactly that order, those items and
  one outbox row, an \<open>order.created\<close> event that carries the order's id, its owner and its lines.
\<close>

theorem createOrder_atomic:
  "\<exists>order items corr. fst (createOrder userId lines w) = Inr order \<and>
     o_id order = uuid_supply w (drawn w) \<and> o_userId order = userId \<and> o_status order = PENDING \<and>
     o_paymentInitiatedAt order = None \<and> o_items order = Some items \<and>
     map (\<lambda>i. (oi_orderId i, oi_productId i, oi_productName i, oi_quantity i)) items =
       map (\<lambda>l. (o_id order, ol_productId l, ol_productName l, ol_quantity l)) lines \<and>
     db (snd (createOrder userId lines w)) = (db w)\<lparr>
       orders := orders (db w) @ [order\<lparr>o_items := None\<rparr>],
       order_items := order_items (db w) @ items,
       outbox_messages := outbox_messages (db w) @ [\<lparr>om_id = uuid_supply w (drawn w + 1 + length lines),
         om_exchange = ''order_lifecycle'', om_routingKey = ''order.created'',
         om_payload = OrderCreatedEvent (o_id order) userId
           (map (\<lambda>l. \<lparr>l_productId = ol_productId l, l_quantity = ol_quantity l\<rparr>) lines)
           (IsoString (clock w)),
         om_correlationId = corr, om_createdAt = DateObj (clock w), om_publishedAt = None\<rparr>]\<rparr>"
proof -
  let ?items = "new_items (uuid_supply w) (Suc (drawn w)) (uuid_supply w (drawn w)) lines"
  let ?ord = "(new_order userId w)\<lparr>o_items := Some ?items\<rparr>"
  let ?corr = "enqueue_correlation (order_saved userId lines w)"
  obtain c where c: "createOrder userId lines w = (Inr ?ord,
      after_del [userOrdersKey userId] ((after_enqueue (routing_key KCreated)
        (created_event userId lines w) (order_saved userId lines w))\<lparr>collectors := c\<rparr>))"
    using createOrder_run by blast
  have ord: "o_id ?ord = uuid_supply w (drawn w)" "o_userId ?ord = userId" "o_status ?ord = PENDING"
    "o_paymentInitiatedAt ?ord = None" "o_items ?ord = Some ?items" "?ord\<lparr>o_items := None\<rparr> = new_order userId w"
    by (simp_all add: new_order_def)
  have "db (snd (createOrder userId lines w)) = (db w)\<lparr>
       orders := orders (db w) @ [new_order userId w], order_items := order_items (db w) @ ?items,
       outbox_messages := outbox_messages (db w) @
         [outbox_row (routing_key KCreated) (created_event userId lines w) (order_saved userId lines w)]\<rparr>"
    by (simp add: c order_saved_def Let_def)
  moreover have "outbox_row (routing_key KCreated) (created_event userId lines w) (order_saved userId lines w) =
      \<lparr>om_id = uuid_supply w (drawn w + 1 + length lines), om_exchange = ''order_lifecycle'',
       om_routingKey = ''order.created'',
       om_payload = OrderCreatedEvent (o_id ?ord) userId
         (map (\<lambda>l. \<lparr>l_productId = ol_productId l, l_quantity = ol_quantity l\<rparr>) lines) (IsoString (clock w)),
       om_correlationId = ?corr, om_createdAt = DateObj (clock w), om_publishedAt = None\<rparr>"
    by (simp add: outbox_row_def order_saved_def Let_def created_event_def stock_lines_def
        ORDER_EXCHANGE_def new_order_def)
  ultimately show ?thesis
    using c ord new_items_lines [of "uuid_supply w" "Suc (drawn w)" "uuid_supply w (drawn w)" lines]
    by (intro exI [of _ ?ord] exI [of _ ?items] exI [of _ ?corr]) simp
qed

text \<open>
  C10: \<open>transitionOrder\<close> implements the state machine on every branch: a missing order is a 404, an
  edge the table lacks is a 409, and in both cases the database is untouched; an edge the table has
  moves exactly that order along it and returns the order in its new status.
\<close>

theorem transitionOrder_refines_fsm:
  assumes "distinct (map o_id (orders (db w)))"
  shows "case status_of (db w) oid of
      None \<Rightarrow> fst (transitionOrder oid st w) = Inl (NotFoundException ''Order not found'') \<and>
        db (snd (transitionOrder oid st w)) = db w
    | Some from \<Rightarrow>
        if isTransitionAllowed from st
        then status_of (db (snd (transitionOrder oid st w))) = (status_of (db w))(oid \<mapsto> st) \<and>
          (\<exists>ord. fst (transitionOrder oid st w) = Inr ord \<and> o_id ord = oid \<and> o_status ord = st) \<and>
          (db (snd (transitionOrder oid st w)))\<lparr>orders := orders (db w)\<rparr> = db w
        else (\<exists>msg. fst (transitionOrder oid st w) = Inl (ConflictException msg)) \<and>
          db (snd (transitionOrder oid st w)) = db w"
  using transitionOrder_run [OF assms, of oid st]
  by (auto split: option.splits if_splits dest: row_where_Some)

theorem transitionOrder_refines_fsm_witness:
  "status_of (db (snd (transitionOrder ''o'' RESERVED (example_world PENDING)))) ''o'' = Some RESERVED \<and>
   db (snd (transitionOrder ''o'' PAID (example_world PENDING))) = db (example_world PENDING)"
  using transitionOrder_refines_fsm [of "example_world PENDING" "''o''" RESERVED]
    transitionOrder_refines_fsm [of "example_world PENDING" "''o''" PAID] by simp

text \<open>
  Compare-and-set. When the order's status has moved since it was read, by whatever a concurrent
  writer did, the second half of \<open>transitionOrder\<close> refuses with a 409 and writes nothing.
\<close>

theorem stale_transition_refused:
  assumes "distinct (map o_id (orders (db w)))" and "status_of (db w) oid \<noteq> Some (o_status ord)"
  shows "(\<exists>msg. fst (transition_apply oid st ord w) = Inl (ConflictException msg)) \<and>
    db (snd (transition_apply oid st ord w)) = db w"
proof -
  have "affected (\<lambda>r. o_id r = oid \<and> o_status r = o_status ord) (orders (db w)) = 0"
    using assms row_where_key [OF assms(1)] by (fastforce simp: affected_0 status_of_def)
  then show ?thesis by (simp add: transition_apply_lost)
qed

theorem stale_transition_refused_witness:
  "db (snd (transition_apply ''o'' RESERVED (example_order PENDING) (example_world CANCELLED))) =
     db (example_world CANCELLED)"
  using stale_transition_refused [of "example_world CANCELLED" "''o''" "example_order PENDING" RESERVED]
  by (simp add: example_order_def)

section \<open>Paying and cancelling\<close>

text \<open>
  C12: Payment is confirmed at most once, and not after or before a cancellation. After a successful
  claim, which queues exactly one event for the payment consumer, a second confirmation is a 409
  that queues nothing, and a cancellation is a 409 that changes nothing; after a successful
  cancellation, a confirmation is a 409 that queues nothing.
\<close>

theorem pay_and_cancel_exclude:
  assumes "fst (payment_claim oid ord w) = Inr paid"
    and "cancel_claim oid v = (Inr (), v1)" and "distinct (map o_id (orders (db w)))"
  shows "outbox_messages (db (snd (payment_claim oid ord w))) = outbox_messages (db w) @
      [outbox_row (routing_key KInventoryReserved)
        (InventoryReservedEvent (o_id ord) (o_userId ord) (IsoString (clock w))) w] \<and>
    (\<exists>msg. fst (payment_claim oid ord' (snd (payment_claim oid ord w))) = Inl (ConflictException msg)) \<and>
    db (snd (payment_claim oid ord' (snd (payment_claim oid ord w)))) = db (snd (payment_claim oid ord w)) \<and>
    (\<exists>msg. fst (cancel_claim oid (snd (payment_claim oid ord w))) = Inl (ConflictException msg)) \<and>
    db (snd (cancel_claim oid (snd (payment_claim oid ord w)))) = db (snd (payment_claim oid ord w)) \<and>
    (\<exists>msg. fst (payment_claim oid ord' v1) = Inl (ConflictException msg)) \<and>
    db (snd (payment_claim oid ord' v1)) = db v1"
proof -
  have won: "affected (pay_guard oid) (orders (db w)) \<noteq> 0"
    using assms(1) payment_claim_lost [of oid w ord] by fastforce
  from payment_claim_won [OF this, of ord] obtain c where
    c: "snd (payment_claim oid ord w) = after_del [orderKey oid] ((after_enqueue (routing_key KInventoryReserved)
      (InventoryReservedEvent (o_id ord) (o_userId ord) (IsoString (clock w)))
      (w\<lparr>db := (db w)\<lparr>orders := update_where (pay_guard oid) (pay_assign (clock w)) (orders (db w))\<rparr>\<rparr>))
        \<lparr>collectors := c\<rparr>)" by fastforce
  have o: "orders (db (snd (payment_claim oid ord w))) =
      update_where (pay_guard oid) (pay_assign (clock w)) (orders (db w))" by (simp add: c)
  have p0: "affected (pay_guard oid) (orders (db (snd (payment_claim oid ord w)))) = 0"
    unfolding o by (rule pay.second_claim_misses)
  have c0: "affected (cancel_guard oid) (orders (db (snd (payment_claim oid ord w)))) = 0"
  proof -
    obtain p where p: "p \<in> set (orders (db w))" "pay_guard oid p" using won by (auto simp: affected_0)
    have "pay_guard oid r" if "r \<in> set (orders (db w))" "o_id r = oid" for r
    proof -
      have "r = p" using assms(3) that p by (auto simp: pay_guard_def distinct_map dest: inj_onD)
      with p(2) show ?thesis by simp
    qed
    then show ?thesis unfolding o
      by (auto simp: affected_0 set_update_where pay_spends_cancel) (auto simp: cancel_guard_def)
  qed
  have "affected (cancel_guard oid) (orders (db v)) \<noteq> 0"
    using assms(2) cancel_claim_lost [of oid v] by fastforce
  from cancel_claim_won [OF this] assms(2)
  have "orders (db v1) = update_where (cancel_guard oid) (cancel_assign (clock v)) (orders (db v))" by auto
  then have v0: "affected (pay_guard oid) (orders (db v1)) = 0"
    by (auto simp: affected_0 set_update_where cancel_spends_pay)
      (auto simp: cancel_guard_def pay_guard_def)
  show ?thesis
    using payment_claim_lost [OF p0, of ord'] cancel_claim_lost [OF c0] payment_claim_lost [OF v0, of ord']
    by (simp add: c outbox_row_def enqueue_correlation_def split: option.splits)
qed

theorem pay_and_cancel_exclude_witness:
  "\<exists>msg. fst (cancel_claim ''o'' (snd (payment_claim ''o'' (example_order RESERVED) (example_world RESERVED)))) =
     Inl (ConflictException msg)"
proof -
  have "affected (pay_guard ''o'') (orders (db (example_world RESERVED))) \<noteq> 0"
    "affected (cancel_guard ''o'') (orders (db (example_world RESERVED))) \<noteq> 0"
    by (simp_all add: example_defs pay_guard_def cancel_guard_def)
  from payment_claim_won [OF this(1), of "example_order RESERVED"] cancel_claim_won [OF this(2)]
  obtain paid v1 where "fst (payment_claim ''o'' (example_order RESERVED) (example_world RESERVED)) = Inr paid"
    "cancel_claim ''o'' (example_world RESERVED) = (Inr (), v1)" by fastforce
  from pay_and_cancel_exclude [OF this] show ?thesis by simp
qed

text \<open>Reading first and then claiming, as the two endpoints do, decided by the row the read finds.\<close>

lemma cancel_check_run:
  assumes "order_cache_ok w" and "orders_ok (db w)" and "find_order oid userId (db w) = Some ord"
  shows "\<exists>w1. db w1 = db w \<and> cancel_check oid userId w =
    (if o_status ord = PENDING \<or> (o_status ord = RESERVED \<and> o_paymentInitiatedAt ord = None)
     then Inr ord
     else Inl (ConflictException (''Order cannot be cancelled (status: '' @ status_text (o_status ord) @ '')'')), w1)"
proof -
  obtain r w1 where g: "getOrderForUser oid userId w = (r, w1)" by (cases "getOrderForUser oid userId w")
  have db: "db w1 = db w" using db_getOrder [of oid userId w] g by simp
  from getOrder_answer [OF assms(1,2), of oid userId] assms(3) g obtain got where
    got: "r = Inr got" "got\<lparr>o_paymentInitiatedAt := o_paymentInitiatedAt ord\<rparr> = ord"
      "isTerminalStatus (o_status ord) \<or> got = ord" by auto
  have st: "o_status got = o_status ord" using arg_cong [OF got(2), of o_status] by simp
  show ?thesis
    using g db got st
    by (cases "o_status ord") (auto simp: cancel_check_def bind_app_def Let_def)
qed

lemma status_of_claim:
  assumes "orders_ok (db w)" and "find_order oid userId (db w) = Some ord"
  shows "\<exists>r. row_where (\<lambda>r. o_id r = oid) (orders (db w)) = Some r \<and> ord = with_items (db w) r \<and> o_id r = oid"
proof -
  from find_order_Some [OF assms(2)] obtain r where
    r: "r \<in> set (orders (db w))" "o_id r = oid" "ord = with_items (db w) r" by blast
  with row_where_key [of o_id "orders (db w)" r] assms(1) show ?thesis by (auto simp: orders_ok_def)
qed

lemma stock_of_frame: "products d' = products d \<Longrightarrow> stock_of d' = stock_of d"
  by (intro ext) (simp add: stock_of_def)

lemma products_ok_frame: "products d' = products d \<Longrightarrow> products_ok d' = products_ok d"
  by (simp add: products_ok_def)

lemma restoreStock_orders: "orders (db (snd (restoreStock ls w))) = orders (db w)"
  using sameD [OF restoreStock_frame, of ls w] by simp

lemma cancel_finish_run:
  assumes "products_ok (db w)" and "lines_ok (item_lines ord)" and "fits (stock_of (db w)) (item_lines ord)"
  shows "fst (cancel_finish oid ord w) = Inr (ord\<lparr>o_status := CANCELLED\<rparr>) \<and>
    orders (db (snd (cancel_finish oid ord w))) = orders (db w) \<and>
    stock_of (db (snd (cancel_finish oid ord w))) =
      (if o_status ord = RESERVED then give_stock (stock_of (db w)) (item_lines ord) else stock_of (db w))"
proof (cases "o_status ord = RESERVED")
  case True
  obtain w1 where w1: "restoreStock (item_lines ord) w = (Inr (), w1)"
    "stock_of (db w1) = give_stock (stock_of (db w)) (item_lines ord)"
    using shop.restore_gives [OF assms] by blast
  with restoreStock_orders [of "item_lines ord" w] True show ?thesis
    by (simp add: cancel_finish_def Let_def then_app_def [of "restoreStock _"] bind_app_def
        run_cache_del then_app_def)
next
  case False
  then show ?thesis by (simp add: cancel_finish_def Let_def when_app_def run_cache_del app_defs)
qed

lemma cancel_wins:
  assumes "orders_ok (db w1)" and "products_ok (db w1)"
    and r: "row_where (\<lambda>r. o_id r = oid) (orders (db w1)) = Some r" "cancel_guard oid r"
    and l: "lines_ok (item_lines ord)" "fits (stock_of (db w1)) (item_lines ord)"
  shows "\<exists>w3. then_app (cancel_claim oid) (cancel_finish oid ord) w1 = (Inr (ord\<lparr>o_status := CANCELLED\<rparr>), w3) \<and>
    status_of (db w3) = (status_of (db w1))(oid \<mapsto> CANCELLED) \<and>
    stock_of (db w3) = (if o_status ord = RESERVED then give_stock (stock_of (db w1)) (item_lines ord)
      else stock_of (db w1))"
proof -
  note won = cancel_claim_won [OF affected_pos [where p = "cancel_guard oid", OF conjunct1 [OF row_where_Some [OF r(1)]] r(2)]]
  let ?w2 = "snd (cancel_claim oid w1)"
  have p: "products (db ?w2) = products (db w1)" by (simp add: won)
  have fin: "fst (cancel_finish oid ord ?w2) = Inr (ord\<lparr>o_status := CANCELLED\<rparr>) \<and>
    orders (db (snd (cancel_finish oid ord ?w2))) = orders (db ?w2) \<and>
    stock_of (db (snd (cancel_finish oid ord ?w2))) =
      (if o_status ord = RESERVED then give_stock (stock_of (db ?w2)) (item_lines ord) else stock_of (db ?w2))"
    by (rule cancel_finish_run) (use assms(2) l in \<open>simp_all add: products_ok_frame [OF p] stock_of_frame [OF p]\<close>)
  then have "status_of (db (snd (cancel_finish oid ord ?w2))) = status_of ((db w1)\<lparr>orders :=
      update_where (cancel_guard oid) (cancel_assign (clock w1)) (orders (db w1))\<rparr>)"
    by (intro ext) (simp add: status_of_def won)
  also have "\<dots> = (status_of (db w1))(oid \<mapsto> CANCELLED)"
    by (rule status_of_update [OF _ _ _ r(1)])
      (use r(2) assms(1) in \<open>auto simp: cancel_assign_def cancel_guard_def orders_ok_def\<close>)
  finally show ?thesis
    using won fin [unfolded stock_of_frame [OF p]]
    by (cases "cancel_finish oid ord ?w2") (auto simp: then_app_def bind_app_def)
qed

text \<open>
  C20: \<open>cancelOrder\<close> on every branch, undisturbed: an order that is not the caller's is a 404; an order
  that is \<open>PENDING\<close>, or \<open>RESERVED\<close> with no payment confirmed, becomes \<open>CANCELLED\<close> and, when it was
  \<open>RESERVED\<close>, every product gets exactly the order's quantities back; any other order is a 409 and
  the database is untouched.
\<close>

theorem cancelOrder_restores_stock:
  assumes "order_cache_ok w" and "orders_ok (db w)" and "products_ok (db w)"
    and "list_all (\<lambda>i. 0 < oi_quantity i) (order_items (db w))"
    and "case find_order oid userId (db w) of None \<Rightarrow> True
         | Some ord \<Rightarrow> fits (stock_of (db w)) (item_lines ord)"
  shows "case find_order oid userId (db w) of
      None \<Rightarrow> fst (cancelOrder oid userId w) = Inl (NotFoundException ''Order not found'') \<and>
        db (snd (cancelOrder oid userId w)) = db w
    | Some ord \<Rightarrow>
        if o_status ord = PENDING \<or> (o_status ord = RESERVED \<and> o_paymentInitiatedAt ord = None)
        then fst (cancelOrder oid userId w) = Inr (ord\<lparr>o_status := CANCELLED\<rparr>) \<and>
          status_of (db (snd (cancelOrder oid userId w))) = (status_of (db w))(oid \<mapsto> CANCELLED) \<and>
          stock_of (db (snd (cancelOrder oid userId w))) =
            (if o_status ord = RESERVED then give_stock (stock_of (db w)) (item_lines ord)
             else stock_of (db w))
        else (\<exists>msg. fst (cancelOrder oid userId w) = Inl (ConflictException msg)) \<and>
          db (snd (cancelOrder oid userId w)) = db w"
proof (cases "find_order oid userId (db w)")
  case None
  obtain r w1 where g: "getOrderForUser oid userId w = (r, w1)" by (cases "getOrderForUser oid userId w")
  with db_getOrder [of oid userId w] getOrder_answer [OF assms(1,2), of oid userId] None show ?thesis
    by (simp add: cancelOrder_def cancel_check_def bind_app_def)
next
  case (Some ord)
  obtain w1 where db: "db w1 = db w" and c: "cancel_check oid userId w =
    (if o_status ord = PENDING \<or> (o_status ord = RESERVED \<and> o_paymentInitiatedAt ord = None)
     then Inr ord
     else Inl (ConflictException (''Order cannot be cancelled (status: '' @ status_text (o_status ord) @ '')'')), w1)"
    using cancel_check_run [OF assms(1,2) Some] by blast
  from status_of_claim [OF assms(2) Some] obtain r where
    r: "row_where (\<lambda>r. o_id r = oid) (orders (db w)) = Some r" "ord = with_items (db w) r" "o_id r = oid" by blast
  show ?thesis
  proof (cases "o_status ord = PENDING \<or> (o_status ord = RESERVED \<and> o_paymentInitiatedAt ord = None)")
    case True
    then have guard: "cancel_guard oid r" using r(2,3) by (auto simp: cancel_guard_def)
    have "lines_ok (item_lines ord)"
      using assms(4) by (auto simp: item_lines_def items_or_empty_def lines_ok_def list_all_iff r(2)
          with_items_def rows_where_def)
    with cancel_wins [of w1 oid r ord] guard r(1) assms(2,3,5) Some obtain w3 where
      "then_app (cancel_claim oid) (cancel_finish oid ord) w1 = (Inr (ord\<lparr>o_status := CANCELLED\<rparr>), w3)"
      "status_of (db w3) = (status_of (db w))(oid \<mapsto> CANCELLED)"
      "stock_of (db w3) = (if o_status ord = RESERVED then give_stock (stock_of (db w)) (item_lines ord) else stock_of (db w))"
      by (auto simp: db)
    moreover from this have "cancelOrder oid userId w = (Inr (ord\<lparr>o_status := CANCELLED\<rparr>), w3)"
      using c True by (simp add: cancelOrder_def bind_app_def)
    ultimately show ?thesis using Some True by simp
  next
    case False
    with c have "cancelOrder oid userId w = (Inl (ConflictException
        (''Order cannot be cancelled (status: '' @ status_text (o_status ord) @ '')'')), w1)"
      by (simp only: cancelOrder_def bind_app_def if_False prod.case sum.case)
    with Some False db show ?thesis by auto
  qed
qed

theorem cancelOrder_restores_stock_witness:
  "stock_of (db (snd (cancelOrder ''o'' ''u'' (example_world RESERVED)))) ''a'' = Some 5"
proof -
  have "list_all (\<lambda>i. 0 < oi_quantity i) (order_items (db (example_world RESERVED)))"
    by (simp add: example_defs)
  moreover have "case find_order ''o'' ''u'' (db (example_world RESERVED)) of None \<Rightarrow> True
      | Some ord \<Rightarrow> fits (stock_of (db (example_world RESERVED))) (item_lines ord)"
    by (simp add: example_lines fits_def int4_def)
  ultimately show ?thesis
    using cancelOrder_restores_stock [of "example_world RESERVED" "''o''" "''u''"]
    by (simp add: example_order_def give_stock_def item_lines_def items_or_empty_def example_item_def)
qed

section \<open>The cache\<close>

text \<open>
  C21: The by-id cache is invisible. \<open>getOrderForUser\<close> answers as the database does, a 404 for a missing
  order and for another user's alike, and a found order equal to the row and its items but for the
  representation of the payment date, and every service operation leaves a cache of which that holds,
  whether Redis answers, drops writes or is down, since nothing but terminal orders is ever stored.
\<close>

theorem order_cache_invisible:
  assumes "order_cache_ok w" and "orders_ok (db w)"
    and "uuid_supply w (drawn w) \<notin> o_id ` set (orders (db w))"
  shows "(case find_order oid userId (db w) of
      None \<Rightarrow> fst (getOrderForUser oid userId w) = Inl (NotFoundException ''Order not found'')
    | Some ord \<Rightarrow> \<exists>got. fst (getOrderForUser oid userId w) = Inr got \<and> o_userId got = userId \<and>
        got\<lparr>o_paymentInitiatedAt := o_paymentInitiatedAt ord\<rparr> = ord \<and>
        map_option newDate (o_paymentInitiatedAt got) = o_paymentInitiatedAt ord) \<and>
    order_cache_ok (snd (getOrderForUser oid userId w)) \<and>
    order_cache_ok (snd (transitionOrder oid st w)) \<and>
    order_cache_ok (snd (initiatePayment oid userId w)) \<and>
    order_cache_ok (snd (cancelOrder oid userId w)) \<and>
    order_cache_ok (snd (createOrder userId lines w))"
proof -
  have "o_userId got = userId" if "find_order oid userId (db w) = Some ord"
    "got\<lparr>o_paymentInitiatedAt := o_paymentInitiatedAt ord\<rparr> = ord" for got ord
    using find_order_Some [OF that(1)] arg_cong [OF that(2), of o_userId] by auto
  with getOrder_answer [OF assms(1,2), of oid userId]
  have "case find_order oid userId (db w) of
      None \<Rightarrow> fst (getOrderForUser oid userId w) = Inl (NotFoundException ''Order not found'')
    | Some ord \<Rightarrow> \<exists>got. fst (getOrderForUser oid userId w) = Inr got \<and> o_userId got = userId \<and>
        got\<lparr>o_paymentInitiatedAt := o_paymentInitiatedAt ord\<rparr> = ord \<and>
        map_option newDate (o_paymentInitiatedAt got) = o_paymentInitiatedAt ord"
    by (cases "find_order oid userId (db w)") (simp, simp only: option.case, blast)
  then show ?thesis
    using assms(1,3) by (intro conjI cache_ok_getOrder cache_ok_transition cache_ok_initiatePayment
        cache_ok_cancelOrder cache_ok_createOrder)
qed

definition cached_world :: world where
  "cached_world = (example_world COMPLETED)\<lparr>
     db := (db (example_world COMPLETED))\<lparr>orders :=
       [(example_order COMPLETED)\<lparr>o_paymentInitiatedAt := Some (DateObj 5)\<rparr>]\<rparr>\<rparr>"

theorem order_cache_invisible_witness:
  "\<exists>got. fst (getOrderForUser ''o'' ''u'' cached_world) = Inr got \<and> o_status got = COMPLETED"
proof -
  have "order_cache_ok cached_world" "orders_ok (db cached_world)"
    "uuid_supply cached_world (drawn cached_world) \<notin> o_id ` set (orders (db cached_world))"
    by (simp_all add: cached_world_def example_defs orders_ok_def order_cache_ok_def empty_world_def)
  from order_cache_invisible [OF this, of "''o''" "''u''"]
  have "\<exists>got. fst (getOrderForUser ''o'' ''u'' cached_world) = Inr got \<and>
      got\<lparr>o_paymentInitiatedAt := o_paymentInitiatedAt (the (find_order ''o'' ''u'' (db cached_world)))\<rparr> =
        the (find_order ''o'' ''u'' (db cached_world))"
    by (auto simp: find_order_def cached_world_def example_defs)
  then obtain got where got: "fst (getOrderForUser ''o'' ''u'' cached_world) = Inr got"
    "got\<lparr>o_paymentInitiatedAt := o_paymentInitiatedAt (the (find_order ''o'' ''u'' (db cached_world)))\<rparr> =
        the (find_order ''o'' ''u'' (db cached_world))" by blast
  have "o_status got = o_status (the (find_order ''o'' ''u'' (db cached_world)))"
    using arg_cong [OF got(2), of o_status] by simp
  then have "o_status got = COMPLETED" by (simp add: find_order_def cached_world_def example_defs)
  with got(1) show ?thesis by blast
qed

text \<open>
  A cached order is not quite the order: read a second time, from the cache, a terminal order
  whose payment was confirmed comes back with its payment date as text, as \<open>rehydrateOrder\<close> restores
  the other two dates only, although the entity declares a \<open>Date\<close>.
\<close>

theorem rehydrated_payment_date_is_text:
  "map_option o_paymentInitiatedAt (case fst (getOrderForUser ''o'' ''u'' cached_world) of
       Inl _ \<Rightarrow> None | Inr a \<Rightarrow> Some a) = Some (Some (DateObj 5)) \<and>
   map_option o_paymentInitiatedAt (case fst (getOrderForUser ''o'' ''u''
       (snd (getOrderForUser ''o'' ''u'' cached_world))) of
       Inl _ \<Rightarrow> None | Inr a \<Rightarrow> Some a) = Some (Some (IsoString 5))"
proof -
  have miss: "cache_hit k cached_world = None" for k
    by (simp add: cache_hit_def cached_world_def example_defs empty_world_def store_get_def)
  have f: "find_order ''o'' ''u'' (db cached_world) = Some (with_items (db cached_world)
      ((example_order COMPLETED)\<lparr>o_paymentInitiatedAt := Some (DateObj 5)\<rparr>))"
    by (simp add: find_order_def cached_world_def example_defs)
  have c: "cfg cached_world = \<lparr>cfg_cache_enabled = True, cfg_cache_ttl = 60, cfg_refresh_days = Some 7\<rparr>"
    "redis cached_world = \<lparr>redis_up = True, redis_store = (\<lambda>_. None)\<rparr>" "clock cached_world = 0"
    by (simp_all add: cached_world_def example_defs empty_world_def)
  have hit: "cache_hit (orderKey ''o'') (get_filled ''o'' ''u'' cached_world) =
      Some (JsonOrder (jsonify_order (with_items (db cached_world)
        ((example_order COMPLETED)\<lparr>o_paymentInitiatedAt := Some (DateObj 5)\<rparr>))))"
    by (simp add: get_filled_def f Let_def cache_hit_def redis_after_set store_set_def store_get_def c
        example_order_def)
  show ?thesis
    by (simp add: getOrder_run miss f hit)
      (simp add: rehydrateOrder_def jsonify_order_def with_items_def example_order_def)
qed

text \<open>
  The list cache is not race free. When a user whose orders are all terminal lists them while
  placing a new order, so that the list's query runs before and its cache write after the creation,
  the stale list is cached, and is what the user reads next: it lacks the new order, though the
  database has it.
\<close>

theorem list_cache_race:
  assumes "cache_on w" and "redis_store (redis w) (userOrdersKey userId) = None"
    and "found = list_fetch userId (db w)"
    and "list_all (\<lambda>order. isTerminalStatus (o_status order)) found"
    and "w1 = snd (createOrder userId lines w)" and "w2 = snd (list_fill userId found w1)"
  shows "fst (listOrdersForUser userId w2) = Inr (map rehydrateOrder (map jsonify_order found)) \<and>
    length (list_fetch userId (db w2)) = length found + 1"
proof -
  obtain c x where c: "createOrder userId lines w = (Inr x,
      after_del [userOrdersKey userId] ((after_enqueue (routing_key KCreated)
        (created_event userId lines w) (order_saved userId lines w))\<lparr>collectors := c\<rparr>))"
    using createOrder_run by blast
  have w1: "cfg w1 = cfg w" "clock w1 = clock w" "redis_up (redis w1) = redis_up (redis w)"
    "db w1 = db (after_enqueue (routing_key KCreated) (created_event userId lines w) (order_saved userId lines w))"
    by (simp_all add: assms(5) c order_saved_def Let_def redis_after_del)
  have w2: "w2 = after_set (userOrdersKey userId) (JsonOrders found) (cfg_cache_ttl (cfg w)) w1"
    using assms(4) by (simp add: assms(6) list_fill_def w1 when_app_def)
  have "cache_hit (userOrdersKey userId) w2 = Some (JsonOrders (map jsonify_order found))"
    using assms(1) by (simp add: w2 cache_hit_def redis_after_set store_set_def store_get_def w1 cache_on_def)
  then have "fst (listOrdersForUser userId w2) = Inr (map rehydrateOrder (map jsonify_order found))"
    by (simp add: listOrdersForUser_def)
  moreover have "length (list_fetch userId (db w2)) = length found + 1"
    by (simp add: w2 w1 assms(3) list_fetch_def order_saved_def Let_def rows_where_def new_order_def)
  ultimately show ?thesis ..
qed

theorem list_cache_race_witness:
  "let w = example_world COMPLETED; found = list_fetch ''u'' (db w);
       w1 = snd (createOrder ''u'' [] w); w2 = snd (list_fill ''u'' found w1)
   in fst (listOrdersForUser ''u'' w2) = Inr (map rehydrateOrder (map jsonify_order found)) \<and>
      length (list_fetch ''u'' (db w2)) = length found + 1"
proof -
  let ?w = "example_world COMPLETED"
  have "cache_on ?w" "redis_store (redis ?w) (userOrdersKey ''u'') = None"
    by (simp_all add: cache_on_def example_defs empty_world_def)
  moreover have "list_all (\<lambda>order. isTerminalStatus (o_status order)) (list_fetch ''u'' (db ?w))"
    by (simp add: list_fetch_def example_defs with_items_def rows_where_def)
  ultimately show ?thesis
    using list_cache_race [OF _ _ refl _ refl refl, of ?w "''u''" "[]"] by (simp add: Let_def)
qed

end
