(* ===== verification/Consumers.thy ===== *)
theory Consumers
  imports Gateway Order_Correctness
begin

text \<open>
  The four message consumers: \<open>InventoryConsumer\<close>, \<open>PaymentConsumer\<close>, \<open>OrderCompletionConsumer\<close> and
  \<open>EmailConsumer\<close> (\<^verbatim>\<open>src/modules/inventory\<close>, \<^verbatim>\<open>payment\<close>, \<^verbatim>\<open>completion\<close>, \<^verbatim>\<open>email\<close>). Each is a handler of a
  delivered message; the work it runs under the inbox is a definition of its own. A handler returns
  a negative acknowledgement or nothing, or throws, which hands the message to the retry handler.
\<close>

datatype handler_result = Nacked | Acked

text \<open>The queue each consumer reads and the routing keys it is bound to.\<close>

fun subscriptions :: "ConsumerQueue \<Rightarrow> OrderRoutingKey list" where
  "subscriptions QInventory = [KCreated]"
| "subscriptions QPayment = [KInventoryReserved]"
| "subscriptions QCompletion = [KPaymentProcessed]"
| "subscriptions QEmail = [KCompleted, KFailed]"

section \<open>InventoryConsumer\<close>

definition inventory_work :: "order_event \<Rightarrow> (world, unit) app" where
  "inventory_work event =
     try_catch
       (then_app (reserveStock (ev_items event))
         (bind_app (transitionOrder (ev_orderId event) RESERVED) (\<lambda>_. return_app ())))
       (\<lambda>error. case error of
          InsufficientStockError productId \<Rightarrow>
            then_app (modify_app (\<lambda>w. w\<lparr>shortProductId := Some productId\<rparr>))
            (bind_app (transitionOrder (ev_orderId event) FAILED) (\<lambda>_.
             bind_app read_clock (\<lambda>now.
               enqueue (routing_key KFailed)
                 (OrderFailedEvent (ev_orderId event) (ev_userId event) ''insufficient_stock'' (IsoString now)))))
        | _ \<Rightarrow> throw_app error)"

definition reserve_handler :: "order_event \<Rightarrow> ConsumeMessage \<Rightarrow> (world, handler_result) app" where
  "reserve_handler event amqpMsg =
     then_app (modify_app (\<lambda>w. w\<lparr>shortProductId := None\<rparr>))
     (bind_app (processEventOnce amqpMsg ''inventory'' (inventory_work event)) (\<lambda>outcome.
        case outcome of
          OutNack \<Rightarrow> return_app Nacked
        | OutSkipped \<Rightarrow> return_app Acked
        | OutProcessed \<Rightarrow> bind_app (gets_app shortProductId) (\<lambda>short.
            then_app (when_app (short \<noteq> None \<and> short \<noteq> Some [])
                (record_metric (recordOrderFailure ''insufficient_stock'')))
              (return_app Acked))))"

definition onOrderCreated :: "order_event \<Rightarrow> ConsumeMessage \<Rightarrow> (world, handler_result) app" where
  "onOrderCreated event amqpMsg =
     runWithCorrelationId (msg_correlation amqpMsg) (reserve_handler event amqpMsg)"

section \<open>PaymentConsumer\<close>

definition payment_work :: "order_event \<Rightarrow> PaymentResult \<Rightarrow> (world, unit) app" where
  "payment_work event result =
     bind_app (transitionOrder (ev_orderId event) (if authorized result then PAID else FAILED)) (\<lambda>_.
     bind_app read_clock (\<lambda>now.
       if authorized result
       then enqueue (routing_key KPaymentProcessed)
              (PaymentProcessedEvent (ev_orderId event) (ev_userId event) (IsoString now))
       else enqueue (routing_key KFailed)
              (OrderFailedEvent (ev_orderId event) (ev_userId event)
                (case declineReason result of None \<Rightarrow> ''payment_declined'' | Some r \<Rightarrow> r) (IsoString now))))"

definition payment_body ::
    "(order_event \<Rightarrow> string \<Rightarrow> (world, PaymentResult) app) \<Rightarrow> order_event \<Rightarrow> string \<Rightarrow>
      (world, handler_result) app" where
  "payment_body ch event messageId =
     bind_app (authorize ch event) (\<lambda>result.
     bind_app (runOnce messageId ''payment'' (payment_work event result)) (\<lambda>processed.
       if \<not> processed
       then then_app (record_metric (recordConsumerOutcome ''payment'' Skipped)) (return_app Acked)
       else then_app (record_metric (recordConsumerOutcome ''payment'' Processed))
            (then_app (when_app (\<not> authorized result)
               (record_metric (recordOrderFailure
                 (case declineReason result of None \<Rightarrow> ''payment_declined'' | Some r \<Rightarrow> r))))
              (return_app Acked))))"

definition authorizeAndAdvance ::
    "(order_event \<Rightarrow> string \<Rightarrow> (world, PaymentResult) app) \<Rightarrow> order_event \<Rightarrow> ConsumeMessage \<Rightarrow>
      (world, handler_result) app" where
  "authorizeAndAdvance ch event amqpMsg =
     (case msg_messageId amqpMsg of
        None \<Rightarrow> then_app (record_metric (recordConsumerOutcome ''payment'' OutcomeFailed)) (return_app Nacked)
      | Some messageId \<Rightarrow>
          if messageId = []
          then then_app (record_metric (recordConsumerOutcome ''payment'' OutcomeFailed)) (return_app Nacked)
          else timed_consumer ''payment'' (payment_body ch event messageId))"

definition onInventoryReserved ::
    "(order_event \<Rightarrow> string \<Rightarrow> (world, PaymentResult) app) \<Rightarrow> order_event \<Rightarrow> ConsumeMessage \<Rightarrow>
      (world, handler_result) app" where
  "onInventoryReserved ch event amqpMsg =
     runWithCorrelationId (msg_correlation amqpMsg) (authorizeAndAdvance ch event amqpMsg)"

section \<open>OrderCompletionConsumer\<close>

definition completion_work :: "order_event \<Rightarrow> (world, unit) app" where
  "completion_work event =
     bind_app (transitionOrder (ev_orderId event) COMPLETED) (\<lambda>_.
     bind_app read_clock (\<lambda>now.
       enqueue (routing_key KCompleted)
         (OrderCompletedEvent (ev_orderId event) (ev_userId event) (IsoString now))))"

definition outcome_result :: "EventOutcome \<Rightarrow> handler_result" where
  "outcome_result outcome = (if outcome = OutNack then Nacked else Acked)"

definition complete_handler :: "order_event \<Rightarrow> ConsumeMessage \<Rightarrow> (world, handler_result) app" where
  "complete_handler event amqpMsg =
     bind_app (processEventOnce amqpMsg ''completion'' (completion_work event)) (\<lambda>outcome.
       return_app (outcome_result outcome))"

definition onPaymentProcessed :: "order_event \<Rightarrow> ConsumeMessage \<Rightarrow> (world, handler_result) app" where
  "onPaymentProcessed event amqpMsg =
     runWithCorrelationId (msg_correlation amqpMsg) (complete_handler event amqpMsg)"

section \<open>EmailConsumer\<close>

text \<open>\<open>reason\<close> of an event without one is printed as \<open>undefined\<close>.\<close>

definition email_text :: "order_event \<Rightarrow> bool \<Rightarrow> string" where
  "email_text event failed =
     (let suffix = (if failed
        then '' failed ('' @ (case event of OrderFailedEvent _ _ r _ \<Rightarrow> r | _ \<Rightarrow> ''undefined'') @ '')''
        else '' completed'')
      in ''Email to user '' @ ev_userId event @ '': order '' @ ev_orderId event @ suffix)"

definition email_work :: "order_event \<Rightarrow> bool \<Rightarrow> (world, unit) app" where
  "email_work event failed = modify_app (\<lambda>w. w\<lparr>mails := mails w @ [email_text event failed]\<rparr>)"

definition notify :: "order_event \<Rightarrow> ConsumeMessage \<Rightarrow> (world, handler_result) app" where
  "notify event amqpMsg =
     (let failed = (msg_routingKey amqpMsg = routing_key KFailed)
      in bind_app (processEventOnce amqpMsg ''email'' (email_work event failed)) (\<lambda>outcome.
           return_app (outcome_result outcome)))"

definition onTerminalEvent :: "order_event \<Rightarrow> ConsumeMessage \<Rightarrow> (world, handler_result) app" where
  "onTerminalEvent event amqpMsg =
     runWithCorrelationId (msg_correlation amqpMsg) (notify event amqpMsg)"

section \<open>The works leave the inbox table alone\<close>

lemma same_timeDb_update [same_rules]: "same (\<lambda>w. processed_messages (db w)) (update_orders g a)"
  by (rule sameI) (simp add: run_update_orders)

lemma same_enqueue [same_rules]: "same (\<lambda>w. processed_messages (db w)) (enqueue key event)"
  by (rule sameI) simp

lemma same_update_stock [same_rules]: "same (\<lambda>w. processed_messages (db w)) (update_stock p f)"
  by (rule sameI) (simp add: update_stock_def)

lemma same_restoreStock: "same (\<lambda>w. processed_messages (db w)) (restoreStock ls)"
  unfolding restoreStock_def restore_line_def by (intro same_rules)

lemma same_reserve_catch: "same (\<lambda>w. processed_messages (db w)) (reserve_catch applied e)"
  unfolding reserve_catch_def
  by (intro same_rules) (auto split: exn.split intro: same_restoreStock same_throw)

lemma same_reserve_loop: "same (\<lambda>w. processed_messages (db w)) (reserve_loop applied ls)"
proof (induction applied ls rule: reserve_loop.induct)
  case (2 applied line lines)
  show ?case
  proof (rule sameI)
    fix w
    obtain r w' where u: "update_stock (\<lambda>r. p_id r = l_productId line \<and> p_stock r \<ge> l_quantity line)
            (\<lambda>s. s - l_quantity line) w = (r, w')" by fastforce
    have w': "processed_messages (db w') = processed_messages (db w)"
      using same_run [OF same_update_stock u] .
    have c: "processed_messages (db (snd (reserve_catch applied e w'))) = processed_messages (db w)" for e
      using sameD [OF same_reserve_catch] w' by metis
    show "processed_messages (db (snd (reserve_loop applied (line # lines) w))) = processed_messages (db w)"
    proof (cases r)
      case (Inl e)
      then show ?thesis using u c by simp
    next
      case (Inr n)
      then show ?thesis using u c w' sameD [OF 2 [OF u [symmetric] Inr], of w'] by (cases "n = 0") simp_all
    qed
  qed
qed (auto simp: same_def)

lemma same_transitionOrder: "same (\<lambda>w. processed_messages (db w)) (transitionOrder oid st)"
  unfolding transitionOrder_def transition_find_def transition_apply_def
  by (intro same_rules)

lemma polite_inventory: "polite_work (inventory_work event)"
  unfolding polite_work_def inventory_work_def reserveStock_def
  by (intro same_rules same_reserve_loop same_transitionOrder)
    (auto split: exn.split intro!: same_rules same_transitionOrder)

lemma polite_payment: "polite_work (payment_work event result)"
  unfolding polite_work_def payment_work_def by (intro same_rules same_transitionOrder)

lemma polite_completion: "polite_work (completion_work event)"
  unfolding polite_work_def completion_work_def by (intro same_rules same_transitionOrder)

lemma polite_email: "polite_work (email_work event failed)"
  unfolding polite_work_def email_work_def by (intro same_rules) simp

section \<open>How a handler runs\<close>

lemma runWith_run:
  "\<exists>w0. db w0 = db w \<and> clock w0 = clock w \<and> provider_calls w0 = provider_calls w \<and> mails w0 = mails w \<and>
     redis w0 = redis w \<and> runWithCorrelationId h m w = (fst (m w0), (snd (m w0))\<lparr>cls := cls w\<rparr>)"
proof -
  obtain cid n where "resolveCorrelationId h w = (Inr cid, w\<lparr>drawn := n\<rparr>)" using resolve_run by blast
  then show ?thesis
    by (intro exI [of _ "w\<lparr>drawn := n, cls := Some (Some cid)\<rparr>"])
      (simp add: runWithCorrelationId_def bind_app_def cls_run_def split: prod.splits)
qed

lemma in_inbox_frame [simp]:
  "in_inbox (w\<lparr>collectors := cs\<rparr>) = in_inbox w" "in_inbox (w\<lparr>cls := c\<rparr>) = in_inbox w"
  "in_inbox (w\<lparr>shortProductId := p\<rparr>) = in_inbox w"
  by (rule ext, simp add: in_inbox_def)+

lemma db_record_inbox [simp]: "db (record_inbox m c w) = (db w)\<lparr>processed_messages := processed_messages (db w) @
     [\<lparr>pm_messageId = m, pm_consumer = c, pm_processedAt = DateObj (clock w)\<rparr>]\<rparr>"
  by (simp add: record_inbox_def)

lemma processEventOnce_done:
  assumes "msg_messageId msg = Some m" "m \<noteq> []" "\<not> in_inbox w (m, c)" "polite_work work"
    and "work w = (Inr (), w1)"
  shows "\<exists>cs. processEventOnce msg c work w = (Inr OutProcessed, (record_inbox m c w1)\<lparr>collectors := cs\<rparr>)"
  using assms(1,2) runOnce_done [where work = work, OF assms(3,5)] polite_in_inbox [OF assms(4,5), of "(m, c)"] assms(3)
  by (simp add: processEventOnce_def bind_app_def timed_consumer_def) blast

lemma processEventOnce_throws:
  assumes "msg_messageId msg = Some m" "m \<noteq> []" "\<not> in_inbox w (m, c)"
    and "work w = (Inl e, w1)" "\<not> isInboxDuplicate e"
  shows "\<exists>cs. processEventOnce msg c work w = (Inl e, w1\<lparr>db := db w, collectors := cs\<rparr>)"
  using assms(1,2) runOnce_throw [where work = work, OF assms(3,4,5)]
  by (simp add: processEventOnce_def bind_app_def timed_consumer_def) blast

lemma processEventOnce_skips:
  assumes "msg_messageId msg = Some m" "m \<noteq> []" "in_inbox w (m, c)"
  shows "\<exists>cs. processEventOnce msg c work w = (Inr OutSkipped, w\<lparr>collectors := cs\<rparr>)"
  using assms(1,2) runOnce_skip [OF assms(3)]
  by (simp add: processEventOnce_def bind_app_def timed_consumer_def) blast

lemma status_of_with_products [simp]: "status_of (d\<lparr>products := ps\<rparr>) = status_of d"
  by (rule ext) (simp add: status_of_def)

lemma stock_of_other [simp]:
  "stock_of (d\<lparr>orders := os\<rparr>) = stock_of d" "stock_of (d\<lparr>outbox_messages := ms\<rparr>) = stock_of d"
  "stock_of (d\<lparr>processed_messages := pm\<rparr>) = stock_of d"
  "stock_of (d\<lparr>payment_authorizations := pa\<rparr>) = stock_of d"
  by (rule ext, simp add: stock_of_def)+

lemma status_of_other [simp]:
  "status_of (d\<lparr>outbox_messages := ms\<rparr>) = status_of d" "status_of (d\<lparr>processed_messages := pm\<rparr>) = status_of d"
  "status_of (d\<lparr>payment_authorizations := pa\<rparr>) = status_of d"
  by (rule ext, simp add: status_of_def)+

text \<open>A legal transition, as a fact about the state it leaves.\<close>

lemma transition_legal:
  assumes "distinct (map o_id (orders (db w)))" and "status_of (db w) oid = Some from"
    and "isTransitionAllowed from st"
  shows "\<exists>ord w1 os. transitionOrder oid st w = (Inr ord, w1) \<and> db w1 = (db w)\<lparr>orders := os\<rparr> \<and>
    status_of (db w1) = (status_of (db w))(oid \<mapsto> st)"
  using transitionOrder_run [OF assms(1), of oid st] assms(2,3)
  by (cases "transitionOrder oid st w") auto

lemma transition_illegal:
  assumes "distinct (map o_id (orders (db w)))" and "status_of (db w) oid = Some from"
    and "\<not> isTransitionAllowed from st"
  shows "\<exists>msg w1. transitionOrder oid st w = (Inl (ConflictException msg), w1) \<and> db w1 = db w"
  using transitionOrder_run [OF assms(1), of oid st] assms(2,3)
  by (cases "transitionOrder oid st w") auto

text \<open>What the inventory work does to the tables, as a relation between the databases.\<close>

definition inventory_spec :: "order_event \<Rightarrow> database \<Rightarrow> database \<Rightarrow> bool" where
  "inventory_spec event d d' \<longleftrightarrow>
    (if enough_stock (stock_of d) (ev_items event)
     then status_of d' = (status_of d)(ev_orderId event \<mapsto> RESERVED) \<and>
       stock_of d' = take_stock (stock_of d) (ev_items event) \<and>
       outbox_messages d' = outbox_messages d
     else status_of d' = (status_of d)(ev_orderId event \<mapsto> FAILED) \<and>
       stock_of d' = stock_of d \<and>
       (\<exists>row now. outbox_messages d' = outbox_messages d @ [row] \<and>
         om_routingKey row = routing_key KFailed \<and>
         om_payload row = OrderFailedEvent (ev_orderId event) (ev_userId event) ''insufficient_stock''
           (IsoString now)))"

lemma inventory_spec_processed [simp]:
  "inventory_spec event d (d'\<lparr>processed_messages := pm\<rparr>) = inventory_spec event d d'"
  by (simp add: inventory_spec_def)

lemma inventory_work_run:
  assumes "distinct (map o_id (orders (db w)))" and "products_ok (db w)" and "lines_ok (ev_items event)"
    and "status_of (db w) (ev_orderId event) = Some PENDING"
  shows "\<exists>w1. inventory_work event w = (Inr (), w1) \<and> inventory_spec event (db w) (db w1)"
proof -
  obtain ps where ps: "if enough_stock (stock_of (db w)) (ev_items event)
     then reserveStock (ev_items event) w = (Inr (), with_products w ps) \<and>
       stock_of (db (with_products w ps)) = take_stock (stock_of (db w)) (ev_items event)
     else (\<exists>pid. reserveStock (ev_items event) w = (Inl (InsufficientStockError pid), with_products w ps)) \<and>
       stock_of (db (with_products w ps)) = stock_of (db w)"
    using reserveStock_run [OF assms(2,3)] by blast
  show ?thesis
  proof (cases "enough_stock (stock_of (db w)) (ev_items event)")
    case True
    obtain ord w1 os where t: "transitionOrder (ev_orderId event) RESERVED (with_products w ps) = (Inr ord, w1)"
      "db w1 = (db (with_products w ps))\<lparr>orders := os\<rparr>"
      "status_of (db w1) = (status_of (db w))(ev_orderId event \<mapsto> RESERVED)"
      using transition_legal [of "with_products w ps" "ev_orderId event" PENDING RESERVED] assms(1,4) by auto
    from t ps True show ?thesis
      by (simp add: inventory_spec_def inventory_work_def try_catch_def then_app_def bind_app_def)
  next
    case False
    then obtain pid where r: "reserveStock (ev_items event) w =
        (Inl (InsufficientStockError pid), with_products w ps)"
      "stock_of (db (with_products w ps)) = stock_of (db w)" using ps by auto
    let ?w = "(with_products w ps)\<lparr>shortProductId := Some pid\<rparr>"
    obtain ord w1 os where t: "transitionOrder (ev_orderId event) FAILED ?w = (Inr ord, w1)"
      "db w1 = (db ?w)\<lparr>orders := os\<rparr>"
      "status_of (db w1) = (status_of (db w))(ev_orderId event \<mapsto> FAILED)"
      using transition_legal [of ?w "ev_orderId event" PENDING FAILED] assms(1,4) by auto
    then have "inventory_work event w = (Inr (), after_enqueue (routing_key KFailed)
        (OrderFailedEvent (ev_orderId event) (ev_userId event) ''insufficient_stock'' (IsoString (clock w1))) w1)"
      using r by (simp add: inventory_work_def try_catch_def then_app_def bind_app_def)
    with t r False show ?thesis by (auto simp: inventory_spec_def with_products_def)
  qed
qed

lemma inventory_work_refused:
  assumes "distinct (map o_id (orders (db w)))" and "products_ok (db w)" and "lines_ok (ev_items event)"
    and "status_of (db w) (ev_orderId event) = Some from"
    and "from \<in> {PAID, COMPLETED, FAILED, CANCELLED}"
  shows "\<exists>msg w1. inventory_work event w = (Inl (ConflictException msg), w1)"
proof -
  obtain ps where ps: "if enough_stock (stock_of (db w)) (ev_items event)
     then reserveStock (ev_items event) w = (Inr (), with_products w ps)
     else (\<exists>pid. reserveStock (ev_items event) w = (Inl (InsufficientStockError pid), with_products w ps))"
    using reserveStock_run [OF assms(2,3)] by metis
  show ?thesis
  proof (cases "enough_stock (stock_of (db w)) (ev_items event)")
    case True
    have "\<not> isTransitionAllowed from RESERVED" using assms(5) by auto
    with transition_illegal [of "with_products w ps" "ev_orderId event" "from" RESERVED] assms(1,4)
    obtain msg w1 where "transitionOrder (ev_orderId event) RESERVED (with_products w ps) =
        (Inl (ConflictException msg), w1)" by auto
    with ps True show ?thesis by (simp add: inventory_work_def try_catch_def then_app_def bind_app_def)
  next
    case False
    then obtain pid where r: "reserveStock (ev_items event) w =
        (Inl (InsufficientStockError pid), with_products w ps)" using ps by auto
    have "\<not> isTransitionAllowed from FAILED" using assms(5) by auto
    with transition_illegal [of "(with_products w ps)\<lparr>shortProductId := Some pid\<rparr>" "ev_orderId event" "from" FAILED] assms(1,4)
    obtain msg w1 where "transitionOrder (ev_orderId event) FAILED ((with_products w ps)\<lparr>shortProductId := Some pid\<rparr>) =
        (Inl (ConflictException msg), w1)" by auto
    with r show ?thesis by (simp add: inventory_work_def try_catch_def then_app_def bind_app_def)
  qed
qed

section \<open>Properties\<close>

definition delivery :: "string \<Rightarrow> order_event \<Rightarrow> OrderRoutingKey \<Rightarrow> ConsumeMessage" where
  "delivery m event key = \<lparr>msg_messageId = Some m, msg_correlation = NoHeader, msg_attempts = None,
     msg_routingKey = routing_key key, msg_content = event\<rparr>"

text \<open>
  C15: The inventory consumer on a first delivery for a \<open>PENDING\<close> order acknowledges it, and in one
  transaction with its inbox record either reserves exactly the order's quantities and advances the
  order to \<open>RESERVED\<close>, announcing nothing, or, when a product is short, takes no stock, moves the order
  to \<open>FAILED\<close> and queues one \<open>order.failed\<close> event with the reason.
\<close>

theorem inventory_consumer_reserves:
  assumes "distinct (map o_id (orders (db w)))" and "products_ok (db w)" and "lines_ok (ev_items event)"
    and "status_of (db w) (ev_orderId event) = Some PENDING"
    and "msg_messageId msg = Some m" and "m \<noteq> []" and "\<not> in_inbox w (m, ''inventory'')"
  shows "\<exists>w1. onOrderCreated event msg w = (Inr Acked, w1) \<and> in_inbox w1 (m, ''inventory'') \<and>
    inventory_spec event (db w) (db w1)"
proof -
  obtain w0 where w0: "db w0 = db w"
    and run: "onOrderCreated event msg w =
      (fst (reserve_handler event msg w0), (snd (reserve_handler event msg w0))\<lparr>cls := cls w\<rparr>)"
    using runWith_run [of w "msg_correlation msg" "reserve_handler event msg"] unfolding onOrderCreated_def by blast
  let ?w = "w0\<lparr>shortProductId := None\<rparr>"
  have "distinct (map o_id (orders (db ?w)))" "products_ok (db ?w)"
    "status_of (db ?w) (ev_orderId event) = Some PENDING" using assms(1,2,4) w0 by simp_all
  from inventory_work_run [OF this(1,2) assms(3) this(3)] w0 obtain w1 where
    w1: "inventory_work event ?w = (Inr (), w1)" "inventory_spec event (db w) (db w1)" by auto
  have "\<not> in_inbox ?w (m, ''inventory'')" using assms(7) w0 by (simp add: in_inbox_def)
  from processEventOnce_done [OF assms(5,6) this polite_inventory w1(1)] obtain cs where
    p: "processEventOnce msg ''inventory'' (inventory_work event) ?w =
      (Inr OutProcessed, (record_inbox m ''inventory'' w1)\<lparr>collectors := cs\<rparr>)" by blast
  have "\<exists>cs. reserve_handler event msg w0 = (Inr Acked, (record_inbox m ''inventory'' w1)\<lparr>collectors := cs\<rparr>)"
    by (simp add: reserve_handler_def bind_app_def then_app_def p) blast
  then obtain cs' where h: "onOrderCreated event msg w =
      (Inr Acked, (record_inbox m ''inventory'' w1)\<lparr>collectors := cs', cls := cls w\<rparr>)"
    by (auto simp: run)
  then show ?thesis using w1(2) by simp
qed

lemma example_enough: "enough_stock (stock_of (db (example_world st))) [\<lparr>l_productId = ''a'', l_quantity = 2\<rparr>]"
  "\<not> enough_stock (stock_of (db (example_world st))) [\<lparr>l_productId = ''b'', l_quantity = 2\<rparr>]"
  by (simp_all add: enough_stock_def)

lemma example_inbox [simp]: "\<not> in_inbox (example_world st) k"
  by (simp add: in_inbox_def example_world_def empty_db_def)

theorem inventory_consumer_reserves_witness:
  "\<exists>w1. onOrderCreated (OrderCreatedEvent ''o'' ''u'' [\<lparr>l_productId = ''a'', l_quantity = 2\<rparr>] (IsoString 1))
      (delivery ''m'' (OrderCreatedEvent ''o'' ''u'' [\<lparr>l_productId = ''a'', l_quantity = 2\<rparr>] (IsoString 1)) KCreated)
      (example_world PENDING) = (Inr Acked, w1) \<and>
    status_of (db w1) ''o'' = Some RESERVED \<and> stock_of (db w1) ''a'' = Some 1"
proof -
  let ?e = "OrderCreatedEvent ''o'' ''u'' [\<lparr>l_productId = ''a'', l_quantity = 2\<rparr>] (IsoString 1)"
  have "lines_ok (ev_items ?e)" "msg_messageId (delivery ''m'' ?e KCreated) = Some ''m''"
    "status_of (db (example_world PENDING)) (ev_orderId ?e) = Some PENDING"
    by (simp_all add: delivery_def)
  then have "\<exists>w1. onOrderCreated ?e (delivery ''m'' ?e KCreated) (example_world PENDING) = (Inr Acked, w1) \<and>
      in_inbox w1 (''m'', ''inventory'') \<and> inventory_spec ?e (db (example_world PENDING)) (db w1)"
    by (intro inventory_consumer_reserves) simp_all
  then show ?thesis
    using example_enough(1) [of PENDING] by (auto simp: inventory_spec_def take_stock_def simp del: example_ok(5))
      (simp add: take_stock_def)
qed

text \<open>
  An order that left \<open>PENDING\<close> before its \<open>order.created\<close> message arrived, cancelled say, is refused:
  the consumer throws, so the message is retried and in the end dead-lettered, and the database is
  exactly what it was: no stock is taken for it and no inbox record is left.
\<close>

theorem inventory_consumer_refuses:
  assumes "distinct (map o_id (orders (db w)))" and "products_ok (db w)" and "lines_ok (ev_items event)"
    and "status_of (db w) (ev_orderId event) = Some old" and "old \<in> {PAID, COMPLETED, FAILED, CANCELLED}"
    and "msg_messageId msg = Some m" and "m \<noteq> []" and "\<not> in_inbox w (m, ''inventory'')"
  shows "\<exists>why. fst (onOrderCreated event msg w) = Inl (ConflictException why) \<and>
    db (snd (onOrderCreated event msg w)) = db w"
proof -
  obtain w0 where w0: "db w0 = db w"
    and run: "onOrderCreated event msg w =
      (fst (reserve_handler event msg w0), (snd (reserve_handler event msg w0))\<lparr>cls := cls w\<rparr>)"
    using runWith_run [of w "msg_correlation msg" "reserve_handler event msg"] unfolding onOrderCreated_def by blast
  let ?w = "w0\<lparr>shortProductId := None\<rparr>"
  have "distinct (map o_id (orders (db ?w)))" "products_ok (db ?w)"
    "status_of (db ?w) (ev_orderId event) = Some old" using assms(1,2,4) w0 by simp_all
  from inventory_work_refused [OF this(1,2) assms(3) this(3) assms(5)] obtain why w1 where
    w1: "inventory_work event ?w = (Inl (ConflictException why), w1)" by blast
  have "\<not> in_inbox ?w (m, ''inventory'')" using assms(8) w0 by (simp add: in_inbox_def)
  from processEventOnce_throws [where work = "inventory_work event", OF assms(6,7) this w1] obtain cs where
    p: "processEventOnce msg ''inventory'' (inventory_work event) ?w =
      (Inl (ConflictException why), w1\<lparr>db := db ?w, collectors := cs\<rparr>)" by auto
  then have "reserve_handler event msg w0 = (Inl (ConflictException why), w1\<lparr>db := db ?w, collectors := cs\<rparr>)"
    by (simp add: reserve_handler_def bind_app_def then_app_def)
  with run w0 show ?thesis by simp
qed

theorem inventory_consumer_refuses_witness:
  "db (snd (onOrderCreated (OrderCreatedEvent ''o'' ''u'' [\<lparr>l_productId = ''a'', l_quantity = 2\<rparr>] (IsoString 1))
      (delivery ''m'' (OrderCreatedEvent ''o'' ''u'' [\<lparr>l_productId = ''a'', l_quantity = 2\<rparr>] (IsoString 1)) KCreated)
      (example_world CANCELLED))) = db (example_world CANCELLED)"
proof -
  let ?e = "OrderCreatedEvent ''o'' ''u'' [\<lparr>l_productId = ''a'', l_quantity = 2\<rparr>] (IsoString 1)"
  have "\<exists>why. fst (onOrderCreated ?e (delivery ''m'' ?e KCreated) (example_world CANCELLED)) =
      Inl (ConflictException why) \<and>
      db (snd (onOrderCreated ?e (delivery ''m'' ?e KCreated) (example_world CANCELLED))) = db (example_world CANCELLED)"
    by (rule inventory_consumer_refuses [where old = CANCELLED and m = "''m''"]) (simp_all add: delivery_def)
  then show ?thesis by blast
qed

text \<open>What the payment work does to the tables.\<close>

definition payment_spec :: "order_event \<Rightarrow> PaymentResult \<Rightarrow> database \<Rightarrow> database \<Rightarrow> bool" where
  "payment_spec event result d d' \<longleftrightarrow>
     status_of d' = (status_of d)(ev_orderId event \<mapsto> (if authorized result then PAID else FAILED)) \<and>
     stock_of d' = stock_of d \<and>
     (\<exists>row now. outbox_messages d' = outbox_messages d @ [row] \<and>
       om_routingKey row = (if authorized result then ''order.payment_processed'' else ''order.failed'') \<and>
       om_payload row =
         (if authorized result
          then PaymentProcessedEvent (ev_orderId event) (ev_userId event) (IsoString now)
          else OrderFailedEvent (ev_orderId event) (ev_userId event)
            (case declineReason result of None \<Rightarrow> ''payment_declined'' | Some r \<Rightarrow> r) (IsoString now)))"

lemma payment_spec_processed [simp]:
  "payment_spec event result d (d'\<lparr>processed_messages := pm\<rparr>) = payment_spec event result d d'"
  by (simp add: payment_spec_def)

lemma payment_work_run:
  assumes "distinct (map o_id (orders (db w)))" and "status_of (db w) (ev_orderId event) = Some RESERVED"
  shows "\<exists>w1. payment_work event result w = (Inr (), w1) \<and> payment_spec event result (db w) (db w1) \<and>
    payment_authorizations (db w1) = payment_authorizations (db w)"
proof -
  have "isTransitionAllowed RESERVED (if authorized result then PAID else FAILED)" by simp
  from transition_legal [OF assms this] obtain ord w1 os where t:
    "transitionOrder (ev_orderId event) (if authorized result then PAID else FAILED) w = (Inr ord, w1)"
    "db w1 = (db w)\<lparr>orders := os\<rparr>"
    "status_of (db w1) = (status_of (db w))(ev_orderId event \<mapsto> (if authorized result then PAID else FAILED))"
    by blast
  then show ?thesis
    by (cases "authorized result")
      (auto simp: payment_work_def bind_app_def payment_spec_def)
qed

lemma authorize_frame:
  assumes "answers psp ch"
  shows "same (\<lambda>w. (orders (db w), products (db w), outbox_messages (db w), processed_messages (db w)))
    (authorize ch event)"
proof -
  have ch: "same (\<lambda>w. (orders (db w), products (db w), outbox_messages (db w), processed_messages (db w)))
      (ch event key)" for key
    using assms by (auto intro!: sameI simp: answers_def)
  show ?thesis
    unfolding authorize_def authorize_claim_def authorize_charge_def claim_def isClaimStale_def
    by (intro same_rules ch) (auto simp: execute_def record_metric_def intro!: same_modify)
qed

lemma same_calls:
  "same provider_calls m \<Longrightarrow> same provider_calls (timeDb n m)"
  "same provider_calls (record_metric f)" "same provider_calls (update_orders g a)"
  "same provider_calls (cache_del ks)" "same provider_calls (enqueue key event)"
  by (simp_all add: same_def timeDb_def run_update_orders run_cache_del split: prod.splits)
    (metis snd_conv)

lemma payments_work_frame: "same provider_calls (payment_work event result)"
  unfolding payment_work_def transitionOrder_def transition_find_def transition_apply_def
  by (intro same_rules same_calls)

lemma payment_body_run:
  assumes "distinct (map o_id (orders (db w)))" and "ledger_ok (db w)" and "answers psp ch"
    and "ledger_of (db w) (ev_orderId event) = Unclaimed"
    and "status_of (db w) (ev_orderId event) = Some RESERVED" and "\<not> in_inbox w (m, ''payment'')"
  shows "\<exists>w1. payment_body ch event m w = (Inr Acked, w1) \<and> in_inbox w1 (m, ''payment'') \<and>
    payment_spec event (psp (ev_orderId event)) (db w) (db w1) \<and>
    provider_calls w1 = provider_calls w @ [ev_orderId event] \<and>
    ledger_of (db w1) (ev_orderId event) = Decided (decision (psp (ev_orderId event)))"
proof -
  let ?r = "psp (ev_orderId event)"
  obtain wa where a: "authorize ch event w = (Inr ?r, wa)" "provider_calls wa = provider_calls w @ [ev_orderId event]"
    "ledger_of (db wa) (ev_orderId event) = Decided (decision ?r)"
    using authorize_cases [OF assms(2,3) refl, of event] assms(4)
    by (cases "authorize ch event w") auto
  have f: "orders (db wa) = orders (db w)" "products (db wa) = products (db w)"
    "outbox_messages (db wa) = outbox_messages (db w)" "processed_messages (db wa) = processed_messages (db w)"
    using same_run [OF authorize_frame [OF assms(3)] a(1)] by simp_all
  then have s: "status_of (db wa) = status_of (db w)" "stock_of (db wa) = stock_of (db w)"
    by (simp_all add: status_of_def stock_of_def fun_eq_iff)
  have "distinct (map o_id (orders (db wa)))" "status_of (db wa) (ev_orderId event) = Some RESERVED"
    using assms(1,5) f(1) s(1) by simp_all
  from payment_work_run [OF this, of ?r] obtain w1 where
    w1: "payment_work event ?r wa = (Inr (), w1)" "payment_spec event ?r (db wa) (db w1)"
      "payment_authorizations (db w1) = payment_authorizations (db wa)" by blast
  have i: "\<not> in_inbox wa (m, ''payment'')" using assms(6) f(4) by (simp add: in_inbox_def)
  moreover have "\<not> in_inbox w1 (m, ''payment'')" using polite_in_inbox [OF polite_payment w1(1)] i by blast
  ultimately have "runOnce m ''payment'' (payment_work event ?r) wa = (Inr True, record_inbox m ''payment'' w1)"
    using w1(1) runOnce_done [where work = "payment_work event ?r"] by blast
  then have b: "\<exists>cs. payment_body ch event m w = (Inr Acked, (record_inbox m ''payment'' w1)\<lparr>collectors := cs\<rparr>)"
    by (cases "authorized ?r") (auto simp: payment_body_def bind_app_def a(1))
  have "payment_spec event ?r (db w) (db w1)" using w1(2) f s by (simp add: payment_spec_def)
  moreover have "provider_calls w1 = provider_calls w @ [ev_orderId event]"
    using same_run [OF payments_work_frame w1(1)] a(2) by simp
  moreover have "ledger_of (db w1) (ev_orderId event) = Decided (decision ?r)"
    using a(3) w1(3) by (simp add: ledger_of_def)
  ultimately show ?thesis using b by (auto simp: record_inbox_def ledger_of_def)
      (simp add: in_inbox_def inbox_record_def row_where_append split: option.splits)
qed

lemma payment_delivery:
  assumes "distinct (map o_id (orders (db w)))" and "ledger_ok (db w)" and "answers psp ch"
    and "ledger_of (db w) (ev_orderId event) = Unclaimed"
    and "status_of (db w) (ev_orderId event) = Some RESERVED"
    and "msg_messageId msg = Some m" and "m \<noteq> []" and "\<not> in_inbox w (m, ''payment'')"
  shows "\<exists>w1. onInventoryReserved ch event msg w = (Inr Acked, w1) \<and> in_inbox w1 (m, ''payment'') \<and>
    payment_spec event (psp (ev_orderId event)) (db w) (db w1) \<and>
    provider_calls w1 = provider_calls w @ [ev_orderId event] \<and>
    ledger_of (db w1) (ev_orderId event) = Decided (decision (psp (ev_orderId event)))"
proof -
  obtain w0 where w0: "db w0 = db w" "provider_calls w0 = provider_calls w"
    and run: "onInventoryReserved ch event msg w = (fst (authorizeAndAdvance ch event msg w0),
      (snd (authorizeAndAdvance ch event msg w0))\<lparr>cls := cls w\<rparr>)"
    using runWith_run [of w "msg_correlation msg" "authorizeAndAdvance ch event msg"]
    unfolding onInventoryReserved_def by blast
  have "\<not> in_inbox w0 (m, ''payment'')" using assms(8) w0 by (simp add: in_inbox_def)
  with payment_body_run [of w0 psp ch event m] assms(1-5) w0 obtain w1 where
    w1: "payment_body ch event m w0 = (Inr Acked, w1)" "in_inbox w1 (m, ''payment'')"
      "payment_spec event (psp (ev_orderId event)) (db w) (db w1)"
      "provider_calls w1 = provider_calls w @ [ev_orderId event]"
      "ledger_of (db w1) (ev_orderId event) = Decided (decision (psp (ev_orderId event)))" by auto
  have "\<exists>cs. authorizeAndAdvance ch event msg w0 = (Inr Acked, w1\<lparr>collectors := cs\<rparr>)"
    using assms(6,7) w1(1) by (simp add: authorizeAndAdvance_def timed_consumer_def) blast
  then show ?thesis using run w1 by auto
qed

text \<open>
  C16: The payment consumer on a first delivery for a \<open>RESERVED\<close> order nobody has charged: the provider
  is called once, with the order's id as key, its decision is in the ledger, and in one transaction with
  the inbox record the order moves to \<open>PAID\<close> with a payment event queued, or, declined, to \<open>FAILED\<close> with
  a failure event carrying the provider's reason. No product's stock changes either way: a declined
  order's reserved stock is not given back.
\<close>

theorem payment_consumer_advances:
  assumes "distinct (map o_id (orders (db w)))" and "ledger_ok (db w)" and "answers psp ch"
    and "ledger_of (db w) (ev_orderId event) = Unclaimed"
    and "status_of (db w) (ev_orderId event) = Some RESERVED"
    and "msg_messageId msg = Some m" and "m \<noteq> []" and "\<not> in_inbox w (m, ''payment'')"
  shows "\<exists>w1. onInventoryReserved ch event msg w = (Inr Acked, w1) \<and> in_inbox w1 (m, ''payment'') \<and>
    payment_spec event (psp (ev_orderId event)) (db w) (db w1) \<and>
    provider_calls w1 = provider_calls w @ [ev_orderId event] \<and>
    ledger_of (db w1) (ev_orderId event) = Decided (decision (psp (ev_orderId event)))"
  using assms by (rule payment_delivery)

theorem payment_consumer_advances_witness:
  "\<exists>w1. onInventoryReserved (\<lambda>event key. then_app (charge event key)
        (return_app \<lparr>authorized = False, declineReason = Some ''card''\<rparr>))
      (InventoryReservedEvent ''o'' ''u'' (IsoString 1))
      (delivery ''m'' (InventoryReservedEvent ''o'' ''u'' (IsoString 1)) KInventoryReserved)
      (example_world RESERVED) = (Inr Acked, w1) \<and>
    status_of (db w1) ''o'' = Some FAILED \<and> stock_of (db w1) ''a'' = Some 3"
proof -
  let ?e = "InventoryReservedEvent ''o'' ''u'' (IsoString 1)"
  let ?ch = "\<lambda>event key. then_app (charge event key)
        (return_app \<lparr>authorized = False, declineReason = Some ''card''\<rparr>)"
  have ans: "answers (\<lambda>_. \<lparr>authorized = False, declineReason = Some ''card''\<rparr>) ?ch"
    by (simp add: answers_def charge_def then_app_def bind_app_def)
  have led: "ledger_ok (db (example_world RESERVED))"
    "ledger_of (db (example_world RESERVED)) (ev_orderId ?e) = Unclaimed"
    by (simp_all add: ledger_ok_def ledger_of_def example_world_def empty_db_def)
  have "\<exists>w1. onInventoryReserved ?ch ?e (delivery ''m'' ?e KInventoryReserved) (example_world RESERVED) =
      (Inr Acked, w1) \<and> in_inbox w1 (''m'', ''payment'') \<and>
      payment_spec ?e \<lparr>authorized = False, declineReason = Some ''card''\<rparr> (db (example_world RESERVED)) (db w1) \<and>
      provider_calls w1 = provider_calls (example_world RESERVED) @ [ev_orderId ?e] \<and>
      ledger_of (db w1) (ev_orderId ?e) = Decided (decision \<lparr>authorized = False, declineReason = Some ''card''\<rparr>)"
    by (rule payment_consumer_advances [OF _ led(1) ans led(2)]) (simp_all add: delivery_def)
  then show ?thesis by (auto simp: payment_spec_def)
qed

text \<open>
  The completion consumer on a first delivery for a \<open>PAID\<close> order completes it and queues exactly one
  \<open>order.completed\<close> event, in one transaction with its inbox record; a redelivery is acknowledged and
  changes nothing in the database.
\<close>

theorem completion_consumer_completes:
  assumes "distinct (map o_id (orders (db w)))" and "status_of (db w) (ev_orderId event) = Some PAID"
    and "msg_messageId msg = Some m" and "m \<noteq> []" and "\<not> in_inbox w (m, ''completion'')"
  shows "\<exists>w1 row now. onPaymentProcessed event msg w = (Inr Acked, w1) \<and>
    status_of (db w1) = (status_of (db w))(ev_orderId event \<mapsto> COMPLETED) \<and>
    stock_of (db w1) = stock_of (db w) \<and> outbox_messages (db w1) = outbox_messages (db w) @ [row] \<and>
    om_routingKey row = ''order.completed'' \<and>
    om_payload row = OrderCompletedEvent (ev_orderId event) (ev_userId event) (IsoString now) \<and>
    fst (onPaymentProcessed event msg w1) = Inr Acked \<and>
    db (snd (onPaymentProcessed event msg w1)) = db w1"
proof -
  obtain w0 where w0: "db w0 = db w"
    and run: "onPaymentProcessed event msg w = (fst (complete_handler event msg w0),
      (snd (complete_handler event msg w0))\<lparr>cls := cls w\<rparr>)"
    using runWith_run [of w "msg_correlation msg" "complete_handler event msg"]
    unfolding onPaymentProcessed_def by blast
  obtain ord w1 os where t: "transitionOrder (ev_orderId event) COMPLETED w0 = (Inr ord, w1)"
    "db w1 = (db w0)\<lparr>orders := os\<rparr>" "status_of (db w1) = (status_of (db w0))(ev_orderId event \<mapsto> COMPLETED)"
    using transition_legal [of w0 "ev_orderId event" PAID COMPLETED] assms(1,2) w0 by auto
  let ?w2 = "after_enqueue (routing_key KCompleted)
      (OrderCompletedEvent (ev_orderId event) (ev_userId event) (IsoString (clock w1))) w1"
  have work: "completion_work event w0 = (Inr (), ?w2)"
    by (simp add: completion_work_def bind_app_def t(1))
  have "\<not> in_inbox w0 (m, ''completion'')" using assms(5) w0 by (simp add: in_inbox_def)
  from processEventOnce_done [OF assms(3,4) this polite_completion work] obtain cs where
    "processEventOnce msg ''completion'' (completion_work event) w0 =
      (Inr OutProcessed, (record_inbox m ''completion'' ?w2)\<lparr>collectors := cs\<rparr>)" by blast
  then have h: "onPaymentProcessed event msg w =
      (Inr Acked, (record_inbox m ''completion'' ?w2)\<lparr>collectors := cs, cls := cls w\<rparr>)"
    by (simp add: run complete_handler_def bind_app_def outcome_result_def)
  obtain w3 where w3: "w3 = (record_inbox m ''completion'' ?w2)\<lparr>collectors := cs, cls := cls w\<rparr>" by blast
  obtain w4 where w4: "db w4 = db w3"
    and run2: "onPaymentProcessed event msg w3 = (fst (complete_handler event msg w4),
      (snd (complete_handler event msg w4))\<lparr>cls := cls w3\<rparr>)"
    using runWith_run [of w3 "msg_correlation msg" "complete_handler event msg"]
    unfolding onPaymentProcessed_def by blast
  have "in_inbox w3 (m, ''completion'')" by (simp add: w3)
  then have "in_inbox w4 (m, ''completion'')" using w4 by (simp add: in_inbox_def)
  from processEventOnce_skips [OF assms(3,4) this] obtain cs' where
    "processEventOnce msg ''completion'' (completion_work event) w4 = (Inr OutSkipped, w4\<lparr>collectors := cs'\<rparr>)"
    by blast
  then have "fst (onPaymentProcessed event msg w3) = Inr Acked \<and> db (snd (onPaymentProcessed event msg w3)) = db w3"
    using w4 by (simp add: run2 complete_handler_def bind_app_def outcome_result_def)
  moreover have "db w3 = (db w1)\<lparr>outbox_messages := outbox_messages (db w1) @ [outbox_row (routing_key KCompleted)
      (OrderCompletedEvent (ev_orderId event) (ev_userId event) (IsoString (clock w1))) w1],
      processed_messages := processed_messages (db w1) @ [\<lparr>pm_messageId = m, pm_consumer = ''completion'',
        pm_processedAt = DateObj (clock w1)\<rparr>]\<rparr>"
    by (simp add: w3)
  ultimately show ?thesis
    using h t w0 unfolding w3 [symmetric] by (intro exI [of _ w3]) auto
qed

theorem completion_consumer_completes_witness:
  "\<exists>w1. onPaymentProcessed (PaymentProcessedEvent ''o'' ''u'' (IsoString 1))
      (delivery ''m'' (PaymentProcessedEvent ''o'' ''u'' (IsoString 1)) KPaymentProcessed) (example_world PAID) =
     (Inr Acked, w1) \<and> status_of (db w1) ''o'' = Some COMPLETED"
proof -
  let ?e = "PaymentProcessedEvent ''o'' ''u'' (IsoString 1)"
  have "status_of (db (example_world PAID)) (ev_orderId ?e) = Some PAID"
    "msg_messageId (delivery ''m'' ?e KPaymentProcessed) = Some ''m''" by (simp_all add: delivery_def)
  from completion_consumer_completes [OF _ this, of] show ?thesis by auto
qed

text \<open>The mail of a terminal event, whatever routing key it is delivered under.\<close>

lemma email_run:
  assumes "msg_messageId msg = Some m" and "m \<noteq> []" and "\<not> in_inbox w (m, ''email'')"
  shows "\<exists>w1. onTerminalEvent event msg w = (Inr Acked, w1) \<and> in_inbox w1 (m, ''email'') \<and>
    mails w1 = mails w @ [email_text event (msg_routingKey msg = routing_key KFailed)]"
proof -
  obtain w0 where w0: "db w0 = db w" "mails w0 = mails w"
    and run: "onTerminalEvent event msg w = (fst (notify event msg w0), (snd (notify event msg w0))\<lparr>cls := cls w\<rparr>)"
    using runWith_run [of w "msg_correlation msg" "notify event msg"] unfolding onTerminalEvent_def by blast
  let ?f = "msg_routingKey msg = routing_key KFailed"
  have i: "\<not> in_inbox w0 (m, ''email'')" using assms(3) w0 by (simp add: in_inbox_def)
  have work: "email_work event ?f w0 = (Inr (), w0\<lparr>mails := mails w0 @ [email_text event ?f]\<rparr>)"
    by (simp add: email_work_def)
  from processEventOnce_done [OF assms(1,2) i polite_email work] obtain cs where
    "processEventOnce msg ''email'' (email_work event ?f) w0 = (Inr OutProcessed,
      (record_inbox m ''email'' (w0\<lparr>mails := mails w0 @ [email_text event ?f]\<rparr>))\<lparr>collectors := cs\<rparr>)" by blast
  then have "onTerminalEvent event msg w = (Inr Acked,
      (record_inbox m ''email'' (w0\<lparr>mails := mails w0 @ [email_text event ?f]\<rparr>))\<lparr>collectors := cs, cls := cls w\<rparr>)"
    by (simp add: run notify_def bind_app_def outcome_result_def Let_def)
  then show ?thesis using w0 by (simp add: record_inbox_def)
      (simp add: in_inbox_def inbox_record_def row_where_append split: option.splits)
qed

lemma email_skips:
  assumes "msg_messageId msg = Some m" and "m \<noteq> []" and "in_inbox w (m, ''email'')"
  shows "fst (onTerminalEvent event msg w) = Inr Acked \<and> mails (snd (onTerminalEvent event msg w)) = mails w"
proof -
  obtain w0 where w0: "db w0 = db w" "mails w0 = mails w"
    and run: "onTerminalEvent event msg w = (fst (notify event msg w0), (snd (notify event msg w0))\<lparr>cls := cls w\<rparr>)"
    using runWith_run [of w "msg_correlation msg" "notify event msg"] unfolding onTerminalEvent_def by blast
  have "in_inbox w0 (m, ''email'')" using assms(3) w0 by (simp add: in_inbox_def)
  from processEventOnce_skips [where work = "email_work event (msg_routingKey msg = routing_key KFailed)",
      OF assms(1,2) this] w0
  show ?thesis by (auto simp: run notify_def bind_app_def outcome_result_def Let_def)
qed

text \<open>
  One mail for a terminal event: a first delivery under its own routing key mails the owner the
  outcome, with the reason of a failure, and a redelivery of the message mails nothing.
\<close>

theorem email_sent_once:
  assumes "m \<noteq> []" and "\<not> in_inbox w (m, ''email'')"
  shows "(\<exists>w1. onTerminalEvent (OrderFailedEvent oid uid reason t)
        (delivery m (OrderFailedEvent oid uid reason t) KFailed) w = (Inr Acked, w1) \<and>
      mails w1 = mails w @ [''Email to user '' @ uid @ '': order '' @ oid @ '' failed ('' @ reason @ '')''] \<and>
      mails (snd (onTerminalEvent (OrderFailedEvent oid uid reason t)
        (delivery m (OrderFailedEvent oid uid reason t) KFailed) w1)) = mails w1) \<and>
    (\<exists>w1. onTerminalEvent (OrderCompletedEvent oid uid t)
        (delivery m (OrderCompletedEvent oid uid t) KCompleted) w = (Inr Acked, w1) \<and>
      mails w1 = mails w @ [''Email to user '' @ uid @ '': order '' @ oid @ '' completed''] \<and>
      mails (snd (onTerminalEvent (OrderCompletedEvent oid uid t)
        (delivery m (OrderCompletedEvent oid uid t) KCompleted) w1)) = mails w1)"
proof -
  have d: "msg_messageId (delivery m event key) = Some m" for event key by (simp add: delivery_def)
  let ?f = "OrderFailedEvent oid uid reason t" and ?c = "OrderCompletedEvent oid uid t"
  have r: "msg_routingKey (delivery m event key) = routing_key key" for event key by (simp add: delivery_def)
  obtain wf where wf: "onTerminalEvent ?f (delivery m ?f KFailed) w = (Inr Acked, wf)"
    "in_inbox wf (m, ''email'')" "mails wf = mails w @ [email_text ?f True]"
    using email_run [where event = ?f and msg = "delivery m ?f KFailed", OF d assms] by (auto simp: r)
  obtain wc where wc: "onTerminalEvent ?c (delivery m ?c KCompleted) w = (Inr Acked, wc)"
    "in_inbox wc (m, ''email'')" "mails wc = mails w @ [email_text ?c False]"
    using email_run [where event = ?c and msg = "delivery m ?c KCompleted", OF d assms] by (auto simp: r)
  show ?thesis
    using wf wc email_skips [where event = ?f and msg = "delivery m ?f KFailed", OF d assms(1) wf(2)]
      email_skips [where event = ?c and msg = "delivery m ?c KCompleted", OF d assms(1) wc(2)]
    by (auto simp: email_text_def)
qed

theorem email_sent_once_witness:
  "\<exists>w1. onTerminalEvent (OrderFailedEvent ''o'' ''u'' ''r'' (IsoString 1))
      (delivery ''m'' (OrderFailedEvent ''o'' ''u'' ''r'' (IsoString 1)) KFailed) empty_world = (Inr Acked, w1) \<and>
    mails w1 = [''Email to user u: order o failed (r)'']"
proof -
  have "\<not> in_inbox empty_world (''m'', ''email'')" by (simp add: in_inbox_def empty_world_def empty_db_def)
  from email_sent_once [OF _ this, of "''o''" "''u''" "''r''" "IsoString 1"] show ?thesis
    by (auto simp: empty_world_def)
qed

text \<open>
  A failure mailed on a retry is announced as a completion. Every redelivery of a failure event by
  the retry handler comes back under the email queue's own name for a routing key, which is not
  \<open>order.failed\<close>, so the consumer takes the event for a completed order.
\<close>

theorem retried_failure_mailed_as_completed:
  assumes "m \<noteq> []" and "\<not> in_inbox w (m, ''email'')"
  shows "list_all (\<lambda>(delay, msg). \<exists>w1. onTerminalEvent (OrderFailedEvent oid uid reason t) msg w = (Inr Acked, w1) \<and>
      mails w1 = mails w @ [''Email to user '' @ uid @ '': order '' @ oid @ '' completed''])
    (redeliveries (queue_name QEmail) maxRetries base (delivery m (OrderFailedEvent oid uid reason t) KFailed))"
proof -
  let ?msg = "delivery m (OrderFailedEvent oid uid reason t) KFailed"
  have "?msg = ?msg\<lparr>msg_attempts := None\<rparr>" by (simp add: delivery_def)
  then have r: "redeliveries (queue_name QEmail) maxRetries base ?msg = map (\<lambda>i. (base * 2 ^ i,
      ?msg\<lparr>msg_attempts := Some (Suc i), msg_routingKey := queue_name QEmail\<rparr>)) [0..<maxRetries]"
    using retry_facts [of "queue_name QEmail" maxRetries base ?msg] by simp
  have "\<exists>w1. onTerminalEvent (OrderFailedEvent oid uid reason t)
      (?msg\<lparr>msg_attempts := Some (Suc i), msg_routingKey := queue_name QEmail\<rparr>) w = (Inr Acked, w1) \<and>
      mails w1 = mails w @ [''Email to user '' @ uid @ '': order '' @ oid @ '' completed'']" for i
    using email_run [of "?msg\<lparr>msg_attempts := Some (Suc i), msg_routingKey := queue_name QEmail\<rparr>" m w
        "OrderFailedEvent oid uid reason t"] assms queue_name_not_routing_key [of QEmail KFailed]
    by (auto simp: delivery_def email_text_def)
  then show ?thesis unfolding r by (simp add: list_all_iff)
qed

theorem retried_failure_mailed_as_completed_witness:
  "list_all (\<lambda>(delay, msg). \<exists>w1. onTerminalEvent (OrderFailedEvent ''o'' ''u'' ''r'' (IsoString 1)) msg empty_world =
      (Inr Acked, w1) \<and> mails w1 = mails empty_world @ [''Email to user '' @ ''u'' @ '': order '' @ ''o'' @ '' completed''])
    (redeliveries (queue_name QEmail) 3 1000 (delivery ''m'' (OrderFailedEvent ''o'' ''u'' ''r'' (IsoString 1)) KFailed))"
  by (rule retried_failure_mailed_as_completed) (simp_all add: in_inbox_def empty_world_def empty_db_def)

text \<open>
  C22: A cancellation racing a reservation loses stock. When a caller's cancellation reads the order as
  \<open>PENDING\<close>, the inventory consumer then reserves its stock and moves it to \<open>RESERVED\<close>, and the claim of
  the cancellation lands after that, the claim still matches, the cancellation reports success, and
  the order is \<open>CANCELLED\<close> with its stock taken for good: whether to give it back was decided by the
  status read before the reservation.
\<close>

theorem cancel_race_leaks_stock:
  assumes "order_cache_ok w" and "orders_ok (db w)" and "products_ok (db w)"
    and "find_order oid userId (db w) = Some ord" and "o_status ord = PENDING"
    and "o_paymentInitiatedAt ord = None"
    and "event = OrderCreatedEvent oid userId (item_lines ord) t"
    and "lines_ok (item_lines ord)" and "enough_stock (stock_of (db w)) (item_lines ord)"
  shows "\<exists>w1 w2 w3 w4. cancel_check oid userId w = (Inr ord, w1) \<and>
    inventory_work event w1 = (Inr (), w2) \<and> status_of (db w2) oid = Some RESERVED \<and>
    cancel_claim oid w2 = (Inr (), w3) \<and> cancel_finish oid ord w3 = (Inr (ord\<lparr>o_status := CANCELLED\<rparr>), w4) \<and>
    status_of (db w4) oid = Some CANCELLED \<and>
    stock_of (db w4) = take_stock (stock_of (db w)) (item_lines ord)"
proof -
  obtain w1 where w1: "cancel_check oid userId w = (Inr ord, w1)" "db w1 = db w"
    using cancel_check_run [OF assms(1,2,4)] assms(5) by auto
  from status_of_claim [OF assms(2,4)] obtain r where
    r: "row_where (\<lambda>r. o_id r = oid) (orders (db w)) = Some r" "ord = with_items (db w) r" "o_id r = oid" by blast
  have dist: "distinct (map o_id (orders (db w1)))" using assms(2) w1(2) by (simp add: orders_ok_def)
  obtain ps where ps: "reserveStock (item_lines ord) w1 = (Inr (), with_products w1 ps)"
    "stock_of (db (with_products w1 ps)) = take_stock (stock_of (db w1)) (item_lines ord)"
    using reserveStock_run [of w1 "item_lines ord"] assms(3,8,9) w1(2) by auto
  let ?row = "r\<lparr>o_status := RESERVED, o_updatedAt := DateObj (clock (with_products w1 ps))\<rparr>"
  have "isTransitionAllowed PENDING RESERVED" by simp
  moreover have "status_of (db w) oid = Some PENDING" using r(1,2) assms(5) by (simp add: status_of_def)
  ultimately obtain ord' w2 where w2: "transitionOrder oid RESERVED (with_products w1 ps) = (Inr ord', w2)"
    "db w2 = (db (with_products w1 ps))\<lparr>orders := update_where (\<lambda>r. o_id r = oid \<and> o_status r = PENDING)
        (\<lambda>r. r\<lparr>o_status := RESERVED, o_updatedAt := DateObj (clock (with_products w1 ps))\<rparr>) (orders (db w))\<rparr>"
    "status_of (db w2) oid = Some RESERVED"
    using transitionOrder_run [of "with_products w1 ps" oid RESERVED] dist w1(2)
    by (cases "transitionOrder oid RESERVED (with_products w1 ps)") auto
  have inv: "inventory_work event w1 = (Inr (), w2)"
    using ps(1) w2(1) by (simp add: inventory_work_def assms(7) try_catch_def then_app_def bind_app_def)
  have row: "?row \<in> set (orders (db w2))"
    using row_where_Some [OF r(1)] assms(5) r(2) by (auto simp: w2(2) set_update_where)
  have guard: "cancel_guard oid ?row" using r(2,3) assms(6) by (simp add: cancel_guard_def)
  from affected_pos [where p = "cancel_guard oid", OF row guard] have "affected (cancel_guard oid) (orders (db w2)) \<noteq> 0" .
  from cancel_claim_won [OF this] obtain w3 where w3: "cancel_claim oid w2 = (Inr (), w3)"
    "db w3 = (db w2)\<lparr>orders := update_where (cancel_guard oid) (cancel_assign (clock w2)) (orders (db w2))\<rparr>"
    by auto
  have "\<exists>w4. cancel_finish oid ord w3 = (Inr (ord\<lparr>o_status := CANCELLED\<rparr>), w4) \<and> db w4 = db w3"
    using assms(5) by (simp add: cancel_finish_def Let_def run_cache_del then_app_def bind_app_def)
  then obtain w4 where w4: "cancel_finish oid ord w3 = (Inr (ord\<lparr>o_status := CANCELLED\<rparr>), w4)" "db w4 = db w3" by blast
  have d2: "distinct (map o_id (orders (db w2)))" using dist w1(2) w2(2) by (simp add: w1(2))
  have "o_id ?row = oid" using r(3) by simp
  then have r2: "row_where (\<lambda>r. o_id r = oid) (orders (db w2)) = Some ?row"
    using row_where_key [OF d2 row] by simp
  have "status_of (db w4) = (status_of (db w2))(oid \<mapsto> CANCELLED)"
    unfolding w4(2) w3(2)
    by (rule status_of_update [where p = "cancel_guard oid", OF _ _ d2 r2 guard])
      (auto simp: cancel_assign_def cancel_guard_def)
  moreover have "stock_of (db w4) = take_stock (stock_of (db w)) (item_lines ord)"
    using ps(2) w1(2) by (simp add: w4(2) w3(2) w2(2))
  ultimately show ?thesis using w1 inv w2(3) w3(1) w4(1) by auto
qed

theorem cancel_race_leaks_stock_witness:
  "\<exists>w1 w2 w3 w4. cancel_check ''o'' ''u'' (example_world PENDING) =
      (Inr ((example_order PENDING)\<lparr>o_items := Some [example_item]\<rparr>), w1) \<and>
    inventory_work (OrderCreatedEvent ''o'' ''u'' [\<lparr>l_productId = ''a'', l_quantity = 2\<rparr>] (IsoString 1)) w1 = (Inr (), w2) \<and>
    cancel_claim ''o'' w2 = (Inr (), w3) \<and>
    w4 = snd (cancel_finish ''o'' ((example_order PENDING)\<lparr>o_items := Some [example_item]\<rparr>) w3) \<and>
    status_of (db w4) ''o'' = Some CANCELLED \<and> stock_of (db w4) ''a'' = Some 1"
proof -
  let ?ord = "(example_order PENDING)\<lparr>o_items := Some [example_item]\<rparr>"
  let ?e = "OrderCreatedEvent ''o'' ''u'' (item_lines ?ord) (IsoString 1)"
  have "\<exists>w1 w2 w3 w4. cancel_check ''o'' ''u'' (example_world PENDING) = (Inr ?ord, w1) \<and>
    inventory_work ?e w1 = (Inr (), w2) \<and> status_of (db w2) ''o'' = Some RESERVED \<and>
    cancel_claim ''o'' w2 = (Inr (), w3) \<and> cancel_finish ''o'' ?ord w3 = (Inr (?ord\<lparr>o_status := CANCELLED\<rparr>), w4) \<and>
    status_of (db w4) ''o'' = Some CANCELLED \<and>
    stock_of (db w4) = take_stock (stock_of (db (example_world PENDING))) (item_lines ?ord)"
    by (rule cancel_race_leaks_stock)
      (simp_all add: example_lines example_enough(1) [simplified], simp_all add: example_order_def enough_stock_def)
  then obtain w1 w2 w3 w4 where h: "cancel_check ''o'' ''u'' (example_world PENDING) = (Inr ?ord, w1)"
    "inventory_work ?e w1 = (Inr (), w2)" "cancel_claim ''o'' w2 = (Inr (), w3)"
    "cancel_finish ''o'' ?ord w3 = (Inr (?ord\<lparr>o_status := CANCELLED\<rparr>), w4)"
    "status_of (db w4) ''o'' = Some CANCELLED"
    "stock_of (db w4) = take_stock (stock_of (db (example_world PENDING))) (item_lines ?ord)" by blast
  have "stock_of (db w4) ''a'' = Some 1" unfolding h(6) example_lines by (simp add: take_stock_def)
  with h show ?thesis unfolding example_lines by (intro exI [of _ w1] exI [of _ w2] exI [of _ w3] exI [of _ w4]) simp
qed

end
