(* ===== verification/Cart.thy ===== *)
theory Cart
  imports Order_Correctness
begin

text \<open>
  \<open>CartService\<close> of \<^verbatim>\<open>src/modules/cart/cart.service.ts\<close>, the DTOs and the controller. The carts table
  has the partial unique index of the entity (one open cart for a user), the items table its unique
  pair of cart and product.

  \<open>getOpenCart\<close> is the read and, when it finds nothing, \<open>open_cart_create\<close>; run in a state where another
  request has created the cart since, the latter is the lost race. \<open>checkout\<close> is the read and the
  claim with the order's creation, likewise.
\<close>

section \<open>Tables\<close>

definition is_open :: "uuid \<Rightarrow> CartEntity \<Rightarrow> bool" where
  "is_open userId r \<longleftrightarrow> c_userId r = userId \<and> c_checkedOutAt r = None"

text \<open>The relations \<open>items: { product: true }\<close>.\<close>

definition cart_relations :: "database \<Rightarrow> CartEntity \<Rightarrow> CartEntity" where
  "cart_relations d cart = cart\<lparr>c_items := Some (map
     (\<lambda>i. i\<lparr>ci_product := row_where (\<lambda>p. p_id p = ci_productId i) (products d)\<rparr>)
     (rows_where (\<lambda>i. ci_cartId i = c_id cart) (cart_items d)))\<rparr>"

definition findOpenCart :: "uuid \<Rightarrow> database \<Rightarrow> CartEntity option" where
  "findOpenCart userId d = map_option (cart_relations d) (row_where (is_open userId) (carts d))"

definition insert_cart :: "uuid \<Rightarrow> (world, CartEntity) app" where
  "insert_cart userId = bind_app random_uuid (\<lambda>cid. bind_app read_clock (\<lambda>now.
     bind_app (query (\<lambda>d. row_where (is_open userId) (carts d))) (\<lambda>other.
       if other \<noteq> None then throw_app (unique_violation ''carts'')
       else let created = \<lparr>c_id = cid, c_userId = userId, c_checkedOutAt = None, c_items = None,
                  c_createdAt = DateObj now, c_updatedAt = DateObj now\<rparr>
            in then_app (execute (\<lambda>d. d\<lparr>carts := carts d @ [created]\<rparr>)) (return_app created))))"

fun isUniqueViolation :: "exn \<Rightarrow> bool" where
  "isUniqueViolation (QueryFailedError code tab) \<longleftrightarrow> code = ''23505''"
| "isUniqueViolation error \<longleftrightarrow> False"

section \<open>CartService\<close>

definition open_cart_create :: "uuid \<Rightarrow> (world, CartEntity) app" where
  "open_cart_create userId =
     try_catch
       (bind_app (insert_cart userId) (\<lambda>created. return_app (created\<lparr>c_items := Some []\<rparr>)))
       (\<lambda>error.
          if isUniqueViolation error
          then bind_app (query (findOpenCart userId)) (\<lambda>winner.
                 case winner of Some w \<Rightarrow> return_app w | None \<Rightarrow> throw_app error)
          else throw_app error)"

definition getOpenCart :: "uuid \<Rightarrow> (world, CartEntity) app" where
  "getOpenCart userId = bind_app (query (findOpenCart userId)) (\<lambda>existing.
     case existing of Some cart \<Rightarrow> return_app cart | None \<Rightarrow> open_cart_create userId)"

definition item_key :: "uuid \<Rightarrow> uuid \<Rightarrow> CartItemEntity \<Rightarrow> bool" where
  "item_key cartId productId i \<longleftrightarrow> ci_cartId i = cartId \<and> ci_productId i = productId"

text \<open>\<open>upsert\<close> on the unique pair; the quantity column is an \<open>integer\<close>.\<close>

definition upsert_item :: "uuid \<Rightarrow> uuid \<Rightarrow> int \<Rightarrow> (world, unit) app" where
  "upsert_item cartId productId quantity =
     (if \<not> int4 quantity then throw_app out_of_range
      else bind_app random_uuid (\<lambda>iid.
        execute (\<lambda>d. d\<lparr>cart_items :=
          (if row_where (item_key cartId productId) (cart_items d) = None
           then cart_items d @ [\<lparr>ci_id = iid, ci_cartId = cartId, ci_productId = productId,
                  ci_product = None, ci_quantity = quantity\<rparr>]
           else update_where (item_key cartId productId) (\<lambda>i. i\<lparr>ci_quantity := quantity\<rparr>)
                  (cart_items d))\<rparr>)))"

definition setItem :: "uuid \<Rightarrow> uuid \<Rightarrow> int \<Rightarrow> (world, CartEntity) app" where
  "setItem userId productId quantity =
     bind_app (getOpenCart userId) (\<lambda>cart.
     bind_app (query (findByIds [productId])) (\<lambda>found.
       case found of
         [] \<Rightarrow> throw_app (NotFoundException ''Product not found'')
       | product # _ \<Rightarrow>
           then_app (upsert_item (c_id cart) productId quantity) (getOpenCart userId)))"

definition removeItem :: "uuid \<Rightarrow> uuid \<Rightarrow> (world, CartEntity) app" where
  "removeItem userId productId =
     bind_app (getOpenCart userId) (\<lambda>cart.
     then_app (execute (\<lambda>d. d\<lparr>cart_items := delete_where (item_key (c_id cart) productId) (cart_items d)\<rparr>))
       (getOpenCart userId))"

definition checkout_guard :: "uuid \<Rightarrow> CartEntity \<Rightarrow> bool" where
  "checkout_guard cartId r \<longleftrightarrow> c_id r = cartId \<and> c_checkedOutAt r = None"

definition checkout_assign :: "int \<Rightarrow> CartEntity \<Rightarrow> CartEntity" where
  "checkout_assign now r = r\<lparr>c_checkedOutAt := Some (DateObj now), c_updatedAt := DateObj now\<rparr>"

definition update_carts ::
    "(CartEntity \<Rightarrow> bool) \<Rightarrow> (int \<Rightarrow> CartEntity \<Rightarrow> CartEntity) \<Rightarrow> (world, nat) app" where
  "update_carts guard assign =
     bind_app read_clock (\<lambda>now. bind_app (query (\<lambda>d. affected guard (carts d))) (\<lambda>n.
       then_app (execute (\<lambda>d. d\<lparr>carts := update_where guard (assign now) (carts d)\<rparr>)) (return_app n)))"

definition cart_items_of :: "CartEntity \<Rightarrow> CartItemEntity list" where
  "cart_items_of cart = (case c_items cart of None \<Rightarrow> [] | Some is \<Rightarrow> is)"

text \<open>\<open>item.product!.name\<close> of an item whose product is missing throws.\<close>

fun cart_lines :: "CartItemEntity list \<Rightarrow> (world, OrderLine list) app" where
  "cart_lines [] = return_app []"
| "cart_lines (item # items) =
     (case ci_product item of
        None \<Rightarrow> throw_app (JsError ''TypeError'')
      | Some product \<Rightarrow> bind_app (cart_lines items) (\<lambda>lines.
          return_app (\<lparr>ol_productId = ci_productId item, ol_productName = p_name product,
            ol_quantity = ci_quantity item\<rparr> # lines)))"

definition checkout_read :: "uuid \<Rightarrow> (world, CartEntity) app" where
  "checkout_read userId = bind_app (getOpenCart userId) (\<lambda>cart.
     if length (cart_items_of cart) = 0 then throw_app (ConflictException ''Cart is empty'')
     else return_app cart)"

definition checkout_claim :: "uuid \<Rightarrow> CartEntity \<Rightarrow> (world, OrderEntity) app" where
  "checkout_claim userId cart =
     bind_app (update_carts (checkout_guard (c_id cart)) checkout_assign) (\<lambda>claim.
       if claim = 0 then throw_app (ConflictException ''Cart has already been checked out'')
       else bind_app (cart_lines (cart_items_of cart)) (createOrder userId))"

definition checkout :: "uuid \<Rightarrow> (world, OrderEntity) app" where
  "checkout userId = bind_app (checkout_read userId) (checkout_claim userId)"

section \<open>DTOs and controller\<close>

record CartItemResponseDTO =
  cd_productId :: uuid
  cd_productName :: string
  cd_productStock :: int
  cd_quantity :: int

record CartResponseDTO =
  cd_id :: uuid
  cd_items :: "CartItemResponseDTO list"
  cd_createdAt :: js_time
  cd_updatedAt :: js_time

definition toCartResponseDTO :: "CartEntity \<Rightarrow> CartResponseDTO" where
  "toCartResponseDTO cart = \<lparr>cd_id = c_id cart,
     cd_items = map (\<lambda>item. \<lparr>cd_productId = ci_productId item,
       cd_productName = (case ci_product item of None \<Rightarrow> [] | Some p \<Rightarrow> p_name p),
       cd_productStock = (case ci_product item of None \<Rightarrow> 0 | Some p \<Rightarrow> p_stock p),
       cd_quantity = ci_quantity item\<rparr>) (cart_items_of cart),
     cd_createdAt = c_createdAt cart, cd_updatedAt = c_updatedAt cart\<rparr>"

definition cart_controller_get :: "uuid \<Rightarrow> (world, CartResponseDTO) app" where
  "cart_controller_get sub = bind_app (getOpenCart sub) (\<lambda>c. return_app (toCartResponseDTO c))"

definition cart_controller_setItem :: "uuid \<Rightarrow> uuid \<Rightarrow> int \<Rightarrow> (world, CartResponseDTO) app" where
  "cart_controller_setItem sub productId quantity =
     bind_app (setItem sub productId quantity) (\<lambda>c. return_app (toCartResponseDTO c))"

definition cart_controller_removeItem :: "uuid \<Rightarrow> uuid \<Rightarrow> (world, CartResponseDTO) app" where
  "cart_controller_removeItem sub productId =
     bind_app (removeItem sub productId) (\<lambda>c. return_app (toCartResponseDTO c))"

definition cart_controller_checkout :: "uuid \<Rightarrow> (world, OrderResponseDTO) app" where
  "cart_controller_checkout sub = bind_app (checkout sub) (\<lambda>order. return_app (toOrderResponseDTO order))"

section \<open>The invariant\<close>

text \<open>At most one open cart for a user, one line for a product in a cart.\<close>

definition carts_ok :: "database \<Rightarrow> bool" where
  "carts_ok d \<longleftrightarrow> distinct (map c_id (carts d)) \<and>
     distinct (map c_userId (filter (\<lambda>r. c_checkedOutAt r = None) (carts d))) \<and>
     distinct (map (\<lambda>i. (ci_cartId i, ci_productId i)) (cart_items d))"

interpretation checkout_once: keyed_claim "checkout_guard cid" "checkout_assign now" c_id cid for cid now
  by unfold_locales (auto simp: checkout_guard_def checkout_assign_def)

lemma run_update_carts: "update_carts g a w = (Inr (affected g (carts (db w))),
    w\<lparr>db := (db w)\<lparr>carts := update_where g (a (clock w)) (carts (db w))\<rparr>\<rparr>)"
  by (simp add: update_carts_def app_defs query_def execute_def read_clock_def)

definition new_cart :: "uuid \<Rightarrow> world \<Rightarrow> CartEntity" where
  "new_cart userId w = \<lparr>c_id = uuid_supply w (drawn w), c_userId = userId, c_checkedOutAt = None,
     c_items = None, c_createdAt = DateObj (clock w), c_updatedAt = DateObj (clock w)\<rparr>"

lemma open_cart_create_run: "open_cart_create userId w =
    (case findOpenCart userId (db w) of
       Some winner \<Rightarrow> (Inr winner, w\<lparr>drawn := Suc (drawn w)\<rparr>)
     | None \<Rightarrow> (Inr ((new_cart userId w)\<lparr>c_items := Some []\<rparr>),
         w\<lparr>drawn := Suc (drawn w), db := (db w)\<lparr>carts := carts (db w) @ [new_cart userId w]\<rparr>\<rparr>))"
  by (simp add: open_cart_create_def try_catch_def insert_cart_def findOpenCart_def new_cart_def
      bind_app_def random_uuid_def read_clock_def query_def execute_def then_app_def Let_def
      split: option.splits)

lemma getOpenCart_run: "getOpenCart userId w =
    (case findOpenCart userId (db w) of
       Some cart \<Rightarrow> (Inr cart, w)
     | None \<Rightarrow> (Inr ((new_cart userId w)\<lparr>c_items := Some []\<rparr>),
         w\<lparr>drawn := Suc (drawn w), db := (db w)\<lparr>carts := carts (db w) @ [new_cart userId w]\<rparr>\<rparr>))"
  by (simp add: getOpenCart_def open_cart_create_run split: option.splits)

lemma no_open_cart: "findOpenCart userId d = None \<longleftrightarrow> userId \<notin> c_userId ` set (filter (\<lambda>r. c_checkedOutAt r = None) (carts d))"
  by (auto simp: findOpenCart_def row_where_None is_open_def)

lemma carts_ok_new:
  assumes "carts_ok (db w)" and "findOpenCart userId (db w) = None"
    and "uuid_supply w (drawn w) \<notin> c_id ` set (carts (db w))"
  shows "carts_ok ((db w)\<lparr>carts := carts (db w) @ [new_cart userId w]\<rparr>)"
  using assms(1,3) assms(2) [unfolded no_open_cart] by (auto simp: carts_ok_def new_cart_def)

lemma carts_ok_items: "carts_ok d \<Longrightarrow> distinct (map (\<lambda>i. (ci_cartId i, ci_productId i)) is) \<Longrightarrow>
    carts_ok (d\<lparr>cart_items := is\<rparr>)"
  by (simp add: carts_ok_def)

lemma open_after_checkout:
  "filter (\<lambda>r. c_checkedOutAt r = None) (update_where (checkout_guard cid) (checkout_assign now) t) =
    filter (\<lambda>r. \<not> checkout_guard cid r) (filter (\<lambda>r. c_checkedOutAt r = None) t)"
  by (induction t) (auto simp: checkout_guard_def checkout_assign_def)

lemma carts_ok_checkout:
  assumes "carts_ok d"
  shows "carts_ok (d\<lparr>carts := update_where (checkout_guard cid) (checkout_assign now) (carts d)\<rparr>)"
proof -
  have "map c_userId (update_where (checkout_guard cid) (checkout_assign now) t) = map c_userId t" for t
    by (simp add: checkout_assign_def)
  moreover have "distinct (map c_userId (filter (\<lambda>r. \<not> checkout_guard cid r)
      (filter (\<lambda>r. c_checkedOutAt r = None) (carts d))))"
    by (rule distinct_map_filter) (use assms in \<open>simp add: carts_ok_def\<close>)
  ultimately show ?thesis
    using assms
    by (simp add: carts_ok_def checkout_once.keys_unchanged open_after_checkout del: filter_filter)
qed

text \<open>
  The invariant of the cart tables with the ids still to be drawn: no cart has one of them, and every
  line belongs to a cart.
\<close>

definition carts_inv :: "world \<Rightarrow> bool" where
  "carts_inv w \<longleftrightarrow> carts_ok (db w) \<and> fresh_supply w \<and>
     (\<forall>r \<in> set (carts (db w)). \<forall>n \<ge> drawn w. c_id r \<noteq> uuid_supply w n) \<and>
     (\<forall>i \<in> set (cart_items (db w)). ci_cartId i \<in> c_id ` set (carts (db w)))"

lemma carts_inv_cong:
  assumes "carts (db w') = carts (db w)" "cart_items (db w') = cart_items (db w)"
    "uuid_supply w' = uuid_supply w" "drawn w \<le> drawn w'" "carts_inv w"
  shows "carts_inv w'"
  using assms by (auto simp: carts_inv_def carts_ok_def fresh_supply_def)

lemma carts_inv_new:
  assumes "carts_inv w" and "findOpenCart userId (db w) = None"
  shows "carts_inv (w\<lparr>drawn := Suc (drawn w), db := (db w)\<lparr>carts := carts (db w) @ [new_cart userId w]\<rparr>\<rparr>)"
proof -
  have "uuid_supply w (drawn w) \<notin> c_id ` set (carts (db w))"
    using assms(1) by (force simp: carts_inv_def)
  then have ok: "carts_ok ((db w)\<lparr>carts := carts (db w) @ [new_cart userId w]\<rparr>)"
    using assms by (intro carts_ok_new) (auto simp: carts_inv_def)
  have "uuid_supply w (drawn w) \<noteq> uuid_supply w n" if "n \<ge> Suc (drawn w)" for n
    using assms(1) that by (auto simp: carts_inv_def fresh_supply_def dest: injD [of _ "drawn w" n])
  with assms(1) ok show ?thesis
    by (auto simp: carts_inv_def fresh_supply_def new_cart_def)
qed

lemma relations_of_new: "carts_inv w \<Longrightarrow> rows_where (\<lambda>i. ci_cartId i = uuid_supply w (drawn w)) (cart_items (db w)) = []"
  by (force simp: carts_inv_def rows_where_def filter_empty_conv)

lemma find_new_cart:
  assumes "carts_inv w" and "findOpenCart userId (db w) = None"
  shows "findOpenCart userId ((db w)\<lparr>carts := carts (db w) @ [new_cart userId w]\<rparr>) =
    Some ((new_cart userId w)\<lparr>c_items := Some []\<rparr>)"
proof -
  have "row_where (is_open userId) (carts (db w)) = None"
    using assms(2) by (simp add: findOpenCart_def)
  with relations_of_new [OF assms(1)] show ?thesis
    by (simp add: findOpenCart_def row_where_append cart_relations_def is_open_def new_cart_def)
qed

lemma getOpenCart_effect:
  assumes "carts_inv w"
  obtains c w' where "getOpenCart userId w = (Inr c, w')" "findOpenCart userId (db w') = Some c"
    "carts_inv w'" "products (db w') = products (db w)" "cart_items (db w') = cart_items (db w)"
    "set (carts (db w)) \<subseteq> set (carts (db w'))" "getOpenCart userId w' = (Inr c, w')"
proof (cases "findOpenCart userId (db w)")
  case None
  show ?thesis
  proof (rule that)
    let ?w' = "w\<lparr>drawn := Suc (drawn w), db := (db w)\<lparr>carts := carts (db w) @ [new_cart userId w]\<rparr>\<rparr>"
    show "getOpenCart userId w = (Inr ((new_cart userId w)\<lparr>c_items := Some []\<rparr>), ?w')"
      by (simp add: getOpenCart_run None)
    show "carts_inv ?w'" using assms None by (rule carts_inv_new)
    show found: "findOpenCart userId (db ?w') = Some ((new_cart userId w)\<lparr>c_items := Some []\<rparr>)"
      using find_new_cart [OF assms None] by simp
    show "getOpenCart userId ?w' = (Inr ((new_cart userId w)\<lparr>c_items := Some []\<rparr>), ?w')"
      using found by (simp add: getOpenCart_run)
  qed auto
next
  case (Some c)
  show ?thesis
    by (rule that [of c w]) (use assms Some in \<open>simp_all add: getOpenCart_run\<close>)
qed

lemma carts_inv_getOpenCart: "carts_inv w \<Longrightarrow> carts_inv (snd (getOpenCart userId w))"
  by (metis getOpenCart_effect snd_conv)

lemma carts_inv_create: "carts_inv w \<Longrightarrow> carts_inv (snd (open_cart_create userId w))"
  using carts_inv_new [of w userId] carts_inv_cong [of "w\<lparr>drawn := Suc (drawn w)\<rparr>" w]
  by (simp add: open_cart_create_run split: option.splits)

subsection \<open>Lines\<close>

definition line_qty :: "database \<Rightarrow> uuid \<Rightarrow> uuid \<Rightarrow> int option" where
  "line_qty d cartId productId = map_option ci_quantity (row_where (item_key cartId productId) (cart_items d))"

definition upserted :: "uuid \<Rightarrow> uuid \<Rightarrow> int \<Rightarrow> world \<Rightarrow> CartItemEntity list" where
  "upserted cartId productId quantity w =
     (if row_where (item_key cartId productId) (cart_items (db w)) = None
      then cart_items (db w) @ [\<lparr>ci_id = uuid_supply w (drawn w), ci_cartId = cartId,
             ci_productId = productId, ci_product = None, ci_quantity = quantity\<rparr>]
      else update_where (item_key cartId productId) (\<lambda>i. i\<lparr>ci_quantity := quantity\<rparr>) (cart_items (db w)))"

lemma upsert_item_run: "upsert_item cartId productId quantity w =
    (if int4 quantity
     then (Inr (), w\<lparr>drawn := Suc (drawn w), db := (db w)\<lparr>cart_items := upserted cartId productId quantity w\<rparr>\<rparr>)
     else (Inl out_of_range, w))"
  by (simp add: upsert_item_def upserted_def)

lemma line_keys_upserted:
  assumes "distinct (map (\<lambda>i. (ci_cartId i, ci_productId i)) (cart_items (db w)))"
  shows "distinct (map (\<lambda>i. (ci_cartId i, ci_productId i)) (upserted cartId productId quantity w))"
proof (cases "row_where (item_key cartId productId) (cart_items (db w))")
  case None
  with assms show ?thesis by (auto simp: upserted_def row_where_None item_key_def)
next
  case (Some i)
  have "map (\<lambda>i. (ci_cartId i, ci_productId i)) (update_where (item_key cartId productId)
      (\<lambda>i. i\<lparr>ci_quantity := quantity\<rparr>) t) = map (\<lambda>i. (ci_cartId i, ci_productId i)) t" for t
    by (rule map_key_update_where) simp
  with assms Some show ?thesis by (simp add: upserted_def)
qed

lemma row_item_update: "row_where (item_key c' p') (update_where (item_key c p) (\<lambda>i. i\<lparr>ci_quantity := q\<rparr>) t) =
    map_option (\<lambda>i. if item_key c p i then i\<lparr>ci_quantity := q\<rparr> else i) (row_where (item_key c' p') t)"
  by (induction t) (auto simp: item_key_def)

lemma item_key_unique: "item_key c p i \<Longrightarrow> item_key c' p' i \<longleftrightarrow> c' = c \<and> p' = p"
  by (auto simp: item_key_def)

lemma line_qty_upserted:
  "line_qty (d\<lparr>cart_items := upserted cartId productId quantity w\<rparr>) c' p' =
     (if c' = cartId \<and> p' = productId then Some quantity else line_qty (db w) c' p')"
proof (cases "row_where (item_key cartId productId) (cart_items (db w))")
  case None
  then show ?thesis
    by (auto simp: line_qty_def upserted_def row_where_append split: option.splits) (auto simp: item_key_def)
next
  case (Some i)
  have "item_key c p r \<Longrightarrow> item_key cartId productId r \<longleftrightarrow> c = cartId \<and> p = productId" for c p r
    by (auto simp: item_key_def)
  with Some show ?thesis
    by (cases "row_where (item_key c' p') (cart_items (db w))")
       (auto simp: line_qty_def upserted_def row_item_update dest: row_where_Some)
qed

lemma carts_inv_upserted:
  assumes "carts_inv w" and "cartId \<in> c_id ` set (carts (db w))"
  shows "carts_inv (w\<lparr>drawn := Suc (drawn w), db := (db w)\<lparr>cart_items := upserted cartId productId quantity w\<rparr>\<rparr>)"
proof -
  have "carts_ok ((db w)\<lparr>cart_items := upserted cartId productId quantity w\<rparr>)"
    using assms(1) by (intro carts_ok_items line_keys_upserted) (auto simp: carts_inv_def carts_ok_def)
  moreover have "ci_cartId i \<in> c_id ` set (carts (db w))" if "i \<in> set (upserted cartId productId quantity w)" for i
    using that assms by (auto simp: upserted_def carts_inv_def set_update_where split: if_splits)
  ultimately show ?thesis
    using assms(1) by (auto simp: carts_inv_def fresh_supply_def)
qed

lemma line_qty_deleted:
  "line_qty (d\<lparr>cart_items := delete_where (item_key cartId productId) (cart_items d)\<rparr>) c' p' =
     (if c' = cartId \<and> p' = productId then None else line_qty d c' p')"
proof -
  have "row_where (item_key c' p') (delete_where (item_key cartId productId) t) =
      (if c' = cartId \<and> p' = productId then None else row_where (item_key c' p') t)" for t
    by (induction t) (auto simp: delete_where_def item_key_unique)
  then show ?thesis by (simp add: line_qty_def)
qed

lemma carts_inv_deleted:
  assumes "carts_inv w" and "is = cart_items (db w)"
  shows "carts_inv (w\<lparr>db := (db w)\<lparr>cart_items := delete_where p is\<rparr>\<rparr>)"
proof -
  have "carts_ok ((db w)\<lparr>cart_items := delete_where p is\<rparr>)"
    using assms by (intro carts_ok_items) (auto simp: carts_inv_def carts_ok_def delete_where_def intro: distinct_map_filter)
  with assms show ?thesis by (auto simp: carts_inv_def fresh_supply_def)
qed

lemma found_cart_exists: "findOpenCart userId d = Some c \<Longrightarrow> \<exists>r \<in> set (carts d). is_open userId r \<and> c = cart_relations d r"
  by (auto simp: findOpenCart_def dest: row_where_Some)

lemma found_cart_id: "findOpenCart userId d = Some c \<Longrightarrow> c_id c \<in> c_id ` set (carts d)"
  by (auto simp: cart_relations_def dest!: found_cart_exists)

section \<open>Histories\<close>

text \<open>
  What requests do to the carts, in any order. A request is one action, or, when another runs between
  its steps, the two halves of \<open>getOpenCart\<close> and \<open>checkout\<close>: the creation after a read that found no
  cart, and the claim of a cart read earlier.
\<close>

datatype cart_action =
    DoGetOpenCart uuid
  | DoCreateOpenCart uuid
  | DoSetItem uuid uuid int
  | DoRemoveItem uuid uuid
  | DoCheckout uuid
  | DoClaimCheckout uuid CartEntity

fun run_cart_action :: "cart_action \<Rightarrow> world \<Rightarrow> world" where
  "run_cart_action (DoGetOpenCart userId) w = snd (getOpenCart userId w)"
| "run_cart_action (DoCreateOpenCart userId) w = snd (open_cart_create userId w)"
| "run_cart_action (DoSetItem userId productId quantity) w = snd (setItem userId productId quantity w)"
| "run_cart_action (DoRemoveItem userId productId) w = snd (removeItem userId productId w)"
| "run_cart_action (DoCheckout userId) w = snd (checkout userId w)"
| "run_cart_action (DoClaimCheckout userId cart) w = snd (checkout_claim userId cart w)"

lemma createOrder_carts:
  "carts (db (snd (createOrder userId lines w))) = carts (db w)"
  "cart_items (db (snd (createOrder userId lines w))) = cart_items (db w)"
  "products (db (snd (createOrder userId lines w))) = products (db w)"
  "uuid_supply (snd (createOrder userId lines w)) = uuid_supply w"
  "drawn w \<le> drawn (snd (createOrder userId lines w))"
proof -
  let ?e = "after_enqueue (routing_key KCreated) (created_event userId lines w) (order_saved userId lines w)"
  obtain c where c: "snd (createOrder userId lines w) = after_del [userOrdersKey userId] (?e\<lparr>collectors := c\<rparr>)"
    using createOrder_run [of userId lines w] by auto
  show "carts (db (snd (createOrder userId lines w))) = carts (db w)"
    "cart_items (db (snd (createOrder userId lines w))) = cart_items (db w)"
    "products (db (snd (createOrder userId lines w))) = products (db w)"
    "uuid_supply (snd (createOrder userId lines w)) = uuid_supply w"
    by (simp_all add: c order_saved_def Let_def)
  have "drawn w \<le> drawn (order_saved userId lines w)" by (simp add: order_saved_def Let_def)
  also have "\<dots> \<le> drawn ?e" using drawn_after_enqueue by (rule less_imp_le)
  finally show "drawn w \<le> drawn (snd (createOrder userId lines w))" by (simp add: c)
qed

lemma carts_inv_createOrder: "carts_inv w \<Longrightarrow> carts_inv (snd (createOrder userId lines w))"
  by (rule carts_inv_cong [where w = w]) (simp_all add: createOrder_carts)

definition claimed :: "CartEntity \<Rightarrow> world \<Rightarrow> world" where
  "claimed cart w = w\<lparr>db := (db w)\<lparr>carts :=
     update_where (checkout_guard (c_id cart)) (checkout_assign (clock w)) (carts (db w))\<rparr>\<rparr>"

lemma carts_inv_claimed:
  assumes "carts_inv w" shows "carts_inv (claimed cart w)"
proof -
  have ids: "map c_id (update_where (checkout_guard (c_id cart)) (checkout_assign (clock w)) t) = map c_id t" for t
    by (simp add: checkout_assign_def)
  have set: "c_id ` set (update_where (checkout_guard (c_id cart)) (checkout_assign (clock w)) t) = c_id ` set t" for t
    using arg_cong [OF ids, of set] by simp
  have "carts_ok ((db w)\<lparr>carts := update_where (checkout_guard (c_id cart)) (checkout_assign (clock w)) (carts (db w))\<rparr>)"
    using assms by (intro carts_ok_checkout) (simp add: carts_inv_def)
  moreover have "c_id r \<noteq> uuid_supply w n" if "n \<ge> drawn w"
      "r \<in> set (update_where (checkout_guard (c_id cart)) (checkout_assign (clock w)) (carts (db w)))" for r n
  proof -
    have "c_id r \<in> c_id ` set (carts (db w))"
      using that(2) set [of "carts (db w)"] by blast
    then show ?thesis using assms that(1) unfolding carts_inv_def by (metis imageE)
  qed
  ultimately show ?thesis
    using assms by (simp add: carts_inv_def fresh_supply_def claimed_def set)
qed

lemma checkout_claim_run: "checkout_claim userId cart w =
    (if affected (checkout_guard (c_id cart)) (carts (db w)) = 0
     then (Inl (ConflictException ''Cart has already been checked out''), w)
     else bind_app (cart_lines (cart_items_of cart)) (createOrder userId) (claimed cart w))"
proof -
  have "w\<lparr>db := (db w)\<lparr>carts := update_where g f (carts (db w))\<rparr>\<rparr> = w" if "affected g (carts (db w)) = 0" for g f
    using affected_0_update [OF that] by simp
  then show ?thesis
    by (simp add: checkout_claim_def bind_app_def run_update_carts claimed_def)
qed

lemma cart_lines_state: "snd (cart_lines items w) = w"
  by (induction items) (auto simp: bind_app_def split: option.splits prod.splits sum.splits)

lemma cart_lines_bind_state: "\<exists>lines. snd (bind_app (cart_lines items) (createOrder userId) w) = snd (createOrder userId lines w)
    \<or> snd (bind_app (cart_lines items) (createOrder userId) w) = w"
  using cart_lines_state [of items w] by (auto simp: bind_app_def split: prod.splits sum.splits)

lemma checkout_claim_state:
  "snd (checkout_claim userId cart w) = w \<or> snd (checkout_claim userId cart w) = claimed cart w \<or>
   (\<exists>lines. snd (checkout_claim userId cart w) = snd (createOrder userId lines (claimed cart w)))"
  using cart_lines_bind_state [of "cart_items_of cart" userId "claimed cart w"]
  by (auto simp: checkout_claim_run)

lemma carts_inv_claim: "carts_inv w \<Longrightarrow> carts_inv (snd (checkout_claim userId cart w))"
  using checkout_claim_state [of userId cart w] carts_inv_claimed [of w cart]
    carts_inv_createOrder [of "claimed cart w"] by metis

lemma setItem_run:
  assumes "carts_inv w"
  obtains c w' where "getOpenCart userId w = (Inr c, w')" "findOpenCart userId (db w') = Some c" "carts_inv w'"
    "set (carts (db w)) \<subseteq> set (carts (db w'))" "cart_items (db w') = cart_items (db w)"
    "setItem userId productId quantity w =
      (if findByIds [productId] (db w) = [] then (Inl (NotFoundException ''Product not found''), w')
       else if \<not> int4 quantity then (Inl out_of_range, w')
       else getOpenCart userId (w'\<lparr>drawn := Suc (drawn w'),
         db := (db w')\<lparr>cart_items := upserted (c_id c) productId quantity w'\<rparr>\<rparr>))"
proof -
  obtain c w' where c: "getOpenCart userId w = (Inr c, w')" "findOpenCart userId (db w') = Some c" "carts_inv w'"
    "products (db w') = products (db w)" "cart_items (db w') = cart_items (db w)"
    "set (carts (db w)) \<subseteq> set (carts (db w'))"
    using assms by (rule getOpenCart_effect) blast
  have "findByIds [productId] (db w') = findByIds [productId] (db w)"
    by (simp add: findByIds_def c)
  with c show ?thesis
    by (intro that [of c w'])
       (auto simp: setItem_def bind_app_def then_app_def upsert_item_run split: list.splits)
qed

lemma removeItem_run:
  assumes "carts_inv w"
  obtains c w' where "getOpenCart userId w = (Inr c, w')" "findOpenCart userId (db w') = Some c" "carts_inv w'"
    "set (carts (db w)) \<subseteq> set (carts (db w'))" "cart_items (db w') = cart_items (db w)"
    "removeItem userId productId w = getOpenCart userId
      (w'\<lparr>db := (db w')\<lparr>cart_items := delete_where (item_key (c_id c) productId) (cart_items (db w))\<rparr>\<rparr>)"
proof -
  obtain c w' where c: "getOpenCart userId w = (Inr c, w')" "findOpenCart userId (db w') = Some c" "carts_inv w'"
    "cart_items (db w') = cart_items (db w)" "set (carts (db w)) \<subseteq> set (carts (db w'))"
    using assms by (rule getOpenCart_effect) blast
  then show ?thesis
    by (intro that [of c w']) (auto simp: removeItem_def bind_app_def)
qed

lemma carts_inv_action: "carts_inv w \<Longrightarrow> carts_inv (run_cart_action a w)"
proof (cases a)
  case (DoSetItem userId productId quantity)
  assume "carts_inv w"
  then show ?thesis
    by (rule setItem_run [of w userId productId quantity])
       (auto simp: DoSetItem intro!: carts_inv_getOpenCart carts_inv_upserted dest: found_cart_id)
next
  case (DoRemoveItem userId productId)
  assume "carts_inv w"
  then show ?thesis
    by (rule removeItem_run [of w userId productId])
       (auto simp: DoRemoveItem intro!: carts_inv_getOpenCart carts_inv_deleted)
next
  case (DoCheckout userId)
  assume "carts_inv w"
  then obtain c w' where "getOpenCart userId w = (Inr c, w')" "carts_inv w'"
    by (rule getOpenCart_effect)
  then show ?thesis
    by (simp add: DoCheckout checkout_def checkout_read_def bind_app_def carts_inv_claim)
qed (simp_all add: carts_inv_getOpenCart carts_inv_create carts_inv_claim)

subsection \<open>A checked-out cart is final\<close>

definition closed_in :: "CartEntity \<Rightarrow> world \<Rightarrow> bool" where
  "closed_in r w \<longleftrightarrow> r \<in> set (carts (db w)) \<and> c_checkedOutAt r \<noteq> None"

lemma closed_cong: "set (carts (db w)) \<subseteq> set (carts (db w')) \<Longrightarrow> closed_in r w \<Longrightarrow> closed_in r w'"
  by (auto simp: closed_in_def)

lemma closed_claimed: "closed_in r w \<Longrightarrow> closed_in r (claimed cart w)"
  by (auto simp: closed_in_def claimed_def set_update_where checkout_guard_def)

lemma closed_claim: "closed_in r w \<Longrightarrow> closed_in r (snd (checkout_claim userId cart w))"
  using checkout_claim_state [of userId cart w] closed_claimed [of r w cart]
    closed_cong [of "claimed cart w"] by (metis createOrder_carts(1) order_refl)

lemma closed_getOpenCart: "closed_in r w \<Longrightarrow> closed_in r (snd (getOpenCart userId w))"
  by (auto simp: getOpenCart_run closed_in_def split: option.splits)

lemma closed_create: "closed_in r w \<Longrightarrow> closed_in r (snd (open_cart_create userId w))"
  by (auto simp: open_cart_create_run closed_in_def split: option.splits)

lemma closed_then_get:
  "set (carts (db w)) \<subseteq> set (carts (db w')) \<Longrightarrow> closed_in r w \<Longrightarrow> closed_in r (snd (getOpenCart userId w'))"
  by (rule closed_getOpenCart) (rule closed_cong)

lemma closed_action: "closed_in r w \<Longrightarrow> carts_inv w \<Longrightarrow> closed_in r (run_cart_action a w)"
proof (cases a)
  case (DoSetItem userId productId quantity)
  assume c: "closed_in r w" and inv: "carts_inv w"
  from inv show ?thesis
    by (rule setItem_run [of w userId productId quantity])
       (use c closed_then_get [OF _ c] closed_cong [OF _ c] in \<open>auto simp: DoSetItem\<close>)
next
  case (DoRemoveItem userId productId)
  assume c: "closed_in r w" and inv: "carts_inv w"
  from inv show ?thesis
    by (rule removeItem_run [of w userId productId])
       (use closed_then_get [OF _ c] in \<open>auto simp: DoRemoveItem\<close>)
next
  case (DoCheckout userId)
  assume c: "closed_in r w" and inv: "carts_inv w"
  from inv obtain k w' where "getOpenCart userId w = (Inr k, w')" "set (carts (db w)) \<subseteq> set (carts (db w'))"
    by (rule getOpenCart_effect)
  with closed_cong [OF _ c] show ?thesis
    by (simp add: DoCheckout checkout_def checkout_read_def bind_app_def closed_claim)
qed (simp_all add: closed_getOpenCart closed_create closed_claim)

lemma carts_history:
  assumes "carts_inv w"
  shows "carts_inv (fold run_cart_action acts w) \<and> (closed_in r w \<longrightarrow> closed_in r (fold run_cart_action acts w))"
  using assms by (induction acts arbitrary: w) (auto simp: carts_inv_action closed_action)

lemma closed_cart_refused:
  assumes "closed_in r w" and "carts_inv w" and "c_id r = c_id cart"
  shows "checkout_claim userId cart w = (Inl (ConflictException ''Cart has already been checked out''), w)"
proof -
  have "x = r" if "x \<in> set (carts (db w))" "c_id x = c_id r" for x
    using that assms inj_onD [of c_id "set (carts (db w))" x r]
    by (auto simp: closed_in_def carts_inv_def carts_ok_def distinct_map)
  then have "affected (checkout_guard (c_id cart)) (carts (db w)) = 0"
    using assms(1,3) by (auto simp: affected_0 checkout_guard_def closed_in_def)
  then show ?thesis by (simp add: checkout_claim_run)
qed

section \<open>Properties\<close>

definition cart_example :: world where
  "cart_example = empty_world\<lparr>db := empty_db\<lparr>products := [\<lparr>p_id = ''p'', p_name = ''Pen'', p_sku = ''PEN'',
     p_stock = 5, p_active = True, p_createdAt = DateObj 0, p_updatedAt = DateObj 0\<rparr>],
     carts := [\<lparr>c_id = ''cart'', c_userId = ''u'', c_checkedOutAt = None, c_items = None,
       c_createdAt = DateObj 0, c_updatedAt = DateObj 0\<rparr>],
     cart_items := [\<lparr>ci_id = ''line'', ci_cartId = ''cart'', ci_productId = ''p'', ci_product = None,
       ci_quantity = 2\<rparr>]\<rparr>\<rparr>"

lemma cart_example_inv [simp]: "carts_inv cart_example"
proof -
  have "''cart'' \<noteq> replicate n CHR ''i''" for n by (cases n) auto
  then show ?thesis
    using fresh_empty_world by (auto simp: carts_inv_def carts_ok_def cart_example_def empty_db_def fresh_supply_def empty_world_def)
qed

text \<open>
  C19: Whatever the users do to their carts, in any order and with any two requests interleaved between
  the read and the write of \<open>getOpenCart\<close> and \<open>checkout\<close>, no user ever has two open carts, no cart has
  two lines for one product, and a checked-out cart stays checked out, as it was.
\<close>

theorem one_open_cart:
  assumes "carts_inv w"
  shows "let d = db (fold run_cart_action acts w) in
     distinct (map c_userId (filter (\<lambda>r. c_checkedOutAt r = None) (carts d))) \<and>
     distinct (map (\<lambda>i. (ci_cartId i, ci_productId i)) (cart_items d)) \<and>
     {r \<in> set (carts (db w)). c_checkedOutAt r \<noteq> None} \<subseteq> set (carts d)"
  using assms carts_history [of w acts] by (auto simp: carts_inv_def carts_ok_def closed_in_def Let_def)

theorem one_open_cart_witness:
  "let d = db (fold run_cart_action [DoCheckout ''u'', DoCreateOpenCart ''u'', DoCreateOpenCart ''u''] cart_example) in
     distinct (map c_userId (filter (\<lambda>r. c_checkedOutAt r = None) (carts d))) \<and>
     distinct (map (\<lambda>i. (ci_cartId i, ci_productId i)) (cart_items d)) \<and>
     {r \<in> set (carts (db cart_example)). c_checkedOutAt r \<noteq> None} \<subseteq> set (carts d)"
  by (rule one_open_cart [OF cart_example_inv])

text \<open>
  \<open>getOpenCart\<close> returns the user's open cart with its lines, creating an empty one when there is
  none; it returns the same cart again and creates no second one; and a request that lost the race to
  create it (its read found no cart, another request has created one since) returns the winner's cart.
\<close>

theorem open_cart_lazy:
  assumes "carts_inv w"
  shows "\<exists>cart w'. getOpenCart userId w = (Inr cart, w') \<and> findOpenCart userId (db w') = Some cart \<and>
     (findOpenCart userId (db w) = None \<longrightarrow> c_items cart = Some []) \<and>
     (findOpenCart userId (db w) \<noteq> None \<longrightarrow> w' = w) \<and>
     getOpenCart userId w' = (Inr cart, w') \<and>
     fst (open_cart_create userId w') = Inr cart \<and> db (snd (open_cart_create userId w')) = db w'"
proof -
  obtain c w' where "getOpenCart userId w = (Inr c, w')" "findOpenCart userId (db w') = Some c"
    "getOpenCart userId w' = (Inr c, w')"
    using assms by (rule getOpenCart_effect)
  then show ?thesis
    by (intro exI [of _ c] exI [of _ w']) (auto simp: getOpenCart_run open_cart_create_run split: option.splits)
qed

theorem open_cart_lazy_witness:
  "\<exists>cart w'. getOpenCart ''v'' cart_example = (Inr cart, w') \<and> findOpenCart ''v'' (db w') = Some cart \<and>
     (findOpenCart ''v'' (db cart_example) = None \<longrightarrow> c_items cart = Some []) \<and>
     (findOpenCart ''v'' (db cart_example) \<noteq> None \<longrightarrow> w' = cart_example) \<and>
     getOpenCart ''v'' w' = (Inr cart, w') \<and>
     fst (open_cart_create ''v'' w') = Inr cart \<and> db (snd (open_cart_create ''v'' w')) = db w'"
  by (rule open_cart_lazy [OF cart_example_inv])

text \<open>
  Setting an item sets the quantity of that product's line in the user's open cart (a repeated call
  replaces it, it does not add) and touches no other line of any cart; an inactive or unknown product
  is a 404 and a quantity outside 32 bits a database error, both leaving every line as it was. Removing
  an item removes that line and no other.
\<close>

theorem cart_lines_change:
  assumes "carts_inv w"
  shows "\<exists>cart. (\<exists>w'. getOpenCart userId w = (Inr cart, w')) \<and>
     (case setItem userId productId quantity w of (r, w') \<Rightarrow>
        if findByIds [productId] (db w) = []
        then r = Inl (NotFoundException ''Product not found'') \<and> cart_items (db w') = cart_items (db w)
        else if \<not> int4 quantity then r = Inl (QueryFailedError ''22003'' []) \<and> cart_items (db w') = cart_items (db w)
        else (\<exists>c. r = Inr c \<and> findOpenCart userId (db w') = Some c \<and> c_id c = c_id cart) \<and>
          (\<forall>c' p'. line_qty (db w') c' p' =
             (if c' = c_id cart \<and> p' = productId then Some quantity else line_qty (db w) c' p'))) \<and>
     (case removeItem userId productId w of (r, w') \<Rightarrow>
        (\<exists>c. r = Inr c \<and> findOpenCart userId (db w') = Some c \<and> c_id c = c_id cart) \<and>
          (\<forall>c' p'. line_qty (db w') c' p' =
             (if c' = c_id cart \<and> p' = productId then None else line_qty (db w) c' p')))"
proof -
  obtain c v where c: "getOpenCart userId w = (Inr c, v)" "findOpenCart userId (db v) = Some c"
    "cart_items (db v) = cart_items (db w)"
    "removeItem userId productId w = getOpenCart userId
      (v\<lparr>db := (db v)\<lparr>cart_items := delete_where (item_key (c_id c) productId) (cart_items (db w))\<rparr>\<rparr>)"
    using assms by (rule removeItem_run)
  obtain c1 v1 where s: "getOpenCart userId w = (Inr c1, v1)" "setItem userId productId quantity w =
      (if findByIds [productId] (db w) = [] then (Inl (NotFoundException ''Product not found''), v1)
       else if \<not> int4 quantity then (Inl out_of_range, v1)
       else getOpenCart userId (v1\<lparr>drawn := Suc (drawn v1),
         db := (db v1)\<lparr>cart_items := upserted (c_id c1) productId quantity v1\<rparr>\<rparr>))"
    using assms by (rule setItem_run) blast
  have s: "setItem userId productId quantity w =
      (if findByIds [productId] (db w) = [] then (Inl (NotFoundException ''Product not found''), v)
       else if \<not> int4 quantity then (Inl out_of_range, v)
       else getOpenCart userId (v\<lparr>drawn := Suc (drawn v),
         db := (db v)\<lparr>cart_items := upserted (c_id c) productId quantity v\<rparr>\<rparr>))"
    using s c by simp
  have reread: "\<exists>k. getOpenCart userId t = (Inr k, t) \<and> findOpenCart userId (db t) = Some k \<and> c_id k = c_id c"
    if "carts (db t) = carts (db v)" for t
    using c(2) that by (auto simp: getOpenCart_run findOpenCart_def cart_relations_def)
  have "\<forall>c' p'. line_qty (db v) c' p' = line_qty (db w) c' p'"
    by (simp add: line_qty_def c)
  then show ?thesis
    using reread [of "v\<lparr>drawn := Suc (drawn v), db := (db v)\<lparr>cart_items := upserted (c_id c) productId quantity v\<rparr>\<rparr>"]
      reread [of "v\<lparr>db := (db v)\<lparr>cart_items := delete_where (item_key (c_id c) productId) (cart_items (db v))\<rparr>\<rparr>"]
    by (intro exI [of _ c]) (auto simp: c s line_qty_upserted line_qty_deleted [where d = "db v", unfolded c(3)])
qed

theorem cart_lines_change_witness:
  "\<exists>cart. (\<exists>w'. getOpenCart ''u'' cart_example = (Inr cart, w')) \<and>
     (case setItem ''u'' ''p'' 7 cart_example of (r, w') \<Rightarrow>
        if findByIds [''p''] (db cart_example) = []
        then r = Inl (NotFoundException ''Product not found'') \<and> cart_items (db w') = cart_items (db cart_example)
        else if \<not> int4 7 then r = Inl (QueryFailedError ''22003'' []) \<and> cart_items (db w') = cart_items (db cart_example)
        else (\<exists>c. r = Inr c \<and> findOpenCart ''u'' (db w') = Some c \<and> c_id c = c_id cart) \<and>
          (\<forall>c' p'. line_qty (db w') c' p' =
             (if c' = c_id cart \<and> p' = ''p'' then Some 7 else line_qty (db cart_example) c' p'))) \<and>
     (case removeItem ''u'' ''p'' cart_example of (r, w') \<Rightarrow>
        (\<exists>c. r = Inr c \<and> findOpenCart ''u'' (db w') = Some c \<and> c_id c = c_id cart) \<and>
          (\<forall>c' p'. line_qty (db w') c' p' =
             (if c' = c_id cart \<and> p' = ''p'' then None else line_qty (db cart_example) c' p')))"
  by (rule cart_lines_change [OF cart_example_inv])

lemma cart_lines_found:
  assumes "\<forall>i \<in> set items. ci_product i \<noteq> None"
  shows "cart_lines items w = (Inr (map (\<lambda>i. \<lparr>ol_productId = ci_productId i,
    ol_productName = p_name (the (ci_product i)), ol_quantity = ci_quantity i\<rparr>) items), w)"
  using assms by (induction items) (auto simp: bind_app_def)

lemma closed_after_claim:
  assumes "carts_inv w" and "findOpenCart userId (db w) = Some cart"
  shows "\<exists>r. closed_in r (claimed cart w) \<and> c_id r = c_id cart \<and> c_userId r = userId"
proof -
  obtain r where r: "r \<in> set (carts (db w))" "is_open userId r" "cart = cart_relations (db w) r"
    using found_cart_exists [OF assms(2)] by blast
  then have "checkout_guard (c_id cart) r"
    by (simp add: checkout_guard_def is_open_def cart_relations_def)
  with r have "closed_in (checkout_assign (clock w) r) (claimed cart w)"
    by (auto simp: closed_in_def claimed_def set_update_where checkout_assign_def)
  with r show ?thesis
    by (intro exI [of _ "checkout_assign (clock w) r"])
       (simp add: checkout_assign_def is_open_def cart_relations_def)
qed

lemma no_open_after_claim:
  assumes "carts_inv w" and "findOpenCart userId (db w) = Some cart"
  shows "findOpenCart userId (db (claimed cart w)) = None"
proof -
  obtain r where r: "r \<in> set (carts (db w))" "is_open userId r" "cart = cart_relations (db w) r"
    using found_cart_exists [OF assms(2)] by blast
  have inj: "inj_on c_userId {x \<in> set (carts (db w)). c_checkedOutAt x = None}"
    using assms(1) by (simp add: carts_inv_def carts_ok_def distinct_map)
  have "\<not> is_open userId x" if "x \<in> set (carts (db (claimed cart w)))" for x
  proof
    assume "is_open userId x"
    then have "x \<in> set (filter (\<lambda>x. c_checkedOutAt x = None) (carts (db (claimed cart w))))"
      using that by (simp add: is_open_def)
    then have x: "x \<in> set (carts (db w))" "c_checkedOutAt x = None" "\<not> checkout_guard (c_id cart) x"
      by (simp_all add: claimed_def open_after_checkout)
    with r \<open>is_open userId x\<close> inj_onD [OF inj, of x r] have "x = r" by (simp add: is_open_def)
    with r x(3) show False by (simp add: checkout_guard_def is_open_def cart_relations_def)
  qed
  then show ?thesis by (simp add: findOpenCart_def row_where_None)
qed

definition order_lines_of :: "CartItemEntity list \<Rightarrow> OrderLine list" where
  "order_lines_of = map (\<lambda>i. \<lparr>ol_productId = ci_productId i, ol_productName = p_name (the (ci_product i)),
     ol_quantity = ci_quantity i\<rparr>)"

lemma checkout_run:
  assumes "findOpenCart userId (db w) = Some cart" and "cart_items_of cart \<noteq> []"
    and "\<forall>i \<in> set (cart_items_of cart). ci_product i \<noteq> None"
  shows "checkout userId w = createOrder userId (order_lines_of (cart_items_of cart)) (claimed cart w)"
proof -
  have "affected (checkout_guard (c_id cart)) (carts (db w)) \<noteq> 0"
    using found_cart_exists [OF assms(1)]
    by (auto simp: affected_0 checkout_guard_def is_open_def cart_relations_def)
  then show ?thesis
    by (simp add: checkout_def checkout_read_def getOpenCart_run assms(1,2) bind_app_def
        checkout_claim_run cart_lines_found [OF assms(3)] order_lines_of_def)
qed

text \<open>
  C18: Checking out an open cart with lines creates one \<open>PENDING\<close> order of the user with exactly the
  cart's lines, names and quantities, and leaves the user no open cart; from then on, whatever happens
  to the carts, every further claim of that cart (a double click whose read came before) is refused
  with 409 and changes nothing. An empty cart is a 409 that changes nothing.
\<close>

theorem checkout_creates_one_order:
  assumes "carts_inv w" and "findOpenCart userId (db w) = Some cart"
    and "\<forall>i \<in> set (cart_items_of cart). ci_product i \<noteq> None"
  shows "if cart_items_of cart = [] then checkout userId w = (Inl (ConflictException ''Cart is empty''), w)
     else \<exists>order w'. checkout userId w = (Inr order, w') \<and> o_userId order = userId \<and> o_status order = PENDING \<and>
       map (\<lambda>i. (oi_productId i, oi_productName i, oi_quantity i)) (the (o_items order)) =
         map (\<lambda>i. (ci_productId i, p_name (the (ci_product i)), ci_quantity i)) (cart_items_of cart) \<and>
       orders (db w') = orders (db w) @ [order\<lparr>o_items := None\<rparr>] \<and>
       findOpenCart userId (db w') = None \<and>
       (\<forall>acts v. checkout_claim v cart (fold run_cart_action acts w') =
          (Inl (ConflictException ''Cart has already been checked out''), fold run_cart_action acts w'))"
proof (cases "cart_items_of cart = []")
  case True
  then show ?thesis
    by (simp add: checkout_def checkout_read_def getOpenCart_run assms(2) bind_app_def)
next
  case False
  let ?w = "claimed cart w"
  let ?lines = "order_lines_of (cart_items_of cart)"
  let ?items = "new_items (uuid_supply ?w) (Suc (drawn ?w)) (uuid_supply ?w (drawn ?w)) ?lines"
  let ?ord = "(new_order userId ?w)\<lparr>o_items := Some ?items\<rparr>"
  obtain w' where created: "createOrder userId ?lines ?w = (Inr ?ord, w')"
    "orders (db w') = orders (db ?w) @ [new_order userId ?w]"
    using createOrder_run [of userId ?lines ?w] by (auto simp: order_saved_def Let_def)
  have frame: "carts (db w') = carts (db ?w)" "carts_inv w'"
    using created(1) createOrder_carts(1) [of userId ?lines ?w]
      carts_inv_createOrder [OF carts_inv_claimed [OF assms(1), of cart], of userId ?lines] by simp_all
  obtain r where r: "closed_in r ?w" "c_id r = c_id cart"
    using closed_after_claim [OF assms(1,2)] by blast
  have run: "checkout userId w = (Inr ?ord, w')"
    using checkout_run [OF assms(2) False assms(3)] created(1) by simp
  have refused: "checkout_claim v cart (fold run_cart_action acts w') =
      (Inl (ConflictException ''Cart has already been checked out''), fold run_cart_action acts w')" for acts v
  proof (rule closed_cart_refused)
    have "closed_in r w'" using r frame by (auto simp: closed_in_def)
    then show "closed_in r (fold run_cart_action acts w')" "carts_inv (fold run_cart_action acts w')"
      using carts_history [OF frame(2), of acts r] by blast+
  qed (rule r)
  have none: "findOpenCart userId (db w') = None"
    using no_open_after_claim [OF assms(1,2)] frame(1) by (simp add: findOpenCart_def)
  have items: "map (\<lambda>i. (oi_productId i, oi_productName i, oi_quantity i)) (new_items ids n oid ls) =
      map (\<lambda>l. (ol_productId l, ol_productName l, ol_quantity l)) ls" for ids n oid ls
    by (induction ls arbitrary: n) simp_all
  have ord: "o_userId ?ord = userId" "o_status ?ord = PENDING" "?ord\<lparr>o_items := None\<rparr> = new_order userId ?w"
    "orders (db ?w) = orders (db w)"
    by (simp_all add: new_order_def claimed_def)
  show ?thesis
    using False run created(2) none refused items ord
    by (simp add: comp_def order_lines_of_def)
qed

lemma cart_example_find: "findOpenCart ''u'' (db cart_example) = Some
    \<lparr>c_id = ''cart'', c_userId = ''u'', c_checkedOutAt = None, c_items = Some [\<lparr>ci_id = ''line'',
       ci_cartId = ''cart'', ci_productId = ''p'', ci_product = Some \<lparr>p_id = ''p'', p_name = ''Pen'',
         p_sku = ''PEN'', p_stock = 5, p_active = True, p_createdAt = DateObj 0, p_updatedAt = DateObj 0\<rparr>,
       ci_quantity = 2\<rparr>], c_createdAt = DateObj 0, c_updatedAt = DateObj 0\<rparr>"
  by (simp add: findOpenCart_def cart_example_def empty_world_def cart_relations_def rows_where_def is_open_def)

lemma cart_example_product: "findByIds [''p''] (db cart_example) \<noteq> []"
  by (simp add: findByIds_def cart_example_def empty_world_def rows_where_def)

theorem checkout_creates_one_order_witness:
  "let cart = the (findOpenCart ''u'' (db cart_example)) in
     if cart_items_of cart = [] then checkout ''u'' cart_example = (Inl (ConflictException ''Cart is empty''), cart_example)
     else \<exists>order w'. checkout ''u'' cart_example = (Inr order, w') \<and> o_userId order = ''u'' \<and> o_status order = PENDING \<and>
       map (\<lambda>i. (oi_productId i, oi_productName i, oi_quantity i)) (the (o_items order)) =
         map (\<lambda>i. (ci_productId i, p_name (the (ci_product i)), ci_quantity i)) (cart_items_of cart) \<and>
       orders (db w') = orders (db cart_example) @ [order\<lparr>o_items := None\<rparr>] \<and>
       findOpenCart ''u'' (db w') = None \<and>
       (\<forall>acts v. checkout_claim v cart (fold run_cart_action acts w') =
          (Inl (ConflictException ''Cart has already been checked out''), fold run_cart_action acts w'))"
  unfolding Let_def
  by (rule checkout_creates_one_order) (simp_all add: cart_example_find cart_items_of_def)

text \<open>
  The order is made of the lines the checkout read, not of those the cart has when it is claimed:
  when the user changes a line between the two, the change is accepted, the claim still succeeds, the
  order has the old lines and the changed line stays in the checked-out cart, where nothing reads it.
\<close>

theorem checkout_loses_late_change:
  assumes "carts_inv w" and "findOpenCart userId (db w) = Some cart" and "cart_items_of cart \<noteq> []"
    and "\<forall>i \<in> set (cart_items_of cart). ci_product i \<noteq> None"
    and "findByIds [productId] (db w) \<noteq> []" and "int4 quantity"
  shows "\<exists>c w1 order w2. checkout_read userId w = (Inr cart, w) \<and>
     setItem userId productId quantity w = (Inr c, w1) \<and> checkout_claim userId cart w1 = (Inr order, w2) \<and>
     map (\<lambda>i. (oi_productId i, oi_productName i, oi_quantity i)) (the (o_items order)) =
       map (\<lambda>i. (ci_productId i, p_name (the (ci_product i)), ci_quantity i)) (cart_items_of cart) \<and>
     line_qty (db w2) (c_id cart) productId = Some quantity \<and> findOpenCart userId (db w2) = None"
proof -
  have get: "getOpenCart userId w = (Inr cart, w)" by (simp add: getOpenCart_run assms(2))
  let ?v = "w\<lparr>drawn := Suc (drawn w), db := (db w)\<lparr>cart_items := upserted (c_id cart) productId quantity w\<rparr>\<rparr>"
  have inv: "carts_inv ?v"
    using assms(1) found_cart_id [OF assms(2)] by (rule carts_inv_upserted)
  obtain r where r: "row_where (is_open userId) (carts (db w)) = Some r" "cart = cart_relations (db w) r"
    using assms(2) by (auto simp: findOpenCart_def)
  then have found: "findOpenCart userId (db ?v) = Some (cart_relations (db ?v) r)"
    "c_id (cart_relations (db ?v) r) = c_id cart"
    by (simp_all add: findOpenCart_def cart_relations_def)
  have set: "setItem userId productId quantity w = (Inr (cart_relations (db ?v) r), ?v)"
    using assms(5,6) get found(1)
    by (auto simp: setItem_def bind_app_def then_app_def upsert_item_run getOpenCart_run split: list.splits)
  let ?w = "claimed cart ?v"
  let ?lines = "map (\<lambda>i. \<lparr>ol_productId = ci_productId i, ol_productName = p_name (the (ci_product i)),
    ol_quantity = ci_quantity i\<rparr>) (cart_items_of cart)"
  obtain order w2 where created: "createOrder userId ?lines ?w = (Inr order, w2)"
    "o_items order = Some (new_items (uuid_supply ?w) (Suc (drawn ?w)) (uuid_supply ?w (drawn ?w)) ?lines)"
    using createOrder_run [of userId ?lines ?w] by auto
  have "affected (checkout_guard (c_id cart)) (carts (db ?v)) \<noteq> 0"
    using row_where_Some [OF r(1)] r(2)
    by (auto simp: affected_0 checkout_guard_def is_open_def cart_relations_def)
  then have "checkout_claim userId cart ?v = (Inr order, w2)"
    by (simp only: checkout_claim_run if_False bind_app_def cart_lines_found [OF assms(4)] created(1) prod.case sum.case)
  moreover have "claimed cart ?v = claimed (cart_relations (db ?v) r) ?v"
    by (simp add: claimed_def found(2) [simplified])
  then have "findOpenCart userId (db w2) = None"
    using no_open_after_claim [OF inv found(1)] createOrder_carts(1) [of userId ?lines ?w] created(1)
    by (simp add: findOpenCart_def)
  moreover have "line_qty (db w2) (c_id cart) productId = Some quantity"
    using createOrder_carts(2) [of userId ?lines ?w] created(1) line_qty_upserted [where w = w and cartId = "c_id cart" and productId = productId and quantity = quantity]
    by (simp add: line_qty_def claimed_def)
  moreover have "map (\<lambda>i. (oi_productId i, oi_productName i, oi_quantity i)) (new_items ids n oid ls) =
      map (\<lambda>l. (ol_productId l, ol_productName l, ol_quantity l)) ls" for ids n oid ls
    by (induction ls arbitrary: n) simp_all
  ultimately show ?thesis
    using get set created(2) assms(3) by (simp add: checkout_read_def bind_app_def comp_def)
qed

theorem checkout_loses_late_change_witness:
  "let cart = the (findOpenCart ''u'' (db cart_example)) in
   \<exists>c w1 order w2. checkout_read ''u'' cart_example = (Inr cart, cart_example) \<and>
     setItem ''u'' ''p'' 9 cart_example = (Inr c, w1) \<and> checkout_claim ''u'' cart w1 = (Inr order, w2) \<and>
     map (\<lambda>i. (oi_productId i, oi_productName i, oi_quantity i)) (the (o_items order)) =
       map (\<lambda>i. (ci_productId i, p_name (the (ci_product i)), ci_quantity i)) (cart_items_of cart) \<and>
     line_qty (db w2) (c_id cart) ''p'' = Some 9 \<and> findOpenCart ''u'' (db w2) = None"
  unfolding Let_def
  by (rule checkout_loses_late_change)
     (simp_all add: cart_example_find cart_items_of_def cart_example_product int4_def)

end
