(* ===== verification/Lifecycle.thy ===== *)
theory Lifecycle
  imports Consumers Cart Auth
begin

text \<open>
  The shop as one system: the requests of the controllers, the relay and the consumers as steps on one
  state, in any order, where a consumer is only handed messages the broker holds and every operation
  that reads and later writes may be split where another can run between.

  \<open>shop_ok\<close> is the invariant of the tables and the messages together. Its core is that every announced
  event is true of its order and stays true: \<open>announced\<close>. \<open>progress\<close> is what a step may do to the orders.
  \<open>life P m\<close> states that the method \<open>m\<close>, started in a good state where \<open>P\<close> holds, ends in a good state and
  made progress only, whether it returns or throws; the locale \<open>stable_predicate\<close> has one rule for it per
  way of composing methods.
\<close>

section \<open>What an event announces\<close>

fun event_key :: "order_event \<Rightarrow> OrderRoutingKey" where
  "event_key (OrderCreatedEvent i u ls t) = KCreated"
| "event_key (InventoryReservedEvent i u t) = KInventoryReserved"
| "event_key (PaymentProcessedEvent i u t) = KPaymentProcessed"
| "event_key (OrderCompletedEvent i u t) = KCompleted"
| "event_key (OrderFailedEvent i u r t) = KFailed"

definition some_order :: "database \<Rightarrow> uuid \<Rightarrow> (OrderEntity \<Rightarrow> bool) \<Rightarrow> bool" where
  "some_order d oid p \<longleftrightarrow> (\<exists>r \<in> set (orders d). o_id r = oid \<and> p r)"

text \<open>The lines of an order, as the items table has them.\<close>

definition order_lines :: "database \<Rightarrow> uuid \<Rightarrow> StockLine list" where
  "order_lines d oid = map (\<lambda>item. \<lparr>l_productId = oi_productId item, l_quantity = oi_quantity item\<rparr>)
     (rows_where (\<lambda>i. oi_orderId i = oid) (order_items d))"

fun announced :: "database \<Rightarrow> order_event \<Rightarrow> bool" where
  "announced d (OrderCreatedEvent i u ls t) \<longleftrightarrow> lines_ok ls \<and> order_lines d i = ls \<and> some_order d i (\<lambda>r. True)"
| "announced d (InventoryReservedEvent i u t) \<longleftrightarrow> some_order d i (\<lambda>r. o_paymentInitiatedAt r \<noteq> None)"
| "announced d (PaymentProcessedEvent i u t) \<longleftrightarrow> some_order d i (\<lambda>r. o_status r = PAID \<or> o_status r = COMPLETED)"
| "announced d (OrderCompletedEvent i u t) \<longleftrightarrow> some_order d i (\<lambda>r. o_status r = COMPLETED)"
| "announced d (OrderFailedEvent i u rs t) \<longleftrightarrow> some_order d i (\<lambda>r. o_status r = FAILED)"

section \<open>The invariant\<close>

text \<open>Payment is confirmed for every order paid for and for none that waits or was cancelled.\<close>

definition row_ok :: "OrderEntity \<Rightarrow> bool" where
  "row_ok r \<longleftrightarrow> (o_status r \<in> {PENDING, CANCELLED} \<longrightarrow> o_paymentInitiatedAt r = None) \<and>
     (o_status r \<in> {PAID, COMPLETED} \<longrightarrow> o_paymentInitiatedAt r \<noteq> None)"

definition quantities_ok :: "database \<Rightarrow> bool" where
  "quantities_ok d \<longleftrightarrow> (\<forall>i \<in> set (cart_items d). 0 < ci_quantity i) \<and> (\<forall>i \<in> set (order_items d). 0 < oi_quantity i)"

definition items_ok :: "database \<Rightarrow> bool" where
  "items_ok d \<longleftrightarrow> (\<forall>i \<in> set (order_items d). oi_orderId i \<in> o_id ` set (orders d))"

definition mail_ok :: "database \<Rightarrow> string \<Rightarrow> order_event \<Rightarrow> bool" where
  "mail_ok d key e \<longleftrightarrow> key = routing_key (event_key e) \<and> announced d e"

text \<open>What is cached under an order's key is an order of that id, in a terminal state.\<close>

definition cache_keys_ok :: "world \<Rightarrow> bool" where
  "cache_keys_ok w \<longleftrightarrow> (\<forall>oid t c. redis_store (redis w) (orderKey oid) = Some (t, JsonOrder c) \<longrightarrow>
     o_id c = oid \<and> isTerminalStatus (o_status c))"

definition shop_ok :: "world \<Rightarrow> bool" where
  "shop_ok w \<longleftrightarrow> cache_keys_ok w \<and> distinct (map o_id (orders (db w))) \<and> (\<forall>r \<in> set (orders (db w)). row_ok r) \<and>
     products_ok (db w) \<and> quantities_ok (db w) \<and> items_ok (db w) \<and>
     (\<forall>m \<in> set (outbox_messages (db w)). mail_ok (db w) (om_routingKey m) (om_payload m)) \<and>
     (\<forall>m \<in> set (broker w). mail_ok (db w) (m_routingKey m) (m_payload m)) \<and>
     fresh_supply w \<and> (\<forall>r \<in> set (orders (db w)). \<forall>n \<ge> drawn w. o_id r \<noteq> uuid_supply w n)"

text \<open>
  The stock of a product and what orders hold of it. An order holds its quantities from the reservation
  on, until it fails or is cancelled.
\<close>

definition holding :: "OrderEntity \<Rightarrow> bool" where
  "holding r \<longleftrightarrow> o_status r \<in> {RESERVED, PAID, COMPLETED}"

definition stock_at :: "database \<Rightarrow> uuid \<Rightarrow> int" where
  "stock_at d pid = (case stock_of d pid of None \<Rightarrow> 0 | Some s \<Rightarrow> s)"

definition sold :: "database \<Rightarrow> uuid \<Rightarrow> int" where
  "sold d pid = (\<Sum>r \<leftarrow> orders d. if holding r then demand (order_lines d (o_id r)) pid else 0)"

definition held :: "database \<Rightarrow> uuid \<Rightarrow> int" where
  "held d pid = stock_at d pid + sold d pid"

definition edges :: "(OrderStatus \<times> OrderStatus) set" where
  "edges = {(s, t). isTransitionAllowed s t}"

definition order_progress :: "OrderEntity \<Rightarrow> OrderEntity \<Rightarrow> bool" where
  "order_progress r r' \<longleftrightarrow> o_id r' = o_id r \<and> o_userId r' = o_userId r \<and> o_createdAt r' = o_createdAt r \<and>
     (o_status r, o_status r') \<in> edges\<^sup>* \<and>
     (o_paymentInitiatedAt r \<noteq> None \<longrightarrow> o_paymentInitiatedAt r' = o_paymentInitiatedAt r)"

definition progress :: "database \<Rightarrow> database \<Rightarrow> bool" where
  "progress d d' \<longleftrightarrow> (\<forall>r \<in> set (orders d). (\<exists>r' \<in> set (orders d'). order_progress r r') \<and>
     order_lines d' (o_id r) = order_lines d (o_id r))"

lemma order_progress_refl: "order_progress r r"
  by (simp add: order_progress_def)

lemma order_progress_trans: "order_progress a b \<Longrightarrow> order_progress b c \<Longrightarrow> order_progress a c"
  by (auto simp: order_progress_def)

lemma order_lines_cong: "order_items d' = order_items d \<Longrightarrow> order_lines d' = order_lines d"
  by (rule ext) (simp add: order_lines_def)

lemma progress_refl: "orders d' = orders d \<Longrightarrow> order_items d' = order_items d \<Longrightarrow> progress d d'"
  by (auto simp: progress_def order_lines_cong [of d' d] intro: order_progress_refl)

lemma progress_trans:
  assumes "progress a b" "progress b c" shows "progress a c"
  unfolding progress_def
proof
  fix r
  assume "r \<in> set (orders a)"
  then obtain s where s: "s \<in> set (orders b)" "order_progress r s" "order_lines b (o_id r) = order_lines a (o_id r)"
    using assms(1) unfolding progress_def by blast
  then obtain t where "t \<in> set (orders c)" "order_progress s t" "order_lines c (o_id s) = order_lines b (o_id s)"
    using assms(2) unfolding progress_def by blast
  moreover have "o_id s = o_id r" using s(2) by (simp add: order_progress_def)
  ultimately show "(\<exists>t \<in> set (orders c). order_progress r t) \<and> order_lines c (o_id r) = order_lines a (o_id r)"
    using s order_progress_trans by auto
qed

lemma edges_from:
  "(s, t) \<in> edges\<^sup>* \<Longrightarrow> s = COMPLETED \<or> s = FAILED \<or> s = CANCELLED \<Longrightarrow> t = s"
  "(s, t) \<in> edges\<^sup>* \<Longrightarrow> s = PAID \<or> s = COMPLETED \<Longrightarrow> t = PAID \<or> t = COMPLETED"
  by (induction rule: rtrancl_induct) (auto simp: edges_def)

lemma none_to_pending: "(RESERVED, t) \<in> edges\<^sup>* \<Longrightarrow> t \<noteq> PENDING"
proof (induction rule: rtrancl_induct)
  case (step s t)
  then show ?case by (cases s) (auto simp: edges_def)
qed simp

lemma some_order_mono:
  assumes "some_order d oid p" "progress d d'" "\<And>r r'. order_progress r r' \<Longrightarrow> p r \<Longrightarrow> q r'"
  shows "some_order d' oid q"
proof -
  obtain r where r: "r \<in> set (orders d)" "o_id r = oid" "p r" using assms(1) by (auto simp: some_order_def)
  then obtain r' where "r' \<in> set (orders d')" "order_progress r r'" using assms(2) unfolding progress_def by blast
  then show ?thesis using r assms(3) [of r r'] by (auto simp: some_order_def order_progress_def)
qed

lemma progress_lines: "progress d d' \<Longrightarrow> some_order d oid p \<Longrightarrow> order_lines d' oid = order_lines d oid"
  by (auto simp: progress_def some_order_def)

lemma announced_mono: "announced d e \<Longrightarrow> progress d d' \<Longrightarrow> announced d' e"
  by (cases e) (auto elim!: some_order_mono simp: order_progress_def progress_lines dest: edges_from)

lemma mail_ok_mono: "mail_ok d k e \<Longrightarrow> progress d d' \<Longrightarrow> mail_ok d' k e"
  by (auto simp: mail_ok_def intro: announced_mono)

section \<open>Steps\<close>

text \<open>
  \<open>step_within k\<close>: the step keeps the invariant, makes progress only, and lets stock and sold quantities
  together grow by \<open>k\<close> at most. A good step creates none.
\<close>

definition step_within :: "(uuid \<Rightarrow> int) \<Rightarrow> world \<Rightarrow> world \<Rightarrow> bool" where
  "step_within k w w' \<longleftrightarrow> shop_ok w' \<and> progress (db w) (db w') \<and> broker w' = broker w \<and>
     uuid_supply w' = uuid_supply w \<and> drawn w \<le> drawn w' \<and> (\<forall>pid. held (db w') pid \<le> held (db w) pid + k pid)"

definition good_step :: "world \<Rightarrow> world \<Rightarrow> bool" where
  "good_step w w' \<longleftrightarrow> shop_ok w' \<and> progress (db w) (db w') \<and> broker w' = broker w \<and>
     uuid_supply w' = uuid_supply w \<and> drawn w \<le> drawn w' \<and> (\<forall>pid. held (db w') pid \<le> held (db w) pid)"

lemma good_within: "good_step w w' \<longleftrightarrow> step_within (\<lambda>_. 0) w w'"
  by (simp add: good_step_def step_within_def)

lemma within_trans:
  assumes "step_within j u v" "step_within k v w" "\<And>pid. j pid + k pid \<le> l pid"
  shows "step_within l u w"
proof -
  have "held (db w) pid \<le> held (db u) pid + l pid" for pid
    using assms(1,2) assms(3) [of pid] unfolding step_within_def by (smt (verit))
  with assms(1,2) show ?thesis by (auto simp: step_within_def intro: progress_trans)
qed

lemma good_refl: "shop_ok w \<Longrightarrow> good_step w w"
  by (simp add: good_step_def progress_refl)

lemma good_trans: "good_step u v \<Longrightarrow> good_step v w \<Longrightarrow> good_step u w"
  unfolding good_within by (erule (1) within_trans) simp

lemma held_cong:
  assumes "orders d' = orders d" "order_items d' = order_items d" "products d' = products d"
  shows "held d' = held d"
  by (rule ext) (simp add: held_def stock_at_def stock_of_def sold_def order_lines_cong [OF assms(2)] assms cong: if_cong)

lemma good_ok: "good_step w w' \<Longrightarrow> shop_ok w'"
  by (simp add: good_step_def)

text \<open>The tables the invariant speaks of.\<close>

definition same_core :: "database \<Rightarrow> database \<Rightarrow> bool" where
  "same_core d d' \<longleftrightarrow> orders d' = orders d \<and> order_items d' = order_items d \<and> products d' = products d \<and>
     cart_items d' = cart_items d \<and> outbox_messages d' = outbox_messages d"

lemma announced_cong: "orders d' = orders d \<Longrightarrow> order_items d' = order_items d \<Longrightarrow> announced d' e = announced d e"
  by (cases e) (simp_all add: some_order_def order_lines_cong [of d' d])

lemma mail_ok_cong: "orders d' = orders d \<Longrightarrow> order_items d' = order_items d \<Longrightarrow> mail_ok d' k e = mail_ok d k e"
  by (simp only: mail_ok_def announced_cong [of d' d])

lemma good_frame:
  assumes "shop_ok w" "same_core (db w) (db w')" "broker w' = broker w" "uuid_supply w' = uuid_supply w"
    "drawn w \<le> drawn w'" and cache: "cache_keys_ok w \<Longrightarrow> cache_keys_ok w'"
  shows "good_step w w'"
proof -
  have eq: "orders (db w') = orders (db w)" "order_items (db w') = order_items (db w)" "products (db w') = products (db w)"
    "cart_items (db w') = cart_items (db w)" "outbox_messages (db w') = outbox_messages (db w)"
    using assms(2) by (simp_all add: same_core_def)
  have m: "mail_ok (db w') k e = mail_ok (db w) k e" for k e
    using eq(1,2) by (rule mail_ok_cong)
  have "\<forall>r \<in> set (orders (db w)). \<forall>n \<ge> drawn w'. o_id r \<noteq> uuid_supply w n"
    using assms(1,5) unfolding shop_ok_def by (meson order_trans)
  then show ?thesis
    using assms(1,3,4,5) cache progress_refl [OF eq(1,2)]
    by (simp add: good_step_def shop_ok_def eq m products_ok_frame [OF eq(3)] quantities_ok_def items_ok_def
        fresh_supply_def held_cong [OF eq(1,2,3)])
qed

definition life :: "(world \<Rightarrow> bool) \<Rightarrow> (world, 'a) app \<Rightarrow> bool" where
  "life P m \<longleftrightarrow> (\<forall>w. shop_ok w \<longrightarrow> P w \<longrightarrow> good_step w (snd (m w)))"

named_theorems life_rules \<open>methods that keep the shop in a good state\<close>

lemma lifeI: "(\<And>w. shop_ok w \<Longrightarrow> P w \<Longrightarrow> good_step w (snd (m w))) \<Longrightarrow> life P m"
  by (simp add: life_def)

lemma lifeD: "life P m \<Longrightarrow> shop_ok w \<Longrightarrow> P w \<Longrightarrow> good_step w (snd (m w))"
  by (simp add: life_def)

lemma life_same: "(\<And>w. snd (m w) = w) \<Longrightarrow> life P m"
  by (simp add: life_def good_refl)

lemma life_return [life_rules]: "life P (return_app a)"
  by (rule life_same) simp

lemma life_throw [life_rules]: "life P (throw_app e)"
  by (rule life_same) simp

lemma life_gets [life_rules]: "life P (gets_app f)"
  by (rule life_same) simp

lemma life_query [life_rules]: "life P (query f)"
  by (rule life_same) simp

lemma life_read_clock [life_rules]: "life P read_clock"
  by (rule life_same) simp

lemma same_core_refl [simp]: "same_core d d"
  by (simp add: same_core_def)

lemma life_random_uuid [life_rules]: "life P random_uuid"
  by (rule lifeI) (rule good_frame, simp_all add: cache_keys_ok_def)

lemma life_record_metric [life_rules]: "life P (record_metric f)"
  by (rule lifeI) (rule good_frame, simp_all add: cache_keys_ok_def)

lemma life_cache_get [life_rules]: "life P (cache_get k)"
  by (rule lifeI) (rule good_frame, simp_all add: run_cache_get cache_keys_ok_def)

lemma life_cache_set:
  assumes "\<And>oid c. k = orderKey oid \<Longrightarrow> v = JsonOrder c \<Longrightarrow> o_id c = oid \<and> isTerminalStatus (o_status c)"
  shows "life P (cache_set k v t)"
proof (rule lifeI)
  fix w
  assume w: "shop_ok w"
  have "cache_keys_ok (after_set k v t w)" if "cache_keys_ok w"
    using that assms by (cases v)
      (auto simp: cache_keys_ok_def redis_after_set store_set_def fun_upd_def)
  then show "good_step w (snd (cache_set k v t w))"
    by (intro good_frame [OF w]) (simp_all add: run_cache_set)
qed

lemma life_cache_list [life_rules]: "life P (cache_set (userOrdersKey u) v t)"
  by (rule life_cache_set) (metis order_keys(4))

lemma cache_keys_del: "cache_keys_ok w \<Longrightarrow> cache_keys_ok (after_del ks w)"
  by (auto simp: cache_keys_ok_def redis_after_del store_del_def split: if_splits)

lemma good_after_del: "shop_ok w \<Longrightarrow> good_step w (after_del ks w)"
  by (rule good_frame) (simp_all add: cache_keys_del)

lemma life_cache_del [life_rules]: "life P (cache_del ks)"
  by (rule lifeI) (simp add: run_cache_del good_after_del)

lemma cache_keys_cong: "redis w' = redis w \<Longrightarrow> cache_keys_ok w \<Longrightarrow> cache_keys_ok w'"
  by (simp add: cache_keys_ok_def)

lemma life_modify:
  "(\<And>w. db (f w) = db w \<and> broker (f w) = broker w \<and> uuid_supply (f w) = uuid_supply w \<and> drawn (f w) = drawn w \<and> redis (f w) = redis w) \<Longrightarrow>
    life P (modify_app f)"
  by (rule lifeI) (rule good_frame, simp_all add: cache_keys_ok_def)

lemma life_execute: "(\<And>d. same_core d (f d)) \<Longrightarrow> life P (execute f)"
  by (rule lifeI) (rule good_frame, simp_all add: cache_keys_ok_def)

lemma life_timeDb [life_rules]: "life P m \<Longrightarrow> life P (timeDb n m)"
proof (rule lifeI)
  fix w
  assume "life P m" "shop_ok w" "P w"
  then have g: "good_step w (snd (m w))" by (rule lifeD)
  have "good_step (snd (m w)) (snd (timeDb n m w))"
    by (rule good_frame [OF good_ok [OF g]]) (simp_all add: timeDb_def cache_keys_ok_def split: prod.splits)
  with g show "good_step w (snd (timeDb n m w))" by (rule good_trans)
qed

lemma life_timed_consumer [life_rules]: "life P m \<Longrightarrow> life P (timed_consumer n m)"
proof (rule lifeI)
  fix w
  assume "life P m" "shop_ok w" "P w"
  then have g: "good_step w (snd (m w))" by (rule lifeD)
  have "good_step (snd (m w)) (snd (timed_consumer n m w))"
    by (rule good_frame [OF good_ok [OF g]]) (simp_all add: timed_consumer_def cache_keys_ok_def split: prod.splits)
  with g show "good_step w (snd (timed_consumer n m w))" by (rule good_trans)
qed

text \<open>A transaction that throws restores a good database under the same broker.\<close>

lemma life_transaction [life_rules]: "life P m \<Longrightarrow> life P (transaction m)"
proof (rule lifeI)
  fix w
  assume "life P m" and w: "shop_ok w" "P w"
  then have g: "good_step w (snd (m w))" by (blast intro: lifeD)
  show "good_step w (snd (transaction m w))"
  proof (cases "m w")
    case (Pair r w')
    with g have g': "good_step w w'" by simp
    have "good_step w (w'\<lparr>db := db w\<rparr>)"
      by (rule good_frame [OF w(1)]) (use g' in \<open>simp_all add: good_step_def shop_ok_def cache_keys_ok_def\<close>)
    with Pair g' show ?thesis by (cases r) (simp_all add: transaction_def)
  qed
qed

lemma life_if [life_rules]: "(b \<Longrightarrow> life P m) \<Longrightarrow> (\<not> b \<Longrightarrow> life P k) \<Longrightarrow> life P (if b then m else k)"
  by simp

lemma life_option [life_rules]:
  "life P m \<Longrightarrow> (\<And>x. v = Some x \<Longrightarrow> life P (k x)) \<Longrightarrow> life P (case v of None \<Rightarrow> m | Some x \<Rightarrow> k x)"
  by (simp split: option.splits)

lemma life_when [life_rules]: "(b \<Longrightarrow> life P m) \<Longrightarrow> life P (when_app b m)"
  by (cases b) (simp_all add: life_return)

locale stable_predicate =
  fixes P :: "world \<Rightarrow> bool"
  assumes stable: "P w \<Longrightarrow> good_step w w' \<Longrightarrow> P w'"
begin

lemma bind_with:
  assumes "life P m" and "\<And>a w w'. shop_ok w \<Longrightarrow> P w \<Longrightarrow> m w = (Inr a, w') \<Longrightarrow> good_step w w' \<Longrightarrow> P w' \<Longrightarrow> good_step w' (snd (k a w'))"
  shows "life P (bind_app m k)"
proof (rule lifeI)
  fix w
  assume w: "shop_ok w" "P w"
  show "good_step w (snd (bind_app m k w))"
  proof (cases "m w")
    case (Pair r w')
    then have g: "good_step w w'" using lifeD [OF assms(1) w] by simp
    show ?thesis
    proof (cases r)
      case (Inr a)
      with Pair have "good_step w' (snd (k a w'))"
        using assms(2) [OF w] g stable [OF w(2) g] by simp
      with good_trans [OF g] Pair Inr show ?thesis by (simp add: bind_app_def)
    qed (use Pair g in \<open>simp add: bind_app_def\<close>)
  qed
qed

lemma bind: "life P m \<Longrightarrow> (\<And>a. life P (k a)) \<Longrightarrow> life P (bind_app m k)"
  by (rule bind_with) (blast intro: lifeD good_ok)+

lemma seq: "life P m \<Longrightarrow> life P k \<Longrightarrow> life P (then_app m k)"
  by (simp add: then_app_def bind)

lemma try_rule:
  assumes "life P m" and "\<And>e. life P (h e)"
  shows "life P (try_catch m h)"
proof (rule lifeI)
  fix w
  assume w: "shop_ok w" "P w"
  show "good_step w (snd (try_catch m h w))"
  proof (cases "m w")
    case (Pair r w')
    then have g: "good_step w w'" using lifeD [OF assms(1) w] by simp
    have "good_step w' (snd (h e w'))" for e
      using lifeD [OF assms(2) good_ok [OF g] stable [OF w(2) g]] .
    with good_trans [OF g] Pair g show ?thesis
      by (cases r) (simp_all add: try_catch_def)
  qed
qed

lemma each: "(\<And>x. x \<in> set xs \<Longrightarrow> life P (body x)) \<Longrightarrow> life P (for_each body xs)"
  by (induction xs) (simp_all add: life_return seq)

end

interpretation always: stable_predicate "\<lambda>_. True"
  by unfold_locales

interpretation told: stable_predicate "\<lambda>w. announced (db w) e" for e
  by unfold_locales (auto simp: good_step_def intro: announced_mono)

declare always.bind [life_rules] always.seq [life_rules] always.try_rule [life_rules]
  told.bind [life_rules] told.seq [life_rules] told.try_rule [life_rules]

section \<open>The operations, one by one\<close>

text \<open>A guarded update of the orders table.\<close>

lemma lines_of_orders: "shop_ok w \<Longrightarrow> lines_ok (order_lines (db w) oid)"
  by (auto simp: shop_ok_def quantities_ok_def order_lines_def lines_ok_def list_all_iff rows_where_def)

lemma held_nonneg: "shop_ok w \<Longrightarrow> 0 \<le> (if b then demand (order_lines (db w) oid) pid else 0)"
  by (simp add: demand_nonneg lines_of_orders)

lemma within_update:
  assumes ok: "shop_ok w" and "\<And>r. r \<in> set (orders (db w)) \<Longrightarrow> p r \<Longrightarrow> order_progress r (f r) \<and> row_ok (f r)"
    and db: "db w' = (db w)\<lparr>orders := update_where p f (orders (db w))\<rparr>"
    and "broker w' = broker w" "uuid_supply w' = uuid_supply w" "drawn w \<le> drawn w'" "redis w' = redis w"
    and key: "\<And>r. o_id (f r) = o_id r" and sold: "\<And>pid. sold (db w') pid \<le> sold (db w) pid + k pid"
  shows "step_within k w w'"
proof -
  have pr: "progress (db w) (db w')"
    unfolding progress_def
  proof (intro ballI conjI)
    fix r
    assume r: "r \<in> set (orders (db w))"
    then have "(if p r then f r else r) \<in> set (orders (db w'))"
      by (auto simp: db set_update_where)
    moreover have "order_progress r (if p r then f r else r)"
      using assms(2) r order_progress_refl by simp
    ultimately show "\<exists>r' \<in> set (orders (db w')). order_progress r r'" ..
    show "order_lines (db w') (o_id r) = order_lines (db w) (o_id r)" by (simp add: order_lines_def db)
  qed
  have ids: "map o_id (orders (db w')) = map o_id (orders (db w))"
    by (simp add: db key)
  have im: "o_id ` set (orders (db w')) = o_id ` set (orders (db w))"
    using arg_cong [OF ids, of set] by simp
  have unused: "\<forall>r \<in> set (orders (db w)). \<forall>n \<ge> drawn w. o_id r \<noteq> uuid_supply w n"
    using ok by (simp add: shop_ok_def)
  have fresh: "o_id r \<noteq> uuid_supply w n" if "r \<in> set (orders (db w'))" "drawn w' \<le> n" for r n
  proof -
    have "o_id r \<in> o_id ` set (orders (db w))" using that(1) im by blast
    then obtain x where "x \<in> set (orders (db w))" "o_id r = o_id x" by blast
    with unused that(2) assms(6) show ?thesis by simp
  qed
  have rows: "row_ok r" if "r \<in> set (orders (db w'))" for r
    using that ok assms(2) by (auto simp: db set_update_where shop_ok_def)
  have items: "items_ok (db w')"
    using ok im by (simp add: shop_ok_def items_ok_def db)
  have "mail_ok (db w') k e" if "mail_ok (db w) k e" for k e
    using that pr by (rule mail_ok_mono)
  moreover have "held (db w') pid \<le> held (db w) pid + k pid" for pid
    using sold [of pid] by (simp add: held_def stock_at_def stock_of_def db)
  ultimately show ?thesis
    using ok pr ids fresh rows items assms(4,5,6,7) products_ok_frame [of "db w'" "db w"]
    by (simp add: step_within_def shop_ok_def db quantities_ok_def fresh_supply_def cache_keys_ok_def)
qed

lemma sold_update:
  assumes "orders d' = update_where p f (orders d)" "order_items d' = order_items d" "\<And>r. o_id (f r) = o_id r"
  shows "sold d' pid = (\<Sum>r \<leftarrow> orders d. if holding (if p r then f r else r) then demand (order_lines d (o_id r)) pid else 0)"
proof -
  have "(\<Sum>r \<leftarrow> update_where p f t. if holding r then g (o_id r) else 0) =
      (\<Sum>r \<leftarrow> t. if holding (if p r then f r else r) then g (o_id r) else 0)" for t and g :: "uuid \<Rightarrow> int"
    by (induction t) (auto simp: assms(3))
  then show ?thesis by (simp add: sold_def assms(1) order_lines_cong [OF assms(2)] cong: if_cong)
qed

text \<open>An update of one order.\<close>

lemma sold_one:
  assumes "distinct (map o_id (orders d))" and r: "r \<in> set (orders d)" "p r" and "\<And>x. p x \<Longrightarrow> o_id x = o_id r"
    and "orders d' = update_where p f (orders d)" "order_items d' = order_items d" "\<And>r. o_id (f r) = o_id r"
  shows "sold d' pid = sold d pid + (if holding (f r) then demand (order_lines d (o_id r)) pid else 0)
    - (if holding r then demand (order_lines d (o_id r)) pid else 0)"
proof -
  let ?g = "\<lambda>b x. if holding b then demand (order_lines d (o_id x)) pid else 0"
  have dist: "distinct (orders d)" and inj: "inj_on o_id (set (orders d))"
    using assms(1) by (simp_all add: distinct_map)
  have only: "p x \<longleftrightarrow> x = r" if "x \<in> set (orders d)" for x
    using assms(4) [of x] r inj_onD [OF inj, of x r] that by blast
  have "sold d' pid = (\<Sum>x \<in> set (orders d). ?g (if p x then f x else x) x)"
    unfolding sold_update [OF assms(5-7)] using dist r(1) by (subst sum_list_distinct_conv_sum_set) auto
  also have "\<dots> = ?g (f r) r + (\<Sum>x \<in> set (orders d) - {r}. ?g (if p x then f x else x) x)"
    using r by (simp add: sum.remove)
  also have "(\<Sum>x \<in> set (orders d) - {r}. ?g (if p x then f x else x) x) = (\<Sum>x \<in> set (orders d) - {r}. ?g x x)"
    by (rule sum.cong) (auto simp: only)
  also have "\<dots> = sold d pid - ?g r r"
    unfolding sold_def using dist r(1) by (subst sum_list_distinct_conv_sum_set) (auto simp: sum_diff1)
  finally show ?thesis by simp
qed

lemma good_update:
  assumes ok: "shop_ok w" and "\<And>r. r \<in> set (orders (db w)) \<Longrightarrow> p r \<Longrightarrow> order_progress r (f r) \<and> row_ok (f r)"
    and db: "db w' = (db w)\<lparr>orders := update_where p f (orders (db w))\<rparr>"
    and "broker w' = broker w" "uuid_supply w' = uuid_supply w" "drawn w \<le> drawn w'" "redis w' = redis w"
    and key: "\<And>r. o_id (f r) = o_id r" and hold: "\<And>r. p r \<Longrightarrow> holding (f r) \<Longrightarrow> holding r"
  shows "good_step w w'"
proof -
  have "sold (db w') pid \<le> sold (db w) pid + 0" for pid
  proof -
    have "sold (db w') pid = (\<Sum>r \<leftarrow> orders (db w). if holding (if p r then f r else r)
        then demand (order_lines (db w) (o_id r)) pid else 0)"
      by (rule sold_update) (simp_all add: db key)
    also have "\<dots> \<le> sold (db w) pid"
      unfolding sold_def by (rule sum_list_mono) (use hold held_nonneg [OF ok, of True] in auto)
    finally show ?thesis by simp
  qed
  with within_update [OF assms(1-8)] show ?thesis by (simp add: good_within)
qed

lemma within_products:
  assumes "shop_ok w" and "products_ok ((db w)\<lparr>products := ps\<rparr>)"
    and stock: "\<And>pid. stock_at ((db w)\<lparr>products := ps\<rparr>) pid \<le> stock_at (db w) pid + k pid"
  shows "step_within k w (w\<lparr>db := (db w)\<lparr>products := ps\<rparr>\<rparr>)"
proof -
  let ?d = "(db w)\<lparr>products := ps\<rparr>"
  have m: "mail_ok ?d k e = mail_ok (db w) k e" for k e
    by (rule mail_ok_cong) simp_all
  have "held ?d pid \<le> held (db w) pid + k pid" for pid
    using stock [of pid] by (simp add: held_def sold_def order_lines_cong [of ?d "db w"] cong: if_cong)
  then show ?thesis
    using assms(1,2) progress_refl [of ?d "db w"] m
    by (simp add: step_within_def shop_ok_def quantities_ok_def items_ok_def fresh_supply_def cache_keys_ok_def)
qed

lemma good_enqueue:
  assumes ok: "shop_ok w" and "key = routing_key (event_key e)" and "announced (db w) e"
  shows "good_step w (after_enqueue key e w)"
proof -
  let ?w = "after_enqueue key e w"
  have core: "orders (db ?w) = orders (db w)" "products (db ?w) = products (db w)"
    "cart_items (db ?w) = cart_items (db w)" "order_items (db ?w) = order_items (db w)"
    "outbox_messages (db ?w) = outbox_messages (db w) @ [outbox_row key e w]"
    by simp_all
  have m: "mail_ok (db ?w) k x = mail_ok (db w) k x" for k x
    using core(1,4) by (rule mail_ok_cong)
  have new: "mail_ok (db w) key e" using assms(2,3) by (simp add: mail_ok_def)
  have "\<forall>r \<in> set (orders (db w)). \<forall>n \<ge> drawn ?w. o_id r \<noteq> uuid_supply w n"
    using ok drawn_after_enqueue [of w key e] unfolding shop_ok_def by (meson less_imp_le order_trans)
  then have "shop_ok ?w"
    unfolding shop_ok_def m core products_ok_frame [OF core(2)] quantities_ok_def items_ok_def
    using ok new by (simp add: shop_ok_def quantities_ok_def items_ok_def fresh_supply_def cache_keys_ok_def)
  moreover have "held (db ?w) = held (db w)" by (rule held_cong) (rule core)+
  ultimately show ?thesis
    using drawn_after_enqueue [of w key e] progress_refl [OF core(1,4)] by (simp add: good_step_def)
qed

lemma good_collectors: "shop_ok w \<Longrightarrow> good_step w (w\<lparr>collectors := c\<rparr>)"
  by (rule good_frame) (simp_all add: cache_keys_ok_def)

lemma good_finish:
  assumes "good_step w v" shows "good_step w (after_del ks (v\<lparr>collectors := c\<rparr>))"
proof -
  have "good_step w (v\<lparr>collectors := c\<rparr>)"
    by (rule good_trans [OF assms good_collectors [OF good_ok [OF assms]]])
  from good_trans [OF this good_after_del [OF good_ok [OF this]]] show ?thesis .
qed

subsection \<open>Transitions\<close>

definition may_move :: "database \<Rightarrow> uuid \<Rightarrow> OrderStatus \<Rightarrow> bool" where
  "may_move d oid st \<longleftrightarrow> st \<in> {FAILED, COMPLETED} \<or>
     st = PAID \<and> some_order d oid (\<lambda>r. o_paymentInitiatedAt r \<noteq> None)"

lemma key_unique: "shop_ok w \<Longrightarrow> r \<in> set (orders (db w)) \<Longrightarrow> r' \<in> set (orders (db w)) \<Longrightarrow> o_id r = o_id r' \<Longrightarrow> r = r'"
  unfolding shop_ok_def distinct_map by (blast dest: inj_onD)

lemma within_transition_apply:
  assumes ok: "shop_ok w" and legal: "isTransitionAllowed (o_status ord) st"
    and move: "st = RESERVED \<or> may_move (db w) oid st"
  shows "step_within (\<lambda>pid. if st = RESERVED then demand (order_lines (db w) oid) pid else 0)
    w (snd (transition_apply oid st ord w))" (is "step_within ?k _ _")
proof (cases "affected (\<lambda>r. o_id r = oid \<and> o_status r = o_status ord) (orders (db w)) = 0")
  case True
  have "step_within ?k w (w\<lparr>collectors := c\<rparr>)" for c
    using good_collectors [OF ok, of c] held_nonneg [OF ok, of "st = RESERVED"]
    by (simp add: good_step_def step_within_def)
  then show ?thesis by (simp add: transition_apply_lost [OF True])
next
  case False
  let ?p = "\<lambda>r. o_id r = oid \<and> o_status r = o_status ord"
  let ?f = "\<lambda>r. r\<lparr>o_status := st, o_updatedAt := DateObj (clock w)\<rparr>"
  obtain c where c: "snd (transition_apply oid st ord w) = after_del [orderKey oid, userOrdersKey (o_userId ord)]
      (w\<lparr>db := (db w)\<lparr>orders := update_where ?p ?f (orders (db w))\<rparr>, collectors := c\<rparr>)"
    using transition_apply_won [OF False, of st] by auto
  let ?v = "w\<lparr>db := (db w)\<lparr>orders := update_where ?p ?f (orders (db w))\<rparr>, collectors := c\<rparr>"
  have row: "order_progress r (?f r) \<and> row_ok (?f r)" if r: "r \<in> set (orders (db w))" "?p r" for r
  proof
    have "(o_status r, st) \<in> edges" using r legal by (simp add: edges_def)
    then show "order_progress r (?f r)" by (simp add: order_progress_def)
    have "o_paymentInitiatedAt r \<noteq> None" if "st = PAID"
    proof -
      obtain x where "x \<in> set (orders (db w))" "o_id x = oid" "o_paymentInitiatedAt x \<noteq> None"
        using move \<open>st = PAID\<close> by (auto simp: may_move_def some_order_def)
      then show ?thesis using key_unique [OF ok r(1), of x] r(2) by simp
    qed
    moreover have "o_paymentInitiatedAt r \<noteq> None" if "st = COMPLETED"
      using that legal r ok by (cases "o_status ord") (auto simp: shop_ok_def row_ok_def)
    moreover have "st \<noteq> PENDING" "st \<noteq> CANCELLED" using move by (auto simp: may_move_def)
    ultimately show "row_ok (?f r)" by (auto simp: row_ok_def)
  qed
  obtain r where r: "r \<in> set (orders (db w))" "?p r" using False by (auto simp: affected_0)
  have dist: "distinct (map o_id (orders (db w)))" using ok by (simp add: shop_ok_def)
  have "sold (db ?v) pid = sold (db w) pid + (if holding (?f r) then demand (order_lines (db w) (o_id r)) pid else 0)
      - (if holding r then demand (order_lines (db w) (o_id r)) pid else 0)" for pid
    by (rule sold_one [where p = ?p and f = ?f]) (use r dist in auto)
  moreover have "holding r" if "holding (?f r)" "st \<noteq> RESERVED"
    using that legal r(2) by (cases "o_status ord") (auto simp: holding_def)
  ultimately have "sold (db ?v) pid \<le> sold (db w) pid + ?k pid" for pid
    using r(2) held_nonneg [OF ok, of True oid pid] by (cases "st = RESERVED") (auto simp: holding_def)
  then have v: "step_within ?k w ?v"
    by (intro within_update [OF ok, where p = ?p and f = ?f]) (use row in simp_all)
  then have "good_step ?v (snd (transition_apply oid st ord w))"
    unfolding c by (intro good_after_del) (simp add: step_within_def)
  then show ?thesis
    unfolding good_within by (rule within_trans [OF v]) simp
qed

lemma within_transition:
  assumes ok: "shop_ok w" and move: "st = RESERVED \<or> may_move (db w) oid st"
  shows "step_within (\<lambda>pid. if st = RESERVED then demand (order_lines (db w) oid) pid else 0)
    w (snd (transitionOrder oid st w))" (is "step_within ?k _ _")
proof -
  let ?v = "w\<lparr>collectors := recordDbDuration ''order.find'' 0 (collectors w)\<rparr>"
  have v: "good_step w ?v" using ok by (rule good_collectors)
  have "step_within ?k w (snd (transition_apply oid st ord ?v))" if "isTransitionAllowed (o_status ord) st" for ord
  proof (rule within_trans)
    show "step_within (\<lambda>_. 0) w ?v" using v by (simp only: good_within)
    show "step_within (\<lambda>pid. if st = RESERVED then demand (order_lines (db ?v) oid) pid else 0) ?v
        (snd (transition_apply oid st ord ?v))"
      using good_ok [OF v] that move by (intro within_transition_apply) simp_all
  qed simp
  moreover have "step_within ?k w ?v"
    using v held_nonneg [OF ok, of "st = RESERVED"] by (simp add: good_step_def step_within_def)
  ultimately show ?thesis
    by (auto simp: transitionOrder_def bind_app_def transition_find_run split: option.splits)
qed

lemma good_transition:
  assumes "shop_ok w" and "may_move (db w) oid st"
  shows "good_step w (snd (transitionOrder oid st w))"
proof -
  have "st \<noteq> RESERVED" using assms(2) by (auto simp: may_move_def)
  with within_transition [of w st oid] assms show ?thesis by (simp add: good_within)
qed

lemma transition_result:
  assumes "shop_ok w" and "transitionOrder oid st w = (Inr ord, w')"
  shows "some_order (db w') oid (\<lambda>r. o_status r = st)"
proof -
  have d: "distinct (map o_id (orders (db w)))" using assms(1) by (simp add: shop_ok_def)
  have "status_of (db w') oid = Some st"
    using transitionOrder_run [OF d, of oid st] assms(2) by (auto split: option.splits if_splits)
  then obtain r where "row_where (\<lambda>r. o_id r = oid) (orders (db w')) = Some r" "o_status r = st"
    by (auto simp: status_of_def)
  then show ?thesis by (auto simp: some_order_def dest!: row_where_Some)
qed

subsection \<open>The claims of the user\<close>

lemma good_payment_claim:
  assumes ok: "shop_ok w" and oid: "o_id ord = oid"
  shows "good_step w (snd (payment_claim oid ord w))"
proof (cases "affected (pay_guard oid) (orders (db w)) = 0")
  case True
  then show ?thesis by (simp add: payment_claim_lost good_collectors [OF ok])
next
  case False
  let ?v = "w\<lparr>db := (db w)\<lparr>orders := update_where (pay_guard oid) (pay_assign (clock w)) (orders (db w))\<rparr>\<rparr>"
  let ?e = "InventoryReservedEvent (o_id ord) (o_userId ord) (IsoString (clock w))"
  have "order_progress r (pay_assign (clock w) r) \<and> row_ok (pay_assign (clock w) r)" if "pay_guard oid r" for r
    using that by (auto simp: pay_guard_def pay_assign_def order_progress_def row_ok_def)
  then have v: "good_step w ?v"
    by (intro good_update [OF ok, where p = "pay_guard oid" and f = "pay_assign (clock w)"])
      (simp_all add: pay_assign_def holding_def)
  obtain r where "r \<in> set (orders (db w))" "pay_guard oid r" using False by (auto simp: affected_0)
  then have "pay_assign (clock w) r \<in> set (orders (db ?v))" "o_id (pay_assign (clock w) r) = oid"
    "o_paymentInitiatedAt (pay_assign (clock w) r) \<noteq> None"
    by (auto simp: set_update_where pay_guard_def pay_assign_def)
  then have "announced (db ?v) ?e" using oid by (auto simp: some_order_def)
  then have "good_step ?v (after_enqueue (routing_key KInventoryReserved) ?e ?v)"
    by (intro good_enqueue good_ok [OF v]) simp_all
  from good_trans [OF v this] have e: "good_step w (after_enqueue (routing_key KInventoryReserved) ?e ?v)" .
  obtain c where "snd (payment_claim oid ord w) =
      after_del [orderKey oid] ((after_enqueue (routing_key KInventoryReserved) ?e ?v)\<lparr>collectors := c\<rparr>)"
    using payment_claim_won [OF False, of ord] by auto
  then show ?thesis using good_finish [OF e] by simp
qed

text \<open>The claim that cancels an order frees what the order held.\<close>

lemma within_cancel_claim:
  assumes ok: "shop_ok w"
  shows "good_step w (snd (cancel_claim oid w))"
    and "fst (cancel_claim oid w) = Inr () \<Longrightarrow> some_order (db w) oid (\<lambda>r. o_status r = RESERVED) \<Longrightarrow>
      step_within (\<lambda>pid. - demand (order_lines (db w) oid) pid) w (snd (cancel_claim oid w))"
proof -
  let ?p = "cancel_guard oid" and ?f = "cancel_assign (clock w)"
  have row: "order_progress r (?f r) \<and> row_ok (?f r)" if "r \<in> set (orders (db w))" "?p r" for r
  proof -
    have "row_ok r" using that(1) ok by (simp add: shop_ok_def)
    then have "o_paymentInitiatedAt r = None" using that(2) by (auto simp: cancel_guard_def row_ok_def)
    moreover have "(o_status r, CANCELLED) \<in> edges" using that(2) by (auto simp: cancel_guard_def edges_def)
    ultimately show ?thesis by (auto simp: order_progress_def row_ok_def cancel_assign_def)
  qed
  have dist: "distinct (map o_id (orders (db w)))" using ok by (simp add: shop_ok_def)
  have won: "\<exists>c. snd (cancel_claim oid w) = w\<lparr>db := (db w)\<lparr>orders := update_where ?p ?f (orders (db w))\<rparr>, collectors := c\<rparr>"
    if "affected ?p (orders (db w)) \<noteq> 0"
    using cancel_claim_won [OF that] by auto
  show "good_step w (snd (cancel_claim oid w))"
  proof (cases "affected ?p (orders (db w)) = 0")
    case True
    then show ?thesis by (simp add: cancel_claim_lost good_collectors [OF ok])
  next
    case False
    then show ?thesis
      unfolding cancel_claim_won [OF False] snd_conv
      by (intro good_update [OF ok, where p = ?p and f = ?f])
        (use row in \<open>simp_all add: cancel_assign_def holding_def\<close>)
  qed
  assume won1: "fst (cancel_claim oid w) = Inr ()" and some: "some_order (db w) oid (\<lambda>r. o_status r = RESERVED)"
  have n: "affected ?p (orders (db w)) \<noteq> 0"
  proof
    assume "affected ?p (orders (db w)) = 0"
    from cancel_claim_lost [OF this] won1 show False by simp
  qed
  obtain r where r: "r \<in> set (orders (db w))" "o_id r = oid" "o_status r = RESERVED"
    using some by (auto simp: some_order_def)
  obtain x where x: "x \<in> set (orders (db w))" "?p x" using n by (auto simp: affected_0)
  then have "x = r" using key_unique [OF ok x(1) r(1)] r(2) by (simp add: cancel_guard_def)
  with x have p: "?p r" by simp
  obtain c where c: "snd (cancel_claim oid w) = w\<lparr>db := (db w)\<lparr>orders := update_where ?p ?f (orders (db w))\<rparr>, collectors := c\<rparr>"
    using won [OF n] by blast
  let ?v = "w\<lparr>db := (db w)\<lparr>orders := update_where ?p ?f (orders (db w))\<rparr>, collectors := c\<rparr>"
  have "sold (db ?v) pid = sold (db w) pid + (if holding (?f r) then demand (order_lines (db w) (o_id r)) pid else 0)
      - (if holding r then demand (order_lines (db w) (o_id r)) pid else 0)" for pid
    by (rule sold_one [where p = ?p and f = ?f])
      (use r p dist in \<open>auto simp: cancel_guard_def cancel_assign_def\<close>)
  then have "sold (db ?v) pid = sold (db w) pid - demand (order_lines (db w) oid) pid" for pid
    using r by (simp add: holding_def cancel_assign_def)
  then have "step_within (\<lambda>pid. - demand (order_lines (db w) oid) pid) w ?v"
    by (intro within_update [OF ok, where p = ?p and f = ?f]) (use row in \<open>simp_all add: cancel_assign_def\<close>)
  then show "step_within (\<lambda>pid. - demand (order_lines (db w) oid) pid) w (snd (cancel_claim oid w))"
    unfolding c .
qed

lemma life_cancel_claim [life_rules]: "life P (cancel_claim oid)"
  by (rule lifeI) (rule within_cancel_claim)

subsection \<open>Stock\<close>

lemma within_restore_line:
  assumes ok: "shop_ok w" and "0 < l_quantity l"
  shows "step_within (demand [l]) w (snd (restore_line l w))"
proof -
  let ?p = "\<lambda>r. p_id r = l_productId l"
  let ?g = "\<lambda>r. r\<lparr>p_stock := p_stock r + l_quantity l, p_updatedAt := DateObj (clock w)\<rparr>"
  let ?ps = "update_where ?p ?g (products (db w))"
  show ?thesis
  proof (cases "list_ex (\<lambda>r. ?p r \<and> \<not> int4 (p_stock r + l_quantity l)) (products (db w))")
    case True
    have "step_within (demand [l]) w w"
      using good_refl [OF ok] assms(2) by (simp add: good_step_def step_within_def)
    with True show ?thesis by (simp add: restore_line_def bind_app_def update_stock_def)
  next
    case False
    have pk: "products_ok (db w)" using ok by (simp add: shop_ok_def)
    moreover have "map p_id ?ps = map p_id (products (db w))" by simp
    ultimately have new: "products_ok ((db w)\<lparr>products := ?ps\<rparr>)"
      using False assms(2)
      by (auto simp: products_ok_def list_all_iff list_ex_iff set_update_where simp del: map_key_update_where)
    have "distinct (map p_id (products (db w)))" using pk by (simp add: products_ok_def)
    from stock_of_update_where [OF this, of "l_productId l" "\<lambda>_. True" "DateObj (clock w)" "\<lambda>s. s + l_quantity l"]
    have "stock_at ((db w)\<lparr>products := ?ps\<rparr>) pid \<le> stock_at (db w) pid + demand [l] pid" for pid
      using assms(2) by (auto simp: stock_at_def split: option.splits)
    from within_products [OF ok new, of "demand [l]", OF this] False show ?thesis
      by (simp add: restore_line_def bind_app_def update_stock_def)
  qed
qed

lemma within_weaken: "step_within j w w' \<Longrightarrow> (\<And>pid. j pid \<le> k pid) \<Longrightarrow> step_within k w w'"
  unfolding step_within_def by (meson add_left_mono order_trans)

lemma within_restoreStock: "shop_ok w \<Longrightarrow> lines_ok ls \<Longrightarrow> step_within (demand ls) w (snd (restoreStock ls w))"
  unfolding restoreStock_def
proof (induction ls arbitrary: w)
  case Nil
  then show ?case using good_refl by (simp add: good_within demand.simps(1) [abs_def])
next
  case (Cons l ls)
  have l: "step_within (demand [l]) w (snd (restore_line l w))"
    using Cons.prems by (intro within_restore_line) auto
  show ?case
  proof (cases "restore_line l w")
    case (Pair r w')
    with l have l': "step_within (demand [l]) w w'" by simp
    show ?thesis
    proof (cases r)
      case (Inl e)
      have "step_within (demand (l # ls)) w w'"
        by (rule within_weaken [OF l']) (use Cons.prems demand_nonneg [of ls] in auto)
      with Pair Inl show ?thesis by (simp add: then_app_def bind_app_def del: demand.simps)
    next
      case (Inr u)
      have "step_within (demand ls) w' (snd (for_each restore_line ls w'))"
        using l' Cons.prems by (intro Cons.IH) (auto simp: step_within_def)
      from within_trans [OF l' this, of "demand (l # ls)"] have "step_within (demand (l # ls)) w (snd (for_each restore_line ls w'))"
        by simp
      with Pair Inr show ?thesis by (simp add: then_app_def bind_app_def del: demand.simps)
    qed
  qed
qed

text \<open>A reservation that succeeds takes exactly what it asks for; one that fails takes nothing.\<close>

lemma within_reserveStock:
  assumes "shop_ok w" and "lines_ok ls"
  shows "good_step w (snd (reserveStock ls w))"
    and "fst (reserveStock ls w) = Inr () \<Longrightarrow> step_within (\<lambda>pid. - demand ls pid) w (snd (reserveStock ls w))"
proof -
  have "products_ok (db w)" using assms(1) by (simp add: shop_ok_def)
  from reserveStock_run [OF this assms(2)] obtain ps where
    ps: "products_ok ((db w)\<lparr>products := ps\<rparr>)" "snd (reserveStock ls w) = w\<lparr>db := (db w)\<lparr>products := ps\<rparr>\<rparr>"
    "if enough_stock (stock_of (db w)) ls
     then fst (reserveStock ls w) = Inr () \<and> stock_of ((db w)\<lparr>products := ps\<rparr>) = take_stock (stock_of (db w)) ls
     else fst (reserveStock ls w) \<noteq> Inr () \<and> stock_of ((db w)\<lparr>products := ps\<rparr>) = stock_of (db w)"
    by (auto simp: with_products_def split: if_splits)
  have zero: "stock_at ((db w)\<lparr>products := ps\<rparr>) pid \<le> stock_at (db w) pid + 0" for pid
    using ps(3) demand_nonneg [OF assms(2), of pid]
    by (auto simp: stock_at_def take_stock_def split: if_splits option.splits)
  show "good_step w (snd (reserveStock ls w))"
    unfolding ps(2) good_within by (rule within_products [OF assms(1) ps(1) zero])
  assume won: "fst (reserveStock ls w) = Inr ()"
  then have enough: "enough_stock (stock_of (db w)) ls" using ps(3) by (simp split: if_splits)
  have "demand ls pid = 0" if "stock_of (db w) pid = None" for pid
    using enough that by (intro demand_other) (auto simp: enough_stock_def list_all_iff)
  then have "stock_at ((db w)\<lparr>products := ps\<rparr>) pid \<le> stock_at (db w) pid + - demand ls pid" for pid
    using ps(3) enough by (auto simp: stock_at_def take_stock_def split: option.splits)
  then show "step_within (\<lambda>pid. - demand ls pid) w (snd (reserveStock ls w))"
    unfolding ps(2) by (rule within_products [OF assms(1) ps(1)])
qed

subsection \<open>Creation\<close>

lemma stock_of_new_items:
  "map (\<lambda>item. \<lparr>l_productId = oi_productId item, l_quantity = oi_quantity item\<rparr>) (new_items ids n oid ls) = stock_lines ls"
  by (induction ls arbitrary: n) (simp_all add: stock_lines_def)

lemma order_saved_lines:
  assumes ok: "shop_ok w"
  shows "order_lines (db (order_saved userId lines w)) oid =
    (if oid = uuid_supply w (drawn w) then stock_lines lines else order_lines (db w) oid)"
proof -
  let ?new = "new_items (uuid_supply w) (Suc (drawn w)) (uuid_supply w (drawn w)) lines"
  have "oi_orderId i \<noteq> uuid_supply w (drawn w)" if "i \<in> set (order_items (db w))" for i
    using ok that unfolding shop_ok_def items_ok_def by (metis imageE order_refl)
  then have old: "rows_where (\<lambda>i. oi_orderId i = uuid_supply w (drawn w)) (order_items (db w)) = []"
    by (simp add: rows_where_def filter_empty_conv)
  have new: "rows_where (\<lambda>i. oi_orderId i = oid) ?new = (if oid = uuid_supply w (drawn w) then ?new else [])"
    by (auto simp: rows_where_def filter_empty_conv filter_id_conv dest: set_new_items)
  have "rows_where (\<lambda>i. oi_orderId i = oid) (a @ b) = rows_where (\<lambda>i. oi_orderId i = oid) a @ rows_where (\<lambda>i. oi_orderId i = oid) b"
    for a b :: "OrderItemEntity list" by (simp add: rows_where_def)
  then show ?thesis
    using old new by (auto simp: order_lines_def order_saved_def Let_def stock_of_new_items)
qed

lemma good_createOrder:
  assumes ok: "shop_ok w" and lines: "\<forall>l \<in> set lines. 0 < ol_quantity l"
  shows "good_step w (snd (createOrder userId lines w))"
proof -
  let ?r = "new_order userId w" and ?is = "new_items (uuid_supply w) (Suc (drawn w)) (uuid_supply w (drawn w)) lines"
  let ?v = "order_saved userId lines w"
  have fr: "\<forall>r \<in> set (orders (db w)). \<forall>n \<ge> drawn w. o_id r \<noteq> uuid_supply w n" "fresh_supply w"
    using ok by (simp_all add: shop_ok_def)
  have core: "orders (db ?v) = orders (db w) @ [?r]" "order_items (db ?v) = order_items (db w) @ ?is"
    "products (db ?v) = products (db w)" "cart_items (db ?v) = cart_items (db w)"
    "outbox_messages (db ?v) = outbox_messages (db w)" "broker ?v = broker w" "uuid_supply ?v = uuid_supply w"
    "redis ?v = redis w" "drawn ?v = drawn w + 1 + length lines"
    by (simp_all add: order_saved_def Let_def)
  have r: "o_id ?r = uuid_supply w (drawn w)" "row_ok ?r" by (simp_all add: new_order_def row_ok_def)
  have pr: "progress (db w) (db ?v)"
    unfolding progress_def
  proof (intro ballI conjI)
    fix x
    assume x: "x \<in> set (orders (db w))"
    then show "\<exists>x' \<in> set (orders (db ?v)). order_progress x x'"
      by (intro bexI [of _ x] order_progress_refl) (simp add: core)
    show "order_lines (db ?v) (o_id x) = order_lines (db w) (o_id x)"
      using x fr(1) by (simp add: order_saved_lines [OF ok])
  qed
  have m: "mail_ok (db ?v) k e" if "mail_ok (db w) k e" for k e
    using that pr by (rule mail_ok_mono)
  have "uuid_supply w (drawn w) \<noteq> uuid_supply w n" if "n \<ge> drawn w + 1 + length lines" for n
    using fr(2) that by (auto simp: fresh_supply_def dest: injD [of _ "drawn w" n])
  with fr(1) have fresh: "\<forall>x \<in> set (orders (db ?v)). \<forall>n \<ge> drawn ?v. o_id x \<noteq> uuid_supply w n"
    by (auto simp: core r)
  have items: "\<forall>i \<in> set ?is. 0 < oi_quantity i"
  proof -
    have "\<forall>l \<in> set ls. 0 < ol_quantity l \<Longrightarrow> \<forall>i \<in> set (new_items ids n oid ls). 0 < oi_quantity i" for ids n oid ls
      by (induction ls arbitrary: n) auto
    with lines show ?thesis by blast
  qed
  have dist: "distinct (map o_id (orders (db ?v)))"
    using ok fr(1) by (force simp: core r shop_ok_def)
  have owned: "items_ok (db ?v)"
    using ok by (auto simp: items_ok_def core shop_ok_def r dest: set_new_items)
  have "sold (db ?v) pid = sold (db w) pid" for pid
  proof -
    have "(\<Sum>x \<leftarrow> orders (db w). if holding x then demand (order_lines (db ?v) (o_id x)) pid else 0) = sold (db w) pid"
      unfolding sold_def
      by (intro arg_cong [of _ _ sum_list] map_cong refl) (use fr(1) in \<open>auto simp: order_saved_lines [OF ok]\<close>)
    then show ?thesis by (simp add: sold_def core holding_def new_order_def)
  qed
  then have "held (db ?v) pid \<le> held (db w) pid" for pid
    by (simp add: held_def stock_at_def stock_of_def core)
  then have v: "good_step w ?v"
    unfolding good_step_def shop_ok_def quantities_ok_def
    using ok pr dist fresh items owned m r(2) products_ok_frame [OF core(3)]
    by (auto simp: core shop_ok_def quantities_ok_def fresh_supply_def cache_keys_ok_def)
  let ?e = "created_event userId lines w"
  have "announced (db ?v) ?e"
    using lines order_saved_lines [OF ok, of userId lines "uuid_supply w (drawn w)"]
    by (auto simp: created_event_def some_order_def core r stock_lines_def lines_ok_def list_all_iff)
  then have "good_step ?v (after_enqueue (routing_key KCreated) ?e ?v)"
    by (intro good_enqueue good_ok [OF v]) (simp_all add: created_event_def)
  from good_trans [OF v this] have e: "good_step w (after_enqueue (routing_key KCreated) ?e ?v)" .
  obtain c where "snd (createOrder userId lines w) =
      after_del [userOrdersKey userId] ((after_enqueue (routing_key KCreated) ?e ?v)\<lparr>collectors := c\<rparr>)"
    using createOrder_run [of userId lines w] by auto
  then show ?thesis using good_finish [OF e] by simp
qed

subsection \<open>Reading orders\<close>

lemma life_list_fill [life_rules]: "life (\<lambda>w. True) (list_fill userId found)"
  unfolding list_fill_def by (intro life_rules)

lemma life_listOrders [life_rules]: "life (\<lambda>w. True) (listOrdersForUser userId)"
  unfolding listOrdersForUser_def by (intro life_rules) (auto split: json_text.split intro!: life_rules)

lemma find_order_id: "find_order oid userId d = Some ord \<Longrightarrow> o_id ord = oid \<and> (\<exists>r \<in> set (orders d). ord = with_items d r)"
  by (auto simp: find_order_def dest: row_where_Some)

lemma life_order_query: "life (\<lambda>w. True) (bind_app (timeDb ''order.find'' (query (find_order oid userId))) (\<lambda>found.
           case found of
             None \<Rightarrow> throw_app (NotFoundException ''Order not found'')
           | Some order \<Rightarrow>
               bind_app (gets_app (\<lambda>w. cfg_cache_ttl (cfg w))) (\<lambda>ttl.
               then_app
                 (when_app (isTerminalStatus (o_status order))
                   (cache_set (orderKey oid) (JsonOrder order) ttl))
                 (return_app order))))" (is "life _ (bind_app ?m ?k)")
proof (rule always.bind_with)
  show "life (\<lambda>w. True) ?m" by (intro life_rules)
  fix found w w'
  assume "?m w = (Inr found, w')" and g: "good_step w w'"
  then have "found = find_order oid userId (db w)" by (simp add: timeDb_def)
  then have "\<And>ord. found = Some ord \<Longrightarrow> o_id ord = oid" using find_order_id by simp
  then have "life (\<lambda>w. True) (?k found)"
    by (intro life_rules life_cache_set) auto
  then show "good_step w' (snd (?k found w'))" using good_ok [OF g] by (rule lifeD) simp
qed

lemma life_getOrder [life_rules]: "life (\<lambda>w. True) (getOrderForUser oid userId)"
  unfolding getOrderForUser_def Let_def
  by (rule always.bind, rule life_cache_get)
    (auto split: option.split json_text.split intro!: life_return life_order_query)

lemma getOrder_result:
  assumes "shop_ok w" and "getOrderForUser oid userId w = (Inr ord, w')"
  shows "o_id ord = oid \<and> (isTerminalStatus (o_status ord) \<or> (\<exists>r \<in> set (orders (db w)). ord = with_items (db w) r))"
proof (cases "\<exists>c. cache_hit (orderKey oid) w = Some (JsonOrder c) \<and> o_userId c = userId")
  case True
  then obtain c where c: "cache_hit (orderKey oid) w = Some (JsonOrder c)" "o_userId c = userId" by blast
  then obtain t where "redis_store (redis w) (orderKey oid) = Some (t, JsonOrder c)"
    using cache_hit_stored by blast
  then have "o_id c = oid \<and> isTerminalStatus (o_status c)" using assms(1) by (auto simp: shop_ok_def cache_keys_ok_def)
  moreover have "ord = rehydrateOrder c" using assms(2) c by (auto simp: getOrder_run)
  ultimately show ?thesis by simp
next
  case False
  with assms(2) have "find_order oid userId (db w) = Some ord"
    by (simp add: getOrder_run split: option.splits)
  then show ?thesis using find_order_id by simp
qed

lemma life_initiatePayment [life_rules]: "life (\<lambda>w. True) (initiatePayment oid userId)"
  unfolding initiatePayment_def
proof (rule always.bind_with)
  show "life (\<lambda>w. True) (payment_check oid userId)"
    unfolding payment_check_def by (intro life_rules)
  fix ord w w'
  assume w: "shop_ok w" and "payment_check oid userId w = (Inr ord, w')" and g: "good_step w w'"
  then have "getOrderForUser oid userId w = (Inr ord, w')"
    by (auto simp: payment_check_def bind_app_Inr split: if_splits)
  then show "good_step w' (snd (payment_claim oid ord w'))"
    using getOrder_result [OF w] good_payment_claim [OF good_ok [OF g]] by blast
qed

text \<open>
  The three parts of \<open>cancelOrder\<close>, each of which may run late. The order the check read names what the
  claim will free and what \<open>cancel_finish\<close> gives back.
\<close>

definition cancel_read :: "database \<Rightarrow> uuid \<Rightarrow> OrderEntity \<Rightarrow> bool" where
  "cancel_read d oid ord \<longleftrightarrow> lines_ok (item_lines ord) \<and> order_lines d oid = item_lines ord \<and>
     some_order d oid (\<lambda>r. (o_status ord, o_status r) \<in> edges\<^sup>*)"

definition gives_back :: "OrderEntity \<Rightarrow> uuid \<Rightarrow> int" where
  "gives_back ord pid = (if o_status ord = RESERVED then demand (item_lines ord) pid else 0)"

lemma cancel_read_mono: "cancel_read d oid ord \<Longrightarrow> progress d d' \<Longrightarrow> cancel_read d' oid ord"
  by (auto simp: cancel_read_def order_progress_def progress_lines intro: rtrancl_trans elim!: some_order_mono)

lemma lines_of_order:
  assumes "shop_ok w" shows "item_lines (with_items (db w) r) = order_lines (db w) (o_id r)"
    "lines_ok (item_lines (with_items (db w) r))"
proof -
  show "item_lines (with_items (db w) r) = order_lines (db w) (o_id r)"
    by (simp add: item_lines_def order_lines_def items_or_empty_def with_items_def)
  then show "lines_ok (item_lines (with_items (db w) r))" using lines_of_orders [OF assms] by simp
qed

lemma cancel_check_result:
  assumes w: "shop_ok w" and "cancel_check oid userId w = (Inr ord, w')"
  shows "cancel_read (db w) oid ord"
proof -
  have "getOrderForUser oid userId w = (Inr ord, w')" "\<not> isTerminalStatus (o_status ord)"
    using assms(2) by (auto simp: cancel_check_def bind_app_Inr Let_def split: if_splits)
  with getOrder_result [OF w] obtain r where "o_id ord = oid" "r \<in> set (orders (db w))" "ord = with_items (db w) r"
    by blast
  then show ?thesis
    using lines_of_order [OF w, of r] by (auto simp: cancel_read_def some_order_def with_items_def)
qed

lemma life_cancel_check [life_rules]: "life (\<lambda>w. True) (cancel_check oid userId)"
  unfolding cancel_check_def Let_def by (intro life_rules)

lemma cancel_claim_result:
  assumes w: "shop_ok w" and read: "cancel_read (db w) oid ord" and won: "cancel_claim oid w = (Inr (), w')"
  shows "step_within (\<lambda>pid. - gives_back ord pid) w w'"
proof (cases "o_status ord = RESERVED")
  case True
  have "affected (cancel_guard oid) (orders (db w)) \<noteq> 0"
  proof
    assume "affected (cancel_guard oid) (orders (db w)) = 0"
    from cancel_claim_lost [OF this] won show False by simp
  qed
  then obtain x where x: "x \<in> set (orders (db w))" "cancel_guard oid x" by (auto simp: affected_0)
  obtain r where r: "r \<in> set (orders (db w))" "o_id r = oid" "(RESERVED, o_status r) \<in> edges\<^sup>*"
    using read True by (auto simp: cancel_read_def some_order_def)
  have "x = r" using key_unique [OF w x(1) r(1)] x(2) r(2) by (simp add: cancel_guard_def)
  then have "o_status r = RESERVED" using x(2) none_to_pending [OF r(3)] by (auto simp: cancel_guard_def)
  with r have "some_order (db w) oid (\<lambda>r. o_status r = RESERVED)" by (auto simp: some_order_def)
  from within_cancel_claim(2) [OF w _ this] won read True show ?thesis
    by (simp add: gives_back_def cancel_read_def)
next
  case False
  with within_cancel_claim(1) [OF w, of oid] won show ?thesis
    by (simp add: gives_back_def good_within)
qed

lemma within_cancel_finish:
  assumes w: "shop_ok w" and lines: "lines_ok (item_lines ord)"
  shows "step_within (gives_back ord) w (snd (cancel_finish oid ord w))"
proof -
  have rest: "life (\<lambda>w. True) (then_app (record_metric (recordTerminalState ''cancelled''))
      (then_app (cache_del [orderKey oid, userOrdersKey (o_userId ord)]) (return_app (ord\<lparr>o_status := CANCELLED\<rparr>))))"
    (is "life _ ?rest") by (intro life_rules)
  let ?m = "when_app (o_status ord = RESERVED) (restoreStock (item_lines ord))"
  have fin: "cancel_finish oid ord w = then_app ?m ?rest w" by (simp add: cancel_finish_def)
  have m: "step_within (gives_back ord) w (snd (?m w))"
    using within_restoreStock [OF w lines] good_refl [OF w]
    by (cases "o_status ord = RESERVED") (simp_all add: gives_back_def [abs_def] good_within)
  show ?thesis
  proof (cases "?m w")
    case (Pair r w')
    with m have w': "step_within (gives_back ord) w w'" by simp
    then have "step_within (\<lambda>_. 0) w' (snd (?rest w'))"
      using lifeD [OF rest] by (simp add: good_within step_within_def)
    from within_trans [OF w' this, of "gives_back ord"] w' Pair show ?thesis
      unfolding fin by (cases r) (simp_all add: then_app_def bind_app_def)
  qed
qed

lemma life_cancelOrder [life_rules]: "life (\<lambda>w. True) (cancelOrder oid userId)"
  unfolding cancelOrder_def
proof (rule always.bind_with [OF life_cancel_check])
  fix ord w w'
  assume w: "shop_ok w" "cancel_check oid userId w = (Inr ord, w')" and g: "good_step w w'"
  have w': "shop_ok w'" using g by (rule good_ok)
  have read: "cancel_read (db w') oid ord"
    using cancel_check_result [OF w] g by (auto simp: good_step_def intro: cancel_read_mono)
  show "good_step w' (snd (then_app (cancel_claim oid) (cancel_finish oid ord) w'))"
  proof (cases "cancel_claim oid w'")
    case (Pair r v)
    show ?thesis
    proof (cases r)
      case (Inl e)
      with Pair within_cancel_claim(1) [OF w', of oid] show ?thesis by (simp add: then_app_def bind_app_def)
    next
      case (Inr u)
      with Pair have c: "cancel_claim oid w' = (Inr (), v)" by simp
      from cancel_claim_result [OF w' read c] have v: "step_within (\<lambda>pid. - gives_back ord pid) w' v" .
      moreover have "step_within (gives_back ord) v (snd (cancel_finish oid ord v))"
        using v read by (intro within_cancel_finish) (simp_all add: step_within_def cancel_read_def)
      ultimately have "step_within (\<lambda>_. 0) w' (snd (cancel_finish oid ord v))" by (rule within_trans) simp
      then show ?thesis by (simp add: c then_app_def bind_app_def good_within)
    qed
  qed
qed

subsection \<open>The consumers\<close>

lemma life_insert_processed [life_rules]: "life P (insert_processed m c)"
  by (rule lifeI) (rule good_frame, simp_all add: insert_processed_def same_core_def cache_keys_ok_def)

text \<open>Rules for a stable assumption carry over to everything around a consumer's work.\<close>

context stable_predicate
begin

lemma inbox: "life P work \<Longrightarrow> life P (runOnce m c work)"
  unfolding runOnce_def runOnce_work_def
  by (intro bind try_rule seq life_rules)

lemma event_once: "life P work \<Longrightarrow> life P (processEventOnce msg c work)"
  unfolding processEventOnce_def
  by (intro bind try_rule seq inbox life_rules)

lemma in_context: "life P m \<Longrightarrow> life P (cls_run cid m)"
proof (rule lifeI)
  fix w
  assume m: "life P m" and w: "shop_ok w" "P w"
  let ?v = "w\<lparr>cls := Some (Some cid)\<rparr>"
  have v: "good_step w ?v" by (rule good_frame [OF w(1)]) (simp_all add: cache_keys_ok_def)
  have g: "good_step w (snd (m ?v))"
    by (rule good_trans [OF v lifeD [OF m good_ok [OF v] stable [OF w(2) v]]])
  have "good_step (snd (m ?v)) (snd (cls_run cid m w))"
    by (rule good_frame [OF good_ok [OF g]]) (simp_all add: cls_run_def cache_keys_ok_def split: prod.splits)
  with g show "good_step w (snd (cls_run cid m w))" by (rule good_trans)
qed

lemma correlated: "life P m \<Longrightarrow> life P (runWithCorrelationId h m)"
  unfolding runWithCorrelationId_def resolveCorrelationId_def
  by (intro bind in_context) (auto split: header_value.split list.split intro: life_rules)

end

text \<open>A transition and the event that announces it.\<close>

lemma life_transition_announce:
  assumes "\<And>w. P w \<Longrightarrow> may_move (db w) oid st" and "stable_predicate P"
    and "\<And>now d. some_order d oid (\<lambda>r. o_status r = st) \<Longrightarrow> announced d (e now)"
    and "\<And>now. key = routing_key (event_key (e now))"
  shows "life P (bind_app (transitionOrder oid st) (\<lambda>_. bind_app read_clock (\<lambda>now. enqueue key (e now))))"
proof (rule stable_predicate.bind_with [OF assms(2)])
  show "life P (transitionOrder oid st)"
    by (rule lifeI) (rule good_transition, simp_all add: assms(1))
  fix ord w w'
  assume "shop_ok w" "transitionOrder oid st w = (Inr ord, w')" and g: "good_step w w'"
  then have "announced (db w') (e (clock w'))" by (intro assms(3) transition_result)
  then show "good_step w' (snd (bind_app read_clock (\<lambda>now. enqueue key (e now)) w'))"
    using good_enqueue [OF good_ok [OF g] assms(4)] by simp
qed

lemma life_inventory_work: "life (\<lambda>w. announced (db w) (OrderCreatedEvent i u ls t)) (inventory_work (OrderCreatedEvent i u ls t))"
  (is "life ?P _")
proof -
  have reserve: "life ?P (then_app (reserveStock ls) (bind_app (transitionOrder i RESERVED) (\<lambda>_. return_app ())))"
  proof (rule lifeI)
    fix w
    assume w: "shop_ok w" and p: "?P w"
    then have ls: "lines_ok ls" "order_lines (db w) i = ls" "some_order (db w) i (\<lambda>r. True)" by simp_all
    show "good_step w (snd (then_app (reserveStock ls) (bind_app (transitionOrder i RESERVED) (\<lambda>_. return_app ())) w))"
    proof (cases "reserveStock ls w")
      case (Pair r v)
      show ?thesis
      proof (cases r)
        case (Inl e)
        with Pair within_reserveStock(1) [OF w ls(1)] show ?thesis by (simp add: then_app_def bind_app_def)
      next
        case (Inr u)
        with Pair within_reserveStock(2) [OF w ls(1)] have v: "step_within (\<lambda>pid. - demand ls pid) w v" by simp
        then have "shop_ok v" "order_lines (db v) i = ls"
          using ls(2) progress_lines [OF _ ls(3), of "db v"] by (simp_all add: step_within_def)
        with within_transition [of v RESERVED i]
        have t: "step_within (demand ls) v (snd (transitionOrder i RESERVED v))" by simp
        have "step_within (\<lambda>_. 0) w (snd (transitionOrder i RESERVED v))" by (rule within_trans [OF v t]) simp
        then show ?thesis
          by (cases "transitionOrder i RESERVED v"; cases "fst (transitionOrder i RESERVED v)")
            (simp_all add: Pair Inr then_app_def bind_app_def good_within)
      qed
    qed
  qed
  have failed: "life ?P (bind_app (transitionOrder i FAILED) (\<lambda>_. bind_app read_clock (\<lambda>now.
      enqueue ''order.failed'' (OrderFailedEvent i u ''insufficient_stock'' (IsoString now)))))"
    by (rule life_transition_announce [OF _ told.stable_predicate_axioms]) (auto simp: may_move_def)
  have short: "life ?P (modify_app (\<lambda>w. w\<lparr>shortProductId := Some pid\<rparr>))" for pid
    by (rule life_modify) simp
  have handler: "life ?P (case error of
          InsufficientStockError productId \<Rightarrow>
            then_app (modify_app (\<lambda>w. w\<lparr>shortProductId := Some productId\<rparr>))
            (bind_app (transitionOrder i FAILED) (\<lambda>_. bind_app read_clock (\<lambda>now.
               enqueue ''order.failed'' (OrderFailedEvent i u ''insufficient_stock'' (IsoString now)))))
        | _ \<Rightarrow> throw_app error)" for error
  proof (cases error)
    case (InsufficientStockError pid)
    show ?thesis
      unfolding InsufficientStockError exn.case by (intro told.seq short failed)
  qed (simp_all only: exn.case life_throw)
  show ?thesis
    unfolding inventory_work_def order_event.sel routing_key.simps
    by (intro told.try_rule reserve handler)
qed

lemma life_payment_work: "life (\<lambda>w. announced (db w) (InventoryReservedEvent i u t))
    (payment_work (InventoryReservedEvent i u t) result)"
proof (cases "authorized result")
  case True
  then show ?thesis
    unfolding payment_work_def if_P [OF True] order_event.sel
    by (intro life_transition_announce told.stable_predicate_axioms)
      (auto simp: may_move_def some_order_def)
next
  case False
  then show ?thesis
    unfolding payment_work_def if_not_P [OF False] order_event.sel
    by (intro life_transition_announce told.stable_predicate_axioms)
      (auto simp: may_move_def some_order_def)
qed

lemma life_completion_work: "life P (completion_work e)" if "stable_predicate P"
  unfolding completion_work_def
  by (rule life_transition_announce [OF _ that]) (simp_all add: may_move_def)

lemma life_outcome: "life P a \<Longrightarrow> life P b \<Longrightarrow> life P c \<Longrightarrow>
    life P (case outcome of OutNack \<Rightarrow> a | OutSkipped \<Rightarrow> b | OutProcessed \<Rightarrow> c)"
  by (cases outcome) simp_all

lemma life_onOrderCreated: "life (\<lambda>w. announced (db w) (OrderCreatedEvent i u ls t))
    (onOrderCreated (OrderCreatedEvent i u ls t) msg)"
  unfolding onOrderCreated_def reserve_handler_def
  by (intro told.correlated told.seq told.bind told.event_once life_inventory_work life_outcome life_rules life_modify) simp

text \<open>The payment provider answers or throws; it touches nothing of the shop's but the note of its calls.\<close>

definition outside_provider :: "(order_event \<Rightarrow> string \<Rightarrow> (world, PaymentResult) app) \<Rightarrow> bool" where
  "outside_provider ch \<longleftrightarrow> (\<forall>e key w. \<exists>calls. snd (ch e key w) = w\<lparr>provider_calls := calls\<rparr>)"

lemma outside_charge: "outside_provider charge"
  unfolding outside_provider_def charge_def by (auto simp: app_defs)

lemma life_charge: "outside_provider ch \<Longrightarrow> life P (ch e key)"
proof (rule lifeI)
  fix w
  assume "outside_provider ch" and w: "shop_ok w"
  then obtain calls where "snd (ch e key w) = w\<lparr>provider_calls := calls\<rparr>"
    unfolding outside_provider_def by blast
  moreover have "good_step w (w\<lparr>provider_calls := calls\<rparr>)"
    by (rule good_frame [OF w]) (simp_all add: cache_keys_ok_def)
  ultimately show "good_step w (snd (ch e key w))" by simp
qed

lemma life_onInventoryReserved:
  assumes "outside_provider ch"
  shows "life (\<lambda>w. announced (db w) (InventoryReservedEvent i u t))
    (onInventoryReserved ch (InventoryReservedEvent i u t) msg)" (is "life ?P _")
proof -
  have claim: "life ?P (claim oid)" for oid
    unfolding claim_def by (intro told.bind told.seq life_rules life_execute) (simp add: same_core_def)
  have stale: "life ?P (isClaimStale oid)" for oid
    unfolding isClaimStale_def by (intro told.bind life_rules)
  have "life ?P (authorize_claim oid)" for oid
    unfolding authorize_claim_def by (intro told.bind told.seq life_rules claim stale)
  moreover have "life ?P (authorize_charge ch e)" for e
    unfolding authorize_charge_def
    by (intro told.bind told.seq life_rules life_charge assms life_execute) (simp add: same_core_def)
  ultimately have auth: "life ?P (authorize ch e)" for e
    unfolding authorize_def by (intro told.bind life_rules)
  show ?thesis
    unfolding onInventoryReserved_def authorizeAndAdvance_def payment_body_def
    by (intro told.correlated told.bind told.seq told.inbox life_rules auth life_payment_work)
qed

lemma life_onPaymentProcessed: "life (\<lambda>w. True) (onPaymentProcessed e msg)"
  unfolding onPaymentProcessed_def complete_handler_def
  by (intro always.correlated always.bind always.event_once life_rules life_completion_work always.stable_predicate_axioms)

lemma life_onTerminalEvent: "life (\<lambda>w. True) (onTerminalEvent e msg)"
  unfolding onTerminalEvent_def notify_def email_work_def Let_def
  by (intro always.correlated always.bind always.event_once life_rules life_modify) simp

end
