(* ===== verification/Replenishment.thy ===== *)
theory Replenishment
  imports Products
begin

text \<open>
  \<open>StockReplenishmentService\<close> of \<^verbatim>\<open>src/modules/products/stock-replenishment.service.ts\<close>: every minute, products
  low on stock are topped up. \<open>random n\<close> is the \<open>n\<close>-th value \<open>Math.random\<close> returns, at least 0 and less than 1.
\<close>

section \<open>The service\<close>

definition LOW_STOCK_THRESHOLD :: int where "LOW_STOCK_THRESHOLD = 10"
definition GUARANTEED_RESTOCK_AT :: int where "GUARANTEED_RESTOCK_AT = 5"
definition RESTOCK_MIN :: int where "RESTOCK_MIN = 50"
definition RESTOCK_MAX :: int where "RESTOCK_MAX = 100"

definition shouldRestock :: "(nat \<Rightarrow> rat) \<Rightarrow> nat \<Rightarrow> int \<Rightarrow> bool \<times> nat" where
  "shouldRestock random n stock =
     (if stock \<le> GUARANTEED_RESTOCK_AT then (True, n)
      else let probability = (11 - of_int stock) / 6 in (random n < probability, Suc n))"

definition randomRestockAmount :: "(nat \<Rightarrow> rat) \<Rightarrow> nat \<Rightarrow> int \<times> nat" where
  "randomRestockAmount random n =
     (\<lfloor>random n * of_int (RESTOCK_MAX - RESTOCK_MIN + 1)\<rfloor> + RESTOCK_MIN, Suc n)"

definition low_stock :: "database \<Rightarrow> ProductEntity list" where
  "low_stock d = rows_where (\<lambda>r. p_stock r \<le> LOW_STOCK_THRESHOLD \<and> p_active r = True) (products d)"

fun replenish_loop :: "(nat \<Rightarrow> rat) \<Rightarrow> nat \<Rightarrow> ProductEntity list \<Rightarrow> (world, unit) app" where
  "replenish_loop random n [] = return_app ()"
| "replenish_loop random n (product # lowStock) =
     (case shouldRestock random n (p_stock product) of
        (False, n1) \<Rightarrow> replenish_loop random n1 lowStock
      | (True, n1) \<Rightarrow>
          (case randomRestockAmount random n1 of (amount, n2) \<Rightarrow>
            bind_app (update_stock (\<lambda>r. p_id r = p_id product) (\<lambda>s. s + amount)) (\<lambda>_.
            then_app (record_metric (recordMetricSample ''stock_replenished'' (of_int amount) [(''productId'', p_id product)]))
              (replenish_loop random n2 lowStock))))"

definition replenishLowStock :: "(nat \<Rightarrow> rat) \<Rightarrow> (world, unit) app" where
  "replenishLowStock random = bind_app (query low_stock) (replenish_loop random 0)"

section \<open>Lemmas\<close>

definition draws_ok :: "(nat \<Rightarrow> rat) \<Rightarrow> bool" where
  "draws_ok random \<longleftrightarrow> (\<forall>n. 0 \<le> random n \<and> random n < 1)"

lemma amount_range:
  assumes "draws_ok random" and "randomRestockAmount random n = (amount, n')"
  shows "50 \<le> amount" and "amount \<le> 100"
proof -
  have r: "0 \<le> random n" "random n < 1" using assms(1) by (simp_all add: draws_ok_def)
  have a: "amount = \<lfloor>random n * 51\<rfloor> + 50"
    using assms(2) by (simp add: randomRestockAmount_def RESTOCK_MAX_def RESTOCK_MIN_def)
  have "0 \<le> \<lfloor>random n * 51\<rfloor>" using r(1) by simp
  moreover have "\<lfloor>random n * 51\<rfloor> < 51" using r(2) by (simp add: floor_less_iff)
  ultimately show "50 \<le> amount" "amount \<le> 100" using a by simp_all
qed

definition add_stock :: "(uuid \<Rightarrow> int) \<Rightarrow> (uuid \<Rightarrow> int option) \<Rightarrow> (uuid \<Rightarrow> int option)" where
  "add_stock amount st = (\<lambda>pid. map_option (\<lambda>s. s + amount pid) (st pid))"

text \<open>The rows read are those the loop updates: no product is updated twice.\<close>

lemma replenish_loop_run:
  assumes draws: "draws_ok random"
  shows "products_ok (db w) \<Longrightarrow> distinct (map p_id ps) \<Longrightarrow>
    (\<forall>p \<in> set ps. stock_of (db w) (p_id p) = Some (p_stock p) \<and> p_stock p \<le> 10) \<Longrightarrow>
    \<exists>qs c amount. replenish_loop random n ps w = (Inr (), (with_products w qs)\<lparr>collectors := c\<rparr>) \<and>
      products_ok (db (with_products w qs)) \<and>
      stock_of (db (with_products w qs)) = add_stock amount (stock_of (db w)) \<and>
      (\<forall>pid. amount pid = 0 \<or> pid \<in> p_id ` set ps \<and> 50 \<le> amount pid \<and> amount pid \<le> 100) \<and>
      (\<forall>p \<in> set ps. p_stock p \<le> 5 \<longrightarrow> amount (p_id p) \<noteq> 0)"
proof (induction ps arbitrary: n w)
  case Nil
  show ?case
    by (intro exI [of _ "products (db w)"] exI [of _ "collectors w"] exI [of _ "\<lambda>_. 0"])
      (use Nil.prems in \<open>simp add: with_products_def add_stock_def option.map_ident\<close>)
next
  case (Cons p ps)
  obtain b n1 where s: "shouldRestock random n (p_stock p) = (b, n1)" by fastforce
  have dist: "distinct (map p_id ps)" "p_id p \<notin> p_id ` set ps" using Cons.prems(2) by simp_all
  show ?case
  proof (cases b)
    case False
    then have high: "\<not> p_stock p \<le> 5"
      using s by (auto simp: shouldRestock_def GUARANTEED_RESTOCK_AT_def split: if_splits)
    obtain qs c amount where "replenish_loop random n1 ps w = (Inr (), (with_products w qs)\<lparr>collectors := c\<rparr>)"
      "products_ok (db (with_products w qs))"
      "stock_of (db (with_products w qs)) = add_stock amount (stock_of (db w))"
      "\<forall>pid. amount pid = 0 \<or> pid \<in> p_id ` set ps \<and> 50 \<le> amount pid \<and> amount pid \<le> 100"
      "\<forall>p \<in> set ps. p_stock p \<le> 5 \<longrightarrow> amount (p_id p) \<noteq> 0"
      using Cons.IH [of w n1] Cons.prems(1,3) dist(1) by auto
    then show ?thesis
      using s False high by (intro exI [of _ qs] exI [of _ c] exI [of _ amount]) auto
  next
    case True
    obtain a n2 where a: "randomRestockAmount random n1 = (a, n2)" by fastforce
    note range = amount_range [OF draws a]
    have st: "stock_of (db w) (p_id p) = Some (p_stock p)" "p_stock p \<le> 10" "0 \<le> p_stock p"
      using Cons.prems(3) products_okD(1) [OF Cons.prems(1)] by auto
    then have "0 \<le> s + a \<and> int4 (s + a)" if "stock_of (db w) (p_id p) = Some s" for s
      using that range by (simp add: int4_def)
    then obtain ps1 m where u: "update_stock (\<lambda>r. p_id r = p_id p) (\<lambda>s. s + a) w = (Inr m, with_products w ps1)"
      "products_ok ((db w)\<lparr>products := ps1\<rparr>)"
      "stock_of ((db w)\<lparr>products := ps1\<rparr>) = (\<lambda>v. if v = p_id p then map_option (\<lambda>s. s + a) (stock_of (db w) v) else stock_of (db w) v)"
      using update_stock_run [where pid = "p_id p" and q = "\<lambda>_. True" and f = "\<lambda>s. s + a", OF Cons.prems(1)]
      unfolding if_True simp_thms with_products_def by blast
    let ?w = "(with_products w ps1)\<lparr>collectors := recordMetricSample ''stock_replenished'' (of_int a) [(''productId'', p_id p)] (collectors w)\<rparr>"
    have "\<forall>q \<in> set ps. stock_of (db ?w) (p_id q) = Some (p_stock q) \<and> p_stock q \<le> 10"
      using Cons.prems(3) dist(2) by (auto simp: u(3) image_iff)
    then obtain qs c amount where r: "replenish_loop random n2 ps ?w = (Inr (), (with_products ?w qs)\<lparr>collectors := c\<rparr>)"
      "products_ok (db (with_products ?w qs))"
      "stock_of (db (with_products ?w qs)) = add_stock amount (stock_of (db ?w))"
      "\<forall>pid. amount pid = 0 \<or> pid \<in> p_id ` set ps \<and> 50 \<le> amount pid \<and> amount pid \<le> 100"
      "\<forall>p \<in> set ps. p_stock p \<le> 5 \<longrightarrow> amount (p_id p) \<noteq> 0"
      using Cons.IH [of ?w n2] dist(1) u(2) by auto
    have run: "replenish_loop random n (p # ps) w = (Inr (), (with_products w qs)\<lparr>collectors := c\<rparr>)"
      using r(1) s True a u(1) by (simp add: bind_app_def with_products_def)
    have "stock_of (db (with_products w qs)) = add_stock (amount(p_id p := a)) (stock_of (db w))"
      using r(3,4) dist(2) u(3)
      by (auto simp: add_stock_def fun_eq_iff option.map_comp comp_def split: option.splits)
        (metis add.right_neutral)+
    moreover have "\<forall>pid. (amount(p_id p := a)) pid = 0 \<or> pid \<in> p_id ` set (p # ps) \<and> 50 \<le> (amount(p_id p := a)) pid \<and>
        (amount(p_id p := a)) pid \<le> 100"
      using r(4) range by auto
    moreover have "\<forall>x \<in> set (p # ps). p_stock x \<le> 5 \<longrightarrow> (amount(p_id p := a)) (p_id x) \<noteq> 0"
      using r(5) range by auto
    moreover have "products_ok (db (with_products w qs))" using r(2) by simp
    ultimately show ?thesis using run by blast
  qed
qed

lemma replenish_run:
  assumes "draws_ok random" and ok: "products_ok (db w)"
  shows "\<exists>qs c amount. replenishLowStock random w = (Inr (), (with_products w qs)\<lparr>collectors := c\<rparr>) \<and>
      products_ok (db (with_products w qs)) \<and>
      stock_of (db (with_products w qs)) = add_stock amount (stock_of (db w)) \<and>
      (\<forall>pid. amount pid = 0 \<or> pid \<in> p_id ` set (low_stock (db w)) \<and> 50 \<le> amount pid \<and> amount pid \<le> 100) \<and>
      (\<forall>p \<in> set (low_stock (db w)). p_stock p \<le> 5 \<longrightarrow> amount (p_id p) \<noteq> 0)"
proof -
  have dist: "distinct (map p_id (products (db w)))" using ok by (simp add: products_ok_def)
  have "distinct (map p_id (low_stock (db w)))"
    using dist by (simp add: low_stock_def rows_where_def distinct_map_filter)
  moreover have "\<forall>p \<in> set (low_stock (db w)). stock_of (db w) (p_id p) = Some (p_stock p) \<and> p_stock p \<le> 10"
    using row_where_key [OF dist] by (auto simp: low_stock_def rows_where_def stock_of_def LOW_STOCK_THRESHOLD_def)
  ultimately show ?thesis
    using replenish_loop_run [OF assms, of "low_stock (db w)" 0] by (simp add: replenishLowStock_def)
qed

section \<open>Properties\<close>

text \<open>
  C33: A replenishment tops up only active products with a stock of 10 or less, each once and by 50 to 100,
  and every active product with 5 or less for certain; all other stock stays as it is, and the table
  keeps its invariant.
\<close>

theorem replenish_tops_up:
  assumes "draws_ok random" and "products_ok (db w)"
  shows "\<exists>w'. replenishLowStock random w = (Inr (), w') \<and> products_ok (db w') \<and>
    (\<forall>pid. case stock_of (db w) pid of
       None \<Rightarrow> stock_of (db w') pid = None
     | Some s \<Rightarrow> (stock_of (db w') pid = Some s \<or>
          (\<exists>p \<in> set (products (db w)). p_id p = pid \<and> p_active p \<and> s \<le> 10 \<and>
            (\<exists>a. 50 \<le> a \<and> a \<le> 100 \<and> stock_of (db w') pid = Some (s + a))))) \<and>
    (\<forall>p \<in> set (products (db w)). p_active p \<and> p_stock p \<le> 5 \<longrightarrow> stock_of (db w') (p_id p) \<noteq> stock_of (db w) (p_id p))"
proof -
  obtain qs c amount where r: "replenishLowStock random w = (Inr (), (with_products w qs)\<lparr>collectors := c\<rparr>)"
    "products_ok (db (with_products w qs))"
    "stock_of (db (with_products w qs)) = add_stock amount (stock_of (db w))"
    "\<forall>pid. amount pid = 0 \<or> pid \<in> p_id ` set (low_stock (db w)) \<and> 50 \<le> amount pid \<and> amount pid \<le> 100"
    "\<forall>p \<in> set (low_stock (db w)). p_stock p \<le> 5 \<longrightarrow> amount (p_id p) \<noteq> 0"
    using replenish_run [OF assms] by blast
  let ?w = "(with_products w qs)\<lparr>collectors := c\<rparr>"
  have dist: "distinct (map p_id (products (db w)))" using assms(2) by (simp add: products_ok_def)
  have own: "stock_of (db w) (p_id p) = Some (p_stock p)" if "p \<in> set (products (db w))" for p
    using row_where_key [OF dist that] by (simp add: stock_of_def)
  have st: "stock_of (db ?w) pid = map_option (\<lambda>s. s + amount pid) (stock_of (db w) pid)" for pid
    using r(3) by (simp add: add_stock_def)
  have "case stock_of (db w) pid of
       None \<Rightarrow> stock_of (db ?w) pid = None
     | Some s \<Rightarrow> (stock_of (db ?w) pid = Some s \<or>
          (\<exists>p \<in> set (products (db w)). p_id p = pid \<and> p_active p \<and> s \<le> 10 \<and>
            (\<exists>a. 50 \<le> a \<and> a \<le> 100 \<and> stock_of (db ?w) pid = Some (s + a))))" for pid
  proof (cases "amount pid = 0")
    case True
    then show ?thesis unfolding st by (simp split: option.split)
  next
    case False
    then obtain p where "p \<in> set (products (db w))" "p_id p = pid" "p_active p" "p_stock p \<le> 10"
      "50 \<le> amount pid" "amount pid \<le> 100"
      using r(4) by (auto simp: low_stock_def rows_where_def LOW_STOCK_THRESHOLD_def)
    then show ?thesis unfolding st using own [of p] by auto
  qed
  moreover have "stock_of (db ?w) (p_id p) \<noteq> stock_of (db w) (p_id p)"
    if "p \<in> set (products (db w))" "p_active p" "p_stock p \<le> 5" for p
    using r(5) that own [OF that(1)] unfolding st
    by (auto simp: low_stock_def rows_where_def LOW_STOCK_THRESHOLD_def)
  moreover have "products_ok (db ?w)" using r(2) by simp
  ultimately show ?thesis using r(1) by (intro exI [of _ ?w] conjI allI ballI impI) auto
qed

theorem replenish_tops_up_witness:
  "\<exists>w'. replenishLowStock (\<lambda>_. 1/2) shop_world = (Inr (), w') \<and> products_ok (db w') \<and>
    (\<forall>pid. case stock_of (db shop_world) pid of
       None \<Rightarrow> stock_of (db w') pid = None
     | Some s \<Rightarrow> (stock_of (db w') pid = Some s \<or>
          (\<exists>p \<in> set (products (db shop_world)). p_id p = pid \<and> p_active p \<and> s \<le> 10 \<and>
            (\<exists>a. 50 \<le> a \<and> a \<le> 100 \<and> stock_of (db w') pid = Some (s + a))))) \<and>
    (\<forall>p \<in> set (products (db shop_world)). p_active p \<and> p_stock p \<le> 5 \<longrightarrow>
       stock_of (db w') (p_id p) \<noteq> stock_of (db shop_world) (p_id p))"
  by (rule replenish_tops_up)
    (simp_all add: draws_ok_def shop_world_def shop_product_def empty_world_def empty_db_def products_ok_def int4_def)

end
