(* ===== verification/Shop.thy ===== *)
theory Shop
  imports Lifecycle Replenishment
begin

text \<open>
  The shop as a transition system: every request of the controllers, the relay and the consumers is a
  step, in any order. A request that reads and writes later may also be two steps, with others between:
  what it has read waits as a \<open>task\<close>, which a crash may drop. A consumer is handed only what the broker
  holds, any number of times. \<open>sys_step\<close> is what every step satisfies; the properties of the shop follow
  for all reachable states.
\<close>

section \<open>Requests on carts and accounts\<close>

lemma good_cart_items:
  assumes "shop_ok w" and "\<forall>i \<in> set is. 0 < ci_quantity i" and "drawn w \<le> n"
  shows "good_step w (w\<lparr>drawn := n, db := (db w)\<lparr>cart_items := is\<rparr>\<rparr>)"
proof -
  have "mail_ok ((db w)\<lparr>cart_items := is\<rparr>) k e = mail_ok (db w) k e" for k e
    by (rule mail_ok_cong) simp_all
  moreover have "held ((db w)\<lparr>cart_items := is\<rparr>) = held (db w)" by (rule held_cong) simp_all
  moreover have "products_ok ((db w)\<lparr>cart_items := is\<rparr>) = products_ok (db w)" by (rule products_ok_frame) simp
  moreover have "\<forall>r \<in> set (orders (db w)). \<forall>m \<ge> n. o_id r \<noteq> uuid_supply w m"
    using assms(1,3) by (auto simp: shop_ok_def)
  ultimately show ?thesis
    using assms by (simp add: good_step_def shop_ok_def quantities_ok_def items_ok_def fresh_supply_def
        cache_keys_ok_def progress_refl)
qed

lemma good_carts:
  "shop_ok w \<Longrightarrow> drawn w \<le> n \<Longrightarrow> good_step w (w\<lparr>drawn := n, db := (db w)\<lparr>carts := cs\<rparr>\<rparr>)"
  by (rule good_frame) (simp_all add: same_core_def cache_keys_ok_def)

lemma life_open_cart_create [life_rules]: "life P (open_cart_create userId)"
  by (rule lifeI)
    (auto simp: open_cart_create_run split: option.splits
      intro!: good_carts good_frame simp: cache_keys_ok_def)

lemma life_getOpenCart [life_rules]: "life P (getOpenCart userId)"
  by (rule lifeI) (auto simp: getOpenCart_run split: option.splits intro!: good_carts good_refl)

definition cart_positive :: "CartEntity \<Rightarrow> bool" where
  "cart_positive cart \<longleftrightarrow> (\<forall>i \<in> set (cart_items_of cart). 0 < ci_quantity i)"

lemma getOpenCart_positive: "shop_ok w \<Longrightarrow> getOpenCart userId w = (Inr cart, w') \<Longrightarrow> cart_positive cart"
  by (auto simp: getOpenCart_run findOpenCart_def cart_relations_def cart_items_of_def cart_positive_def
      rows_where_def shop_ok_def quantities_ok_def split: option.splits)

lemma life_upsert_item [life_rules]: "0 < quantity \<Longrightarrow> life P (upsert_item cartId productId quantity)"
proof (rule lifeI)
  fix w
  assume q: "0 < quantity" and w: "shop_ok w"
  have "\<forall>i \<in> set (upserted cartId productId quantity w). 0 < ci_quantity i"
    using q w by (auto simp: upserted_def set_update_where shop_ok_def quantities_ok_def)
  from good_cart_items [OF w this, of "Suc (drawn w)"] good_refl [OF w]
  show "good_step w (snd (upsert_item cartId productId quantity w))"
    by (simp add: upsert_item_run)
qed

lemma life_setItem [life_rules]: "0 < quantity \<Longrightarrow> life (\<lambda>w. True) (setItem userId productId quantity)"
  unfolding setItem_def by (intro always.bind life_rules) (auto split: list.split intro!: life_rules)

lemma life_removeItem [life_rules]: "life (\<lambda>w. True) (removeItem userId productId)"
proof -
  have "life (\<lambda>w. True) (execute (\<lambda>d. d\<lparr>cart_items := delete_where p (cart_items d)\<rparr>))" for p
  proof (rule lifeI)
    fix w
    assume w: "shop_ok w"
    then have "\<forall>i \<in> set (delete_where p (cart_items (db w))). 0 < ci_quantity i"
      by (auto simp: delete_where_def shop_ok_def quantities_ok_def)
    from good_cart_items [OF w this, of "drawn w"]
    show "good_step w (snd (execute (\<lambda>d. d\<lparr>cart_items := delete_where p (cart_items d)\<rparr>) w))" by simp
  qed
  then show ?thesis unfolding removeItem_def by (intro life_rules)
qed

lemma good_checkout_claim:
  assumes w: "shop_ok w" and cart: "cart_positive cart"
  shows "good_step w (snd (checkout_claim userId cart w))"
proof -
  let ?v = "claimed cart w"
  have v: "good_step w ?v"
    unfolding claimed_def by (rule good_frame [OF w]) (simp_all add: same_core_def cache_keys_ok_def)
  have lines: "0 < ol_quantity l" if "cart_lines is u = (Inr ls, u')" "\<forall>i \<in> set is. 0 < ci_quantity i" "l \<in> set ls"
    for "is" u ls u' l
    using that by (induction "is" arbitrary: ls l u u') (auto simp: bind_app_Inr split: option.splits)
  show ?thesis
  proof (cases "affected (checkout_guard (c_id cart)) (carts (db w)) = 0")
    case True
    then show ?thesis by (simp add: checkout_claim_run good_refl [OF w])
  next
    case False
    then have run: "checkout_claim userId cart w = bind_app (cart_lines (cart_items_of cart)) (createOrder userId) ?v"
      by (simp add: checkout_claim_run)
    obtain r u where r: "cart_lines (cart_items_of cart) ?v = (r, u)" by fastforce
    then have u: "u = ?v" using cart_lines_state [of "cart_items_of cart" ?v] by simp
    show ?thesis
    proof (cases r)
      case (Inl e)
      with r u v run show ?thesis by (simp add: bind_app_def)
    next
      case (Inr ls)
      with r cart lines have "\<forall>l \<in> set ls. 0 < ol_quantity l" unfolding cart_positive_def by blast
      from good_trans [OF v good_createOrder [OF good_ok [OF v] this]] show ?thesis
        using r u Inr run by (simp add: bind_app_def)
    qed
  qed
qed

lemma checkout_read_result: "shop_ok w \<Longrightarrow> checkout_read userId w = (Inr cart, w') \<Longrightarrow> cart_positive cart"
  by (auto simp: checkout_read_def bind_app_Inr split: if_splits intro: getOpenCart_positive)

lemma life_checkout_read [life_rules]: "life (\<lambda>w. True) (checkout_read userId)"
  unfolding checkout_read_def by (intro life_rules)

lemma life_checkout [life_rules]: "life (\<lambda>w. True) (checkout userId)"
  unfolding checkout_def
proof (rule always.bind_with [OF life_checkout_read])
  fix cart w w'
  assume "shop_ok w" "checkout_read userId w = (Inr cart, w')" and "good_step w w'"
  then show "good_step w' (snd (checkout_claim userId cart w'))"
    using checkout_read_result good_ok good_checkout_claim by blast
qed

lemma life_insert_refresh_token [life_rules]: "life (\<lambda>w. True) (insert_refresh_token a b c d)"
  unfolding insert_refresh_token_def by (intro life_rules life_execute) (simp add: same_core_def)

lemma life_issueTokens [life_rules]: "life (\<lambda>w. True) (issueTokens sha256 sign user f)"
  unfolding issueTokens_def createRefreshToken_def signAsync_def
  by (intro life_rules) (auto split: option.split intro: life_rules life_same)

lemma life_revokeFamily [life_rules]: "life (\<lambda>w. True) (revokeFamilyOnReuse stored)"
  unfolding revokeFamilyOnReuse_def by (intro life_rules life_execute) (simp add: same_core_def)

lemma life_rotate [life_rules]: "life (\<lambda>w. True) (rotate sha256 sign p)"
proof -
  have read: "life (\<lambda>w. True) (rotate_read sha256 p)"
    unfolding rotate_read_def by (intro life_rules)
  have claim: "life (\<lambda>w. True) (rotate_claim stored)" for stored
    unfolding rotate_claim_def by (intro life_rules life_execute) (simp add: same_core_def)
  show ?thesis
    unfolding rotate_def rotate_issue_def by (intro read claim life_rules)
qed

lemma life_login [life_rules]: "life (\<lambda>w. True) (login sha256 sign bcrypt_compare dto)"
  unfolding login_def login_check_def Let_def by (intro life_rules)

lemma life_register [life_rules]: "life (\<lambda>w. True) (register bcrypt_hash dto)"
  unfolding register_def insert_user_def Let_def
  by (intro life_rules life_execute) (simp add: same_core_def)

lemma life_setDisabled [life_rules]: "life (\<lambda>w. True) (setDisabled uid b)"
  unfolding setDisabled_def Let_def
  by (intro life_rules life_execute) (simp add: same_core_def)

section \<open>The relay\<close>

lemma drain_ok:
  assumes w: "shop_ok w"
  shows "shop_ok (snd (drainOnce locked accepts w)) \<and>
    orders (db (snd (drainOnce locked accepts w))) = orders (db w) \<and>
    order_items (db (snd (drainOnce locked accepts w))) = order_items (db w) \<and>
    products (db (snd (drainOnce locked accepts w))) = products (db w)"
proof -
  define sent where "sent = filter (\<lambda>r. accepts (message_of r)) (select_batch locked (db w))"
  obtain c where c: "snd (drainOnce locked accepts w) =
     w\<lparr>db := (db w)\<lparr>outbox_messages := mark_rows (om_id ` set sent) (clock w) (outbox_messages (db w))\<rparr>,
       broker := broker w @ map message_of sent, collectors := c\<rparr>"
    using drainOnce_run [of locked accepts w] unfolding sent_def by auto
  let ?d = "(db w)\<lparr>outbox_messages := mark_rows (om_id ` set sent) (clock w) (outbox_messages (db w))\<rparr>"
  have m: "mail_ok ?d k e = mail_ok (db w) k e" for k e
    by (rule mail_ok_cong) simp_all
  have rows: "mail_ok (db w) (om_routingKey r) (om_payload r)" if "r \<in> set (outbox_messages (db w))" for r
    using w that by (simp add: shop_ok_def)
  have "set sent \<subseteq> set (outbox_messages (db w))"
    by (auto simp: sent_def select_batch_pending set_pending dest!: in_set_takeD)
  then have "\<forall>x \<in> set (broker w @ map message_of sent). mail_ok (db w) (m_routingKey x) (m_payload x)"
    using w rows by (auto simp: shop_ok_def)
  moreover have "\<forall>x \<in> set (outbox_messages ?d). mail_ok (db w) (om_routingKey x) (om_payload x)"
    using rows by (auto simp: mark_rows_def set_update_where)
  moreover have "products_ok ?d = products_ok (db w)" by (rule products_ok_frame) simp
  ultimately show ?thesis
    using w unfolding c
    by (simp add: shop_ok_def m quantities_ok_def items_ok_def fresh_supply_def cache_keys_ok_def)
qed

section \<open>Deliveries\<close>

text \<open>
  A message of the broker as a consumer of the queue gets it: routed by its key, or by the name of the
  queue when it comes back from a retry queue.
\<close>

definition delivered :: "ConsumerQueue \<Rightarrow> broker_message \<Rightarrow> ConsumeMessage \<Rightarrow> bool" where
  "delivered q m msg \<longleftrightarrow> m_routingKey m \<in> routing_key ` set (subscriptions q) \<and>
     msg_messageId msg = Some (m_messageId m) \<and> msg_content msg = m_payload m \<and>
     msg_routingKey msg \<in> {m_routingKey m, queue_name q}"

fun consume :: "(order_event \<Rightarrow> string \<Rightarrow> (world, PaymentResult) app) \<Rightarrow> ConsumerQueue \<Rightarrow> ConsumeMessage \<Rightarrow>
    (world, handler_result) app" where
  "consume ch QInventory msg = onOrderCreated (msg_content msg) msg"
| "consume ch QPayment msg = onInventoryReserved ch (msg_content msg) msg"
| "consume ch QCompletion msg = onPaymentProcessed (msg_content msg) msg"
| "consume ch QEmail msg = onTerminalEvent (msg_content msg) msg"

lemma good_consume:
  assumes w: "shop_ok w" and m: "m \<in> set (broker w)" "delivered q m msg" and ch: "outside_provider ch"
  shows "good_step w (snd (consume ch q msg w))"
proof -
  let ?e = "msg_content msg"
  have e: "?e = m_payload m" using m(2) by (simp add: delivered_def)
  have mail: "m_routingKey m = routing_key (event_key ?e)" "announced (db w) ?e"
    using w m(1) unfolding e by (auto simp: shop_ok_def mail_ok_def)
  then have k: "event_key ?e \<in> set (subscriptions q)"
    using m(2) routing_key_inj unfolding delivered_def by (metis imageE)
  show ?thesis
  proof (cases q)
    case QInventory
    with k obtain i u ls t where e1: "?e = OrderCreatedEvent i u ls t" by (cases ?e) auto
    then show ?thesis
      using lifeD [OF life_onOrderCreated w mail(2) [unfolded e1]] by (simp add: QInventory)
  next
    case QPayment
    with k obtain i u t where e1: "?e = InventoryReservedEvent i u t" by (cases ?e) auto
    then show ?thesis
      using lifeD [OF life_onInventoryReserved [OF ch] w mail(2) [unfolded e1]] by (simp add: QPayment)
  next
    case QCompletion
    with lifeD [OF life_onPaymentProcessed w] show ?thesis by simp
  next
    case QEmail
    with lifeD [OF life_onTerminalEvent w] show ?thesis by simp
  qed
qed

section \<open>Steps\<close>

text \<open>
  What a request has read and not yet acted on: an order about to be paid or cancelled, a cancelled order
  whose stock is still to be given back, a cart about to be checked out, the finding that a user has no
  open cart, a list of orders about to be cached.
\<close>

datatype task =
    PayRead uuid OrderEntity
  | CancelRead uuid OrderEntity
  | CancelWon uuid OrderEntity
  | CheckoutRead uuid CartEntity
  | CartMissing uuid
  | ListRead uuid "OrderEntity list"

text \<open>
  \<open>request_frame\<close> is what the frame of a request does inside the process: it opens and closes the request's context,
  draws its id and records its duration.

  A system is the state, the tasks, and a count of the stock replenishments have added, which nothing reads.\<close>

type_synonym system = "world \<times> task list \<times> (uuid \<Rightarrow> int)"

inductive shop_step :: "system \<Rightarrow> system \<Rightarrow> bool" where
  tick: "0 \<le> dt \<Longrightarrow> shop_step (w, ts, g) (w\<lparr>clock := clock w + dt\<rparr>, ts, g)"
| request_frame: "drawn w \<le> n \<Longrightarrow> shop_step (w, ts, g) (w\<lparr>cls := c, drawn := n, collectors := m\<rparr>, ts, g)"
| crash: "task \<in> set ts \<Longrightarrow> shop_step (w, ts, g) (w, remove1 task ts, g)"
| list_orders: "shop_step (w, ts, g) (snd (listOrdersForUser userId w), ts, g)"
| list_begin: "shop_step (w, ts, g) (w, ListRead userId (list_fetch userId (db w)) # ts, g)"
| list_end: "ListRead userId found \<in> set ts \<Longrightarrow>
    shop_step (w, ts, g) (snd (list_fill userId found w), remove1 (ListRead userId found) ts, g)"
| get_order: "shop_step (w, ts, g) (snd (getOrderForUser oid userId w), ts, g)"
| pay: "shop_step (w, ts, g) (snd (initiatePayment oid userId w), ts, g)"
| pay_begin: "payment_check oid userId w = (Inr ord, w') \<Longrightarrow> shop_step (w, ts, g) (w', PayRead oid ord # ts, g)"
| pay_end: "PayRead oid ord \<in> set ts \<Longrightarrow>
    shop_step (w, ts, g) (snd (payment_claim oid ord w), remove1 (PayRead oid ord) ts, g)"
| cancel: "shop_step (w, ts, g) (snd (cancelOrder oid userId w), ts, g)"
| cancel_begin: "cancel_check oid userId w = (Inr ord, w') \<Longrightarrow> shop_step (w, ts, g) (w', CancelRead oid ord # ts, g)"
| cancel_won: "CancelRead oid ord \<in> set ts \<Longrightarrow> cancel_claim oid w = (Inr (), w') \<Longrightarrow>
    shop_step (w, ts, g) (w', CancelWon oid ord # remove1 (CancelRead oid ord) ts, g)"
| cancel_lost: "CancelRead oid ord \<in> set ts \<Longrightarrow> cancel_claim oid w = (Inl e, w') \<Longrightarrow>
    shop_step (w, ts, g) (w', remove1 (CancelRead oid ord) ts, g)"
| cancel_end: "CancelWon oid ord \<in> set ts \<Longrightarrow>
    shop_step (w, ts, g) (snd (cancel_finish oid ord w), remove1 (CancelWon oid ord) ts, g)"
| cart_get: "shop_step (w, ts, g) (snd (getOpenCart userId w), ts, g)"
| cart_missing: "findOpenCart userId (db w) = None \<Longrightarrow> shop_step (w, ts, g) (w, CartMissing userId # ts, g)"
| cart_create: "CartMissing userId \<in> set ts \<Longrightarrow>
    shop_step (w, ts, g) (snd (open_cart_create userId w), remove1 (CartMissing userId) ts, g)"
| cart_set: "0 < quantity \<Longrightarrow> shop_step (w, ts, g) (snd (setItem userId productId quantity w), ts, g)"
| cart_remove: "shop_step (w, ts, g) (snd (removeItem userId productId w), ts, g)"
| check_out: "shop_step (w, ts, g) (snd (checkout userId w), ts, g)"
| checkout_begin: "checkout_read userId w = (Inr cart, w') \<Longrightarrow>
    shop_step (w, ts, g) (w', CheckoutRead userId cart # ts, g)"
| checkout_end: "CheckoutRead userId cart \<in> set ts \<Longrightarrow>
    shop_step (w, ts, g) (snd (checkout_claim userId cart w), remove1 (CheckoutRead userId cart) ts, g)"
| register_user: "shop_step (w, ts, g) (snd (register bcrypt_hash dto w), ts, g)"
| login_user: "shop_step (w, ts, g) (snd (login sha256 sign bcrypt_compare dto w), ts, g)"
| refresh: "shop_step (w, ts, g) (snd (refresh_pair sha256 sign presented w), ts, g)"
| set_disabled: "shop_step (w, ts, g) (snd (setDisabled uid disabled w), ts, g)"
| relay: "shop_step (w, ts, g) (snd (drainOnce locked accepts w), ts, g)"
| deliver: "m \<in> set (broker w) \<Longrightarrow> delivered q m msg \<Longrightarrow> outside_provider ch \<Longrightarrow>
    shop_step (w, ts, g) (snd (consume ch q msg w), ts, g)"
| restock: "draws_ok random \<Longrightarrow> w' = snd (replenishLowStock random w) \<Longrightarrow>
    shop_step (w, ts, g) (w', ts, \<lambda>pid. g pid + (stock_at (db w') pid - stock_at (db w) pid))"

inductive shop_reach :: "system \<Rightarrow> system \<Rightarrow> bool" for s where
  start: "shop_reach s s"
| step: "shop_reach s t \<Longrightarrow> shop_step t u \<Longrightarrow> shop_reach s u"

section \<open>What every step satisfies\<close>

fun task_ok :: "database \<Rightarrow> task \<Rightarrow> bool" where
  "task_ok d (PayRead oid ord) \<longleftrightarrow> o_id ord = oid"
| "task_ok d (CancelRead oid ord) \<longleftrightarrow> cancel_read d oid ord"
| "task_ok d (CancelWon oid ord) \<longleftrightarrow> lines_ok (item_lines ord)"
| "task_ok d (CheckoutRead userId cart) \<longleftrightarrow> cart_positive cart"
| "task_ok d (CartMissing userId) \<longleftrightarrow> True"
| "task_ok d (ListRead userId found) \<longleftrightarrow> True"

fun owed_by :: "task \<Rightarrow> uuid \<Rightarrow> int" where
  "owed_by (CancelWon oid ord) pid = gives_back ord pid"
| "owed_by task pid = 0"

definition owed :: "task list \<Rightarrow> uuid \<Rightarrow> int" where
  "owed ts pid = (\<Sum>t \<leftarrow> ts. owed_by t pid)"

definition sys_ok :: "system \<Rightarrow> bool" where
  "sys_ok s \<longleftrightarrow> shop_ok (fst s) \<and> (\<forall>t \<in> set (fst (snd s)). task_ok (db (fst s)) t)"

definition sys_step :: "system \<Rightarrow> system \<Rightarrow> bool" where
  "sys_step s s' \<longleftrightarrow> sys_ok s' \<and> progress (db (fst s)) (db (fst s')) \<and>
     (\<forall>pid. held (db (fst s')) pid + owed (fst (snd s')) pid - snd (snd s') pid \<le>
        held (db (fst s)) pid + owed (fst (snd s)) pid - snd (snd s) pid)"

lemma task_ok_mono: "task_ok d t \<Longrightarrow> progress d d' \<Longrightarrow> task_ok d' t"
  by (cases t) (auto intro: cancel_read_mono)

lemma owed_Cons [simp]: "owed (t # ts) pid = owed_by t pid + owed ts pid"
  by (simp add: owed_def)

lemma owed_remove1: "t \<in> set ts \<Longrightarrow> owed (remove1 t ts) pid = owed ts pid - owed_by t pid"
  unfolding owed_def by (simp add: sum_list_map_remove1 [of t ts])

lemma owed_by_nonneg: "task_ok d t \<Longrightarrow> 0 \<le> owed_by t pid"
  by (cases t) (simp_all add: gives_back_def demand_nonneg)

lemma sys_stepI:
  assumes ok: "sys_ok (w, ts, g)" and step: "step_within k w w'"
    and new: "\<And>t. t \<in> set ts' \<Longrightarrow> t \<in> set ts \<or> task_ok (db w') t"
    and owed: "\<And>pid. k pid + owed ts' pid \<le> owed ts pid"
  shows "sys_step (w, ts, g) (w', ts', g)"
proof -
  have pr: "progress (db w) (db w')" using step by (simp add: step_within_def)
  then have "\<forall>t \<in> set ts'. task_ok (db w') t"
    using ok new task_ok_mono [OF _ pr] unfolding sys_ok_def by auto
  moreover have "held (db w') pid + owed ts' pid \<le> held (db w) pid + owed ts pid" for pid
    using step owed [of pid] unfolding step_within_def by (smt (verit))
  ultimately show ?thesis using step pr by (simp add: sys_step_def sys_ok_def step_within_def)
qed

lemma sys_good:
  "sys_ok (w, ts, g) \<Longrightarrow> good_step w w' \<Longrightarrow> sys_step (w, ts, g) (w', ts, g)"
  by (rule sys_stepI [where k = "\<lambda>_. 0"]) (simp_all add: good_within)

lemma sys_life: "sys_ok (w, ts, g) \<Longrightarrow> life (\<lambda>w. True) m \<Longrightarrow> sys_step (w, ts, g) (snd (m w), ts, g)"
  by (rule sys_good) (auto simp: sys_ok_def intro: lifeD)

lemma sys_push:
  assumes "sys_ok (w, ts, g)" "good_step w w'" "task_ok (db w') t" "\<And>pid. owed_by t pid = 0"
  shows "sys_step (w, ts, g) (w', t # ts, g)"
  by (rule sys_stepI [OF assms(1), where k = "\<lambda>_. 0"]) (use assms in \<open>auto simp: good_within\<close>)

lemma sys_pop:
  assumes ok: "sys_ok (w, ts, g)" and t: "t \<in> set ts" and step: "step_within (owed_by t) w w'"
  shows "sys_step (w, ts, g) (w', remove1 t ts, g)"
  by (rule sys_stepI [OF ok step]) (use t in \<open>auto simp: owed_remove1 dest: subsetD [OF set_remove1_subset]\<close>)

lemma within_zero: "good_step w w' \<Longrightarrow> (\<And>pid. k pid = 0) \<Longrightarrow> step_within k w w'"
  by (simp add: good_step_def step_within_def)

lemma sys_pop_good:
  "sys_ok (w, ts, g) \<Longrightarrow> t \<in> set ts \<Longrightarrow> good_step w w' \<Longrightarrow> (\<And>pid. owed_by t pid = 0) \<Longrightarrow>
    sys_step (w, ts, g) (w', remove1 t ts, g)"
  by (intro sys_pop within_zero)

lemma sys_okD: "sys_ok (w, ts, g) \<Longrightarrow> shop_ok w" "sys_ok (w, ts, g) \<Longrightarrow> t \<in> set ts \<Longrightarrow> task_ok (db w) t"
  by (simp_all add: sys_ok_def)

lemma life_run: "shop_ok w \<Longrightarrow> life (\<lambda>w. True) m \<Longrightarrow> m w = (r, w') \<Longrightarrow> good_step w w'"
  using lifeD [of "\<lambda>w. True" m w] by simp

lemma good_relay_system: "sys_ok (w, ts, g) \<Longrightarrow> sys_step (w, ts, g) (snd (drainOnce locked accepts w), ts, g)"
proof -
  assume ok: "sys_ok (w, ts, g)"
  let ?w = "snd (drainOnce locked accepts w)"
  have d: "shop_ok ?w" "orders (db ?w) = orders (db w)" "order_items (db ?w) = order_items (db w)"
    "products (db ?w) = products (db w)"
    using drain_ok [OF sys_okD(1) [OF ok], of locked accepts] by simp_all
  have pr: "progress (db w) (db ?w)" using d(2,3) by (rule progress_refl)
  have "held (db ?w) = held (db w)" using d(2-4) by (rule held_cong)
  then show ?thesis
    using ok d(1) pr task_ok_mono [OF _ pr] by (auto simp: sys_step_def sys_ok_def)
qed

lemma restock_system:
  assumes ok: "sys_ok (w, ts, g)" and draws: "draws_ok random" and w': "w' = snd (replenishLowStock random w)"
  shows "sys_step (w, ts, g) (w', ts, \<lambda>pid. g pid + (stock_at (db w') pid - stock_at (db w) pid))"
proof -
  have w: "shop_ok w" using ok by (rule sys_okD)
  then have "products_ok (db w)" by (simp add: shop_ok_def)
  from replenish_run [OF draws this] obtain qs c where
    qs: "products_ok ((db w)\<lparr>products := qs\<rparr>)" "w' = (w\<lparr>db := (db w)\<lparr>products := qs\<rparr>\<rparr>)\<lparr>collectors := c\<rparr>"
    by (auto simp: w' with_products_def)
  let ?k = "\<lambda>pid. stock_at (db w') pid - stock_at (db w) pid"
  have v: "step_within ?k w (w\<lparr>db := (db w)\<lparr>products := qs\<rparr>\<rparr>)"
    by (rule within_products [OF w qs(1)]) (simp add: qs(2))
  then have "step_within (\<lambda>_. 0) (w\<lparr>db := (db w)\<lparr>products := qs\<rparr>\<rparr>) w'"
    unfolding qs(2) by (intro good_collectors [unfolded good_within]) (simp add: step_within_def)
  then have s: "step_within ?k w w'" by (rule within_trans [OF v]) simp
  then have pr: "progress (db w) (db w')" by (simp add: step_within_def)
  have "held (db w') pid + owed ts pid - (g pid + ?k pid) \<le> held (db w) pid + owed ts pid - g pid" for pid
    using s unfolding step_within_def by (smt (verit))
  then show ?thesis
    using ok s pr task_ok_mono [OF _ pr] by (auto simp: sys_step_def sys_ok_def step_within_def)
qed

lemma cancel_read_task:
  assumes ok: "sys_ok (w, ts, g)" and check: "cancel_check oid userId w = (Inr ord, w')"
  shows "sys_step (w, ts, g) (w', CancelRead oid ord # ts, g)"
proof (rule sys_push [OF ok])
  have w: "shop_ok w" using ok by (rule sys_okD)
  show g: "good_step w w'" using w life_cancel_check check by (rule life_run)
  show "task_ok (db w') (CancelRead oid ord)"
    using cancel_check_result [OF w check] g by (auto simp: good_step_def intro: cancel_read_mono)
qed simp

lemma cancel_won_task:
  assumes ok: "sys_ok (w, ts, g)" and t: "CancelRead oid ord \<in> set ts" and won: "cancel_claim oid w = (Inr (), w')"
  shows "sys_step (w, ts, g) (w', CancelWon oid ord # remove1 (CancelRead oid ord) ts, g)"
proof (rule sys_stepI [OF ok])
  have read: "cancel_read (db w) oid ord" using sys_okD(2) [OF ok t] by simp
  show "step_within (\<lambda>pid. - gives_back ord pid) w w'"
    using sys_okD(1) [OF ok] read won by (rule cancel_claim_result)
  show "t \<in> set ts \<or> task_ok (db w') t" if "t \<in> set (CancelWon oid ord # remove1 (CancelRead oid ord) ts)" for t
    using that read by (auto simp: cancel_read_def dest: subsetD [OF set_remove1_subset])
qed (use t in \<open>simp add: owed_remove1\<close>)

lemma pay_read_task:
  assumes ok: "sys_ok (w, ts, g)" and check: "payment_check oid userId w = (Inr ord, w')"
  shows "sys_step (w, ts, g) (w', PayRead oid ord # ts, g)"
proof (rule sys_push [OF ok])
  have w: "shop_ok w" using ok by (rule sys_okD)
  have "life (\<lambda>w. True) (payment_check oid userId)"
    unfolding payment_check_def by (intro life_rules)
  then show "good_step w w'" using w check by (blast intro: life_run)
  have "getOrderForUser oid userId w = (Inr ord, w')"
    using check by (auto simp: payment_check_def bind_app_Inr split: if_splits)
  then show "task_ok (db w') (PayRead oid ord)" using getOrder_result [OF w] by simp
qed simp

lemma checkout_read_task:
  assumes ok: "sys_ok (w, ts, g)" and check: "checkout_read userId w = (Inr cart, w')"
  shows "sys_step (w, ts, g) (w', CheckoutRead userId cart # ts, g)"
  by (rule sys_push [OF ok])
    (use sys_okD(1) [OF ok] checkout_read_result [OF _ check] life_run [OF _ life_checkout_read check] in simp_all)

lemma shop_step_good: "shop_step s s' \<Longrightarrow> sys_ok s \<Longrightarrow> sys_step s s'"
proof (induction rule: shop_step.induct)
  case (tick dt w ts g)
  show ?case
    by (rule sys_good [OF tick(2)], rule good_frame [OF sys_okD(1) [OF tick(2)]]) (simp_all add: cache_keys_ok_def)
next
  case (request_frame w n ts g m c)
  show ?case
    by (rule sys_good [OF request_frame(2)], rule good_frame [OF sys_okD(1) [OF request_frame(2)]])
      (use request_frame(1) in \<open>simp_all add: same_core_def cache_keys_ok_def\<close>)
next
  case (crash task ts w g)
  have "step_within (owed_by task) w w"
    using good_refl [OF sys_okD(1) [OF crash(2)]] owed_by_nonneg [OF sys_okD(2) [OF crash(2,1)]]
    by (simp add: good_step_def step_within_def)
  with crash show ?case by (intro sys_pop)
next
  case (list_begin w ts g userId)
  then show ?case by (intro sys_push good_refl sys_okD(1) [OF list_begin]) simp_all
next
  case (list_end userId found ts w g)
  then show ?case
    using lifeD [OF life_list_fill sys_okD(1) [OF list_end(2)]] by (intro sys_pop_good) simp_all
next
  case (pay_begin oid userId w ord w' ts g)
  then show ?case by (intro pay_read_task)
next
  case (pay_end oid ord ts w g)
  then show ?case
    using good_payment_claim [OF sys_okD(1) [OF pay_end(2)], of ord oid] sys_okD(2) [OF pay_end(2,1)]
    by (intro sys_pop_good) simp_all
next
  case (cancel_begin oid userId w ord w' ts g)
  then show ?case by (intro cancel_read_task)
next
  case (cancel_won oid ord ts w w' g)
  then show ?case by (intro cancel_won_task)
next
  case (cancel_lost oid ord ts w e w' g)
  then show ?case
    using within_cancel_claim(1) [OF sys_okD(1) [OF cancel_lost(3)], of oid] by (intro sys_pop_good) simp_all
next
  case (cancel_end oid ord ts w g)
  have "step_within (owed_by (CancelWon oid ord)) w (snd (cancel_finish oid ord w))"
    using within_cancel_finish [OF sys_okD(1) [OF cancel_end(2)], of ord oid] sys_okD(2) [OF cancel_end(2,1)]
    by (simp add: owed_by.simps(1) [abs_def])
  with cancel_end show ?case by (intro sys_pop)
next
  case (cart_missing userId w ts g)
  then show ?case by (intro sys_push good_refl sys_okD(1) [OF cart_missing(2)]) simp_all
next
  case (cart_create userId ts w g)
  then show ?case
    using lifeD [OF life_open_cart_create [of "\<lambda>_. True"] sys_okD(1) [OF cart_create(2)]]
    by (intro sys_pop_good) simp_all
next
  case (checkout_begin userId w cart w' ts g)
  then show ?case by (intro checkout_read_task)
next
  case (checkout_end userId cart ts w g)
  then show ?case
    using good_checkout_claim [OF sys_okD(1) [OF checkout_end(2)]] sys_okD(2) [OF checkout_end(2,1)]
    by (intro sys_pop_good) simp_all
next
  case (refresh w ts g sha256 sign presented)
  then show ?case unfolding refresh_pair_def by (intro sys_life life_rotate)
next
  case (relay w ts g locked accepts)
  then show ?case by (rule good_relay_system)
next
  case (deliver m w q msg ch ts g)
  then show ?case by (intro sys_good good_consume [OF sys_okD(1)])
next
  case (restock random w' w ts g)
  then show ?case by (intro restock_system)
qed (intro sys_life life_rules; assumption?)+

lemma sys_step_trans: "sys_step s t \<Longrightarrow> sys_step t u \<Longrightarrow> sys_step s u"
  unfolding sys_step_def by (meson order_trans progress_trans)

lemma shop_reach_good: "shop_reach s s' \<Longrightarrow> sys_ok s \<Longrightarrow> sys_step s s'"
proof (induction rule: shop_reach.induct)
  case start
  then show ?case by (simp add: sys_step_def progress_refl)
next
  case (step t u)
  then have t: "sys_step s t" by simp
  then have "sys_ok t" by (simp add: sys_step_def)
  with step.hyps(2) have "sys_step t u" by (rule shop_step_good)
  with t show ?case by (rule sys_step_trans)
qed

section \<open>Properties\<close>

text \<open>A shop that opens: no orders yet, no messages, nothing cached; a catalog and carts.\<close>

definition new_shop :: "world \<Rightarrow> bool" where
  "new_shop w \<longleftrightarrow> orders (db w) = [] \<and> order_items (db w) = [] \<and> outbox_messages (db w) = [] \<and> broker w = [] \<and>
     (\<forall>k. redis_store (redis w) k = None) \<and> products_ok (db w) \<and>
     (\<forall>i \<in> set (cart_items (db w)). 0 < ci_quantity i) \<and> fresh_supply w"

lemma new_shop_ok: "new_shop w \<Longrightarrow> sys_ok (w, [], \<lambda>_. 0)"
  by (simp add: new_shop_def sys_ok_def shop_ok_def cache_keys_ok_def quantities_ok_def items_ok_def)

lemma opened: "new_shop w0 \<Longrightarrow> shop_reach (w0, [], \<lambda>_. 0) s \<Longrightarrow> sys_step (w0, [], \<lambda>_. 0) s"
  by (intro shop_reach_good new_shop_ok)

text \<open>
  C1: In every state the shop can reach, whatever the order of requests, deliveries, redeliveries, lost
  races and crashes: order ids are unique, payment is confirmed for every \<open>PAID\<close> and \<open>COMPLETED\<close> order
  and for no \<open>PENDING\<close> or \<open>CANCELLED\<close> one, and every message the broker holds has the key of its event
  and is true of the tables: the order exists, with the lines announced, is paid for, completed or failed
  as announced.
\<close>

theorem shop_states_consistent:
  assumes "new_shop w0" and "shop_reach (w0, [], \<lambda>_. 0) (w, ts, g)"
  shows "distinct (map o_id (orders (db w))) \<and>
    (\<forall>r \<in> set (orders (db w)).
       (o_status r \<in> {PAID, COMPLETED} \<longrightarrow> o_paymentInitiatedAt r \<noteq> None) \<and>
       (o_status r \<in> {PENDING, CANCELLED} \<longrightarrow> o_paymentInitiatedAt r = None)) \<and>
    (\<forall>m \<in> set (broker w). m_routingKey m = routing_key (event_key (m_payload m)) \<and> announced (db w) (m_payload m))"
  using opened [OF assms] by (auto simp: sys_step_def sys_ok_def shop_ok_def row_ok_def mail_ok_def)

text \<open>
  C2: The shop never sells what it does not have: in every reachable state no product's stock is negative,
  and its stock together with the quantities of all orders reserved, paid and completed is at most the
  stock the shop opened with and what replenishments added. Lost races and crashes can lose stock (a cancelled order whose quantities are
  never given back) but none is sold twice.
\<close>

theorem never_oversold:
  assumes "new_shop w0" and "shop_reach (w0, [], \<lambda>_. 0) (w, ts, g)"
  shows "(\<forall>s. stock_of (db w) pid = Some s \<longrightarrow> 0 \<le> s) \<and> stock_at (db w) pid + sold (db w) pid \<le> stock_at (db w0) pid + g pid"
proof -
  have s: "sys_step (w0, [], \<lambda>_. 0) (w, ts, g)" using assms by (rule opened)
  then have ok: "sys_ok (w, ts, g)" by (simp add: sys_step_def)
  have "held (db w) pid + owed ts pid - g pid \<le> held (db w0) pid + owed [] pid" using s by (simp add: sys_step_def)
  moreover have "0 \<le> owed ts pid"
    unfolding owed_def using sys_okD(2) [OF ok] owed_by_nonneg by (intro sum_list_nonneg) auto
  moreover have "sold (db w0) pid = 0" using assms(1) by (simp add: new_shop_def sold_def)
  ultimately have "stock_at (db w) pid + sold (db w) pid \<le> stock_at (db w0) pid + g pid"
    by (simp add: held_def owed_def)
  moreover have "products_ok (db w)" using sys_okD(1) [OF ok] by (simp add: shop_ok_def)
  ultimately show ?thesis using products_okD(1) by blast
qed

text \<open>
  C3: Whatever happens between two states of the shop, every order of the first is in the second, with
  its user, its creation date and its lines; its status has moved only along transitions the state machine
  allows, so a completed, failed or cancelled order stays so; and a payment once confirmed keeps its date.
\<close>

theorem orders_only_progress:
  assumes "new_shop w0" and "shop_reach (w0, [], \<lambda>_. 0) s" and "shop_reach s (w, ts, g)" and "r \<in> set (orders (db (fst s)))"
  shows "\<exists>r' \<in> set (orders (db w)). o_id r' = o_id r \<and> o_userId r' = o_userId r \<and> o_createdAt r' = o_createdAt r \<and>
    order_lines (db w) (o_id r) = order_lines (db (fst s)) (o_id r) \<and>
    (o_status r, o_status r') \<in> {(s, t). isTransitionAllowed s t}\<^sup>* \<and>
    (isTerminalStatus (o_status r) \<longrightarrow> o_status r' = o_status r) \<and>
    (o_paymentInitiatedAt r \<noteq> None \<longrightarrow> o_paymentInitiatedAt r' = o_paymentInitiatedAt r)"
proof -
  have "sys_ok s" using opened [OF assms(1,2)] by (simp add: sys_step_def)
  then have "progress (db (fst s)) (db w)" using shop_reach_good [OF assms(3)] by (simp add: sys_step_def)
  then obtain r' where r': "r' \<in> set (orders (db w))" "order_progress r r'"
    "order_lines (db w) (o_id r) = order_lines (db (fst s)) (o_id r)"
    using assms(4) unfolding progress_def by blast
  moreover have "o_status r' = o_status r" if "isTerminalStatus (o_status r)"
    using r'(2) that edges_from(1) by (cases "o_status r") (auto simp: order_progress_def)
  ultimately show ?thesis
    by (intro bexI [of _ r']) (simp_all add: order_progress_def edges_def)
qed

section \<open>A shop\<close>

lemma cart_example_new: "new_shop cart_example"
  using fresh_empty_world
  by (simp add: new_shop_def cart_example_def empty_db_def empty_world_def products_ok_def int4_def fresh_supply_def)

text \<open>A checkout and the relay of its event.\<close>

definition shop_example :: system where
  "shop_example = (snd (drainOnce (\<lambda>_. False) (\<lambda>_. True) (snd (checkout ''u'' cart_example))), [], \<lambda>_. 0)"

lemma checkout_example_reach: "shop_reach (cart_example, [], \<lambda>_. 0) (snd (checkout ''u'' cart_example), [], \<lambda>_. 0)"
  by (rule shop_reach.step [OF shop_reach.start check_out])

lemma shop_example_reach: "shop_reach (snd (checkout ''u'' cart_example), [], \<lambda>_. 0) (fst shop_example, fst (snd shop_example), snd (snd shop_example))"
  unfolding shop_example_def fst_conv snd_conv by (rule shop_reach.step [OF shop_reach.start relay])

lemma shop_example_reachable: "shop_reach (cart_example, [], \<lambda>_. 0) (fst shop_example, fst (snd shop_example), snd (snd shop_example))"
  unfolding shop_example_def fst_conv snd_conv by (rule shop_reach.step [OF checkout_example_reach relay])

lemma checkout_example_order: "\<exists>r \<in> set (orders (db (snd (checkout ''u'' cart_example)))). o_userId r = ''u''"
proof -
  obtain cart where "findOpenCart ''u'' (db cart_example) = Some cart" "cart_items_of cart \<noteq> []"
    "\<forall>i \<in> set (cart_items_of cart). ci_product i \<noteq> None"
    by (simp add: cart_example_find cart_items_of_def)
  from checkout_run [OF this] obtain ls v where "checkout ''u'' cart_example = createOrder ''u'' ls v" by blast
  moreover obtain c where "snd (createOrder ''u'' ls v) =
      after_del [userOrdersKey ''u''] ((after_enqueue (routing_key KCreated) (created_event ''u'' ls v)
        (order_saved ''u'' ls v))\<lparr>collectors := c\<rparr>)"
    using createOrder_run [of "''u''" ls v] by auto
  ultimately show ?thesis by (simp add: order_saved_def Let_def new_order_def)
qed

theorem shop_states_consistent_witness:
  "distinct (map o_id (orders (db (fst shop_example)))) \<and>
    list_all (\<lambda>r. (o_status r \<in> {PAID, COMPLETED} \<longrightarrow> o_paymentInitiatedAt r \<noteq> None) \<and>
       (o_status r \<in> {PENDING, CANCELLED} \<longrightarrow> o_paymentInitiatedAt r = None)) (orders (db (fst shop_example))) \<and>
    list_all (\<lambda>m. m_routingKey m = routing_key (event_key (m_payload m)) \<and>
      announced (db (fst shop_example)) (m_payload m)) (broker (fst shop_example))"
  unfolding list_all_iff by (rule shop_states_consistent [OF cart_example_new shop_example_reachable])

theorem never_oversold_witness:
  "stock_at (db (fst shop_example)) ''p'' + sold (db (fst shop_example)) ''p'' \<le>
     stock_at (db cart_example) ''p'' + snd (snd shop_example) ''p'' \<and> stock_at (db cart_example) ''p'' = 5"
proof -
  have "stock_at (db cart_example) ''p'' = 5"
    by (simp add: stock_at_def stock_of_def cart_example_def)
  with never_oversold [OF cart_example_new shop_example_reachable, of "''p''"] show ?thesis by blast
qed

theorem orders_only_progress_witness:
  "\<exists>r r'. r \<in> set (orders (db (snd (checkout ''u'' cart_example)))) \<and> r' \<in> set (orders (db (fst shop_example))) \<and>
     o_id r' = o_id r \<and> o_userId r' = ''u'' \<and> (o_status r, o_status r') \<in> {(s, t). isTransitionAllowed s t}\<^sup>*"
proof -
  let ?v = "snd (checkout ''u'' cart_example)"
  obtain r where r: "r \<in> set (orders (db (fst (?v, [] :: task list, (\<lambda>_. 0) :: uuid \<Rightarrow> int))))" "o_userId r = ''u''"
    using checkout_example_order by auto
  from orders_only_progress [OF cart_example_new checkout_example_reach shop_example_reach r(1)]
  obtain r' where "r' \<in> set (orders (db (fst shop_example)))" "o_id r' = o_id r" "o_userId r' = o_userId r"
    "(o_status r, o_status r') \<in> {(s, t). isTransitionAllowed s t}\<^sup>*" by blast
  with r show ?thesis unfolding fst_conv by metis
qed

end
