(* ===== verification/Message_Ids.thy ===== *)
theory Message_Ids
  imports Shop
begin

text \<open>
  The identities the messaging rests on, over any history of the shop: the ids of outbox rows, of the
  broker's messages and of the inbox records come from the database's generator, no id is used for two
  outbox rows, and an id is in no table before the generator has produced it. So a message just written
  can be in no inbox: the inbox suppresses repetitions and never a message that is new.

  \<open>filed ids w w'\<close> is what every method does to these tables, whatever the state it runs in and whether
  it returns or throws; \<open>filing_rules\<close> has one rule per primitive and per way to compose.
\<close>

section \<open>What a method may file\<close>

definition filed :: "uuid set \<Rightarrow> world \<Rightarrow> world \<Rightarrow> bool" where
  "filed ids w w' \<longleftrightarrow> uuid_supply w' = uuid_supply w \<and> drawn w \<le> drawn w' \<and> broker w' = broker w \<and>
     (\<exists>rows ns. outbox_messages (db w') = outbox_messages (db w) @ rows \<and>
        (\<forall>r \<in> set rows. om_publishedAt r = None) \<and>
        map om_id rows = map (uuid_supply w) ns \<and> sorted_wrt (<) ns \<and>
        (\<forall>n \<in> set ns. drawn w \<le> n \<and> n < drawn w')) \<and>
     pm_messageId ` set (processed_messages (db w')) \<subseteq> pm_messageId ` set (processed_messages (db w)) \<union> ids \<and>
     (ledger_ok (db w) \<longrightarrow> ledger_ok (db w'))"

definition filing :: "uuid set \<Rightarrow> (world, 'a) app \<Rightarrow> bool" where
  "filing ids m \<longleftrightarrow> (\<forall>w. filed ids w (snd (m w)))"

named_theorems filing_rules \<open>methods that file messages under new ids only\<close>

lemma filingI: "(\<And>w. filed ids w (snd (m w))) \<Longrightarrow> filing ids m"
  by (simp add: filing_def)

lemma filingD: "filing ids m \<Longrightarrow> filed ids w (snd (m w))"
  by (simp add: filing_def)

lemma filing_run: "filing ids m \<Longrightarrow> m w = (r, w') \<Longrightarrow> filed ids w w'"
  using filingD [of ids m w] by simp

lemma filed_frame:
  assumes "outbox_messages (db w') = outbox_messages (db w)"
    and "processed_messages (db w') = processed_messages (db w)"
    and "payment_authorizations (db w') = payment_authorizations (db w)"
    and "uuid_supply w' = uuid_supply w" and "drawn w \<le> drawn w'" and "broker w' = broker w"
  shows "filed ids w w'"
  using assms by (auto simp: filed_def ledger_ok_def)

lemma filed_refl: "filed ids w w"
  by (rule filed_frame) simp_all

lemma filed_trans:
  assumes "filed ids u v" and "filed ids v w"
  shows "filed ids u w"
proof -
  obtain rows ns where 1: "outbox_messages (db v) = outbox_messages (db u) @ rows"
    "map om_id rows = map (uuid_supply u) ns" "sorted_wrt (<) ns" "\<forall>n \<in> set ns. drawn u \<le> n \<and> n < drawn v"
    "\<forall>r \<in> set rows. om_publishedAt r = None"
    using assms(1) by (auto simp: filed_def)
  obtain rows' ns' where 2: "outbox_messages (db w) = outbox_messages (db v) @ rows'"
    "map om_id rows' = map (uuid_supply v) ns'" "sorted_wrt (<) ns'" "\<forall>n \<in> set ns'. drawn v \<le> n \<and> n < drawn w"
    "\<forall>r \<in> set rows'. om_publishedAt r = None"
    using assms(2) by (auto simp: filed_def)
  have s: "uuid_supply v = uuid_supply u" "drawn u \<le> drawn v" "drawn v \<le> drawn w"
    using assms by (auto simp: filed_def)
  show ?thesis
    unfolding filed_def
  proof (intro conjI exI [of _ "rows @ rows'"] exI [of _ "ns @ ns'"])
    show "sorted_wrt (<) (ns @ ns')" using 1(3,4) 2(3,4) by (fastforce simp: sorted_wrt_append)
    show "\<forall>n \<in> set (ns @ ns'). drawn u \<le> n \<and> n < drawn w" using 1(4) 2(4) s by fastforce
    show "\<forall>r \<in> set (rows @ rows'). om_publishedAt r = None" using 1(5) 2(5) by auto
    show "map om_id (rows @ rows') = map (uuid_supply u) (ns @ ns')" using 1(2) 2(2) s(1) by simp
    show "outbox_messages (db w) = outbox_messages (db u) @ (rows @ rows')" using 1(1) 2(1) by simp
    show "pm_messageId ` set (processed_messages (db w)) \<subseteq> pm_messageId ` set (processed_messages (db u)) \<union> ids"
      using assms unfolding filed_def by blast
  qed (use assms s in \<open>auto simp: filed_def\<close>)
qed

section \<open>The primitives\<close>

lemma filing_frame:
  "(\<And>w. outbox_messages (db (snd (m w))) = outbox_messages (db w) \<and>
      processed_messages (db (snd (m w))) = processed_messages (db w) \<and>
      payment_authorizations (db (snd (m w))) = payment_authorizations (db w) \<and>
      uuid_supply (snd (m w)) = uuid_supply w \<and> drawn w \<le> drawn (snd (m w)) \<and> broker (snd (m w)) = broker w) \<Longrightarrow>
    filing ids m"
  by (intro filingI filed_frame) simp_all

lemma filing_return [filing_rules]: "filing ids (return_app a)"
  and filing_throw [filing_rules]: "filing ids (throw_app e)"
  and filing_gets [filing_rules]: "filing ids (gets_app f)"
  and filing_query [filing_rules]: "filing ids (query q)"
  and filing_read_clock [filing_rules]: "filing ids read_clock"
  and filing_random_uuid [filing_rules]: "filing ids random_uuid"
  and filing_record_metric [filing_rules]: "filing ids (record_metric c)"
  and filing_cache_get [filing_rules]: "filing ids (cache_get k)"
  and filing_cache_set [filing_rules]: "filing ids (cache_set k v t)"
  and filing_cache_del [filing_rules]: "filing ids (cache_del ks)"
  by (rule filing_frame, simp add: run_cache_get run_cache_set run_cache_del)+

lemma filing_execute:
  "(\<And>d. outbox_messages (f d) = outbox_messages d \<and> processed_messages (f d) = processed_messages d \<and>
      payment_authorizations (f d) = payment_authorizations d) \<Longrightarrow> filing ids (execute f)"
  by (rule filing_frame) simp

lemma filing_modify:
  "(\<And>w. db (f w) = db w \<and> uuid_supply (f w) = uuid_supply w \<and> drawn (f w) = drawn w \<and> broker (f w) = broker w) \<Longrightarrow>
    filing ids (modify_app f)"
  by (rule filing_frame) simp

lemma filing_enqueue [filing_rules]: "filing ids (enqueue key event)"
proof (rule filingI)
  fix w
  have "map om_id [outbox_row key event w] = map (uuid_supply w) [drawn w]" by (simp add: outbox_row_def)
  moreover have "\<forall>n \<in> set [drawn w]. drawn w \<le> n \<and> n < drawn (after_enqueue key event w)"
    by (simp add: drawn_after_enqueue)
  moreover have "sorted_wrt (<) [drawn w]" by simp
  ultimately have "\<exists>rows ns. outbox_messages (db (after_enqueue key event w)) = outbox_messages (db w) @ rows \<and>
      (\<forall>r \<in> set rows. om_publishedAt r = None) \<and>
      map om_id rows = map (uuid_supply w) ns \<and> sorted_wrt (<) ns \<and>
      (\<forall>n \<in> set ns. drawn w \<le> n \<and> n < drawn (after_enqueue key event w))"
    by (intro exI [of _ "[outbox_row key event w]"] exI [of _ "[drawn w]"]) simp
  then show "filed ids w (snd (enqueue key event w))"
    using drawn_after_enqueue [of w key event] by (simp add: filed_def ledger_ok_def)
qed

lemma filing_insert_processed: "m \<in> ids \<Longrightarrow> filing ids (insert_processed m c)"
  by (rule filingI) (auto simp: insert_processed_def filed_def ledger_ok_def)

section \<open>The ways to compose\<close>

lemma filing_bind [filing_rules]:
  assumes "filing ids m" and "\<And>a. filing ids (k a)"
  shows "filing ids (bind_app m k)"
proof (rule filingI)
  fix w
  obtain r w1 where r: "m w = (r, w1)" by (cases "m w")
  show "filed ids w (snd (bind_app m k w))"
    using filing_run [OF assms(1) r] filed_trans [OF filing_run [OF assms(1) r] filingD [OF assms(2)]]
    by (cases r) (simp_all add: bind_app_def r)
qed

lemma filing_then [filing_rules]: "filing ids m \<Longrightarrow> filing ids k \<Longrightarrow> filing ids (then_app m k)"
  by (simp add: then_app_def filing_bind)

lemma filing_try [filing_rules]:
  assumes "filing ids m" and "\<And>e. filing ids (h e)"
  shows "filing ids (try_catch m h)"
proof (rule filingI)
  fix w
  obtain r w1 where r: "m w = (r, w1)" by (cases "m w")
  show "filed ids w (snd (try_catch m h w))"
    using filing_run [OF assms(1) r] filed_trans [OF filing_run [OF assms(1) r] filingD [OF assms(2)]]
    by (cases r) (simp_all add: try_catch_def r)
qed

text \<open>A rolled-back transaction has used up ids and filed nothing.\<close>

lemma filing_transaction [filing_rules]: "filing ids m \<Longrightarrow> filing ids (transaction m)"
proof (rule filingI)
  fix w
  assume m: "filing ids m"
  obtain r w1 where r: "m w = (r, w1)" by (cases "m w")
  with filing_run [OF m] have f: "filed ids w w1" by simp
  then have "filed ids w (w1\<lparr>db := db w\<rparr>)" by (intro filed_frame) (simp_all add: filed_def)
  with f r show "filed ids w (snd (transaction m w))" by (cases r) (simp_all add: transaction_def)
qed

lemma filed_other:
  assumes "filed ids w w1" and "db w2 = db w1" and "uuid_supply w2 = uuid_supply w1" and "drawn w2 = drawn w1"
    and "broker w2 = broker w1"
  shows "filed ids w w2"
  by (rule filed_trans [OF assms(1) filed_frame]) (simp_all add: assms(2-))

lemma filing_timeDb [filing_rules]: "filing ids m \<Longrightarrow> filing ids (timeDb n m)"
  by (intro filingI, drule filingD) (rule filed_other, assumption, simp_all add: timeDb_def split: prod.splits)

lemma filing_timed_consumer [filing_rules]: "filing ids m \<Longrightarrow> filing ids (timed_consumer n m)"
  by (intro filingI, drule filingD) (rule filed_other, assumption, simp_all add: timed_consumer_def split: prod.splits)

lemma filing_cls_run [filing_rules]:
  assumes "filing ids m"
  shows "filing ids (cls_run cid m)"
proof (rule filingI)
  fix w :: world
  let ?v = "w\<lparr>cls := Some (Some cid)\<rparr>"
  have "filed ids w ?v" by (rule filed_frame) simp_all
  then have "filed ids w (snd (m ?v))" using filingD [OF assms] by (rule filed_trans)
  then show "filed ids w (snd (cls_run cid m w))"
    by (rule filed_other) (simp_all add: cls_run_def split: prod.splits)
qed

lemma filing_if [filing_rules]: "(b \<Longrightarrow> filing ids m) \<Longrightarrow> (\<not> b \<Longrightarrow> filing ids k) \<Longrightarrow> filing ids (if b then m else k)"
  by simp

lemma filing_option [filing_rules]:
  "filing ids m \<Longrightarrow> (\<And>x. filing ids (k x)) \<Longrightarrow> filing ids (case v of None \<Rightarrow> m | Some x \<Rightarrow> k x)"
  by (cases v) simp_all

lemma filing_list [filing_rules]:
  "filing ids m \<Longrightarrow> (\<And>x xs. filing ids (k x xs)) \<Longrightarrow> filing ids (case v of [] \<Rightarrow> m | x # xs \<Rightarrow> k x xs)"
  by (cases v) simp_all

lemma filing_when [filing_rules]: "filing ids m \<Longrightarrow> filing ids (when_app b m)"
  by (cases b) (simp_all add: filing_return)

lemma filing_for_each [filing_rules]: "(\<And>x. filing ids (body x)) \<Longrightarrow> filing ids (for_each body xs)"
  by (induction xs) (simp_all add: filing_rules)

section \<open>The operations\<close>

lemma filing_update_stock [filing_rules]: "filing ids (update_stock p f)"
  by (rule filing_frame) (simp add: update_stock_def)

lemma filing_restoreStock [filing_rules]: "filing ids (restoreStock ls)"
  unfolding restoreStock_def restore_line_def by (intro filing_rules)

lemma filing_reserve_catch: "filing ids (reserve_catch applied e)"
  unfolding reserve_catch_def
  by (intro filing_rules) (cases e; simp only: exn.case; intro filing_rules)

lemma filing_reserve_loop: "filing ids (reserve_loop applied ls)"
proof (induction applied ls rule: reserve_loop.induct)
  case (2 applied line lines)
  show ?case
  proof (rule filingI)
    fix w
    obtain r w' where u: "update_stock (\<lambda>r. p_id r = l_productId line \<and> p_stock r \<ge> l_quantity line)
            (\<lambda>s. s - l_quantity line) w = (r, w')" by fastforce
    note w' = filing_run [OF filing_update_stock u]
    have "filed ids w (snd (reserve_catch applied e w'))" for e
      using w' filingD [OF filing_reserve_catch] by (rule filed_trans)
    moreover have "filed ids w (snd (reserve_loop (applied @ [line]) lines w'))" if "r = Inr n" "n \<noteq> 0" for n
      using w' filingD [OF 2 [OF u [symmetric] that]] by (rule filed_trans)
    ultimately show "filed ids w (snd (reserve_loop applied (line # lines) w))"
      using u by (cases r) simp_all
  qed
qed (simp only: reserve_loop.simps filing_return)

lemma filing_reserveStock [filing_rules]: "filing ids (reserveStock ls)"
  unfolding reserveStock_def by (rule filing_reserve_loop)

lemma filing_replenish [filing_rules]: "filing ids (replenishLowStock random)"
proof -
  have "filing ids (replenish_loop random n ps)" for n ps
  proof (induction random n ps rule: replenish_loop.induct)
    case (2 random n product lowStock)
    obtain low n1 where 1: "shouldRestock random n (p_stock product) = (low, n1)" by fastforce
    obtain amount n2 where 2: "randomRestockAmount random n1 = (amount, n2)" by fastforce
    show ?case
      using "2.IH" 1 2 by (cases low; simp only: replenish_loop.simps prod.case bool.case) (intro filing_rules; simp)+
  qed (simp only: replenish_loop.simps filing_return)
  then show ?thesis unfolding replenishLowStock_def by (intro filing_rules)
qed

lemma filing_update_orders [filing_rules]: "filing ids (update_orders g a)"
  by (rule filing_frame) (simp add: run_update_orders)

lemma filing_transitionOrder [filing_rules]: "filing ids (transitionOrder oid st)"
  unfolding transitionOrder_def transition_find_def transition_apply_def by (intro filing_rules)

lemma filing_getOrder [filing_rules]: "filing ids (getOrderForUser oid userId)"
  unfolding getOrderForUser_def Let_def
  by (intro filing_rules) (auto split: json_text.split intro!: filing_rules)

lemma filing_list_fill [filing_rules]: "filing ids (list_fill userId found)"
  unfolding list_fill_def by (intro filing_rules)

lemma filing_listOrders: "filing ids (listOrdersForUser userId)"
  unfolding listOrdersForUser_def
  by (intro filing_rules) (auto split: json_text.split intro!: filing_rules)

lemma filing_payment_check [filing_rules]: "filing ids (payment_check oid userId)"
  unfolding payment_check_def by (intro filing_rules)

lemma filing_payment_claim [filing_rules]: "filing ids (payment_claim oid ord)"
  unfolding payment_claim_def Let_def by (intro filing_rules)

lemma filing_cancel_check [filing_rules]: "filing ids (cancel_check oid userId)"
  unfolding cancel_check_def Let_def by (intro filing_rules)

lemma filing_cancel_claim [filing_rules]: "filing ids (cancel_claim oid)"
  unfolding cancel_claim_def by (intro filing_rules)

lemma filing_cancel_finish [filing_rules]: "filing ids (cancel_finish oid ord)"
  unfolding cancel_finish_def Let_def by (intro filing_rules)

lemma filing_save_items [filing_rules]: "filing ids (save_items oid ls)"
  by (induction ls) (auto simp only: save_items.simps Let_def intro!: filing_rules filing_execute, simp_all)

lemma filing_createOrder [filing_rules]: "filing ids (createOrder userId ls)"
  unfolding createOrder_def save_order_def Let_def
  by (intro filing_rules filing_execute) simp

lemma filing_open_cart_create [filing_rules]: "filing ids (open_cart_create userId)"
  unfolding open_cart_create_def insert_cart_def Let_def
  by (intro filing_rules filing_execute) simp

lemma filing_getOpenCart [filing_rules]: "filing ids (getOpenCart userId)"
  unfolding getOpenCart_def by (intro filing_rules)

lemma filing_setItem: "filing ids (setItem userId productId quantity)"
  unfolding setItem_def upsert_item_def by (intro filing_rules filing_execute) simp

lemma filing_removeItem: "filing ids (removeItem userId productId)"
  unfolding removeItem_def by (intro filing_rules filing_execute) simp

lemma filing_checkout_read [filing_rules]: "filing ids (checkout_read userId)"
  unfolding checkout_read_def by (intro filing_rules)

lemma filing_cart_lines [filing_rules]: "filing ids (cart_lines is)"
  by (induction "is") (simp only: cart_lines.simps, intro filing_rules; assumption)+

lemma filing_checkout_claim [filing_rules]: "filing ids (checkout_claim userId cart)"
  unfolding checkout_claim_def update_carts_def by (intro filing_rules filing_execute) simp

lemma filing_issueTokens [filing_rules]: "filing ids (issueTokens sha256 sign user f)"
proof -
  have sign: "filing ids (signAsync sign p)" for p by (rule filing_frame) (simp add: signAsync_def)
  show ?thesis
    unfolding issueTokens_def createRefreshToken_def insert_refresh_token_def
    by (intro filing_rules filing_execute sign) simp
qed

lemma filing_rotate [filing_rules]: "filing ids (rotate sha256 sign p)"
  unfolding rotate_def rotate_read_def rotate_claim_def rotate_issue_def revokeFamilyOnReuse_def
  by (intro filing_rules filing_execute) simp_all

lemma filing_login: "filing ids (login sha256 sign bcrypt_compare dto)"
  unfolding login_def login_check_def Let_def by (intro filing_rules)

lemma filing_register: "filing ids (register bcrypt_hash dto)"
  unfolding register_def insert_user_def Let_def by (intro filing_rules filing_execute) simp

lemma filing_setDisabled: "filing ids (setDisabled uid b)"
  unfolding setDisabled_def Let_def by (intro filing_rules filing_execute) simp

subsection \<open>The consumers\<close>

text \<open>A consumer files, beside what its work does, the id of the message it was handed.\<close>

lemma filing_runOnce [filing_rules]: "m \<in> ids \<Longrightarrow> filing ids work \<Longrightarrow> filing ids (runOnce m c work)"
  unfolding runOnce_def runOnce_work_def by (intro filing_rules filing_insert_processed)

lemma filing_processEventOnce [filing_rules]:
  "set_option (msg_messageId msg) \<subseteq> ids \<Longrightarrow> filing ids work \<Longrightarrow> filing ids (processEventOnce msg c work)"
  unfolding processEventOnce_def
  by (cases "msg_messageId msg"; simp only: option.case; intro filing_rules; simp)

lemma filing_runWith [filing_rules]: "filing ids m \<Longrightarrow> filing ids (runWithCorrelationId h m)"
  unfolding runWithCorrelationId_def resolveCorrelationId_def
  by (intro filing_rules) (cases h; simp only: header_value.case; intro filing_rules)

lemma filing_inventory_work [filing_rules]: "filing ids (inventory_work event)"
proof -
  have "filing ids (modify_app (\<lambda>w. w\<lparr>shortProductId := Some pid\<rparr>))" for pid by (rule filing_modify) simp
  then show ?thesis
    unfolding inventory_work_def
    by (intro filing_rules) (auto split: exn.split intro!: filing_rules)
qed

lemma filing_authorize [filing_rules]:
  assumes "outside_provider ch"
  shows "filing ids (authorize ch event)"
proof -
  have ch: "filing ids (ch e key)" for e key
  proof (rule filingI)
    fix w
    from assms obtain calls where "snd (ch e key w) = w\<lparr>provider_calls := calls\<rparr>"
      unfolding outside_provider_def by blast
    then show "filed ids w (snd (ch e key w))" by (simp add: filed_frame)
  qed
  have claim: "filing ids (claim oid)" for oid
    by (rule filingI) (auto simp: run_claim filed_def ledger_ok_def ledger_of_def ledger_row_def row_where_None split: ledger.splits option.splits if_splits)
  have decide: "filing ids (execute (\<lambda>d. d\<lparr>payment_authorizations :=
      update_where (decide_guard oid) (decide_assign r) (payment_authorizations d)\<rparr>))" for oid r
    by (rule filingI) (simp add: filed_def ledger_ok_def decide_assign_def)
  show ?thesis
    unfolding authorize_def authorize_claim_def authorize_charge_def isClaimStale_def
    by (intro filing_rules claim decide ch)
qed

lemma filing_payment_work [filing_rules]: "filing ids (payment_work event r)"
  unfolding payment_work_def by (intro filing_rules)

lemma filing_completion_work [filing_rules]: "filing ids (completion_work event)"
  unfolding completion_work_def by (intro filing_rules)

lemma filing_email_work [filing_rules]: "filing ids (email_work event failed)"
  unfolding email_work_def by (rule filing_modify) simp

lemma filing_consume:
  assumes "msg_messageId msg = Some m" and "outside_provider ch"
  shows "filing {m} (consume ch q msg)"
proof -
  have m: "set_option (msg_messageId msg) \<subseteq> {m}" using assms(1) by simp
  have short: "filing ids (modify_app (\<lambda>w. w\<lparr>shortProductId := None\<rparr>))" for ids by (rule filing_modify) simp
  have "filing {m} (payment_body ch e m)" for e
    unfolding payment_body_def by (intro filing_rules assms(2)) simp
  then have "filing {m} (onInventoryReserved ch e msg)" for e
    unfolding onInventoryReserved_def authorizeAndAdvance_def assms(1)
    by (simp only: option.case) (intro filing_rules)
  moreover have "filing {m} (onOrderCreated e msg)" for e
    unfolding onOrderCreated_def reserve_handler_def
    by (intro filing_rules short m) (auto split: EventOutcome.split intro!: filing_rules)
  moreover have "filing {m} (onPaymentProcessed e msg)" for e
    unfolding onPaymentProcessed_def complete_handler_def by (intro filing_rules m)
  moreover have "filing {m} (onTerminalEvent e msg)" for e
    unfolding onTerminalEvent_def notify_def Let_def by (intro filing_rules m)
  ultimately show ?thesis by (cases q) simp_all
qed

section \<open>The ids of a history\<close>

definition names_ok :: "world \<Rightarrow> bool" where
  "names_ok w \<longleftrightarrow> (\<forall>n \<ge> drawn w. uuid_supply w n \<noteq> []) \<and>
     [] \<notin> om_id ` set (outbox_messages (db w)) \<union> m_messageId ` set (broker w)"

definition ids_ok :: "world \<Rightarrow> bool" where
  "ids_ok w \<longleftrightarrow> names_ok w \<and> fresh_supply w \<and> distinct (map om_id (outbox_messages (db w))) \<and> ledger_ok (db w) \<and>
     om_id ` set (outbox_messages (db w)) \<union> m_messageId ` set (broker w) \<union>
       pm_messageId ` set (processed_messages (db w)) \<subseteq> uuid_supply w ` {..<drawn w}"

lemma names_ok_filed:
  assumes "names_ok w" and f: "filed ids w w'"
  shows "names_ok w'"
proof -
  obtain rows ns where r: "outbox_messages (db w') = outbox_messages (db w) @ rows"
    "map om_id rows = map (uuid_supply w) ns" "\<forall>n \<in> set ns. drawn w \<le> n \<and> n < drawn w'"
    using f by (auto simp: filed_def)
  have "om_id ` set rows = uuid_supply w ` set ns" using arg_cong [OF r(2), of set] by simp
  with assms r(1,3) show ?thesis by (auto simp: names_ok_def filed_def image_Un)
qed

lemma ids_ok_filed:
  assumes ok: "ids_ok w" and f: "filed ids w w'" and ids: "ids \<subseteq> uuid_supply w ` {..<drawn w}"
  shows "ids_ok w'"
proof -
  obtain rows ns where r: "outbox_messages (db w') = outbox_messages (db w) @ rows"
    "map om_id rows = map (uuid_supply w) ns" "sorted_wrt (<) ns" "\<forall>n \<in> set ns. drawn w \<le> n \<and> n < drawn w'"
    using f by (auto simp: filed_def)
  have s: "uuid_supply w' = uuid_supply w" "drawn w \<le> drawn w'" "broker w' = broker w"
    using f by (auto simp: filed_def)
  have set: "om_id ` set rows = uuid_supply w ` set ns" using arg_cong [OF r(2), of set] by simp
  have inj: "inj (uuid_supply w)" using ok by (simp add: ids_ok_def fresh_supply_def)
  have old: "om_id ` set (outbox_messages (db w)) \<subseteq> uuid_supply w ` {..<drawn w}"
    using ok by (simp add: ids_ok_def)
  have "distinct (map om_id rows)"
    unfolding r(2) using strict_sorted_iff [THEN iffD1, OF r(3)] inj_on_subset [OF inj subset_UNIV]
    by (simp add: distinct_map)
  moreover have "om_id ` set (outbox_messages (db w)) \<inter> om_id ` set rows = {}"
  proof -
    have "uuid_supply w ` {..<drawn w} \<inter> uuid_supply w ` set ns = {}"
      using r(4) by (auto simp: inj_eq [OF inj])
    with old show ?thesis unfolding set by blast
  qed
  ultimately have dist: "distinct (map om_id (outbox_messages (db w')))"
    using ok by (simp add: r(1) ids_ok_def)
  have more: "uuid_supply w ` {..<drawn w} \<subseteq> uuid_supply w ` {..<drawn w'}" using s(2) by auto
  have new: "uuid_supply w ` set ns \<subseteq> uuid_supply w ` {..<drawn w'}" using r(4) by auto
  show ?thesis
    unfolding ids_ok_def s(1,3)
  proof (intro conjI Un_least dist)
    show "om_id ` set (outbox_messages (db w')) \<subseteq> uuid_supply w ` {..<drawn w'}"
      unfolding r(1) set_append image_Un set by (intro Un_least new order_trans [OF old more])
    show "m_messageId ` set (broker w) \<subseteq> uuid_supply w ` {..<drawn w'}"
      by (rule order_trans [OF _ more]) (use ok in \<open>simp add: ids_ok_def\<close>)
    have "pm_messageId ` set (processed_messages (db w)) \<union> ids \<subseteq> uuid_supply w ` {..<drawn w}"
      using ok ids by (simp add: ids_ok_def)
    moreover have "pm_messageId ` set (processed_messages (db w')) \<subseteq> pm_messageId ` set (processed_messages (db w)) \<union> ids"
      using f by (simp add: filed_def)
    ultimately show "pm_messageId ` set (processed_messages (db w')) \<subseteq> uuid_supply w ` {..<drawn w'}"
      using more order_trans by metis
    show "names_ok w'" by (rule names_ok_filed [OF _ f]) (use ok in \<open>simp add: ids_ok_def\<close>)
  qed (use ok f in \<open>simp_all add: ids_ok_def filed_def fresh_supply_def\<close>)
qed

lemma ids_ok_filing: "ids_ok w \<Longrightarrow> filing {} m \<Longrightarrow> ids_ok (snd (m w))"
  using ids_ok_filed [OF _ filingD] by blast

lemma ids_ok_drain:
  assumes "ids_ok w"
  shows "ids_ok (snd (drainOnce locked accepts w))"
proof -
  define sent where "sent = filter (\<lambda>r. accepts (message_of r)) (select_batch locked (db w))"
  obtain c where c: "snd (drainOnce locked accepts w) =
     w\<lparr>db := (db w)\<lparr>outbox_messages := mark_rows (om_id ` set sent) (clock w) (outbox_messages (db w))\<rparr>,
       broker := broker w @ map message_of sent, collectors := c\<rparr>"
    using drainOnce_run [of locked accepts w] unfolding sent_def by auto
  have ids: "map om_id (mark_rows I t rows) = map om_id rows" for I t rows by (simp add: mark_rows_def)
  have img: "om_id ` set (mark_rows I t rows) = om_id ` set rows" for I t rows
    using arg_cong [OF ids, of set] by simp
  have "set sent \<subseteq> set (outbox_messages (db w))"
    by (auto simp: sent_def select_batch_pending set_pending dest!: in_set_takeD)
  then have sub: "om_id ` set sent \<subseteq> om_id ` set (outbox_messages (db w))" by (rule image_mono)
  moreover have "m_messageId ` set (map message_of sent) = om_id ` set sent" by (simp add: image_image)
  moreover have "[] \<notin> om_id ` set (outbox_messages (db w))" "[] \<notin> om_id ` set sent"
    using assms subsetD [OF sub] by (auto simp: ids_ok_def names_ok_def)
  ultimately show ?thesis
    using assms unfolding c ids_ok_def names_ok_def by (simp add: fresh_supply_def ids img ledger_ok_def image_Un image_image) (meson order_trans)
qed

lemma ids_ok_consume:
  assumes "ids_ok w" and "m \<in> set (broker w)" and "delivered q m msg" and "outside_provider ch"
  shows "ids_ok (snd (consume ch q msg w))"
proof -
  have "msg_messageId msg = Some (m_messageId m)" using assms(3) by (simp add: delivered_def)
  from filingD [OF filing_consume [OF this assms(4)]] show ?thesis
    by (rule ids_ok_filed [OF assms(1)]) (use assms(1,2) in \<open>auto simp: ids_ok_def\<close>)
qed

lemma ids_ok_step: "shop_step s s' \<Longrightarrow> ids_ok (fst s) \<Longrightarrow> ids_ok (fst s')"
proof (induction rule: shop_step.induct)
  case (tick dt w ts g)
  then show ?case by (simp add: ids_ok_def fresh_supply_def names_ok_def)
next
  case (request_frame w n ts g m c)
  then have "filed {} w (w\<lparr>cls := c, drawn := n, collectors := m\<rparr>)"
    by (intro filed_frame) simp_all
  with request_frame(2) show ?case by (simp add: ids_ok_filed)
next
  case (deliver m w q msg ch ts g)
  then show ?case by (simp add: ids_ok_consume)
next
  case (relay w ts g locked accepts)
  then show ?case by (simp add: ids_ok_drain)
next
  case (pay_begin oid userId w ord w' ts g)
  then show ?case using ids_ok_filing [OF _ filing_payment_check, of w oid userId] by simp
next
  case (cancel_begin oid userId w ord w' ts g)
  then show ?case using ids_ok_filing [OF _ filing_cancel_check, of w oid userId] by simp
next
  case (cancel_won oid ord ts w w' g)
  then show ?case using ids_ok_filing [OF _ filing_cancel_claim, of w oid] by simp
next
  case (cancel_lost oid ord ts w e w' g)
  then show ?case using ids_ok_filing [OF _ filing_cancel_claim, of w oid] by simp
next
  case (checkout_begin userId w cart w' ts g)
  then show ?case using ids_ok_filing [OF _ filing_checkout_read, of w userId] by simp
qed (auto simp only: fst_conv initiatePayment_def cancelOrder_def checkout_def refresh_pair_def
    intro!: ids_ok_filing filing_rules filing_listOrders filing_setItem filing_removeItem filing_login
      filing_register filing_setDisabled)

lemma ids_ok_reach: "shop_reach s s' \<Longrightarrow> ids_ok (fst s) \<Longrightarrow> ids_ok (fst s')"
  by (induction rule: shop_reach.induct) (auto intro: ids_ok_step)

text \<open>A shop that opens with nothing processed and nothing authorized, and a generator of non-empty ids.\<close>

definition clean_shop :: "world \<Rightarrow> bool" where
  "clean_shop w \<longleftrightarrow> new_shop w \<and> (\<forall>n \<ge> drawn w. uuid_supply w n \<noteq> []) \<and> processed_messages (db w) = [] \<and> payment_authorizations (db w) = []"

lemma clean_shop_ids: "clean_shop w \<Longrightarrow> ids_ok w"
  by (simp add: clean_shop_def new_shop_def ids_ok_def names_ok_def ledger_ok_def)

text \<open>A row written after a good state is new to every inbox.\<close>

lemma new_row_unprocessed:
  assumes ok: "ids_ok w" and f: "filed ids w w'" and ids: "ids \<subseteq> uuid_supply w ` {..<drawn w}"
    and row: "outbox_messages (db w') = outbox_messages (db w) @ [row]"
  shows "\<not> in_inbox w' (om_id row, c)"
proof -
  obtain n where "drawn w \<le> n" "om_id row = uuid_supply w n" using f row by (auto simp: filed_def)
  moreover have "inj (uuid_supply w)" using ok by (simp add: ids_ok_def fresh_supply_def)
  ultimately have "om_id row \<notin> uuid_supply w ` {..<drawn w}" by (auto simp: inj_eq)
  moreover have "pm_messageId ` set (processed_messages (db w')) \<subseteq> uuid_supply w ` {..<drawn w}"
  proof (rule order_trans)
    show "pm_messageId ` set (processed_messages (db w')) \<subseteq> pm_messageId ` set (processed_messages (db w)) \<union> ids"
      using f by (simp add: filed_def)
    show "pm_messageId ` set (processed_messages (db w)) \<union> ids \<subseteq> uuid_supply w ` {..<drawn w}"
      using ok ids by (simp add: ids_ok_def)
  qed
  ultimately show ?thesis
    by (auto simp: in_inbox_def inbox_record_def row_where_None) (metis imageI subsetD)
qed

end
