(* ===== verification/Fulfilment.thy ===== *)
theory Fulfilment
  imports Message_Ids
begin



section \<open>The relay\<close>



section \<open>Deliveries\<close>








section \<open>The stages\<close>










section \<open>The whole way\<close>





section \<open>An order\<close>







end
