(* ===== verification/Http_Api.thy ===== *)
theory Http_Api
  imports Http_Routes Fulfilment
begin

text \<open>
  A request from the socket to the answer, as \<^verbatim>\<open>src/main.ts\<close> sets it up: the correlation middleware, the guards
  of the route, the metrics and log interceptors around pipes and handler, and Nest's answer to an exception.
  The handlers are the controllers' methods with the sources of their parameters; the methods themselves are
  in the theories of their services. What is proved holds for every request on every route.
\<close>

section \<open>A request and its answer\<close>

text \<open>What the libraries provide, and the settings.\<close>

record server =
  sv_verify :: "string \<Rightarrow> int \<Rightarrow> JwtPayload option"
  sv_sign :: "JwtPayload \<Rightarrow> int \<Rightarrow> exn + string"
  sv_sha256 :: "string \<Rightarrow> string"
  sv_hash :: "string \<Rightarrow> nat \<Rightarrow> string \<Rightarrow> string"
  sv_compare :: "string \<Rightarrow> string \<Rightarrow> bool"
  sv_samesite :: "string option"
  sv_env :: "string option"
  sv_validate :: validation
  sv_uuid :: "string \<Rightarrow> bool" \<comment> \<open>what \<open>ParseUUIDPipe\<close> accepts\<close>
  sv_instant :: "string \<Rightarrow> int" \<comment> \<open>\<open>new Date(text)\<close>\<close>
  sv_collate :: "string \<Rightarrow> rat" \<comment> \<open>the rank of a text in the database's collation\<close>
  sv_history :: "MetricEventEntity table"

record incoming =
  in_url :: string
  in_authorization :: "string option"
  in_correlation :: header_value
  in_cookies :: "(string \<Rightarrow> string option) option"
  in_params :: "string \<Rightarrow> string"
  in_body :: json_value
  in_query :: json_value

datatype reply =
    TextReply string | UserReply UserResponseDTO | UsersReply "UserResponseDTO list" | TokenReply auth_response
  | MeReply uuid UserRole | ProductsReply "ProductResponseDTO list" | CartReply CartResponseDTO
  | OrderReply OrderResponseDTO | OrdersReply "OrderResponseDTO list" | HistoryReply MetricsHistoryResponseDTO

text \<open>The status an exception carries, and the one Nest answers for it.\<close>

fun error_status :: "exn \<Rightarrow> nat option" where
  "error_status (BadRequestException m) = Some 400"
| "error_status (UnauthorizedException m) = Some 401"
| "error_status (ForbiddenException m) = Some 403"
| "error_status (NotFoundException m) = Some 404"
| "error_status (ConflictException m) = Some 409"
| "error_status e = None"

definition answered_status :: "exn \<Rightarrow> nat" where
  "answered_status e = (case error_status e of Some n \<Rightarrow> n | None \<Rightarrow> 500)"

section \<open>Guards and pipes\<close>

text \<open>The guards in order; the user is what \<open>JwtAuthGuard\<close> puts on the request.\<close>

fun run_guards :: "server \<Rightarrow> incoming \<Rightarrow> UserRole list option \<Rightarrow> guard list \<Rightarrow> JwtPayload option \<Rightarrow>
    (world, JwtPayload option) app" where
  "run_guards sv rq roles [] user = return_app user"
| "run_guards sv rq roles (UseJwtAuthGuard # gs) user =
     bind_app (JwtAuthGuard_canActivate (sv_verify sv) (in_authorization rq)) (\<lambda>u. run_guards sv rq roles gs (Some u))"
| "run_guards sv rq roles (UseRolesGuard # gs) user =
     then_app (RolesGuard_canActivate roles user) (run_guards sv rq roles gs user)"

definition validated :: "server \<Rightarrow> dto_class \<Rightarrow> json_value \<Rightarrow> (world, unit) app" where
  "validated sv c v = (case sv_validate sv buildValidationPipe c v of
     [] \<Rightarrow> return_app () | complaints \<Rightarrow> throw_app (BadRequestException complaints))"

definition run_pipe :: "server \<Rightarrow> incoming \<Rightarrow> input \<Rightarrow> (world, unit) app" where
  "run_pipe sv rq i = (case i of
     NoInput \<Rightarrow> return_app ()
   | UuidParam p \<Rightarrow> if sv_uuid sv (in_params rq p) then return_app ()
       else throw_app (BadRequestException [''Validation failed (uuid is expected)''])
   | BodyOf c \<Rightarrow> validated sv c (in_body rq)
   | QueryOf c \<Rightarrow> validated sv c (in_query rq))"

text \<open>The properties of a value that passed its pipe.\<close>

definition property :: "string \<Rightarrow> json_value \<Rightarrow> json_value option" where
  "property p v = (case v of JObject ps \<Rightarrow> map_of ps p | _ \<Rightarrow> None)"

definition text_property :: "string \<Rightarrow> json_value \<Rightarrow> string option" where
  "text_property p v = (case property p v of Some (JText s) \<Rightarrow> Some s | _ \<Rightarrow> None)"

definition text_of :: "string \<Rightarrow> json_value \<Rightarrow> string" where
  "text_of p v = (case text_property p v of Some s \<Rightarrow> s | None \<Rightarrow> [])"

definition int_of :: "string \<Rightarrow> json_value \<Rightarrow> int" where
  "int_of p v = (case property p v of Some (JNum q) \<Rightarrow> \<lfloor>q\<rfloor> | _ \<Rightarrow> 0)"

definition credentials_of :: "json_value \<Rightarrow> LoginDTO" where
  "credentials_of v = \<lparr>ld_email = text_of ''email'' v, ld_password = text_of ''password'' v\<rparr>"

definition history_query_of :: "server \<Rightarrow> json_value \<Rightarrow> MetricsHistoryQueryDTO" where
  "history_query_of sv v = \<lparr>mq_metric = text_of ''metric'' v,
     mq_resolution = (case text_property ''resolution'' v of None \<Rightarrow> None
       | Some s \<Rightarrow> find (\<lambda>r. resolution_text r = s) all_resolutions),
     mq_from = map_option (sv_instant sv) (text_property ''from'' v),
     mq_to = map_option (sv_instant sv) (text_property ''to'' v)\<rparr>"

section \<open>Handlers\<close>

definition reply_with :: "('a \<Rightarrow> reply) \<Rightarrow> (world, 'a) app \<Rightarrow> (world, reply) app" where
  "reply_with f m = bind_app m (\<lambda>x. return_app (f x))"

text \<open>\<open>@CurrentUser\<close>: the payload on the request; without one the handler reads a property of \<open>undefined\<close>.\<close>

definition current_user :: "JwtPayload option \<Rightarrow> (JwtPayload \<Rightarrow> (world, 'a) app) \<Rightarrow> (world, 'a) app" where
  "current_user user h = (case user of None \<Rightarrow> throw_app (JsError ''TypeError'') | Some u \<Rightarrow> h u)"

definition health_handler :: "(world, reply) app" where
  "health_handler = return_app (TextReply health)"

definition register_handler :: "server \<Rightarrow> incoming \<Rightarrow> (world, reply) app" where
  "register_handler sv rq = reply_with UserReply (auth_register (sv_hash sv) (credentials_of (in_body rq)))"

definition login_handler :: "server \<Rightarrow> incoming \<Rightarrow> (world, reply) app" where
  "login_handler sv rq = reply_with TokenReply
     (auth_login (sv_samesite sv) (sv_env sv) (sv_sha256 sv) (sv_sign sv) (sv_compare sv) (credentials_of (in_body rq)))"

definition refresh_handler :: "server \<Rightarrow> incoming \<Rightarrow> (world, reply) app" where
  "refresh_handler sv rq = reply_with TokenReply
     (auth_refresh (sv_samesite sv) (sv_env sv) (sv_sha256 sv) (sv_sign sv) (in_cookies rq))"

definition me_handler :: "JwtPayload option \<Rightarrow> (world, reply) app" where
  "me_handler user = current_user user (\<lambda>u. return_app (MeReply (j_sub u) (j_role u)))"

definition users_handler :: "(world, reply) app" where
  "users_handler = reply_with (\<lambda>us. UsersReply (map toUserResponseDTO us)) (query listUsers)"

definition disable_handler :: "incoming \<Rightarrow> (world, reply) app" where
  "disable_handler rq = reply_with (\<lambda>u. UserReply (toUserResponseDTO u)) (disableUser (in_params rq ''id''))"

definition enable_handler :: "incoming \<Rightarrow> (world, reply) app" where
  "enable_handler rq = reply_with (\<lambda>u. UserReply (toUserResponseDTO u)) (enableUser (in_params rq ''id''))"

definition products_handler :: "server \<Rightarrow> (world, reply) app" where
  "products_handler sv = reply_with ProductsReply (query (products_controller_list (sv_collate sv)))"

definition cart_handler :: "JwtPayload option \<Rightarrow> (world, reply) app" where
  "cart_handler user = current_user user (\<lambda>u. reply_with CartReply (cart_controller_get (j_sub u)))"

definition set_item_handler :: "incoming \<Rightarrow> JwtPayload option \<Rightarrow> (world, reply) app" where
  "set_item_handler rq user = current_user user (\<lambda>u. reply_with CartReply
     (cart_controller_setItem (j_sub u) (text_of ''productId'' (in_body rq)) (int_of ''quantity'' (in_body rq))))"

definition remove_item_handler :: "incoming \<Rightarrow> JwtPayload option \<Rightarrow> (world, reply) app" where
  "remove_item_handler rq user = current_user user (\<lambda>u. reply_with CartReply
     (cart_controller_removeItem (j_sub u) (in_params rq ''productId'')))"

definition checkout_handler :: "JwtPayload option \<Rightarrow> (world, reply) app" where
  "checkout_handler user = current_user user (\<lambda>u. reply_with OrderReply (cart_controller_checkout (j_sub u)))"

definition orders_handler :: "JwtPayload option \<Rightarrow> (world, reply) app" where
  "orders_handler user = current_user user (\<lambda>u. reply_with OrdersReply (orders_controller_list (j_sub u)))"

definition order_handler :: "incoming \<Rightarrow> JwtPayload option \<Rightarrow> (world, reply) app" where
  "order_handler rq user = current_user user (\<lambda>u. reply_with OrderReply (orders_controller_getById (in_params rq ''id'') (j_sub u)))"

definition pay_handler :: "incoming \<Rightarrow> JwtPayload option \<Rightarrow> (world, reply) app" where
  "pay_handler rq user = current_user user (\<lambda>u. reply_with OrderReply (orders_controller_pay (in_params rq ''id'') (j_sub u)))"

definition cancel_handler :: "incoming \<Rightarrow> JwtPayload option \<Rightarrow> (world, reply) app" where
  "cancel_handler rq user = current_user user (\<lambda>u. reply_with OrderReply (orders_controller_cancel (in_params rq ''id'') (j_sub u)))"

definition history_handler :: "server \<Rightarrow> incoming \<Rightarrow> (world, reply) app" where
  "history_handler sv rq = bind_app read_clock (\<lambda>now.
     return_app (HistoryReply (query_history (history_query_of sv (in_query rq)) now (sv_history sv))))"

fun run_handler :: "server \<Rightarrow> incoming \<Rightarrow> JwtPayload option \<Rightarrow> endpoint \<Rightarrow> (world, reply) app" where
  "run_handler sv rq user Health = health_handler"
| "run_handler sv rq user Register = register_handler sv rq"
| "run_handler sv rq user Login = login_handler sv rq"
| "run_handler sv rq user Refresh = refresh_handler sv rq"
| "run_handler sv rq user Me = me_handler user"
| "run_handler sv rq user ListUsers = users_handler"
| "run_handler sv rq user DisableUser = disable_handler rq"
| "run_handler sv rq user EnableUser = enable_handler rq"
| "run_handler sv rq user ListProducts = products_handler sv"
| "run_handler sv rq user GetCart = cart_handler user"
| "run_handler sv rq user SetItem = set_item_handler rq user"
| "run_handler sv rq user RemoveItem = remove_item_handler rq user"
| "run_handler sv rq user Checkout = checkout_handler user"
| "run_handler sv rq user ListOrders = orders_handler user"
| "run_handler sv rq user GetOrder = order_handler rq user"
| "run_handler sv rq user PayOrder = pay_handler rq user"
| "run_handler sv rq user CancelOrder = cancel_handler rq user"
| "run_handler sv rq user GetHistory = history_handler sv rq"

section \<open>Serving\<close>

fun method_text :: "http_method \<Rightarrow> string" where
  "method_text GET = ''GET''" | "method_text POST = ''POST''" | "method_text PATCH = ''PATCH''" | "method_text DELETE = ''DELETE''"

text \<open>
  An answer: status, and the reply or the exception Nest turns into a body; and the lines logged for it. The
  interceptors are around pipes and handler: they see neither the requests a guard refuses, nor a duration
  other than the clock's.
\<close>

record answer =
  an_status :: nat
  an_body :: "exn + reply"
  an_log :: "(log_level \<times> log_message) list"

definition worked :: "server \<Rightarrow> incoming \<Rightarrow> JwtPayload option \<Rightarrow> endpoint \<Rightarrow> (world, reply) app" where
  "worked sv rq user e = then_app (run_pipe sv rq (input_of e)) (run_handler sv rq user e)"

definition intercepted :: "incoming \<Rightarrow> endpoint \<Rightarrow> (world, reply) app \<Rightarrow> world \<Rightarrow> answer \<times> world" where
  "intercepted rq e m w = (case m w of (r, w') \<Rightarrow>
     let metric = (case r of Inl x \<Rightarrow> Raised (error_status x) | Inr _ \<Rightarrow> Responded (success_status e));
         outcome = (case r of Inl x \<Rightarrow> HandlerError (map_option int (error_status x)) | Inr _ \<Rightarrow> HandlerDone (int (success_status e)));
         line = logging_intercept \<lparr>hx_method = method_text (method_of e), hx_originalUrl = in_url rq\<rparr> (clock w) (clock w') outcome w'
     in (\<lparr>an_status = (case r of Inl x \<Rightarrow> answered_status x | Inr _ \<Rightarrow> success_status e), an_body = r, an_log = [line]\<rparr>,
         w'\<lparr>collectors := intercept ''http'' (Some (Some (route_path e))) (method_text (method_of e)) metric
              (of_int (clock w' - clock w) / 1000) (collectors w')\<rparr>))"

definition answered :: "server \<Rightarrow> incoming \<Rightarrow> endpoint \<Rightarrow> (world, answer) app" where
  "answered sv rq e w = (case run_guards sv rq (roles_of e) (guards_of e) None w of
     (Inl x, w') \<Rightarrow> (Inr \<lparr>an_status = answered_status x, an_body = Inl x, an_log = []\<rparr>, w')
   | (Inr user, w') \<Rightarrow> (case intercepted rq e (worked sv rq user e) w' of (a, w'') \<Rightarrow> (Inr a, w'')))"

text \<open>With the middleware around it: the id the response echoes, and the answer.\<close>

definition serve_request :: "server \<Rightarrow> endpoint \<Rightarrow> incoming \<Rightarrow> (world, string \<times> answer) app" where
  "serve_request sv e rq = correlationClsModule (in_correlation rq) (answered sv rq e)"

section \<open>How a request runs\<close>

lemma snd_reply_with [simp]: "snd (reply_with f m w) = snd (m w)"
  by (simp add: reply_with_def bind_app_def split: prod.split sum.split)

lemma fst_reply_with: "fst (reply_with f m w) = map_sum id f (fst (m w))"
  by (simp add: reply_with_def bind_app_def split: prod.split sum.split)

lemma current_user_Some [simp]: "current_user (Some u) h = h u"
  by (simp add: current_user_def)

lemma run_pipe_cases:
  obtains "run_pipe sv rq i w = (Inr (), w)" | ms where "run_pipe sv rq i w = (Inl (BadRequestException ms), w)"
proof -
  have "validated sv c v w = (Inr (), w) \<or> (\<exists>ms. validated sv c v w = (Inl (BadRequestException ms), w))" for c v
    by (simp add: validated_def split: list.split)
  then have "run_pipe sv rq i w = (Inr (), w) \<or> (\<exists>ms. run_pipe sv rq i w = (Inl (BadRequestException ms), w))"
    by (cases i) (simp_all add: run_pipe_def)
  with that show thesis by blast
qed

text \<open>What a route asks of the caller's token.\<close>

definition asked_roles :: "endpoint \<Rightarrow> UserRole list" where
  "asked_roles e = (if e \<in> {ListUsers, DisableUser, EnableUser} then [ADMIN] else [])"

abbreviation open_routes :: "endpoint set" where
  "open_routes \<equiv> {Health, Register, Login, Refresh}"

definition caller :: "server \<Rightarrow> endpoint \<Rightarrow> incoming \<Rightarrow> int \<Rightarrow> JwtPayload \<Rightarrow> bool" where
  "caller sv e rq t payload \<longleftrightarrow> granted (sv_verify sv) (asked_roles e) (in_authorization rq) t payload"

lemma any_role: "granted verify [USER] a t p = granted verify [] a t p"
  by (cases "j_role p") (simp_all add: granted_def)

text \<open>A guard that takes any role refuses for want of a token only.\<close>

lemma guarded_without_token:
  assumes "rs \<in> {[], [USER]}" and "\<nexists>p. granted verify rs a (clock w) p"
  shows "guarded verify rs a h w = (Inl (UnauthorizedException ''Unauthorized''), w)"
proof -
  have "\<nexists>token p. bearer a token \<and> verify token (clock w) = Some p"
  proof
    assume "\<exists>token p. bearer a token \<and> verify token (clock w) = Some p"
    then obtain p where "granted verify [] a (clock w) p" by (auto simp: granted_def)
    with assms show False by (auto simp: any_role)
  qed
  then show ?thesis
    by (auto simp: guarded_def JwtAuthGuard_canActivate_def bind_app_def extractBearerToken_Some [symmetric] split: option.splits)
qed

lemma guards_guarded:
  assumes "e \<notin> open_routes"
  shows "\<exists>rs. run_guards sv rq (roles_of e) (guards_of e) None =
      guarded (sv_verify sv) rs (in_authorization rq) (\<lambda>u. return_app (Some u)) \<and>
    (\<forall>t p. granted (sv_verify sv) rs (in_authorization rq) t p = caller sv e rq t p) \<and>
    (asked_roles e = [] \<longrightarrow> rs \<in> {[], [USER]})"
proof -
  let ?rs = "if e = Me then [USER] else asked_roles e"
  have "then_app (RolesGuard_canActivate (Some []) u) k = k" for u and k :: "(world, JwtPayload option) app"
    by (simp add: RolesGuard_canActivate_def then_app_def)
  then have "run_guards sv rq (roles_of e) (guards_of e) None =
      guarded (sv_verify sv) ?rs (in_authorization rq) (\<lambda>u. return_app (Some u))"
    using assms by (auto simp: guarded_def asked_roles_def)
  moreover have "granted (sv_verify sv) ?rs (in_authorization rq) t p = caller sv e rq t p" for t p
    by (simp add: caller_def asked_roles_def any_role)
  moreover have "asked_roles e = [] \<longrightarrow> ?rs \<in> {[], [USER]}" by simp
  ultimately show ?thesis by blast
qed

lemma answered_open:
  "e \<in> open_routes \<Longrightarrow> answered sv rq e w = map_prod Inr id (intercepted rq e (worked sv rq None e) w)"
  by (auto simp: answered_def map_prod_def split: prod.split)

lemma answered_caller:
  assumes "e \<notin> open_routes" and "caller sv e rq (clock w) u"
  shows "answered sv rq e w = map_prod Inr id (intercepted rq e (worked sv rq (Some u) e) w)"
proof -
  obtain rs where rs: "run_guards sv rq (roles_of e) (guards_of e) None =
      guarded (sv_verify sv) rs (in_authorization rq) (\<lambda>u. return_app (Some u))"
    "granted (sv_verify sv) rs (in_authorization rq) (clock w) u"
    using guards_guarded [OF assms(1)] assms(2) by blast
  have "run_guards sv rq (roles_of e) (guards_of e) None w = (Inr (Some u), w)"
    by (simp only: rs(1) guarded_allowed [OF rs(2)] run_return)
  then show ?thesis by (simp only: answered_def) (simp add: map_prod_def split: prod.split)
qed

lemma answered_stranger:
  assumes "e \<notin> open_routes" and "\<nexists>u. caller sv e rq (clock w) u"
  shows "\<exists>x. answered sv rq e w = (Inr \<lparr>an_status = answered_status x, an_body = Inl x, an_log = []\<rparr>, w) \<and>
    answered_status x \<in> (if asked_roles e = [] then {401} else {401, 403})"
proof -
  obtain rs where rs: "run_guards sv rq (roles_of e) (guards_of e) None =
      guarded (sv_verify sv) rs (in_authorization rq) (\<lambda>u. return_app (Some u))"
    "\<nexists>u. granted (sv_verify sv) rs (in_authorization rq) (clock w) u" "asked_roles e = [] \<longrightarrow> rs \<in> {[], [USER]}"
    using guards_guarded [OF assms(1)] assms(2) by metis
  have "run_guards sv rq (roles_of e) (guards_of e) None w \<in>
      {(Inl (UnauthorizedException ''Unauthorized''), w), (Inl (ForbiddenException ''Insufficient permissions''), w)}"
    unfolding rs(1) by (rule guarded_refused [OF rs(2)])
  moreover have "run_guards sv rq (roles_of e) (guards_of e) None w = (Inl (UnauthorizedException ''Unauthorized''), w)"
    if "asked_roles e = []" unfolding rs(1) by (rule guarded_without_token) (use rs(2,3) that in blast)+
  ultimately show ?thesis unfolding answered_def by (cases "asked_roles e = []") (auto simp: answered_status_def)
qed

text \<open>The frame: a context with the request's id, gone when the answer is.\<close>

lemma serve_run:
  obtains cid n where "drawn w \<le> n" and "serve_request sv e rq w =
    (case answered sv rq e (w\<lparr>drawn := n, cls := Some (Some cid)\<rparr>) of
       (r, w') \<Rightarrow> (case r of Inl x \<Rightarrow> Inl x | Inr a \<Rightarrow> Inr (cid, a), w'\<lparr>cls := cls w\<rparr>))"
proof -
  obtain cid n where "resolveCorrelationId (in_correlation rq) w = (Inr cid, w\<lparr>drawn := n\<rparr>)" "drawn w \<le> n"
    using resolve_run by blast
  then show ?thesis
    by (intro that [of n cid])
      (simp_all add: serve_request_def correlationClsModule_def cls_run_def bind_app_def split: prod.split sum.split)
qed

text \<open>Pipes and handler, with what the interceptors record.\<close>

lemma intercepted_run:
  assumes "h w = (r, v)"
  shows "\<exists>m l. intercepted rq e h w = (\<lparr>an_status = (case r of Inl x \<Rightarrow> answered_status x | Inr _ \<Rightarrow> success_status e),
    an_body = r, an_log = [l]\<rparr>, v\<lparr>collectors := m\<rparr>)"
  by (auto simp: intercepted_def assms Let_def)

text \<open>So a request either ends at a guard, or pipe and handler run, for the caller the guards found.\<close>

lemma serve_cases:
  obtains (refused) cid n x where "e \<notin> open_routes" and "\<nexists>u. caller sv e rq (clock w) u" and "drawn w \<le> n"
      and "answered_status x \<in> (if asked_roles e = [] then {401} else {401, 403})"
      and "serve_request sv e rq w = (Inr (cid, \<lparr>an_status = answered_status x, an_body = Inl x, an_log = []\<rparr>), w\<lparr>drawn := n\<rparr>)"
  | (worked) cid n user r v m l where "if e \<in> open_routes then user = None else \<exists>u. user = Some u \<and> caller sv e rq (clock w) u"
      and "drawn w \<le> n"
      and "worked sv rq user e (w\<lparr>drawn := n, cls := Some (Some cid)\<rparr>) = (r, v)"
      and "serve_request sv e rq w = (Inr (cid, \<lparr>an_status = (case r of Inl x \<Rightarrow> answered_status x | Inr _ \<Rightarrow> success_status e),
        an_body = r, an_log = [l]\<rparr>), v\<lparr>cls := cls w, collectors := m\<rparr>)"
proof -
  obtain cid n where n: "drawn w \<le> n" and run: "serve_request sv e rq w =
    (case answered sv rq e (w\<lparr>drawn := n, cls := Some (Some cid)\<rparr>) of
       (r, w') \<Rightarrow> (case r of Inl x \<Rightarrow> Inl x | Inr a \<Rightarrow> Inr (cid, a), w'\<lparr>cls := cls w\<rparr>))"
    using serve_run by blast
  let ?w = "w\<lparr>drawn := n, cls := Some (Some cid)\<rparr>"
  show thesis
  proof (cases "e \<notin> open_routes \<and> (\<nexists>u. caller sv e rq (clock w) u)")
    case True
    then have "\<nexists>u. caller sv e rq (clock ?w) u" by simp
    with True obtain x where "answered sv rq e ?w = (Inr \<lparr>an_status = answered_status x, an_body = Inl x, an_log = []\<rparr>, ?w)"
      "answered_status x \<in> (if asked_roles e = [] then {401} else {401, 403})" using answered_stranger [of e sv rq ?w] by blast
    with True n show thesis by (intro refused [of n x cid]) (simp_all add: run)
  next
    case False
    then obtain user where user: "if e \<in> open_routes then user = None else \<exists>u. user = Some u \<and> caller sv e rq (clock w) u"
      by (cases "e \<in> open_routes") auto
    have "answered sv rq e ?w = map_prod Inr id (intercepted rq e (worked sv rq user e) ?w)"
    proof (cases "e \<in> open_routes")
      case True
      with user show ?thesis by (simp only: answered_open [OF True] if_True)
    next
      case False
      with user obtain u where "user = Some u" "caller sv e rq (clock ?w) u" by (simp only: if_False) auto
      then show ?thesis using answered_caller [OF False] by simp
    qed
    moreover obtain r v where work: "worked sv rq user e ?w = (r, v)" by fastforce
    moreover obtain m l where "intercepted rq e (worked sv rq user e) ?w = (\<lparr>an_status = (case r of
        Inl x \<Rightarrow> answered_status x | Inr _ \<Rightarrow> success_status e), an_body = r, an_log = [l]\<rparr>, v\<lparr>collectors := m\<rparr>)"
      using intercepted_run [of "worked sv rq user e" ?w r v rq e, OF work] by blast
    ultimately show thesis by (intro worked [OF user n work, of l m]) (simp add: run)
  qed
qed

section \<open>Strangers\<close>

text \<open>
  C6: The protected routes do nothing for a stranger. Whatever the request holds otherwise, a request on any
  route but the health probe and the three public ones of \<open>auth\<close> is answered 401 or 403 unless it brings a
  bearer token the verifier accepts at this moment, an \<open>ADMIN\<close>'s for the administration of users; and nothing
  is different afterwards, but that an id for the request may have been drawn. Such a refusal comes before the
  interceptors, so it is neither logged nor counted.
\<close>

theorem strangers_refused:
  assumes "e \<notin> {Health, Register, Login, Refresh}"
    and "\<nexists>payload. granted (sv_verify sv) (if e \<in> {ListUsers, DisableUser, EnableUser} then [ADMIN] else [])
      (in_authorization rq) (clock w) payload"
  shows "\<exists>cid a n. serve_request sv e rq w = (Inr (cid, a), w\<lparr>drawn := n\<rparr>) \<and> drawn w \<le> n \<and>
    an_status a \<in> {401, 403} \<and> an_log a = []"
proof -
  have none: "\<nexists>u. caller sv e rq (clock w) u" using assms(2) by (simp add: caller_def asked_roles_def)
  show ?thesis
  proof (cases rule: serve_cases [of e sv rq w])
    case (refused cid n x)
    have "answered_status x \<in> {401, 403}" using refused(4) by (simp split: if_split_asm)
    then show ?thesis
      by (intro exI [of _ cid] exI [of _ "\<lparr>an_status = answered_status x, an_body = Inl x, an_log = []\<rparr>"] exI [of _ n] conjI)
        (simp_all only: answer.simps refused(3,5))
  next
    case (worked cid n user r v m l)
    from worked(1) none show ?thesis by (simp only: if_not_P [OF assms(1)]) blast
  qed
qed

section \<open>Input\<close>

text \<open>What the declared rules ask of a request's input.\<close>

definition conforms :: "server \<Rightarrow> dto_class \<Rightarrow> json_value \<Rightarrow> bool" where
  "conforms sv c v \<longleftrightarrow> (\<exists>ps. v = JObject ps \<and> fst ` set ps \<subseteq> fst ` set c \<and>
     (\<forall>(p, rs) \<in> set c. meets_all (sv_uuid sv) rs (map_of ps p)))"

definition input_conforms :: "server \<Rightarrow> endpoint \<Rightarrow> incoming \<Rightarrow> bool" where
  "input_conforms sv e rq = (case input_of e of
     NoInput \<Rightarrow> True
   | UuidParam p \<Rightarrow> sv_uuid sv (in_params rq p)
   | BodyOf c \<Rightarrow> conforms sv c (in_body rq)
   | QueryOf c \<Rightarrow> conforms sv c (in_query rq))"

lemma input_simps [simp]:
  "input_of e = (if e = Register then BodyOf RegisterDTO_class else if e = Login then BodyOf LoginDTO_class
     else if e = SetItem then BodyOf SetCartItemDTO_class else if e = GetHistory then QueryOf MetricsHistoryQueryDTO_class
     else if e = RemoveItem then UuidParam ''productId''
     else if e \<in> {DisableUser, EnableUser, GetOrder, PayOrder, CancelOrder} then UuidParam ''id'' else NoInput)"
  by (cases e) (simp_all add: input_of_def route_defs)

lemma accepted_conforms:
  assumes "pipe_documented (sv_uuid sv) (sv_validate sv)" and "run_pipe sv rq (input_of e) w = (Inr (), w)"
  shows "input_conforms sv e rq"
proof -
  have v: "conforms sv c v" if "validated sv c v w = (Inr (), w)" for c v
  proof -
    have "sv_validate sv buildValidationPipe c v = []" using that by (auto simp: validated_def split: list.splits)
    with assms(1) show ?thesis unfolding pipe_documented_def conforms_def by blast
  qed
  show ?thesis
    using assms(2) unfolding input_conforms_def run_pipe_def
    by (cases "input_of e") (simp_all only: input.case v split: if_split_asm, simp_all)
qed

lemma conforms_item:
  assumes "conforms sv SetCartItemDTO_class v"
  shows "sv_uuid sv (text_of ''productId'' v) \<and> 1 \<le> int_of ''quantity'' v \<and>
    (\<exists>ps. v = JObject ps \<and> map_of ps ''productId'' = Some (JText (text_of ''productId'' v)) \<and>
       map_of ps ''quantity'' = Some (JNum (of_int (int_of ''quantity'' v))) \<and> fst ` set ps \<subseteq> {''productId'', ''quantity''})"
  using assms
  by (auto simp: conforms_def SetCartItemDTO_class_def meets_all_def text_of_def int_of_def text_property_def property_def)

lemma conforms_login:
  assumes "conforms sv LoginDTO_class v"
  shows "\<exists>ps. v = JObject ps \<and> map_of ps ''email'' = Some (JText (ld_email (credentials_of v))) \<and>
    map_of ps ''password'' = Some (JText (ld_password (credentials_of v))) \<and> ld_password (credentials_of v) \<noteq> []"
  using assms
  by (auto simp: conforms_def LoginDTO_class_def meets_all_def text_of_def text_property_def property_def credentials_of_def)

lemma conforms_register:
  assumes "conforms sv RegisterDTO_class v"
  shows "\<exists>ps. v = JObject ps \<and> map_of ps ''email'' = Some (JText (ld_email (credentials_of v))) \<and>
    map_of ps ''password'' = Some (JText (ld_password (credentials_of v))) \<and> length (ld_password (credentials_of v)) \<le> 72"
  using assms
  by (auto simp: conforms_def RegisterDTO_class_def meets_all_def text_of_def text_property_def property_def credentials_of_def)

lemma worked_malformed:
  assumes "pipe_documented (sv_uuid sv) (sv_validate sv)" and "\<not> input_conforms sv e rq"
  shows "\<exists>ms. worked sv rq user e w = (Inl (BadRequestException ms), w)"
  using accepted_conforms [OF assms(1)] assms(2)
  by (cases rule: run_pipe_cases [of sv rq "input_of e" w]) (auto simp: worked_def then_app_def bind_app_def)


lemma malformed_answered:
  assumes "pipe_documented (sv_uuid sv) (sv_validate sv)" and "\<not> input_conforms sv e rq"
  shows "\<exists>cid a n m. serve_request sv e rq w = (Inr (cid, a), w\<lparr>drawn := n, collectors := m\<rparr>) \<and> an_status a \<in> {400, 401, 403} \<and>
    (e \<in> open_routes \<or> (\<exists>u. caller sv e rq (clock w) u) \<longrightarrow> an_status a = 400)"
proof (cases rule: serve_cases [of e sv rq w])
  case (refused cid n x)
  show ?thesis
    by (intro exI [of _ cid] exI [of _ "\<lparr>an_status = answered_status x, an_body = Inl x, an_log = []\<rparr>"] exI [of _ n]
        exI [of _ "collectors w"]) (use refused in \<open>auto split: if_split_asm\<close>)
next
  case (worked cid n user r v m l)
  obtain ms where "worked sv rq user e (w\<lparr>drawn := n, cls := Some (Some cid)\<rparr>) =
      (Inl (BadRequestException ms), w\<lparr>drawn := n, cls := Some (Some cid)\<rparr>)"
    using worked_malformed [OF assms] by blast
  then have "r = Inl (BadRequestException ms)" "v = w\<lparr>drawn := n, cls := Some (Some cid)\<rparr>"
    using worked(3) by simp_all
  with worked(4) show ?thesis
    by (intro exI [of _ cid] exI [of _ "\<lparr>an_status = 400, an_body = Inl (BadRequestException ms), an_log = [l]\<rparr>"]
        exI [of _ n] exI [of _ m]) (simp add: answered_status_def)
qed

text \<open>
  C7: Malformed input is refused whole. Let the validation pipe do what its documentation says. Then a request
  whose body, query or path parameter breaks a rule its route declares, or which carries a property the DTO
  does not declare, is answered 400 (401 or 403 when a guard already refuses it), and no table, no key of the
  cache and no message is different. So the cart service is called with what the body says, a UUID and an
  integer of at least one, and the login with two texts, the password not empty.
\<close>

theorem malformed_input_refused:
  assumes "pipe_documented (sv_uuid sv) (sv_validate sv)"
  shows "(\<not> input_conforms sv e rq \<longrightarrow>
      (\<exists>cid a n m. serve_request sv e rq w = (Inr (cid, a), w\<lparr>drawn := n, collectors := m\<rparr>) \<and> an_status a \<in> {400, 401, 403} \<and>
        (e \<in> {Health, Register, Login, Refresh} \<or> (\<exists>payload. granted (sv_verify sv)
            (if e \<in> {ListUsers, DisableUser, EnableUser} then [ADMIN] else []) (in_authorization rq) (clock w) payload) \<longrightarrow>
          an_status a = 400))) \<and>
    (input_conforms sv SetItem rq \<longrightarrow> (\<exists>ps pid n. in_body rq = JObject ps \<and> map_of ps ''productId'' = Some (JText pid) \<and>
      map_of ps ''quantity'' = Some (JNum (of_int n)) \<and> sv_uuid sv pid \<and> 1 \<le> n \<and>
      run_handler sv rq (Some u) SetItem = reply_with CartReply (cart_controller_setItem (j_sub u) pid n))) \<and>
    (input_conforms sv Login rq \<longrightarrow> (\<exists>ps email password. in_body rq = JObject ps \<and> map_of ps ''email'' = Some (JText email) \<and>
      map_of ps ''password'' = Some (JText password) \<and> password \<noteq> [] \<and>
      credentials_of (in_body rq) = \<lparr>ld_email = email, ld_password = password\<rparr>))"
proof (intro conjI impI)
  assume "\<not> input_conforms sv e rq"
  from malformed_answered [OF assms this] show "\<exists>cid a n m. serve_request sv e rq w = (Inr (cid, a), w\<lparr>drawn := n, collectors := m\<rparr>) \<and>
      an_status a \<in> {400, 401, 403} \<and> (e \<in> {Health, Register, Login, Refresh} \<or> (\<exists>payload. granted (sv_verify sv)
        (if e \<in> {ListUsers, DisableUser, EnableUser} then [ADMIN] else []) (in_authorization rq) (clock w) payload) \<longrightarrow>
      an_status a = 400)" unfolding caller_def asked_roles_def .
next
  assume "input_conforms sv SetItem rq"
  with conforms_item show "\<exists>ps pid n. in_body rq = JObject ps \<and> map_of ps ''productId'' = Some (JText pid) \<and>
      map_of ps ''quantity'' = Some (JNum (of_int n)) \<and> sv_uuid sv pid \<and> 1 \<le> n \<and>
      run_handler sv rq (Some u) SetItem = reply_with CartReply (cart_controller_setItem (j_sub u) pid n)"
    by (fastforce simp: input_conforms_def set_item_handler_def)
next
  assume "input_conforms sv Login rq"
  then have "conforms sv LoginDTO_class (in_body rq)" by (simp add: input_conforms_def)
  from conforms_login [OF this] show "\<exists>ps email password. in_body rq = JObject ps \<and> map_of ps ''email'' = Some (JText email) \<and>
      map_of ps ''password'' = Some (JText password) \<and> password \<noteq> [] \<and>
      credentials_of (in_body rq) = \<lparr>ld_email = email, ld_password = password\<rparr>"
    by (auto simp: credentials_of_def)
qed

section \<open>Requests are steps of the shop\<close>







section \<open>A server\<close>

text \<open>A pipe that decides the rules, with every non-empty text a UUID and any text of any format.\<close>

fun accepts_rule :: "rule \<Rightarrow> json_value option \<Rightarrow> bool" where
  "accepts_rule IsUUID (Some (JText s)) = (s \<noteq> [])"
| "accepts_rule IsInt (Some (JNum q)) = (of_int \<lfloor>q\<rfloor> = q)"
| "accepts_rule (Min m) (Some (JNum q)) = (of_int m \<le> q)"
| "accepts_rule (MaxLength n) (Some (JText s)) = (length s \<le> n)"
| "accepts_rule IsNotEmpty (Some v) = (v \<noteq> JNull \<and> v \<noteq> JText [])"
| "accepts_rule (IsIn xs) (Some (JText s)) = (s \<in> set xs)"
| "accepts_rule (IsEnum xs) (Some (JText s)) = (s \<in> set xs)"
| "accepts_rule IsOptional v = True"
| "accepts_rule IsEmail (Some (JText s)) = True"
| "accepts_rule IsStrongPassword (Some (JText s)) = True"
| "accepts_rule IsString (Some (JText s)) = True"
| "accepts_rule IsISO8601 (Some (JText s)) = True"
| "accepts_rule r v = False"

definition accepts_property :: "rule list \<Rightarrow> json_value option \<Rightarrow> bool" where
  "accepts_property rs v \<longleftrightarrow> IsOptional \<in> set rs \<and> (v = None \<or> v = Some JNull) \<or> list_all (\<lambda>r. accepts_rule r v) rs"

fun example_validate :: validation where
  "example_validate opts c (JObject ps) =
     (if list_all (\<lambda>(p, v). p \<in> set (map fst c)) ps \<and> list_all (\<lambda>(p, rs). accepts_property rs (map_of ps p)) c
      then [] else [''malformed''])"
| "example_validate opts c v = [''not an object'']"

lemma accepts_rule_meets: "accepts_rule r v \<Longrightarrow> meets (\<lambda>s. s \<noteq> []) r v"
  by (induction r v rule: accepts_rule.induct) (auto simp: dest: sym)

lemma example_validate_documented: "pipe_documented (\<lambda>s. s \<noteq> []) example_validate"
proof -
  have "meets_all (\<lambda>s. s \<noteq> []) rs v" if "accepts_property rs v" for rs v
    using that by (auto simp: accepts_property_def meets_all_def list_all_iff intro: accepts_rule_meets)
  then have "\<exists>ps. v = JObject ps \<and> fst ` set ps \<subseteq> fst ` set c \<and> (\<forall>(p, rs) \<in> set c. meets_all (\<lambda>s. s \<noteq> []) rs (map_of ps p))"
    if "example_validate opts c v = []" for opts c v
    using that by (cases v) (fastforce simp: list_all_iff split: if_splits)+
  then show ?thesis unfolding pipe_documented_def by blast
qed

definition example_server :: server where
  "example_server = \<lparr>sv_verify = example_verify, sv_sign = example_sign, sv_sha256 = rev, sv_hash = example_hash,
     sv_compare = example_compare, sv_samesite = None, sv_env = None, sv_validate = example_validate,
     sv_uuid = (\<lambda>s. s \<noteq> []), sv_instant = (\<lambda>s. 0), sv_collate = (\<lambda>s. of_nat (length s)), sv_history = []\<rparr>"

definition example_request :: "string option \<Rightarrow> json_value \<Rightarrow> incoming" where
  "example_request authorization body = \<lparr>in_url = ''/'', in_authorization = authorization, in_correlation = NoHeader,
     in_cookies = None, in_params = (\<lambda>_. ''o''), in_body = body, in_query = JNull\<rparr>"

lemma example_caller: "granted example_verify [] (Some ''Bearer good'') t \<lparr>j_sub = ''u'', j_role = USER, j_iat = None, j_exp = None\<rparr>"
proof -
  have "bearer (Some ''Bearer good'') ''good''" by (simp add: bearer_def)
  then show ?thesis by (auto simp: granted_def example_verify_def)
qed

lemma example_documented: "pipe_documented (sv_uuid example_server) (sv_validate example_server)"
  using example_validate_documented by (simp add: example_server_def)

theorem strangers_refused_witness:
  "\<exists>cid a n. serve_request example_server PayOrder (example_request None JNull) cart_example = (Inr (cid, a), cart_example\<lparr>drawn := n\<rparr>) \<and>
    an_status a \<in> {401, 403} \<and> an_log a = []"
proof -
  have "\<nexists>payload. granted (sv_verify example_server) (if PayOrder \<in> {ListUsers, DisableUser, EnableUser} then [ADMIN] else [])
      (in_authorization (example_request None JNull)) (clock cart_example) payload"
    by (simp add: example_request_def granted_def bearer_def)
  from strangers_refused [OF _ this] show ?thesis by auto
qed

theorem malformed_input_refused_witness:
  "let rq = example_request (Some ''Bearer good'') (JObject [(''productId'', JText ''p''), (''quantity'', JNum 0)])
   in \<exists>cid a n m. serve_request example_server SetItem rq cart_example = (Inr (cid, a), cart_example\<lparr>drawn := n, collectors := m\<rparr>) \<and>
     an_status a = 400"
proof -
  let ?rq = "example_request (Some ''Bearer good'') (JObject [(''productId'', JText ''p''), (''quantity'', JNum 0)])"
  have no: "\<not> input_conforms example_server SetItem ?rq"
    by (auto simp: input_conforms_def conforms_def example_request_def SetCartItemDTO_class_def meets_all_def)
  have yes: "\<exists>payload. granted (sv_verify example_server) [] (in_authorization ?rq) (clock cart_example) payload"
    using example_caller by (auto simp: example_server_def example_request_def)
  from malformed_input_refused [OF example_documented, THEN conjunct1, rule_format, OF no, of cart_example] yes
  show ?thesis unfolding Let_def by simp blast
qed


end
