(* ===== verification/Http_Answers.thy ===== *)
theory Http_Answers
  imports Http_Api
begin

text \<open>
  What the API answers: the statuses each route can answer, against those its decorators document, and whose
  orders it shows. \<open>ends S Q m\<close> says of a method that whatever it throws is answered with a status of \<open>S\<close>, and
  whatever it returns satisfies \<open>Q\<close>; its rules are \<open>ends_rules\<close>.
\<close>

section \<open>How a method ends\<close>

definition ends :: "nat set \<Rightarrow> ('a \<Rightarrow> bool) \<Rightarrow> ('s, 'a) app \<Rightarrow> bool" where
  "ends S Q m \<longleftrightarrow> (\<forall>w. case fst (m w) of Inl x \<Rightarrow> answered_status x \<in> S | Inr a \<Rightarrow> Q a)"

named_theorems ends_rules \<open>how methods end\<close>

lemma endsI: "(\<And>w x w'. m w = (Inl x, w') \<Longrightarrow> answered_status x \<in> S) \<Longrightarrow> (\<And>w a w'. m w = (Inr a, w') \<Longrightarrow> Q a) \<Longrightarrow> ends S Q m"
  unfolding ends_def by (metis (no_types, lifting) prod.collapse sum.case_eq_if sum.collapse)

lemma ends_thrown: "ends S Q m \<Longrightarrow> m w = (Inl x, w') \<Longrightarrow> answered_status x \<in> S"
  unfolding ends_def by (metis fst_conv sum.simps(5))

lemma ends_returned: "ends S Q m \<Longrightarrow> m w = (Inr a, w') \<Longrightarrow> Q a"
  unfolding ends_def by (metis fst_conv sum.simps(6))

lemma ends_weaken: "ends S Q m \<Longrightarrow> S \<subseteq> T \<Longrightarrow> (\<And>a. Q a \<Longrightarrow> R a) \<Longrightarrow> ends T R m"
  by (rule endsI) (auto dest: ends_thrown ends_returned)

lemma ends_return [ends_rules]: "Q a \<Longrightarrow> ends S Q (return_app a)"
  by (simp add: ends_def)

lemma ends_throw [ends_rules]: "answered_status x \<in> S \<Longrightarrow> ends S Q (throw_app x)"
  by (simp add: ends_def)

lemma ends_bind_with:
  assumes "ends S R m" and "\<And>a. R a \<Longrightarrow> ends S Q (k a)"
  shows "ends S Q (bind_app m k)"
  by (rule endsI) (auto simp: bind_app_def split: prod.splits sum.splits
      dest: ends_thrown [OF assms(1)] ends_returned [OF assms(1)] ends_thrown [OF assms(2)] ends_returned [OF assms(2)])

lemma ends_bind [ends_rules]: "ends S (\<lambda>_. True) m \<Longrightarrow> (\<And>a. ends S Q (k a)) \<Longrightarrow> ends S Q (bind_app m k)"
  by (rule ends_bind_with)

lemma ends_then [ends_rules]: "ends S (\<lambda>_. True) m \<Longrightarrow> ends S Q k \<Longrightarrow> ends S Q (then_app m k)"
  unfolding then_app_def by (rule ends_bind)

lemma ends_try [ends_rules]:
  assumes "ends S Q m" and "\<And>x. answered_status x \<in> S \<Longrightarrow> ends S Q (h x)"
  shows "ends S Q (try_catch m h)"
  by (rule endsI) (auto simp: try_catch_def split: prod.splits sum.splits
      dest: ends_thrown [OF assms(1)] ends_returned [OF assms(1)] ends_thrown [OF assms(2)] ends_returned [OF assms(2)])

text \<open>A handler that throws nothing it caught.\<close>

lemma ends_swallow:
  assumes "ends UNIV Q m" and "\<And>x. ends S Q (h x)"
  shows "ends S Q (try_catch m h)"
  by (rule endsI) (auto simp: try_catch_def split: prod.splits sum.splits
      dest: ends_returned [OF assms(1)] ends_thrown [OF assms(2)] ends_returned [OF assms(2)])

lemma ends_any: "ends UNIV (\<lambda>_. True) m"
  by (rule endsI) simp_all

lemma ends_gets [ends_rules]: "(\<And>w. Q (f w)) \<Longrightarrow> ends S Q (gets_app f)"
  by (simp add: ends_def)

lemma ends_query [ends_rules]: "(\<And>d. Q (f d)) \<Longrightarrow> ends S Q (query f)"
  by (simp add: query_def ends_gets)

lemma ends_modify [ends_rules]: "Q () \<Longrightarrow> ends S Q (modify_app f)"
  by (simp add: ends_def)

lemma ends_execute [ends_rules]: "Q () \<Longrightarrow> ends S Q (execute f)"
  by (simp add: ends_def)

lemma ends_record_metric [ends_rules]: "Q () \<Longrightarrow> ends S Q (record_metric f)"
  by (simp add: ends_def)

lemma ends_uuid [ends_rules]: "(\<And>u. Q u) \<Longrightarrow> ends S Q random_uuid"
  by (simp add: ends_def)

lemma ends_clock [ends_rules]: "(\<And>t. Q t) \<Longrightarrow> ends S Q read_clock"
  by (simp add: ends_def)

lemma ends_timeDb [ends_rules]: "ends S Q m \<Longrightarrow> ends S Q (timeDb op m)"
  by (rule endsI) (auto simp: timeDb_def split: prod.splits dest: ends_thrown ends_returned)

lemma ends_transaction [ends_rules]: "ends S Q m \<Longrightarrow> ends S Q (transaction m)"
  by (rule endsI) (auto simp: transaction_def split: prod.splits sum.splits dest: ends_thrown ends_returned)

lemma ends_when [ends_rules]: "ends S Q m \<Longrightarrow> Q () \<Longrightarrow> ends S Q (when_app b m)"
  by (simp add: when_app_def ends_return)

lemma ends_if [ends_rules]: "(b \<Longrightarrow> ends S Q m) \<Longrightarrow> (\<not> b \<Longrightarrow> ends S Q k) \<Longrightarrow> ends S Q (if b then m else k)"
  by simp

lemma ends_option [ends_rules]:
  "(v = None \<Longrightarrow> ends S Q m) \<Longrightarrow> (\<And>a. v = Some a \<Longrightarrow> ends S Q (k a)) \<Longrightarrow> ends S Q (case v of None \<Rightarrow> m | Some a \<Rightarrow> k a)"
  by (cases v) simp_all

lemma ends_list [ends_rules]:
  "(xs = [] \<Longrightarrow> ends S Q m) \<Longrightarrow> (\<And>a as. xs = a # as \<Longrightarrow> ends S Q (k a as)) \<Longrightarrow> ends S Q (case xs of [] \<Rightarrow> m | a # as \<Rightarrow> k a as)"
  by (cases xs) simp_all

lemma ends_for_each [ends_rules]: "(\<And>x. ends S (\<lambda>_. True) (body x)) \<Longrightarrow> ends S (\<lambda>_. True) (for_each body xs)"
  by (induction xs) (simp_all add: ends_return ends_then)

lemma ends_let: "ends S Q (f v) \<Longrightarrow> ends S Q (let x = v in f x)"
  by simp

lemma status_simps [simp]:
  "answered_status (NotFoundException m) = 404" "answered_status (ConflictException m) = 409"
  "answered_status (UnauthorizedException m) = 401" "answered_status (ForbiddenException m) = 403"
  "answered_status (BadRequestException ms) = 400" "answered_status (QueryFailedError c t) = 500"
  "answered_status (JsError m) = 500" "answered_status (InsufficientStockError p) = 500"
  "answered_status (PaymentInFlightError p) = 500"
  by (simp_all add: answered_status_def)

section \<open>How the services end\<close>

lemma ends_cache_get: "ends S (\<lambda>_. True) (cache_get key)"
  unfolding cache_get_def cache_record_def
  by (intro ends_rules ends_swallow ends_any TrueI)

lemma ends_cache_set: "ends S (\<lambda>_. True) (cache_set key v ttl)"
  unfolding cache_set_def by (intro ends_rules ends_swallow ends_any TrueI)

lemma ends_cache_del: "ends S (\<lambda>_. True) (cache_del keys)"
  unfolding cache_del_def by (intro ends_rules ends_swallow ends_any TrueI)

lemmas ends_cache = ends_cache_get ends_cache_set ends_cache_del

text \<open>Orders: each of these returns an order of the user.\<close>

lemma find_order_owner: "find_order oid userId d = Some r \<Longrightarrow> o_userId r = userId"
  by (auto simp: find_order_def with_items_def dest: row_where_Some)

lemma ends_fetch_order:
  assumes "404 \<in> S"
  shows "ends S (\<lambda>r. o_userId r = userId) (bind_app (timeDb ''order.find'' (query (find_order oid userId))) (\<lambda>found.
    case found of None \<Rightarrow> throw_app (NotFoundException ''Order not found'')
    | Some order \<Rightarrow> bind_app (gets_app (\<lambda>w. cfg_cache_ttl (cfg w))) (\<lambda>ttl.
        then_app (when_app (isTerminalStatus (o_status order)) (cache_set (orderKey oid) (JsonOrder order) ttl))
          (return_app order))))"
  by (intro ends_bind_with [where R = "\<lambda>found. \<forall>r. found = Some r \<longrightarrow> o_userId r = userId"] ends_timeDb ends_query)
    (use assms in \<open>auto intro!: ends_rules ends_cache dest: find_order_owner\<close>)

lemma ends_getOrder: "404 \<in> S \<Longrightarrow> ends S (\<lambda>r. o_userId r = userId) (getOrderForUser oid userId)"
  unfolding getOrderForUser_def Let_def
  by (rule ends_bind [OF ends_cache_get])
    (auto simp: rehydrateOrder_def intro!: ends_return ends_fetch_order split: option.split json_text.split)

lemma ends_payment_check: "{404, 409} \<subseteq> S \<Longrightarrow> ends S (\<lambda>r. o_userId r = userId) (payment_check oid userId)"
  unfolding payment_check_def by (intro ends_bind_with [OF ends_getOrder] ends_rules) simp_all

lemma ends_update_orders: "ends S (\<lambda>_. True) (update_orders guard assign)"
  unfolding update_orders_def by (intro ends_rules TrueI)

lemma ends_enqueue: "ends S (\<lambda>_. True) (enqueue key event)"
  unfolding enqueue_def getCorrelationId_def by (intro ends_rules TrueI)

lemma ends_payment_claim: "409 \<in> S \<Longrightarrow> ends S (\<lambda>r. o_userId r = o_userId order) (payment_claim oid order)"
  unfolding payment_claim_def Let_def
  by (intro ends_rules TrueI ends_update_orders ends_enqueue ends_cache) simp_all

lemma ends_initiatePayment: "{404, 409} \<subseteq> S \<Longrightarrow> ends S (\<lambda>r. o_userId r = userId) (initiatePayment oid userId)"
  unfolding initiatePayment_def
  by (rule ends_bind_with [OF ends_payment_check]) (auto intro: ends_weaken [OF ends_payment_claim])

lemma ends_restoreStock: "500 \<in> S \<Longrightarrow> ends S (\<lambda>_. True) (restoreStock lines)"
proof -
  assume s: "500 \<in> S"
  have "ends S (\<lambda>_. True) (update_stock p f)" for p f
    by (rule endsI) (use s in \<open>auto simp: update_stock_def split: if_splits\<close>)
  then show ?thesis unfolding restoreStock_def restore_line_def by (intro ends_rules TrueI)
qed

lemma ends_cancelOrder:
  assumes "{404, 409, 500} \<subseteq> S"
  shows "ends S (\<lambda>r. o_userId r = userId) (cancelOrder oid userId)"
proof -
  have "ends S (\<lambda>r. o_userId r = userId) (cancel_check oid userId)"
    unfolding cancel_check_def Let_def
    by (intro ends_bind_with [OF ends_getOrder] ends_rules) (use assms in simp_all)
  moreover have "ends S (\<lambda>_. True) (cancel_claim oid)"
    unfolding cancel_claim_def by (intro ends_rules TrueI ends_update_orders) (use assms in simp_all)
  moreover have "ends S (\<lambda>r. o_userId r = o_userId order) (cancel_finish oid order)" for order
    unfolding cancel_finish_def Let_def
    by (intro ends_rules TrueI ends_restoreStock ends_cache) (use assms in simp_all)
  ultimately show ?thesis
    unfolding cancelOrder_def by (elim ends_bind_with) (auto intro!: ends_then)
qed

lemma ends_listOrders: "500 \<in> S \<Longrightarrow> ends S (\<lambda>_. True) (listOrdersForUser userId)"
  unfolding listOrdersForUser_def list_fill_def
  by (intro ends_rules ends_cache TrueI)
    (auto intro!: ends_rules ends_cache split: option.split json_text.split)

lemma ends_createOrder: "ends S (\<lambda>r. o_userId r = userId) (createOrder userId lines)"
proof -
  have save: "ends S (\<lambda>r. o_userId r = userId) (save_order userId)"
    unfolding save_order_def Let_def by (intro ends_rules TrueI) simp
  have items: "ends S (\<lambda>_. True) (save_items oid ls)" for oid ls
  proof (induction ls)
    case (Cons l ls)
    show ?case unfolding save_items.simps Let_def by (intro ends_rules Cons TrueI)
  qed (simp only: save_items.simps ends_return)
  have body: "ends S (\<lambda>r. o_userId r = userId) (bind_app (save_items (o_id saved) lines) (\<lambda>items.
      let created = saved\<lparr>o_items := Some items\<rparr>;
          event = OrderCreatedEvent (o_id created) (o_userId created) (stock_lines lines) (toISOString (o_createdAt created))
      in then_app (enqueue (routing_key KCreated) event) (return_app created)))" if "o_userId saved = userId" for saved
    unfolding Let_def by (intro ends_rules items ends_enqueue) (use that in simp)
  show ?thesis
    unfolding createOrder_def
    by (rule ends_bind_with [OF ends_timeDb [OF ends_transaction [OF ends_bind_with [OF save body]]]])
      (auto intro!: ends_rules ends_cache)
qed

text \<open>Carts.\<close>

lemma ends_getOpenCart: "500 \<in> S \<Longrightarrow> ends S (\<lambda>_. True) (getOpenCart userId)"
  unfolding getOpenCart_def open_cart_create_def insert_cart_def Let_def
  by (intro ends_rules TrueI) simp_all

lemma ends_setItem: "{404, 500} \<subseteq> S \<Longrightarrow> ends S (\<lambda>_. True) (setItem userId productId quantity)"
  unfolding setItem_def upsert_item_def by (intro ends_rules ends_getOpenCart TrueI) simp_all

lemma ends_removeItem: "500 \<in> S \<Longrightarrow> ends S (\<lambda>_. True) (removeItem userId productId)"
  unfolding removeItem_def by (intro ends_rules ends_getOpenCart TrueI)

lemma ends_checkout:
  assumes "{409, 500} \<subseteq> S"
  shows "ends S (\<lambda>r. o_userId r = userId) (checkout userId)"
proof -
  have "ends S (\<lambda>_. True) (cart_lines is)" for "is"
  proof (induction "is")
    case (Cons i "is")
    show ?case unfolding cart_lines.simps by (intro ends_rules Cons TrueI) (use assms in simp)
  qed (simp only: cart_lines.simps ends_return)
  then show ?thesis
    unfolding checkout_def checkout_read_def checkout_claim_def update_carts_def
    by (intro ends_rules ends_getOpenCart ends_createOrder TrueI) (use assms in simp_all)
qed

text \<open>Accounts. The signer fails with plain errors only.\<close>

definition plain_signer :: "(JwtPayload \<Rightarrow> int \<Rightarrow> exn + string) \<Rightarrow> bool" where
  "plain_signer sign \<longleftrightarrow> (\<forall>p t x. sign p t = Inl x \<longrightarrow> error_status x = None)"

lemma ends_issueTokens:
  assumes "plain_signer sign" and "500 \<in> S"
  shows "ends S (\<lambda>_. True) (issueTokens sha256 sign user family)"
proof -
  have "ends S (\<lambda>_. True) (signAsync sign p)" for p
    by (rule endsI) (use assms in \<open>auto simp: signAsync_def plain_signer_def answered_status_def\<close>)
  then show ?thesis
    unfolding issueTokens_def createRefreshToken_def insert_refresh_token_def
    by (intro ends_rules TrueI) (use assms in simp_all)
qed

lemma ends_login: "plain_signer sign \<Longrightarrow> {401, 500} \<subseteq> S \<Longrightarrow> ends S (\<lambda>_. True) (login sha256 sign cmp dto)"
  unfolding login_def login_check_def Let_def
  by (intro ends_rules ends_issueTokens TrueI) simp_all

lemma ends_revokeFamily: "401 \<in> S \<Longrightarrow> ends S Q (revokeFamilyOnReuse stored)"
  unfolding revokeFamilyOnReuse_def by (intro ends_rules TrueI) simp

lemma ends_refresh: "plain_signer sign \<Longrightarrow> {401, 500} \<subseteq> S \<Longrightarrow> ends S (\<lambda>_. True) (refresh_pair sha256 sign p)"
  unfolding refresh_pair_def rotate_def rotate_read_def rotate_claim_def rotate_issue_def
  by (intro ends_rules ends_issueTokens ends_revokeFamily TrueI) simp_all

lemma ends_register: "{409, 500} \<subseteq> S \<Longrightarrow> ends S (\<lambda>_. True) (register hash dto)"
  unfolding register_def insert_user_def Let_def
  by (intro ends_rules TrueI) auto

lemma ends_setDisabled: "404 \<in> S \<Longrightarrow> ends S (\<lambda>_. True) (setDisabled uid b)"
  unfolding setDisabled_def Let_def by (intro ends_rules TrueI) simp

section \<open>How requests end\<close>

text \<open>The statuses with which a route's handler can fail, and the order it replies with.\<close>

definition failures :: "endpoint \<Rightarrow> nat set" where
  "failures e = {500} \<union> (if e \<in> {Register, Checkout, PayOrder, CancelOrder} then {409} else {}) \<union>
     (if e \<in> {Login, Refresh} then {401} else {}) \<union>
     (if e \<in> {DisableUser, EnableUser, SetItem, GetOrder, PayOrder, CancelOrder} then {404} else {})"

definition shows_own :: "JwtPayload option \<Rightarrow> reply \<Rightarrow> bool" where
  "shows_own user r \<longleftrightarrow> (\<forall>ord. r = OrderReply ord \<longrightarrow> (\<exists>u. user = Some u \<and> od_userId ord = j_sub u))"

lemma ends_mapped: "ends S (\<lambda>_. True) m \<Longrightarrow> ends S (\<lambda>_. True) (bind_app m (\<lambda>a. return_app (f a)))"
  by (intro ends_rules TrueI)

lemma ends_other_reply:
  assumes "ends S (\<lambda>_. True) m" and "\<And>a ord. f a \<noteq> OrderReply ord"
  shows "ends S (shows_own user) (reply_with f m)"
  unfolding reply_with_def by (intro ends_rules assms(1)) (simp add: shows_own_def assms(2))

lemma ends_own_reply:
  assumes "ends S (\<lambda>r. o_userId r = j_sub u) m"
  shows "ends S (shows_own (Some u)) (reply_with OrderReply (bind_app m (\<lambda>r. return_app (toOrderResponseDTO r))))"
  unfolding reply_with_def
  by (rule ends_bind_with [where R = "\<lambda>d. od_userId d = j_sub u"], rule ends_bind_with [OF assms])
    (auto simp: shows_own_def toOrderResponseDTO_def intro: ends_return)

lemma ends_current: "500 \<in> S \<Longrightarrow> (\<And>u. user = Some u \<Longrightarrow> ends S Q (h u)) \<Longrightarrow> ends S Q (current_user user h)"
  unfolding current_user_def by (intro ends_rules) simp_all

lemma ends_auth_reply: "ends S (\<lambda>_. True) (auth_reply samesite env pair)"
  unfolding auth_reply_def by (intro ends_rules TrueI)

lemmas answer_handlers = health_handler_def register_handler_def me_handler_def users_handler_def disable_handler_def
  enable_handler_def products_handler_def cart_handler_def set_item_handler_def remove_item_handler_def checkout_handler_def
  orders_handler_def order_handler_def pay_handler_def cancel_handler_def history_handler_def auth_register_def disableUser_def
  enableUser_def cart_controller_get_def cart_controller_setItem_def cart_controller_removeItem_def
  cart_controller_checkout_def orders_controller_list_def orders_controller_getById_def orders_controller_pay_def
  orders_controller_cancel_def

lemma ends_handler:
  assumes "plain_signer (sv_sign sv)"
  shows "ends (failures e) (shows_own user) (run_handler sv rq user e)"
proof (cases e)
  case Login
  show ?thesis
    unfolding Login run_handler.simps login_handler_def auth_login_def
    by (intro ends_other_reply ends_bind ends_login assms ends_auth_reply) (simp_all add: failures_def)
next
  case Refresh
  show ?thesis
    unfolding Refresh run_handler.simps refresh_handler_def auth_refresh_def
    by (intro ends_other_reply ends_rules ends_refresh assms ends_auth_reply TrueI) (simp_all add: failures_def)
next
  case Health
  show ?thesis by (auto simp: Health health_handler_def shows_own_def intro: ends_return)
next
  case GetHistory
  show ?thesis
    unfolding GetHistory run_handler.simps history_handler_def by (intro ends_rules TrueI) (simp add: shows_own_def)
next
  case Me
  show ?thesis
    unfolding Me run_handler.simps me_handler_def
    by (intro ends_current ends_return) (simp_all add: failures_def shows_own_def)
qed (simp_all only: run_handler.simps answer_handlers,
    auto simp: failures_def intro!: ends_current ends_own_reply ends_other_reply ends_mapped ends_register ends_setDisabled
      ends_query ends_getOpenCart ends_setItem ends_removeItem ends_checkout ends_listOrders ends_getOrder
      ends_initiatePayment ends_cancelOrder)

lemma ends_pipe: "i = NoInput \<or> 400 \<in> S \<Longrightarrow> ends S (\<lambda>_. True) (run_pipe sv rq i)"
  unfolding run_pipe_def validated_def by (cases i) (auto intro!: ends_rules)

lemma ends_worked:
  assumes "plain_signer (sv_sign sv)"
  shows "ends (failures e \<union> (if input_of e = NoInput then {} else {400})) (shows_own user) (worked sv rq user e)"
  unfolding worked_def
  by (rule ends_then [OF ends_pipe ends_weaken [OF ends_handler [OF assms]]]) auto

text \<open>
  C9: The answers are the documented ones. Every request on every route is answered with a status the
  decorators of its handler and controller document, or with 500. The exception are five routes with a pipe
  whose decorators do not document the 400 it answers malformed input with.
\<close>

theorem answers_documented:
  assumes "plain_signer (sv_sign sv)" and "serve_request sv e rq w = (r, w')"
  shows "\<exists>cid a. r = Inr (cid, a) \<and> an_status a \<in> set (documented_of e) \<union> {500} \<union>
    (if e \<in> {DisableUser, EnableUser, SetItem, RemoveItem, GetHistory} then {400} else {}) \<and>
    (e \<in> {DisableUser, EnableUser, SetItem, RemoveItem, GetHistory} \<longrightarrow> 400 \<notin> set (documented_of e))"
proof -
  have undocumented: "e \<in> {DisableUser, EnableUser, SetItem, RemoveItem, GetHistory} \<longrightarrow> 400 \<notin> set (documented_of e)"
    by (cases e) (simp_all add: documented_of_def route_defs)
  have documented: "failures e \<union> {success_status e} \<union> (if e \<in> open_routes then {} else {401}) \<union>
      (if e \<in> {ListUsers, DisableUser, EnableUser} then {403} else {}) \<union> (if input_of e = NoInput then {} else {400}) \<subseteq>
    set (documented_of e) \<union> {500} \<union> (if e \<in> {DisableUser, EnableUser, SetItem, RemoveItem, GetHistory} then {400} else {})"
    by (cases e) (simp_all add: failures_def documented_of_def route_defs)
  have "\<exists>cid a. r = Inr (cid, a) \<and> an_status a \<in> failures e \<union> {success_status e} \<union> (if e \<in> open_routes then {} else {401}) \<union>
      (if e \<in> {ListUsers, DisableUser, EnableUser} then {403} else {}) \<union> (if input_of e = NoInput then {} else {400})"
  proof (cases rule: serve_cases [of e sv rq w])
    case (refused cid n x)
    with assms(2) show ?thesis by (auto simp: asked_roles_def split: if_split_asm)
  next
    case (worked cid n user s v m l)
    have "(case s of Inl x \<Rightarrow> answered_status x | Inr _ \<Rightarrow> success_status e) \<in>
        failures e \<union> {success_status e} \<union> (if input_of e = NoInput then {} else {400})"
    proof (cases s)
      case (Inl x)
      with ends_thrown [OF ends_worked [OF assms(1)]] worked(3)
      have "answered_status x \<in> failures e \<union> (if input_of e = NoInput then {} else {400})" by blast
      then show ?thesis unfolding Inl sum.case by blast
    next
      case (Inr b)
      then show ?thesis by (simp only: sum.case) blast
    qed
    with assms(2) worked(4) show ?thesis by auto
  qed
  with documented undocumented show ?thesis by blast
qed


lemma example_signer: "plain_signer (sv_sign example_server)"
  by (simp add: plain_signer_def example_server_def example_sign_def)

theorem answers_documented_witness:
  "\<exists>cid a. fst (serve_request example_server CancelOrder (example_request (Some ''Bearer good'') JNull) (example_world RESERVED)) =
    Inr (cid, a) \<and> an_status a \<in> {200, 400, 401, 404, 409, 500}"
proof -
  obtain r w' where run: "serve_request example_server CancelOrder (example_request (Some ''Bearer good'') JNull)
      (example_world RESERVED) = (r, w')" by fastforce
  from answers_documented [OF example_signer run] obtain cid a where "r = Inr (cid, a)"
    "an_status a \<in> set (documented_of CancelOrder) \<union> {500}" by auto
  then show ?thesis unfolding run by (auto simp: documented_of_def route_defs)
qed


end
