(* ===== verification/Wiring.thy ===== *)
theory Wiring
  imports Http_Routes
begin

text \<open>
  How the application is put together: the modules of \<^verbatim>\<open>src/app.module.ts\<close> and the feature modules with their
  imports, providers, controllers and exports, and what the constructors ask for. Nest builds the application
  from these when the process starts and refuses to start when a constructor asks for something its module
  cannot see. That this does not happen, and that there is an order to build everything in, is the property.
\<close>

section \<open>Modules\<close>

text \<open>What can be injected: a class, the repository of an entity, a metric, a symbol.\<close>

datatype token = Injectable string | Repository string | Metric string | Symbol string

text \<open>
  An import: a module of the application, \<open>TypeOrmModule.forFeature\<close>, or a module of a library, with whether it
  is global and what its factory is injected with.
\<close>

datatype module_ref = Module string | ForFeature "string list" | Library string bool "token list"

datatype module_export = Provided token | Reexported module_ref

record nest_module =
  nm_name :: string
  nm_global :: bool
  nm_imports :: "module_ref list"
  nm_controllers :: "string list"
  nm_providers :: "token list"
  nm_exports :: "module_export list"

abbreviation ConfigService :: token where "ConfigService \<equiv> Injectable ''ConfigService''"
abbreviation ClsService :: token where "ClsService \<equiv> Injectable ''ClsService''"
abbreviation DataSource :: token where "DataSource \<equiv> Injectable ''DataSource''"
abbreviation JwtModule :: module_ref where "JwtModule \<equiv> Library ''JwtModule'' False [ConfigService]"
abbreviation RabbitMQModule :: module_ref where "RabbitMQModule \<equiv> Library ''RabbitMQModule'' False [ConfigService]"

definition AppModule :: nest_module where
  "AppModule = \<lparr>nm_name = ''AppModule'', nm_global = False,
     nm_imports = [Library ''ConfigModule'' True [], Library ''ClsModule'' True [],
       Library ''TypeOrmModule'' True [ConfigService], Library ''ScheduleModule'' False [],
       Module ''CacheModule'', Module ''MetricsModule'', Module ''AuthModule'', Module ''ProductsModule'', Module ''CartModule'',
       Module ''OrdersModule'', Module ''InventoryModule'', Module ''PaymentModule'', Module ''CompletionModule'',
       Module ''EmailModule'', Module ''SeedModule''],
     nm_controllers = [''AppController''], nm_providers = [Injectable ''AppService''], nm_exports = []\<rparr>"

definition AuthModule :: nest_module where
  "AuthModule = \<lparr>nm_name = ''AuthModule'', nm_global = False,
     nm_imports = [ForFeature [''UserEntity'', ''RefreshTokenEntity''], JwtModule],
     nm_controllers = [''AuthController'', ''AdminUserController''],
     nm_providers = map Injectable [''AuthService'', ''TokenService'', ''UserService'', ''JwtAuthGuard'', ''RolesGuard''],
     nm_exports = [Provided (Injectable ''JwtAuthGuard''), Reexported JwtModule]\<rparr>"

definition CacheModule :: nest_module where
  "CacheModule = \<lparr>nm_name = ''CacheModule'', nm_global = True, nm_imports = [], nm_controllers = [],
     nm_providers = [Symbol ''REDIS_CLIENT'', Symbol ''CACHE_ENABLED'', Injectable ''CacheService''],
     nm_exports = [Provided (Injectable ''CacheService'')]\<rparr>"

definition MessagingModule :: nest_module where
  "MessagingModule = \<lparr>nm_name = ''MessagingModule'', nm_global = False,
     nm_imports = [ForFeature [''ProcessedMessageEntity'', ''OutboxMessageEntity''], RabbitMQModule], nm_controllers = [],
     nm_providers = map Injectable [''EventPublisher'', ''InboxService'', ''OutboxService'', ''OutboxRelayService'',
       ''OutboxCommitSubscriber''],
     nm_exports = [Reexported RabbitMQModule, Provided (Injectable ''InboxService''), Provided (Injectable ''OutboxService'')]\<rparr>"

text \<open>\<open>HttpMetricsInterceptor\<close> is provided under \<open>APP_INTERCEPTOR\<close>; the histogram's provider has no dependencies.\<close>

definition MetricsModule :: nest_module where
  "MetricsModule = \<lparr>nm_name = ''MetricsModule'', nm_global = False,
     nm_imports = [Library ''PrometheusModule'' False [], ForFeature [''MetricEventEntity''], Module ''AuthModule''],
     nm_controllers = [''MetricsHistoryController''],
     nm_providers = Metric HTTP_REQUEST_DURATION_SECONDS # map Injectable [''HttpMetricsInterceptor'', ''MetricsPersistenceService'',
       ''MetricsHistoryService'', ''SystemMetricsSamplerService'', ''LiveGaugesService''],
     nm_exports = []\<rparr>"

definition ProductsModule :: nest_module where
  "ProductsModule = \<lparr>nm_name = ''ProductsModule'', nm_global = False,
     nm_imports = [ForFeature [''ProductEntity''], Module ''AuthModule''], nm_controllers = [''ProductsController''],
     nm_providers = map Injectable [''ProductsService'', ''StockReplenishmentService''],
     nm_exports = [Provided (Injectable ''ProductsService'')]\<rparr>"

definition OrdersModule :: nest_module where
  "OrdersModule = \<lparr>nm_name = ''OrdersModule'', nm_global = False,
     nm_imports = [ForFeature [''OrderEntity'', ''OrderItemEntity''], Module ''AuthModule'', Module ''MessagingModule'',
       Module ''ProductsModule''],
     nm_controllers = [''OrdersController''], nm_providers = [Injectable ''OrdersService''],
     nm_exports = [Provided (Injectable ''OrdersService'')]\<rparr>"

definition CartModule :: nest_module where
  "CartModule = \<lparr>nm_name = ''CartModule'', nm_global = False,
     nm_imports = [ForFeature [''CartEntity'', ''CartItemEntity''], Module ''AuthModule'', Module ''ProductsModule'', Module ''OrdersModule''],
     nm_controllers = [''CartController''], nm_providers = [Injectable ''CartService''], nm_exports = []\<rparr>"

definition InventoryModule :: nest_module where
  "InventoryModule = \<lparr>nm_name = ''InventoryModule'', nm_global = False,
     nm_imports = [Module ''MessagingModule'', Module ''OrdersModule'', Module ''ProductsModule''], nm_controllers = [],
     nm_providers = [Injectable ''InventoryConsumer''], nm_exports = []\<rparr>"

definition PaymentModule :: nest_module where
  "PaymentModule = \<lparr>nm_name = ''PaymentModule'', nm_global = False,
     nm_imports = [ForFeature [''PaymentAuthorizationEntity''], Module ''MessagingModule'', Module ''OrdersModule''],
     nm_controllers = [], nm_providers = map Injectable [''PaymentConsumer'', ''PaymentGateway''], nm_exports = []\<rparr>"

definition CompletionModule :: nest_module where
  "CompletionModule = \<lparr>nm_name = ''CompletionModule'', nm_global = False,
     nm_imports = [Module ''MessagingModule'', Module ''OrdersModule''], nm_controllers = [],
     nm_providers = [Injectable ''OrderCompletionConsumer''], nm_exports = []\<rparr>"

definition EmailModule :: nest_module where
  "EmailModule = \<lparr>nm_name = ''EmailModule'', nm_global = False, nm_imports = [Module ''MessagingModule''],
     nm_controllers = [], nm_providers = [Injectable ''EmailConsumer''], nm_exports = []\<rparr>"

definition SeedModule :: nest_module where
  "SeedModule = \<lparr>nm_name = ''SeedModule'', nm_global = False, nm_imports = [ForFeature [''UserEntity'', ''ProductEntity'']],
     nm_controllers = [], nm_providers = [Injectable ''SeedService''], nm_exports = []\<rparr>"

definition app_modules :: "nest_module list" where
  "app_modules = [AppModule, AuthModule, CacheModule, MessagingModule, MetricsModule, ProductsModule, OrdersModule,
     CartModule, InventoryModule, PaymentModule, CompletionModule, EmailModule, SeedModule]"

section \<open>Constructors\<close>

definition AppController_constructor :: "token list" where
  "AppController_constructor = [Injectable ''AppService'']"
definition AuthController_constructor :: "token list" where
  "AuthController_constructor = [Injectable ''AuthService'', ConfigService]"
definition AdminUserController_constructor :: "token list" where
  "AdminUserController_constructor = [Injectable ''UserService'']"
definition CartController_constructor :: "token list" where
  "CartController_constructor = [Injectable ''CartService'']"
definition OrdersController_constructor :: "token list" where
  "OrdersController_constructor = [Injectable ''OrdersService'']"
definition ProductsController_constructor :: "token list" where
  "ProductsController_constructor = [Injectable ''ProductsService'']"
definition MetricsHistoryController_constructor :: "token list" where
  "MetricsHistoryController_constructor = [Injectable ''MetricsHistoryService'']"
definition JwtAuthGuard_constructor :: "token list" where
  "JwtAuthGuard_constructor = [Injectable ''JwtService'']"
definition RolesGuard_constructor :: "token list" where
  "RolesGuard_constructor = [Injectable ''Reflector'']"
definition AuthService_constructor :: "token list" where
  "AuthService_constructor = [Repository ''UserEntity'', Injectable ''TokenService'']"
definition TokenService_constructor :: "token list" where
  "TokenService_constructor = [Injectable ''JwtService'', ConfigService, Repository ''RefreshTokenEntity'']"
definition UserService_constructor :: "token list" where
  "UserService_constructor = [Repository ''UserEntity'']"
definition CacheModule_constructor :: "token list" where
  "CacheModule_constructor = [Symbol ''REDIS_CLIENT'']"
definition CacheService_constructor :: "token list" where
  "CacheService_constructor = [Symbol ''REDIS_CLIENT'', Symbol ''CACHE_ENABLED'']"
definition redisProvider_inject :: "token list" where
  "redisProvider_inject = [ConfigService]"
definition cacheEnabledProvider_inject :: "token list" where
  "cacheEnabledProvider_inject = [ConfigService]"
definition CartService_constructor :: "token list" where
  "CartService_constructor = [Repository ''CartEntity'', Repository ''CartItemEntity'', Injectable ''ProductsService'', Injectable ''OrdersService'']"
definition OrderCompletionConsumer_constructor :: "token list" where
  "OrderCompletionConsumer_constructor = [Injectable ''InboxService'', Injectable ''OrdersService'', Injectable ''OutboxService'', ClsService]"
definition EmailConsumer_constructor :: "token list" where
  "EmailConsumer_constructor = [Injectable ''InboxService'', ClsService]"
definition InventoryConsumer_constructor :: "token list" where
  "InventoryConsumer_constructor = [Injectable ''InboxService'', Injectable ''OrdersService'', Injectable ''ProductsService'',
     Injectable ''OutboxService'', ClsService]"
definition PaymentConsumer_constructor :: "token list" where
  "PaymentConsumer_constructor = [Injectable ''InboxService'', Injectable ''OrdersService'', Injectable ''OutboxService'',
     Injectable ''PaymentGateway'', ClsService]"
definition PaymentGateway_constructor :: "token list" where
  "PaymentGateway_constructor = [Repository ''PaymentAuthorizationEntity'']"
definition EventPublisher_constructor :: "token list" where
  "EventPublisher_constructor = [Injectable ''AmqpConnection'']"
definition InboxService_constructor :: "token list" where
  "InboxService_constructor = [DataSource]"
definition OutboxService_constructor :: "token list" where
  "OutboxService_constructor = [ClsService]"
definition OutboxRelayService_constructor :: "token list" where
  "OutboxRelayService_constructor = [DataSource, Injectable ''EventPublisher'']"
definition OutboxCommitSubscriber_constructor :: "token list" where
  "OutboxCommitSubscriber_constructor = [DataSource, Injectable ''OutboxRelayService'']"
definition HttpMetricsInterceptor_constructor :: "token list" where
  "HttpMetricsInterceptor_constructor = [Metric HTTP_REQUEST_DURATION_SECONDS]"
definition LiveGaugesService_constructor :: "token list" where
  "LiveGaugesService_constructor = [DataSource, Injectable ''ModuleRef'']"
definition MetricsHistoryService_constructor :: "token list" where
  "MetricsHistoryService_constructor = [Repository ''MetricEventEntity'']"
definition MetricsPersistenceService_constructor :: "token list" where
  "MetricsPersistenceService_constructor = [Repository ''MetricEventEntity'']"
definition OrdersService_constructor :: "token list" where
  "OrdersService_constructor = [Repository ''OrderEntity'', DataSource, Injectable ''OutboxService'', Injectable ''CacheService'',
     Injectable ''ProductsService'', ConfigService]"
definition ProductsService_constructor :: "token list" where
  "ProductsService_constructor = [Repository ''ProductEntity'']"
definition StockReplenishmentService_constructor :: "token list" where
  "StockReplenishmentService_constructor = [Repository ''ProductEntity'']"
definition SeedService_constructor :: "token list" where
  "SeedService_constructor = [Repository ''UserEntity'', Repository ''ProductEntity'']"

text \<open>By token, in an order in which they can be built. A class that is not listed has no constructor.\<close>

definition constructors :: "(token \<times> token list) list" where
  "constructors = [
     (Symbol ''REDIS_CLIENT'', redisProvider_inject), (Symbol ''CACHE_ENABLED'', cacheEnabledProvider_inject),
     (Injectable ''CacheModule'', CacheModule_constructor), (Injectable ''CacheService'', CacheService_constructor),
     (Injectable ''JwtAuthGuard'', JwtAuthGuard_constructor), (Injectable ''RolesGuard'', RolesGuard_constructor),
     (Injectable ''TokenService'', TokenService_constructor), (Injectable ''UserService'', UserService_constructor),
     (Injectable ''AuthService'', AuthService_constructor), (Injectable ''AuthController'', AuthController_constructor),
     (Injectable ''AdminUserController'', AdminUserController_constructor), (Injectable ''AppController'', AppController_constructor),
     (Injectable ''EventPublisher'', EventPublisher_constructor), (Injectable ''InboxService'', InboxService_constructor),
     (Injectable ''OutboxService'', OutboxService_constructor), (Injectable ''OutboxRelayService'', OutboxRelayService_constructor),
     (Injectable ''OutboxCommitSubscriber'', OutboxCommitSubscriber_constructor),
     (Injectable ''HttpMetricsInterceptor'', HttpMetricsInterceptor_constructor),
     (Injectable ''LiveGaugesService'', LiveGaugesService_constructor),
     (Injectable ''MetricsHistoryService'', MetricsHistoryService_constructor),
     (Injectable ''MetricsPersistenceService'', MetricsPersistenceService_constructor),
     (Injectable ''MetricsHistoryController'', MetricsHistoryController_constructor),
     (Injectable ''ProductsService'', ProductsService_constructor),
     (Injectable ''StockReplenishmentService'', StockReplenishmentService_constructor),
     (Injectable ''ProductsController'', ProductsController_constructor),
     (Injectable ''OrdersService'', OrdersService_constructor), (Injectable ''OrdersController'', OrdersController_constructor),
     (Injectable ''CartService'', CartService_constructor), (Injectable ''CartController'', CartController_constructor),
     (Injectable ''InventoryConsumer'', InventoryConsumer_constructor),
     (Injectable ''PaymentGateway'', PaymentGateway_constructor), (Injectable ''PaymentConsumer'', PaymentConsumer_constructor),
     (Injectable ''OrderCompletionConsumer'', OrderCompletionConsumer_constructor),
     (Injectable ''EmailConsumer'', EmailConsumer_constructor), (Injectable ''SeedService'', SeedService_constructor)]"

definition needs :: "token \<Rightarrow> token list" where
  "needs t = (case map_of constructors t of Some ts \<Rightarrow> ts | None \<Rightarrow> [])"

section \<open>What a module sees\<close>

text \<open>
  What the modules of the libraries export is a parameter, \<open>lib\<close>. A module sees its own providers, what its
  imports export (a module may export again what it imports), what global modules export, and the core. The
  first argument of \<open>exports_of\<close> bounds how often exports are followed; the number of modules is enough.
\<close>

definition module_named :: "string \<Rightarrow> nest_module option" where
  "module_named n = find (\<lambda>m. nm_name m = n) app_modules"

fun exports_of :: "(string \<Rightarrow> token list) \<Rightarrow> nat \<Rightarrow> module_ref \<Rightarrow> token list" where
  "exports_of lib k (ForFeature es) = map Repository es"
| "exports_of lib k (Library l whole injected) = lib l"
| "exports_of lib 0 (Module n) = []"
| "exports_of lib (Suc k) (Module n) = (case module_named n of
     None \<Rightarrow> []
   | Some m \<Rightarrow> concat (map (\<lambda>x. case x of Provided t \<Rightarrow> [t] | Reexported r \<Rightarrow> exports_of lib k r) (nm_exports m)))"

fun everywhere :: "module_ref \<Rightarrow> bool" where
  "everywhere (Library l whole injected) = whole"
| "everywhere (ForFeature es) = False"
| "everywhere (Module n) = (case module_named n of Some m \<Rightarrow> nm_global m | None \<Rightarrow> False)"

definition core_tokens :: "token list" where
  "core_tokens = [Injectable ''Reflector'', Injectable ''ModuleRef'']"

definition global_tokens :: "(string \<Rightarrow> token list) \<Rightarrow> token list" where
  "global_tokens lib = core_tokens @
     concat (map (exports_of lib (length app_modules)) (filter everywhere (concat (map nm_imports app_modules))))"

definition visible :: "(string \<Rightarrow> token list) \<Rightarrow> nest_module \<Rightarrow> token list" where
  "visible lib m = nm_providers m @ concat (map (exports_of lib (length app_modules)) (nm_imports m)) @ global_tokens lib"

text \<open>The guards of a controller are built in its module too.\<close>

definition all_endpoints :: "endpoint list" where
  "all_endpoints = [Health, Register, Login, Refresh, Me, ListUsers, DisableUser, EnableUser, ListProducts, GetCart, SetItem,
     RemoveItem, Checkout, ListOrders, GetOrder, PayOrder, CancelOrder, GetHistory]"

fun controller_class :: "endpoint \<Rightarrow> string" where
  "controller_class Health = ''AppController''"
| "controller_class ListUsers = ''AdminUserController''"
| "controller_class DisableUser = ''AdminUserController''"
| "controller_class EnableUser = ''AdminUserController''"
| "controller_class ListProducts = ''ProductsController''"
| "controller_class GetCart = ''CartController''"
| "controller_class SetItem = ''CartController''"
| "controller_class RemoveItem = ''CartController''"
| "controller_class Checkout = ''CartController''"
| "controller_class ListOrders = ''OrdersController''"
| "controller_class GetOrder = ''OrdersController''"
| "controller_class PayOrder = ''OrdersController''"
| "controller_class CancelOrder = ''OrdersController''"
| "controller_class GetHistory = ''MetricsHistoryController''"
| "controller_class e = ''AuthController''"

fun guard_class :: "guard \<Rightarrow> token" where
  "guard_class UseJwtAuthGuard = Injectable ''JwtAuthGuard''"
| "guard_class UseRolesGuard = Injectable ''RolesGuard''"

definition guard_classes :: "string \<Rightarrow> token list" where
  "guard_classes c = map guard_class (concat (map guards_of (filter (\<lambda>e. controller_class e = c) all_endpoints)))"

text \<open>Everything Nest builds for a module, and what the factories of its imports are injected with.\<close>

definition built_in :: "nest_module \<Rightarrow> token list" where
  "built_in m = Injectable (nm_name m) # nm_providers m @ map Injectable (nm_controllers m) @
     concat (map guard_classes (nm_controllers m))"

fun injected_into :: "module_ref \<Rightarrow> token list" where
  "injected_into (Library l whole injected) = injected"
| "injected_into r = []"

definition resolves :: "(string \<Rightarrow> token list) \<Rightarrow> nest_module \<Rightarrow> bool" where
  "resolves lib m \<longleftrightarrow> (\<forall>t \<in> set (built_in m). set (needs t) \<subseteq> set (visible lib m)) \<and>
     (\<forall>r \<in> set (nm_imports m). set (injected_into r) \<subseteq> set (global_tokens lib))"

text \<open>A module may export only what it provides or imports, and import only modules there are.\<close>

definition exports_known :: "nest_module \<Rightarrow> bool" where
  "exports_known m \<longleftrightarrow> (\<forall>x \<in> set (nm_exports m). case x of Provided t \<Rightarrow> t \<in> set (nm_providers m) | Reexported r \<Rightarrow> r \<in> set (nm_imports m)) \<and>
     (\<forall>r \<in> set (nm_imports m). case r of Module n \<Rightarrow> n \<in> set (map nm_name app_modules) | _ \<Rightarrow> True)"

definition imports_rel :: "(string \<times> string) set" where
  "imports_rel = {(n, nm_name m) | n m. m \<in> set app_modules \<and> Module n \<in> set (nm_imports m)}"

definition needs_rel :: "(token \<times> token) set" where
  "needs_rel = {(t, c). t \<in> set (needs c)}"

text \<open>What the libraries' documentation says their modules export.\<close>

definition documented_exports :: "string \<Rightarrow> token list" where
  "documented_exports l = (
     if l = ''ConfigModule'' then [ConfigService] else if l = ''ClsModule'' then [ClsService]
     else if l = ''TypeOrmModule'' then [DataSource] else if l = ''JwtModule'' then [Injectable ''JwtService'']
     else if l = ''RabbitMQModule'' then [Injectable ''AmqpConnection''] else [])"

definition libraries_documented :: "(string \<Rightarrow> token list) \<Rightarrow> bool" where
  "libraries_documented lib \<longleftrightarrow> (\<forall>l. set (documented_exports l) \<subseteq> set (lib l))"

section \<open>The application can be built\<close>

text \<open>A library that exports more leaves resolved what was resolved.\<close>

lemma exports_mono: "libraries_documented lib \<Longrightarrow> set (exports_of documented_exports k r) \<subseteq> set (exports_of lib k r)"
proof (induction documented_exports k r rule: exports_of.induct)
  case (4 k n)
  show ?case
  proof (cases "module_named n")
    case (Some m)
    have "set (case x of Provided t \<Rightarrow> [t] | Reexported r \<Rightarrow> exports_of documented_exports k r) \<subseteq>
        set (case x of Provided t \<Rightarrow> [t] | Reexported r \<Rightarrow> exports_of lib k r)" if "x \<in> set (nm_exports m)" for x
      using 4(1) [OF Some that _ 4(2)] by (cases x) simp_all
    with Some show ?thesis by (simp add: UN_subset_iff) blast
  qed simp
qed (simp_all add: libraries_documented_def)

lemma global_mono: "libraries_documented lib \<Longrightarrow> set (global_tokens documented_exports) \<subseteq> set (global_tokens lib)"
  using exports_mono unfolding global_tokens_def by fastforce

lemma visible_mono: "libraries_documented lib \<Longrightarrow> set (visible documented_exports m) \<subseteq> set (visible lib m)"
  using exports_mono global_mono unfolding visible_def by fastforce

lemma resolves_mono: "libraries_documented lib \<Longrightarrow> resolves documented_exports m \<Longrightarrow> resolves lib m"
  using visible_mono global_mono unfolding resolves_def by (meson subset_trans)

lemmas module_defs = AppModule_def AuthModule_def CacheModule_def MessagingModule_def MetricsModule_def ProductsModule_def
  OrdersModule_def CartModule_def InventoryModule_def PaymentModule_def CompletionModule_def EmailModule_def SeedModule_def

lemma modules_named [simp]:
  "module_named ''AuthModule'' = Some AuthModule" "module_named ''CacheModule'' = Some CacheModule"
  "module_named ''MessagingModule'' = Some MessagingModule" "module_named ''MetricsModule'' = Some MetricsModule"
  "module_named ''ProductsModule'' = Some ProductsModule" "module_named ''OrdersModule'' = Some OrdersModule"
  "module_named ''CartModule'' = Some CartModule" "module_named ''InventoryModule'' = Some InventoryModule"
  "module_named ''PaymentModule'' = Some PaymentModule" "module_named ''CompletionModule'' = Some CompletionModule"
  "module_named ''EmailModule'' = Some EmailModule" "module_named ''SeedModule'' = Some SeedModule"
  by (simp_all add: module_named_def app_modules_def module_defs)

text \<open>The exports of each module.\<close>

lemma number_of_modules: "length app_modules = 13"
  by (simp add: app_modules_def)

lemma exports_simps [simp]:
  "exports_of lib 13 (Module ''AuthModule'') = Injectable ''JwtAuthGuard'' # lib ''JwtModule''"
  "exports_of lib 13 (Module ''CacheModule'') = [Injectable ''CacheService'']"
  "exports_of lib 13 (Module ''MessagingModule'') =
     lib ''RabbitMQModule'' @ [Injectable ''InboxService'', Injectable ''OutboxService'']"
  "exports_of lib 13 (Module ''ProductsModule'') = [Injectable ''ProductsService'']"
  "exports_of lib 13 (Module ''OrdersModule'') = [Injectable ''OrdersService'']"
  "exports_of lib 13 (Module ''MetricsModule'') = []" "exports_of lib 13 (Module ''CartModule'') = []"
  "exports_of lib 13 (Module ''InventoryModule'') = []" "exports_of lib 13 (Module ''PaymentModule'') = []"
  "exports_of lib 13 (Module ''CompletionModule'') = []" "exports_of lib 13 (Module ''EmailModule'') = []"
  "exports_of lib 13 (Module ''SeedModule'') = []"
  by (simp_all add: module_defs eval_nat_numeral)

lemma documented_simps [simp]:
  "documented_exports ''ConfigModule'' = [ConfigService]" "documented_exports ''ClsModule'' = [ClsService]"
  "documented_exports ''TypeOrmModule'' = [DataSource]" "documented_exports ''JwtModule'' = [Injectable ''JwtService'']"
  "documented_exports ''RabbitMQModule'' = [Injectable ''AmqpConnection'']" "documented_exports ''ScheduleModule'' = []"
  "documented_exports ''PrometheusModule'' = []"
  by (simp_all add: documented_exports_def)

lemma global_documented [simp]: "global_tokens documented_exports =
    [Injectable ''Reflector'', Injectable ''ModuleRef'', ConfigService, ClsService, DataSource, Injectable ''CacheService'']"
  by (simp add: global_tokens_def core_tokens_def number_of_modules app_modules_def module_defs)

lemma guard_classes_simps [simp]:
  "guard_classes ''AppController'' = []"
  "set (guard_classes ''AuthController'') = {Injectable ''JwtAuthGuard'', Injectable ''RolesGuard''}"
  "set (guard_classes ''AdminUserController'') = {Injectable ''JwtAuthGuard'', Injectable ''RolesGuard''}"
  "set (guard_classes ''ProductsController'') = {Injectable ''JwtAuthGuard''}"
  "set (guard_classes ''CartController'') = {Injectable ''JwtAuthGuard''}"
  "set (guard_classes ''OrdersController'') = {Injectable ''JwtAuthGuard''}"
  "set (guard_classes ''MetricsHistoryController'') = {Injectable ''JwtAuthGuard''}"
  by (auto simp: guard_classes_def all_endpoints_def)

lemmas constructor_defs = AppController_constructor_def AuthController_constructor_def AdminUserController_constructor_def CartController_constructor_def
  OrdersController_constructor_def ProductsController_constructor_def MetricsHistoryController_constructor_def JwtAuthGuard_constructor_def
  RolesGuard_constructor_def AuthService_constructor_def TokenService_constructor_def UserService_constructor_def
  CacheModule_constructor_def CacheService_constructor_def redisProvider_inject_def cacheEnabledProvider_inject_def
  CartService_constructor_def OrderCompletionConsumer_constructor_def EmailConsumer_constructor_def InventoryConsumer_constructor_def
  PaymentConsumer_constructor_def PaymentGateway_constructor_def EventPublisher_constructor_def InboxService_constructor_def
  OutboxService_constructor_def OutboxRelayService_constructor_def OutboxCommitSubscriber_constructor_def HttpMetricsInterceptor_constructor_def
  LiveGaugesService_constructor_def MetricsHistoryService_constructor_def MetricsPersistenceService_constructor_def OrdersService_constructor_def
  ProductsService_constructor_def StockReplenishmentService_constructor_def SeedService_constructor_def

lemma needs_simps [simp]:
  "needs (Symbol ''REDIS_CLIENT'') = redisProvider_inject" "needs (Symbol ''CACHE_ENABLED'') = cacheEnabledProvider_inject"
  "needs (Injectable ''CacheModule'') = CacheModule_constructor" "needs (Injectable ''CacheService'') = CacheService_constructor"
  "needs (Injectable ''JwtAuthGuard'') = JwtAuthGuard_constructor" "needs (Injectable ''RolesGuard'') = RolesGuard_constructor"
  "needs (Injectable ''TokenService'') = TokenService_constructor" "needs (Injectable ''UserService'') = UserService_constructor"
  "needs (Injectable ''AuthService'') = AuthService_constructor" "needs (Injectable ''AuthController'') = AuthController_constructor"
  "needs (Injectable ''AdminUserController'') = AdminUserController_constructor" "needs (Injectable ''AppController'') = AppController_constructor"
  "needs (Injectable ''EventPublisher'') = EventPublisher_constructor" "needs (Injectable ''InboxService'') = InboxService_constructor"
  "needs (Injectable ''OutboxService'') = OutboxService_constructor" "needs (Injectable ''OutboxRelayService'') = OutboxRelayService_constructor"
  "needs (Injectable ''OutboxCommitSubscriber'') = OutboxCommitSubscriber_constructor" "needs (Injectable ''HttpMetricsInterceptor'') = HttpMetricsInterceptor_constructor"
  "needs (Injectable ''LiveGaugesService'') = LiveGaugesService_constructor" "needs (Injectable ''MetricsHistoryService'') = MetricsHistoryService_constructor"
  "needs (Injectable ''MetricsPersistenceService'') = MetricsPersistenceService_constructor" "needs (Injectable ''MetricsHistoryController'') = MetricsHistoryController_constructor"
  "needs (Injectable ''ProductsService'') = ProductsService_constructor" "needs (Injectable ''StockReplenishmentService'') = StockReplenishmentService_constructor"
  "needs (Injectable ''ProductsController'') = ProductsController_constructor" "needs (Injectable ''OrdersService'') = OrdersService_constructor"
  "needs (Injectable ''OrdersController'') = OrdersController_constructor" "needs (Injectable ''CartService'') = CartService_constructor"
  "needs (Injectable ''CartController'') = CartController_constructor" "needs (Injectable ''InventoryConsumer'') = InventoryConsumer_constructor"
  "needs (Injectable ''PaymentGateway'') = PaymentGateway_constructor" "needs (Injectable ''PaymentConsumer'') = PaymentConsumer_constructor"
  "needs (Injectable ''OrderCompletionConsumer'') = OrderCompletionConsumer_constructor" "needs (Injectable ''EmailConsumer'') = EmailConsumer_constructor"
  "needs (Injectable ''SeedService'') = SeedService_constructor" "needs (Injectable ''AppService'') = []"
  "needs (Injectable ''SystemMetricsSamplerService'') = []" "needs (Injectable ''AppModule'') = []"
  "needs (Injectable ''AuthModule'') = []" "needs (Injectable ''MessagingModule'') = []"
  "needs (Injectable ''MetricsModule'') = []" "needs (Injectable ''ProductsModule'') = []"
  "needs (Injectable ''OrdersModule'') = []" "needs (Injectable ''CartModule'') = []"
  "needs (Injectable ''InventoryModule'') = []" "needs (Injectable ''PaymentModule'') = []"
  "needs (Injectable ''CompletionModule'') = []" "needs (Injectable ''EmailModule'') = []"
  "needs (Injectable ''SeedModule'') = []" "needs (Metric n) = []"
  by (simp_all add: needs_def constructors_def)

lemma resolves_modules: "list_all (resolves documented_exports) app_modules"
  unfolding app_modules_def list.pred_inject
  by (intro conjI TrueI;
    simp add: resolves_def built_in_def visible_def number_of_modules module_defs constructor_defs)

lemma exports_known_modules: "list_all exports_known app_modules"
  by (simp add: exports_known_def app_modules_def module_defs)

lemma modules_imported: "list_all (\<lambda>m. nm_name m = ''AppModule'' \<or>
    list_ex (\<lambda>m'. Module (nm_name m) \<in> set (nm_imports m')) app_modules) app_modules"
  by (simp add: app_modules_def module_defs)

text \<open>A relation along which a rank grows has no cycle.\<close>

lemma acyclic_by_rank:
  assumes "\<And>a b. (a, b) \<in> r \<Longrightarrow> rank a < (rank b :: nat)"
  shows "acyclic r"
  by (rule wf_acyclic, rule wf_subset [OF wf_measure [of rank]]) (auto simp: assms)

definition place :: "'a \<Rightarrow> 'a list \<Rightarrow> nat" where
  "place x xs = length (takeWhile (\<lambda>y. y \<noteq> x) xs)"

definition module_order :: "string list" where
  "module_order = [''AuthModule'', ''CacheModule'', ''MessagingModule'', ''MetricsModule'', ''ProductsModule'', ''OrdersModule'',
     ''CartModule'', ''InventoryModule'', ''PaymentModule'', ''CompletionModule'', ''EmailModule'', ''SeedModule'', ''AppModule'']"

lemma modules_in_order: "list_all (\<lambda>m. list_all (\<lambda>r. case r of
    Module n \<Rightarrow> place n module_order < place (nm_name m) module_order | _ \<Rightarrow> True) (nm_imports m)) app_modules"
  by (simp add: app_modules_def module_defs module_order_def place_def)

lemma imports_acyclic: "acyclic imports_rel"
proof (rule acyclic_by_rank [where rank = "\<lambda>n. place n module_order"])
  fix a b
  assume "(a, b) \<in> imports_rel"
  then obtain m where "m \<in> set app_modules" "Module a \<in> set (nm_imports m)" "b = nm_name m" by (auto simp: imports_rel_def)
  with modules_in_order show "place a module_order < place b module_order" by (fastforce simp: list_all_iff)
qed

text \<open>Something without dependencies comes first, the rest in the order of the table.\<close>

definition build_place :: "token \<Rightarrow> nat" where
  "build_place t = (if t \<in> set (map fst constructors) then Suc (place t (map fst constructors)) else 0)"

text \<open>Nothing asks for what comes at or after its own place.\<close>

fun in_order :: "(token \<times> token list) list \<Rightarrow> bool" where
  "in_order [] = True"
| "in_order ((c, ts) # rest) \<longleftrightarrow> c \<notin> set (map fst rest) \<and> (\<forall>t \<in> set ts. t \<notin> insert c (set (map fst rest))) \<and> in_order rest"

lemma in_order_place:
  "in_order xs \<Longrightarrow> (c, ts) \<in> set xs \<Longrightarrow> t \<in> set ts \<Longrightarrow> t \<in> set (map fst xs) \<Longrightarrow>
    place t (map fst xs) < place c (map fst xs)"
proof (induction xs)
  case (Cons x xs)
  obtain c0 ts0 where x: "x = (c0, ts0)" by fastforce
  show ?case
  proof (cases "c = c0")
    case True
    with Cons.prems x have "ts = ts0" by (auto intro: rev_image_eqI)
    with Cons.prems True x show ?thesis by auto
  next
    case False
    with Cons x show ?thesis by (auto simp: place_def)
  qed
qed simp

lemma constructors_in_order: "in_order constructors"
  by (simp add: constructors_def constructor_defs)

lemma needs_acyclic: "acyclic needs_rel"
proof (rule acyclic_by_rank [where rank = build_place])
  fix t c
  assume "(t, c) \<in> needs_rel"
  then obtain ts where "map_of constructors c = Some ts" "t \<in> set ts"
    unfolding needs_rel_def needs_def by (cases "map_of constructors c") auto
  then have "(c, ts) \<in> set constructors" "t \<in> set ts" by (auto dest: map_of_SomeD)
  moreover from this have "c \<in> set (map fst constructors)" by force
  ultimately show "build_place t < build_place c"
    using in_order_place [OF constructors_in_order] by (simp add: build_place_def)
qed

text \<open>
  C35: The application can be built. When the modules of the libraries export what their documentation says,
  every class Nest builds for a module (providers, controllers, the guards of its routes, the module itself) and
  every factory finds what it asks for: in its own module, in the exports of an import, in a global module or in
  the core. Every export is known to its module, every import is a module there is, every module is imported by
  another or is \<open>AppModule\<close>, and neither imports nor constructors go in a circle, so there is an order to build
  them in and no \<open>forwardRef\<close> is needed.
\<close>

theorem application_can_be_built:
  assumes "libraries_documented lib"
  shows "(\<forall>m \<in> set app_modules. resolves lib m \<and> exports_known m \<and>
      (nm_name m = ''AppModule'' \<or> (\<exists>m' \<in> set app_modules. Module (nm_name m) \<in> set (nm_imports m')))) \<and>
    acyclic imports_rel \<and> acyclic needs_rel"
  using resolves_modules exports_known_modules modules_imported resolves_mono [OF assms] imports_acyclic needs_acyclic
  unfolding list_all_iff list_ex_iff by blast

theorem application_can_be_built_witness:
  "list_all (resolves documented_exports) [OrdersModule, CartModule, MessagingModule] \<and>
    Injectable ''JwtService'' \<in> set (visible documented_exports OrdersModule) \<and> acyclic needs_rel"
proof -
  have "libraries_documented documented_exports" by (simp add: libraries_documented_def)
  from application_can_be_built [OF this] have "resolves documented_exports OrdersModule" "resolves documented_exports CartModule"
    "resolves documented_exports MessagingModule" "acyclic needs_rel" by (simp_all add: app_modules_def)
  moreover have "Injectable ''JwtService'' \<in> set (visible documented_exports OrdersModule)"
    by (simp add: visible_def number_of_modules OrdersModule_def)
  ultimately show ?thesis by simp
qed

end
