(* ===== verification/Metrics_Persistence.thy ===== *)
theory Metrics_Persistence
  imports Collectors "HOL-Library.Multiset"
begin

text \<open>
  \<open>MetricsPersistenceService\<close> of \<^verbatim>\<open>src/modules/metrics/metrics-persistence.service.ts\<close>: the durable sink,
  which buffers samples and writes them in batches. The service is a state machine over the events that
  reach it: a recorded sample, the timer, the end of an \<open>INSERT\<close> (accepted or refused by the database) and
  \<open>onModuleDestroy\<close>.

  \<open>flushing\<close> is the batch a \<open>flushNow\<close> has in flight; \<open>stopping\<close> is where \<open>onModuleDestroy\<close> stands: not
  called, waiting for the flush in flight, writing a batch of its own, or returned. \<open>written\<close> and \<open>lost\<close>
  are the rows whose insert succeeded and failed, \<open>warned\<close> counts the samples dropped; \<open>handed\<close> are all
  rows taken from the buffer and \<open>accepted\<close> all samples put into it, in order. Nothing reads these five.
\<close>

section \<open>The service\<close>

record MetricRow =
  mr_metric :: string
  mr_value :: rat
  mr_labels :: "labels option"
  mr_recordedAt :: int

datatype stopping = Running | AwaitingFlush | Writing "MetricRow list" | Returned

record persistence =
  buffer :: "MetricRow list"
  timer :: bool
  flushing :: "MetricRow list option"
  sink_set :: bool
  stopping :: stopping
  accepted :: "MetricRow list"
  handed :: "MetricRow list"
  written :: "MetricRow list"
  lost :: "MetricRow list"
  warned :: nat

definition FLUSH_AT_ROWS :: nat where "FLUSH_AT_ROWS = 500"
definition MAX_BUFFERED_ROWS :: nat where "MAX_BUFFERED_ROWS = 50000"

definition service_init :: persistence where
  "service_init = \<lparr>buffer = [], timer = False, flushing = None, sink_set = False, stopping = Running,
     accepted = [], handed = [], written = [], lost = [], warned = 0\<rparr>"

definition onModuleInit :: "persistence \<Rightarrow> persistence" where
  "onModuleInit s = s\<lparr>sink_set := True\<rparr>"

text \<open>
  \<open>writeBatch\<close> up to its \<open>await\<close> and from there: the rows it takes, and what becomes of them. \<open>flushNow\<close> up
  to the same point, and its \<open>finally\<close>.
\<close>

definition take_batch :: "persistence \<Rightarrow> MetricRow list \<times> persistence" where
  "take_batch s = (let rows = take FLUSH_AT_ROWS (buffer s)
     in (rows, s\<lparr>buffer := drop FLUSH_AT_ROWS (buffer s), handed := handed s @ rows\<rparr>))"

definition end_batch :: "MetricRow list \<Rightarrow> bool \<Rightarrow> persistence \<Rightarrow> persistence" where
  "end_batch rows inserted s =
     (if inserted then s\<lparr>written := written s @ rows\<rparr> else s\<lparr>lost := lost s @ rows\<rparr>)"

definition flushNow :: "persistence \<Rightarrow> persistence" where
  "flushNow s = (case take_batch (s\<lparr>timer := False\<rparr>) of (rows, s') \<Rightarrow> s'\<lparr>flushing := Some rows\<rparr>)"

definition flush_finally :: "persistence \<Rightarrow> persistence" where
  "flush_finally s =
     (let s' = s\<lparr>flushing := None\<rparr>
      in if length (buffer s') \<ge> FLUSH_AT_ROWS then flushNow s'
         else if length (buffer s') > 0 then s'\<lparr>timer := True\<rparr> else s')"

definition record_sample :: "string \<Rightarrow> rat \<Rightarrow> labels option \<Rightarrow> int \<Rightarrow> persistence \<Rightarrow> persistence" where
  "record_sample metric v ls now s =
     (if length (buffer s) \<ge> MAX_BUFFERED_ROWS then s\<lparr>warned := Suc (warned s)\<rparr>
      else let row = \<lparr>mr_metric = metric, mr_value = v, mr_labels = ls, mr_recordedAt = now\<rparr>;
               s' = s\<lparr>buffer := buffer s @ [row], accepted := accepted s @ [row]\<rparr>
           in if flushing s' \<noteq> None then s'
              else if length (buffer s') \<ge> FLUSH_AT_ROWS then flushNow s'
              else s'\<lparr>timer := True\<rparr>)"

text \<open>
  \<open>onModuleDestroy\<close>: \<open>destroy_loop\<close> is the \<open>while\<close> loop up to its next \<open>await\<close>. Without a flush in flight
  the loop starts at once.
\<close>

definition destroy_loop :: "persistence \<Rightarrow> persistence" where
  "destroy_loop s =
     (if length (buffer s) > 0 then case take_batch s of (rows, s') \<Rightarrow> s'\<lparr>stopping := Writing rows\<rparr>
      else s\<lparr>stopping := Returned\<rparr>)"

definition onModuleDestroy :: "persistence \<Rightarrow> persistence" where
  "onModuleDestroy s =
     (let s' = s\<lparr>sink_set := False, timer := False\<rparr>
      in if flushing s' \<noteq> None then s'\<lparr>stopping := AwaitingFlush\<rparr> else destroy_loop s')"

section \<open>Events\<close>

text \<open>An event that cannot happen in a state (a timer not set, an insert not begun) leaves it as it is.\<close>

datatype persistence_event =
    Recorded string rat "labels option" int
  | TimerFired
  | FlushEnded bool
  | DestroyCalled
  | DestroyBatchEnded bool

fun persistence_step :: "persistence \<Rightarrow> persistence_event \<Rightarrow> persistence" where
  "persistence_step s (Recorded metric v ls now) = (if sink_set s then record_sample metric v ls now s else s)"
| "persistence_step s TimerFired = (if timer s then flushNow s else s)"
| "persistence_step s (FlushEnded inserted) =
     (case flushing s of
        None \<Rightarrow> s
      | Some rows \<Rightarrow>
          let s' = flush_finally (end_batch rows inserted s)
          in if stopping s' = AwaitingFlush then destroy_loop s' else s')"
| "persistence_step s DestroyCalled = (if stopping s = Running then onModuleDestroy s else s)"
| "persistence_step s (DestroyBatchEnded inserted) =
     (case stopping s of Writing rows \<Rightarrow> destroy_loop (end_batch rows inserted s) | _ \<Rightarrow> s)"

definition persistence_run :: "persistence_event list \<Rightarrow> persistence" where
  "persistence_run evs = foldl persistence_step (onModuleInit service_init) evs"

section \<open>The invariant\<close>

definition in_flight :: "persistence \<Rightarrow> MetricRow list" where
  "in_flight s = (case flushing s of None \<Rightarrow> [] | Some rows \<Rightarrow> rows) @ (case stopping s of Writing rows \<Rightarrow> rows | _ \<Rightarrow> [])"

text \<open>
  \<open>books_ok\<close>: every sample accepted is in the buffer or was handed to an insert, in order, and what was
  handed is written, lost or in flight. \<open>sizes_ok\<close>: the bounds. \<open>awake\<close>: a sample never waits without a
  timer or a flush to take it.
\<close>

definition books_ok :: "persistence \<Rightarrow> bool" where
  "books_ok s \<longleftrightarrow> accepted s = handed s @ buffer s \<and>
     mset (handed s) = mset (written s) + mset (lost s) + mset (in_flight s)"

definition sizes_ok :: "persistence \<Rightarrow> bool" where
  "sizes_ok s \<longleftrightarrow> length (buffer s) \<le> MAX_BUFFERED_ROWS \<and>
     (\<forall>rows. flushing s = Some rows \<longrightarrow> length rows \<le> FLUSH_AT_ROWS) \<and>
     (\<forall>rows. stopping s = Writing rows \<longrightarrow> length rows \<le> FLUSH_AT_ROWS)"

definition awake :: "persistence \<Rightarrow> bool" where
  "awake s \<longleftrightarrow> (timer s \<longrightarrow> flushing s = None) \<and> (case stopping s of
      Running \<Rightarrow> (buffer s \<noteq> [] \<longrightarrow> timer s \<or> flushing s \<noteq> None) \<and>
        (flushing s = None \<longrightarrow> length (buffer s) < FLUSH_AT_ROWS)
    | AwaitingFlush \<Rightarrow> flushing s \<noteq> None \<and> \<not> sink_set s
    | Writing rows \<Rightarrow> \<not> sink_set s
    | Returned \<Rightarrow> \<not> sink_set s \<and> buffer s = [])"

definition persistence_ok :: "persistence \<Rightarrow> bool" where
  "persistence_ok s \<longleftrightarrow> books_ok s \<and> sizes_ok s \<and> awake s"

lemmas persistence_defs = take_batch_def end_batch_def flushNow_def flush_finally_def record_sample_def
  destroy_loop_def onModuleDestroy_def Let_def

lemma books_flushNow: "books_ok s \<Longrightarrow> flushing s = None \<Longrightarrow> books_ok (flushNow s)"
  by (auto simp: books_ok_def flushNow_def take_batch_def Let_def in_flight_def split: stopping.splits)

lemma books_end_batch:
  "books_ok s \<Longrightarrow> flushing s = Some rows \<Longrightarrow> books_ok ((end_batch rows b s)\<lparr>flushing := None\<rparr>)"
  "books_ok s \<Longrightarrow> stopping s = Writing rows \<Longrightarrow> books_ok ((end_batch rows b s)\<lparr>stopping := Returned\<rparr>)"
  by (auto simp: books_ok_def end_batch_def in_flight_def)

lemma books_frame: "books_ok s \<Longrightarrow> in_flight t = in_flight s \<Longrightarrow> accepted t = accepted s \<Longrightarrow> handed t = handed s \<Longrightarrow>
    buffer t = buffer s \<Longrightarrow> written t = written s \<Longrightarrow> lost t = lost s \<Longrightarrow> books_ok t"
  by (simp add: books_ok_def)

lemma books_finally:
  assumes "books_ok (s\<lparr>flushing := None\<rparr>)" shows "books_ok (flush_finally s)"
proof -
  have "books_ok (s\<lparr>flushing := None, timer := True\<rparr>)"
    by (rule books_frame [OF assms]) (simp_all add: in_flight_def split: stopping.splits)
  with assms books_flushNow [OF assms] show ?thesis by (simp add: flush_finally_def Let_def)
qed

lemma books_loop:
  assumes "books_ok (s\<lparr>stopping := Returned\<rparr>)" shows "books_ok (destroy_loop s)"
  using assms by (auto simp: books_ok_def destroy_loop_def take_batch_def in_flight_def Let_def)

lemma books_record: "books_ok s \<Longrightarrow> books_ok (record_sample metric v ls now s)"
proof -
  assume ok: "books_ok s"
  let ?s = "s\<lparr>buffer := buffer s @ [\<lparr>mr_metric = metric, mr_value = v, mr_labels = ls, mr_recordedAt = now\<rparr>],
    accepted := accepted s @ [\<lparr>mr_metric = metric, mr_value = v, mr_labels = ls, mr_recordedAt = now\<rparr>]\<rparr>"
  have s: "books_ok ?s"
    using ok by (simp add: books_ok_def in_flight_def)
  have "books_ok (s\<lparr>warned := n\<rparr>)" for n
    by (rule books_frame [OF ok]) (simp_all add: in_flight_def)
  moreover have "books_ok (?s\<lparr>timer := True\<rparr>)"
    by (rule books_frame [OF s]) (simp_all add: in_flight_def)
  ultimately show ?thesis
    using s books_flushNow [OF s] by (simp add: record_sample_def Let_def)
qed

lemma books_destroy:
  assumes ok: "books_ok s" and run: "stopping s = Running"
  shows "books_ok (onModuleDestroy s)"
proof -
  have a: "books_ok (s\<lparr>sink_set := False, timer := False, stopping := st\<rparr>)" if "st = AwaitingFlush \<or> st = Returned" for st
    by (rule books_frame [OF ok]) (use run that in \<open>auto simp: in_flight_def\<close>)
  then show ?thesis
    using books_loop [of "s\<lparr>sink_set := False, timer := False\<rparr>"] by (simp add: onModuleDestroy_def Let_def)
qed

lemma finally_stopping: "stopping (flush_finally s) = stopping s"
  by (simp add: flush_finally_def flushNow_def take_batch_def Let_def)

lemma end_batch_simps [simp]:
  "stopping (end_batch rows b s) = stopping s" "flushing (end_batch rows b s) = flushing s"
  "buffer (end_batch rows b s) = buffer s" "sink_set (end_batch rows b s) = sink_set s"
  "timer (end_batch rows b s) = timer s"
  by (simp_all add: end_batch_def)

lemma books_step:
  assumes ok: "books_ok s" and awake: "awake s"
  shows "books_ok (persistence_step s e)"
proof (cases e)
  case (FlushEnded inserted)
  show ?thesis
  proof (cases "flushing s")
    case (Some rows)
    let ?s = "flush_finally (end_batch rows inserted s)"
    have f: "books_ok ?s" by (intro books_finally books_end_batch ok Some)
    have "books_ok (?s\<lparr>stopping := Returned\<rparr>)" if "stopping s = AwaitingFlush"
      by (rule books_frame [OF f]) (use that in \<open>simp_all add: in_flight_def finally_stopping\<close>)
    then show ?thesis
      using f books_loop [of ?s] by (simp add: FlushEnded Some Let_def finally_stopping)
  qed (simp add: FlushEnded ok)
next
  case (DestroyBatchEnded inserted)
  then show ?thesis
    using ok books_loop books_end_batch(2) [OF ok] by (cases "stopping s") simp_all
next
  case TimerFired
  then show ?thesis using ok awake books_flushNow by (simp add: awake_def)
qed (use ok books_record books_destroy in simp_all)

lemma sizes_step:
  assumes ok: "sizes_ok s" shows "sizes_ok (persistence_step s e)"
proof -
  have flush: "sizes_ok (flushNow t)" if "sizes_ok t" for t
    using that by (auto simp: sizes_ok_def flushNow_def take_batch_def Let_def)
  have batch: "sizes_ok (end_batch rows b t)" if "sizes_ok t" for rows b t
    using that by (auto simp: sizes_ok_def end_batch_def)
  have fin: "sizes_ok (flush_finally t)" if "sizes_ok t" for t
  proof -
    have "sizes_ok (t\<lparr>flushing := None\<rparr>)" "sizes_ok (t\<lparr>flushing := None, timer := True\<rparr>)"
      using that by (simp_all add: sizes_ok_def)
    with flush show ?thesis by (simp add: flush_finally_def Let_def)
  qed
  have loop: "sizes_ok (destroy_loop t)" if "sizes_ok t" for t
    using that by (auto simp: sizes_ok_def destroy_loop_def take_batch_def Let_def)
  have rec: "sizes_ok (record_sample metric v ls now t)" if "sizes_ok t" for metric v ls now t
  proof -
    have w: "sizes_ok (t\<lparr>warned := n\<rparr>)" for n using that by (simp add: sizes_ok_def)
    show ?thesis
    proof (cases "length (buffer t) < MAX_BUFFERED_ROWS")
      case True
      then have b: "sizes_ok (t\<lparr>buffer := buffer t @ [r], accepted := a\<rparr>)"
        "sizes_ok (t\<lparr>buffer := buffer t @ [r], accepted := a, timer := True\<rparr>)" for r a
        using that by (simp_all add: sizes_ok_def)
      show ?thesis using True b flush [OF b(1)] by (simp add: record_sample_def Let_def)
    qed (simp add: record_sample_def w)
  qed
  have destroy: "sizes_ok (onModuleDestroy t)" if "sizes_ok t" for t
  proof -
    have "sizes_ok (t\<lparr>sink_set := False, timer := False\<rparr>)"
      "sizes_ok (t\<lparr>sink_set := False, timer := False, stopping := AwaitingFlush\<rparr>)"
      using that by (simp_all add: sizes_ok_def)
    with loop show ?thesis by (simp add: onModuleDestroy_def Let_def)
  qed
  show ?thesis
  proof (cases e)
    case (FlushEnded inserted)
    show ?thesis
      by (cases "flushing s") (simp_all add: FlushEnded ok Let_def batch fin loop)
  next
    case (DestroyBatchEnded inserted)
    show ?thesis
      by (cases "stopping s") (simp_all add: DestroyBatchEnded ok batch loop)
  qed (use ok flush rec destroy in simp_all)
qed

lemma awake_step:
  assumes ok: "awake s" shows "awake (persistence_step s e)"
proof (cases e)
  case (Recorded metric v ls now)
  show ?thesis
    using ok by (cases "stopping s")
      (auto simp: Recorded awake_def record_sample_def flushNow_def take_batch_def Let_def not_le)
next
  case TimerFired
  show ?thesis
    using ok by (cases "stopping s") (auto simp: TimerFired awake_def flushNow_def take_batch_def Let_def)
next
  case (FlushEnded inserted)
  show ?thesis
  proof (cases "flushing s")
    case None
    then show ?thesis using ok by (simp add: FlushEnded)
  next
    case (Some rows)
    then show ?thesis using ok
      by (cases "stopping s")
        (auto simp: FlushEnded awake_def flush_finally_def flushNow_def take_batch_def destroy_loop_def Let_def not_le)
  qed
next
  case DestroyCalled
  show ?thesis
    using ok by (cases "stopping s")
      (auto simp: DestroyCalled awake_def onModuleDestroy_def destroy_loop_def take_batch_def Let_def)
next
  case (DestroyBatchEnded inserted)
  show ?thesis
    using ok by (cases "stopping s")
      (auto simp: DestroyBatchEnded awake_def destroy_loop_def take_batch_def Let_def)
qed

lemma persistence_ok_run: "persistence_ok (persistence_run evs)"
proof -
  have "persistence_ok (foldl persistence_step s evs)" if "persistence_ok s" for s
    using that
  proof (induction evs arbitrary: s)
    case (Cons e evs)
    then have "persistence_ok (persistence_step s e)"
      using books_step sizes_step awake_step by (simp add: persistence_ok_def)
    with Cons.IH show ?case by simp
  qed simp
  moreover have "persistence_ok (onModuleInit service_init)"
    by (simp add: persistence_ok_def onModuleInit_def service_init_def books_ok_def sizes_ok_def awake_def
        in_flight_def FLUSH_AT_ROWS_def)
  ultimately show ?thesis by (simp add: persistence_run_def)
qed

section \<open>Properties\<close>

text \<open>
  C27: Whatever happens, in any order (samples, timers, inserts that succeed or fail, a shutdown), the
  buffer holds at most 50,000 samples and a batch at most 500; every sample accepted is still in the buffer
  or was handed to an insert, in the order recorded and once; what was handed is written, lost with a
  failed insert or in flight; no sample waits without a timer or a flush to take it; and after a
  shutdown none is left in the buffer.
\<close>

theorem persistence_accounts:
  "let s = persistence_run evs in
     length (buffer s) \<le> 50000 \<and> (\<forall>rows. flushing s = Some rows \<longrightarrow> length rows \<le> 500) \<and>
     accepted s = handed s @ buffer s \<and>
     mset (handed s) = mset (written s) + mset (lost s) + mset (in_flight s) \<and>
     (stopping s = Running \<and> buffer s \<noteq> [] \<longrightarrow> timer s \<or> flushing s \<noteq> None) \<and>
     (stopping s = Returned \<longrightarrow> buffer s = [])"
  using persistence_ok_run [of evs]
  by (cases "stopping (persistence_run evs)")
    (simp_all add: Let_def persistence_ok_def books_ok_def sizes_ok_def awake_def FLUSH_AT_ROWS_def MAX_BUFFERED_ROWS_def)

definition persistence_example :: "persistence_event list" where
  "persistence_example = [Recorded ''orders_created'' 1 None 0, TimerFired, Recorded ''orders_created'' 1 None 5]"

lemma persistence_example_run:
  "persistence_run persistence_example =
     \<lparr>buffer = [\<lparr>mr_metric = ''orders_created'', mr_value = 1, mr_labels = None, mr_recordedAt = 5\<rparr>], timer = False,
      flushing = Some [\<lparr>mr_metric = ''orders_created'', mr_value = 1, mr_labels = None, mr_recordedAt = 0\<rparr>],
      sink_set = True, stopping = Running,
      accepted = [\<lparr>mr_metric = ''orders_created'', mr_value = 1, mr_labels = None, mr_recordedAt = 0\<rparr>,
        \<lparr>mr_metric = ''orders_created'', mr_value = 1, mr_labels = None, mr_recordedAt = 5\<rparr>],
      handed = [\<lparr>mr_metric = ''orders_created'', mr_value = 1, mr_labels = None, mr_recordedAt = 0\<rparr>],
      written = [], lost = [], warned = 0\<rparr>"
  by (simp add: persistence_run_def persistence_example_def onModuleInit_def service_init_def persistence_defs
      FLUSH_AT_ROWS_def MAX_BUFFERED_ROWS_def)

theorem persistence_accounts_witness:
  "let s = persistence_run persistence_example in
     length (buffer s) \<le> 50000 \<and> (\<forall>rows. flushing s = Some rows \<longrightarrow> length rows \<le> 500) \<and>
     accepted s = handed s @ buffer s \<and>
     mset (handed s) = mset (written s) + mset (lost s) + mset (in_flight s) \<and>
     (stopping s = Running \<and> buffer s \<noteq> [] \<longrightarrow> timer s \<or> flushing s \<noteq> None) \<and>
     (stopping s = Returned \<longrightarrow> buffer s = [])"
  by (rule persistence_accounts)

text \<open>A round: the timer fires if it is set, and the insert in flight ends well.\<close>

definition drain_round :: "persistence \<Rightarrow> persistence" where
  "drain_round s = persistence_step (persistence_step s TimerFired) (FlushEnded True)"

definition waiting :: "persistence \<Rightarrow> nat" where
  "waiting s = length (buffer s) + (if flushing s = None then 0 else 1)"

lemma drain_round_ok:
  assumes "persistence_ok s" and "stopping s = Running"
  shows "persistence_ok (drain_round s)" "stopping (drain_round s) = Running"
    "accepted (drain_round s) = accepted s" "lost (drain_round s) = lost s"
    "waiting (drain_round s) \<le> waiting s - 1"
proof -
  show "persistence_ok (drain_round s)"
    using assms(1) books_step sizes_step awake_step by (simp add: persistence_ok_def drain_round_def del: persistence_step.simps)
  have aw: "timer s \<longrightarrow> flushing s = None" "buffer s \<noteq> [] \<longrightarrow> timer s \<or> flushing s \<noteq> None"
    using assms by (simp_all add: persistence_ok_def awake_def)
  show "stopping (drain_round s) = Running" "accepted (drain_round s) = accepted s" "lost (drain_round s) = lost s"
    using assms(2) by (auto simp: drain_round_def flushNow_def flush_finally_def take_batch_def end_batch_def Let_def split: option.split)
  show "waiting (drain_round s) \<le> waiting s - 1"
    using aw assms(2)
    by (auto simp: drain_round_def waiting_def flushNow_def flush_finally_def take_batch_def end_batch_def Let_def
        FLUSH_AT_ROWS_def split: option.split)
qed

text \<open>
  Once no more samples come, and the timers fire and the inserts succeed, everything is written: after
  as many rounds as samples wait, and one more, nothing is in the buffer or in flight, and the samples
  written are exactly those ever accepted and not lost to a failed insert before.
\<close>

theorem persistence_drains:
  assumes "stopping (persistence_run evs) = Running" and "length (buffer (persistence_run evs)) < n"
  shows "let s = (drain_round ^^ n) (persistence_run evs) in
     buffer s = [] \<and> flushing s = None \<and> lost s = lost (persistence_run evs) \<and>
     mset (written s) + mset (lost s) = mset (accepted (persistence_run evs))"
proof -
  let ?s = "persistence_run evs"
  have "persistence_ok ((drain_round ^^ k) ?s) \<and> stopping ((drain_round ^^ k) ?s) = Running \<and>
      accepted ((drain_round ^^ k) ?s) = accepted ?s \<and> lost ((drain_round ^^ k) ?s) = lost ?s \<and>
      waiting ((drain_round ^^ k) ?s) \<le> waiting ?s - k" for k
  proof (induction k)
    case 0
    show ?case using persistence_ok_run assms(1) by simp
  next
    case (Suc k)
    then show ?case using drain_round_ok [of "(drain_round ^^ k) ?s"] by (simp, linarith)
  qed
  note k = this [of n]
  have "waiting ?s \<le> n" using assms(2) by (simp add: waiting_def)
  with k have "waiting ((drain_round ^^ n) ?s) = 0" by simp
  then have b: "buffer ((drain_round ^^ n) ?s) = []" "flushing ((drain_round ^^ n) ?s) = None"
    by (simp_all add: waiting_def split: if_splits)
  with k show ?thesis
    by (auto simp: persistence_ok_def books_ok_def in_flight_def)
qed

theorem persistence_drains_witness:
  "let s = (drain_round ^^ 2) (persistence_run persistence_example) in
     buffer s = [] \<and> flushing s = None \<and> lost s = lost (persistence_run persistence_example) \<and>
     mset (written s) + mset (lost s) = mset (accepted (persistence_run persistence_example))"
  by (rule persistence_drains) (simp_all add: persistence_example_run)

text \<open>
  \<open>onModuleDestroy\<close> waits for the flush it finds in flight and then writes what is left itself, but not
  for the flush that the first one starts when it ends with 500 samples waiting: with exactly 500 it
  returns while their insert is still in flight.
\<close>

theorem shutdown_leaves_batch:
  assumes "stopping s = Running" and "flushing s = Some rows" and "length (buffer s) = 500"
  shows "let t = persistence_step (persistence_step s DestroyCalled) (FlushEnded inserted) in
     stopping t = Returned \<and> flushing t = Some (buffer s)"
  using assms
  by (simp add: Let_def onModuleDestroy_def flush_finally_def flushNow_def take_batch_def end_batch_def
      destroy_loop_def FLUSH_AT_ROWS_def)

lemma record_while_flushing:
  "flushing s \<noteq> None \<Longrightarrow> sink_set s \<Longrightarrow> stopping s = Running \<Longrightarrow> length (buffer s) + n < 50000 \<Longrightarrow>
    let t = foldl persistence_step s (replicate n (Recorded m v ls now)) in
      length (buffer t) = length (buffer s) + n \<and> flushing t = flushing s \<and> stopping t = Running"
proof (induction n arbitrary: s)
  case (Suc n)
  from Suc.prems Suc.IH [of "persistence_step s (Recorded m v ls now)"] show ?case
    by (simp add: Let_def record_sample_def MAX_BUFFERED_ROWS_def)
qed simp

theorem shutdown_leaves_batch_witness:
  "\<exists>evs. let s = persistence_run evs; t = persistence_run (evs @ [DestroyCalled, FlushEnded True]) in
     stopping s = Running \<and> length (buffer s) = 500 \<and> stopping t = Returned \<and> flushing t = Some (buffer s)"
proof -
  let ?evs = "persistence_example @ replicate 499 (Recorded ''orders_created'' 1 None 6)"
  let ?s = "persistence_run ?evs"
  have "let t = ?s in length (buffer t) = 1 + 499 \<and> flushing t = flushing (persistence_run persistence_example) \<and> stopping t = Running"
    using record_while_flushing [of "persistence_run persistence_example" 499 "''orders_created''" 1 None 6]
    unfolding persistence_run_def foldl_append by (simp add: persistence_example_run [unfolded persistence_run_def])
  then have s: "stopping ?s = Running" "flushing ?s = Some [\<lparr>mr_metric = ''orders_created'', mr_value = 1, mr_labels = None, mr_recordedAt = 0\<rparr>]"
    "length (buffer ?s) = 500"
    by (simp_all add: Let_def persistence_example_run)
  have "persistence_run (?evs @ [DestroyCalled, FlushEnded True]) = persistence_step (persistence_step ?s DestroyCalled) (FlushEnded True)"
    by (simp only: persistence_run_def foldl_append foldl.simps)
  with s shutdown_leaves_batch [OF s, of True] show ?thesis
    unfolding Let_def by metis
qed

end
