(* ===== verification/Live_Gauges.thy ===== *)
theory Live_Gauges
  imports Outbox Order_State_Machine "HOL-Library.AList"
begin

text \<open>
  \<open>LiveGaugesService\<close> of \<^verbatim>\<open>src/modules/metrics/live-gauges.service.ts\<close> and the gauges of
  \<^verbatim>\<open>metrics.collectors.ts\<close> it feeds. The broker is a parameter: \<open>opens n\<close> says whether the \<open>n\<close>-th attempt
  to create a channel succeeds, \<open>check\<close> what \<open>checkQueue\<close> answers for a queue (\<open>None\<close>: it throws and
  closes the channel). \<open>orders_query\<close> and \<open>outbox_query\<close> say whether the two queries succeed.
\<close>

section \<open>The snapshot\<close>

record queue_gauge =
  qg_queue :: string
  qg_messages :: nat
  qg_consumers :: nat

record LiveGaugeSnapshot =
  lg_ordersByStatus :: "(string \<times> nat) list"
  lg_outboxPending :: nat
  lg_outboxOldestAgeSeconds :: rat
  lg_queues :: "queue_gauge list"

record live_gauges =
  lv_cached :: "(int \<times> LiveGaugeSnapshot) option"
  lv_channel :: bool
  lv_attempts :: nat

definition all_statuses :: "OrderStatus list" where
  "all_statuses = [PENDING, RESERVED, PAID, COMPLETED, FAILED, CANCELLED]"

definition MONITORED_QUEUES :: "string list" where
  "MONITORED_QUEUES = map queue_name [QInventory, QPayment, QCompletion, QEmail] @ [ORDER_DLQ]"

definition SNAPSHOT_TTL_MS :: int where "SNAPSHOT_TTL_MS = 2000"

text \<open>\<open>SELECT status, COUNT(*) \<dots> GROUP BY status\<close>: one row for each status that occurs.\<close>

definition status_rows :: "database \<Rightarrow> (string \<times> nat) list" where
  "status_rows d = map (\<lambda>st. (status_text st, affected (\<lambda>r. o_status r = st) (orders d)))
     (remdups (map o_status (orders d)))"

definition ordersByStatus :: "bool \<Rightarrow> database \<Rightarrow> (string \<times> nat) list" where
  "ordersByStatus orders_query d =
     (let counts = map (\<lambda>st. (status_text st, 0)) all_statuses
      in if orders_query then fold (\<lambda>(st, n) counts. AList.update st n counts) (status_rows d) counts else counts)"

text \<open>The number of unpublished rows and the age of the oldest, null when there is none.\<close>

definition outbox_gauges :: "bool \<Rightarrow> int \<Rightarrow> database \<Rightarrow> nat \<times> rat" where
  "outbox_gauges outbox_query now d =
     (if outbox_query
      then let rows = rows_where (\<lambda>r. om_publishedAt r = None) (outbox_messages d);
               age = (if rows = [] then None
                      else Some (of_int (now - Min (set (map (\<lambda>r. getTime (om_createdAt r)) rows))) / 1000))
           in (length rows, case age of None \<Rightarrow> 0 | Some a \<Rightarrow> a)
      else (0, 0))"

definition queueChannel :: "(nat \<Rightarrow> bool) \<Rightarrow> live_gauges \<Rightarrow> bool \<times> live_gauges" where
  "queueChannel opens s =
     (if lv_channel s then (True, s)
      else (opens (lv_attempts s), s\<lparr>lv_channel := opens (lv_attempts s), lv_attempts := Suc (lv_attempts s)\<rparr>))"

fun queues_loop :: "(nat \<Rightarrow> bool) \<Rightarrow> (string \<Rightarrow> (nat \<times> nat) option) \<Rightarrow> string list \<Rightarrow> live_gauges \<Rightarrow>
    queue_gauge list \<times> live_gauges" where
  "queues_loop opens check [] s = ([], s)"
| "queues_loop opens check (queue # queues) s =
     (case queueChannel opens s of
        (False, s') \<Rightarrow> ([], s')
      | (True, s') \<Rightarrow>
          (case check queue of
             Some (messages, consumers) \<Rightarrow>
               (case queues_loop opens check queues s' of (results, t) \<Rightarrow>
                 (\<lparr>qg_queue = queue, qg_messages = messages, qg_consumers = consumers\<rparr> # results, t))
           | None \<Rightarrow> queues_loop opens check queues (s'\<lparr>lv_channel := False\<rparr>)))"

definition load_snapshot ::
    "bool \<Rightarrow> bool \<Rightarrow> (nat \<Rightarrow> bool) \<Rightarrow> (string \<Rightarrow> (nat \<times> nat) option) \<Rightarrow> int \<Rightarrow> database \<Rightarrow> live_gauges \<Rightarrow>
      LiveGaugeSnapshot \<times> live_gauges" where
  "load_snapshot orders_query outbox_query opens check now d s =
     (case queues_loop opens check MONITORED_QUEUES s of (queues, s') \<Rightarrow>
        (\<lparr>lg_ordersByStatus = ordersByStatus orders_query d,
          lg_outboxPending = fst (outbox_gauges outbox_query now d),
          lg_outboxOldestAgeSeconds = snd (outbox_gauges outbox_query now d), lg_queues = queues\<rparr>, s'))"

definition snapshot ::
    "bool \<Rightarrow> bool \<Rightarrow> (nat \<Rightarrow> bool) \<Rightarrow> (string \<Rightarrow> (nat \<times> nat) option) \<Rightarrow> int \<Rightarrow> database \<Rightarrow> live_gauges \<Rightarrow>
      LiveGaugeSnapshot \<times> live_gauges" where
  "snapshot orders_query outbox_query opens check now d s =
     (let stale = (case lv_cached s of None \<Rightarrow> True | Some (taken, v) \<Rightarrow> now - taken > SNAPSHOT_TTL_MS)
      in if stale
         then case load_snapshot orders_query outbox_query opens check now d s of
                (v, s') \<Rightarrow> (v, s'\<lparr>lv_cached := Some (now, v)\<rparr>)
         else (snd (the (lv_cached s)), s))"

definition gauges_onModuleDestroy :: "live_gauges \<Rightarrow> live_gauges" where
  "gauges_onModuleDestroy s = s\<lparr>lv_channel := False\<rparr>"

section \<open>The gauges\<close>

text \<open>
  What \<open>collect\<close> leaves in a gauge, by label value, from the source's snapshot (\<open>None\<close>: no source is set)
  and what the gauge held before.
\<close>

definition collect_ordersInStatus :: "LiveGaugeSnapshot option \<Rightarrow> (string \<times> nat) list \<Rightarrow> (string \<times> nat) list" where
  "collect_ordersInStatus source held_before = (case source of None \<Rightarrow> [] | Some s \<Rightarrow> lg_ordersByStatus s)"

definition collect_outboxPendingMessages :: "LiveGaugeSnapshot option \<Rightarrow> nat \<Rightarrow> nat" where
  "collect_outboxPendingMessages source held_before =
     (case source of None \<Rightarrow> held_before | Some s \<Rightarrow> lg_outboxPending s)"

definition collect_outboxOldestPendingAge :: "LiveGaugeSnapshot option \<Rightarrow> rat \<Rightarrow> rat" where
  "collect_outboxOldestPendingAge source held_before =
     (case source of None \<Rightarrow> held_before | Some s \<Rightarrow> lg_outboxOldestAgeSeconds s)"

definition collect_queueMessages :: "LiveGaugeSnapshot option \<Rightarrow> (string \<times> nat) list \<Rightarrow> (string \<times> nat) list" where
  "collect_queueMessages source held_before =
     (case source of None \<Rightarrow> [] | Some s \<Rightarrow> map (\<lambda>q. (qg_queue q, qg_messages q)) (lg_queues s))"

definition collect_queueConsumers :: "LiveGaugeSnapshot option \<Rightarrow> (string \<times> nat) list \<Rightarrow> (string \<times> nat) list" where
  "collect_queueConsumers source held_before =
     (case source of None \<Rightarrow> [] | Some s \<Rightarrow> map (\<lambda>q. (qg_queue q, qg_consumers q)) (lg_queues s))"

section \<open>Lemmas\<close>

lemma status_text_inj: "status_text a = status_text b \<longleftrightarrow> a = b"
  by (cases a; cases b) simp_all

lemma all_statuses_all: "set all_statuses = UNIV"
  by (auto simp: all_statuses_def) (metis OrderStatus.exhaust)

lemma fold_update_keys:
  "set (map fst rows) \<subseteq> set (map fst counts) \<Longrightarrow>
    map fst (fold (\<lambda>(st, n) counts. AList.update st n counts) rows counts) = map fst counts"
proof (induction rows arbitrary: counts)
  case (Cons row rows)
  obtain k n where row: "row = (k, n)" by fastforce
  have "map fst (AList.update k n counts) = map fst counts"
    using Cons.prems by (simp add: row update_keys)
  moreover from this have "fst ` set (AList.update k n counts) = fst ` set counts"
    using arg_cong [of _ _ set] by (metis list.set_map)
  ultimately show ?case using Cons.IH [of "AList.update k n counts"] Cons.prems by (simp add: row)
qed simp

lemma fold_update_map:
  "map_of (fold (\<lambda>(st, n) counts. AList.update st n counts) rows counts) k =
     (case map_of (rev rows) k of None \<Rightarrow> map_of counts k | Some n \<Rightarrow> Some n)"
  by (induction rows arbitrary: counts) (auto simp: update_conv' map_add_def split: option.splits)

lemma map_of_status_rows: "distinct sts \<Longrightarrow>
    map_of (rev (map (\<lambda>st. (status_text st, f st)) sts)) (status_text st) = (if st \<in> set sts then Some (f st) else None)"
  by (induction sts) (auto simp: map_add_def status_text_inj split: option.splits)

lemma ordersByStatus_exact:
  "map fst (ordersByStatus True d) = map status_text all_statuses"
  "map_of (ordersByStatus True d) (status_text st) = Some (affected (\<lambda>r. o_status r = st) (orders d))"
proof -
  let ?zero = "map (\<lambda>st. (status_text st, 0::nat)) all_statuses"
  have "set (map fst (status_rows d)) \<subseteq> set (map fst ?zero)"
    using all_statuses_all by (auto simp: status_rows_def)
  from fold_update_keys [OF this] show "map fst (ordersByStatus True d) = map status_text all_statuses"
    by (simp add: ordersByStatus_def Let_def comp_def)
  have zero: "map_of ?zero (status_text st) = Some 0"
    by (cases st) (simp_all add: all_statuses_def)
  have "affected (\<lambda>r. o_status r = st) (orders d) = 0" if "st \<notin> set (map o_status (orders d))"
    using that by (auto simp: affected_0)
  then show "map_of (ordersByStatus True d) (status_text st) = Some (affected (\<lambda>r. o_status r = st) (orders d))"
    by (simp add: ordersByStatus_def Let_def fold_update_map status_rows_def map_of_status_rows zero del: set_map)
qed

lemma queues_loop_open:
  assumes "\<And>n. opens n"
  shows "fst (queues_loop opens check queues s) =
    concat (map (\<lambda>q. case check q of None \<Rightarrow> [] | Some (m, c) \<Rightarrow> [\<lparr>qg_queue = q, qg_messages = m, qg_consumers = c\<rparr>]) queues)"
proof (induction queues arbitrary: s)
  case (Cons q queues)
  obtain s' where s': "queueChannel opens s = (True, s')" using assms by (cases "lv_channel s") (simp_all add: queueChannel_def)
  show ?case
  proof (cases "check q")
    case None
    then show ?thesis using Cons.IH by (simp add: s')
  next
    case (Some mc)
    obtain m c where "mc = (m, c)" by fastforce
    then show ?thesis
      using Some Cons.IH [of s'] by (cases "queues_loop opens check queues s'") (simp add: s')
  qed
qed simp

section \<open>Properties\<close>

text \<open>
  While its queries succeed the snapshot is exact: every order status has its number of orders, once,
  also when it is zero; the outbox gauge counts the rows not yet published, and its age is that of the
  oldest of them, zero when there is none. Whatever a queue check does, the other queues are reported as
  long as a channel can be opened. A snapshot is reused for two seconds.
\<close>

theorem snapshot_exact:
  assumes "lv_cached s = None" and "\<And>n. opens n"
  shows "let (v, s') = snapshot True True opens check now d s in
     map fst (lg_ordersByStatus v) = map status_text [PENDING, RESERVED, PAID, COMPLETED, FAILED, CANCELLED] \<and>
     (\<forall>st. map_of (lg_ordersByStatus v) (status_text st) = Some (length (filter (\<lambda>r. o_status r = st) (orders d)))) \<and>
     lg_outboxPending v = length (filter (\<lambda>r. om_publishedAt r = None) (outbox_messages d)) \<and>
     (lg_outboxPending v = 0 \<longrightarrow> lg_outboxOldestAgeSeconds v = 0) \<and>
     (\<forall>r \<in> set (outbox_messages d). om_publishedAt r = None \<longrightarrow>
        of_int (now - getTime (om_createdAt r)) / 1000 \<le> lg_outboxOldestAgeSeconds v) \<and>
     map qg_queue (lg_queues v) = filter (\<lambda>q. check q \<noteq> None) MONITORED_QUEUES \<and>
     (\<forall>q \<in> set (lg_queues v). check (qg_queue q) = Some (qg_messages q, qg_consumers q)) \<and>
     (\<forall>later d' o1 o2 opens' check'. later \<le> now + 2000 \<longrightarrow> snapshot o1 o2 opens' check' later d' s' = (v, s'))"
proof -
  let ?l = "load_snapshot True True opens check now d s"
  have snap: "snapshot True True opens check now d s = (fst ?l, (snd ?l)\<lparr>lv_cached := Some (now, fst ?l)\<rparr>)"
    using assms(1) by (simp add: snapshot_def split: prod.splits)
  have l: "lg_ordersByStatus (fst ?l) = ordersByStatus True d" "lg_outboxPending (fst ?l) = fst (outbox_gauges True now d)"
    "lg_outboxOldestAgeSeconds (fst ?l) = snd (outbox_gauges True now d)"
    "lg_queues (fst ?l) = fst (queues_loop opens check MONITORED_QUEUES s)"
    by (simp_all add: load_snapshot_def split: prod.splits)
  have o1: "fst (outbox_gauges True now d) = length (filter (\<lambda>r. om_publishedAt r = None) (outbox_messages d))"
    by (simp add: outbox_gauges_def Let_def rows_where_def)
  have o2: "fst (outbox_gauges True now d) = 0 \<longrightarrow> snd (outbox_gauges True now d) = 0"
    by (simp add: outbox_gauges_def Let_def)
  have o3: "of_int (now - getTime (om_createdAt r)) / 1000 \<le> snd (outbox_gauges True now d)"
    if "r \<in> set (outbox_messages d)" "om_publishedAt r = None" for r
  proof -
    let ?rows = "rows_where (\<lambda>r. om_publishedAt r = None) (outbox_messages d)"
    have r: "r \<in> set ?rows" using that by (simp add: rows_where_def)
    then have "Min (set (map (\<lambda>r. getTime (om_createdAt r)) ?rows)) \<le> getTime (om_createdAt r)"
      by (intro Min_le) auto
    moreover have "?rows \<noteq> []" using r by auto
    ultimately show ?thesis by (simp add: outbox_gauges_def Let_def divide_right_mono)
  qed
  have q: "map qg_queue (fst (queues_loop opens check qs s)) = filter (\<lambda>q. check q \<noteq> None) qs \<and>
      (\<forall>q \<in> set (fst (queues_loop opens check qs s)). check (qg_queue q) = Some (qg_messages q, qg_consumers q))" for qs
    unfolding queues_loop_open [of opens, OF assms(2)] by (induction qs) (auto split: option.splits)
  have reuse: "snapshot o1 o2 opens' check' later d' ((snd ?l)\<lparr>lv_cached := Some (now, fst ?l)\<rparr>) =
      (fst ?l, (snd ?l)\<lparr>lv_cached := Some (now, fst ?l)\<rparr>)" if "later \<le> now + 2000" for o1 o2 opens' check' later d'
    using that by (simp add: snapshot_def SNAPSHOT_TTL_MS_def)
  show ?thesis
    unfolding snap Let_def prod.case l
    using ordersByStatus_exact [of d] o1 o2 o3 q [of MONITORED_QUEUES] reuse
    by (simp add: all_statuses_def affected_def rows_where_def)
qed

text \<open>
  When both queries fail and no channel can be opened, a scrape still gets a snapshot: the queue gauges
  are left out, but every order status and the outbox backlog read zero, as if the shop were idle.
\<close>

theorem failed_queries_read_zero:
  assumes "lv_cached s = None" and "\<not> lv_channel s" and "\<And>n. \<not> opens n"
  shows "let v = fst (snapshot False False opens check now d s) in
     (\<forall>st. map_of (lg_ordersByStatus v) (status_text st) = Some 0) \<and>
     lg_outboxPending v = 0 \<and> lg_outboxOldestAgeSeconds v = 0 \<and> lg_queues v = []"
proof -
  have "map_of (map (\<lambda>st. (status_text st, 0::nat)) all_statuses) (status_text st) = Some 0" for st
    by (cases st) (simp_all add: all_statuses_def)
  then show ?thesis
    using assms
    by (simp add: Let_def snapshot_def load_snapshot_def MONITORED_QUEUES_def queueChannel_def ordersByStatus_def
        outbox_gauges_def)
qed

definition gauges_start :: live_gauges where
  "gauges_start = \<lparr>lv_cached = None, lv_channel = False, lv_attempts = 0\<rparr>"

text \<open>A broker on which the payment queue is not declared yet.\<close>

definition check_example :: "string \<Rightarrow> (nat \<times> nat) option" where
  "check_example q = (if q = queue_name QPayment then None else Some (3, 1))"

theorem snapshot_exact_witness:
  "let (v, s') = snapshot True True (\<lambda>_. True) check_example 5000 empty_db gauges_start in
     map fst (lg_ordersByStatus v) = map status_text [PENDING, RESERVED, PAID, COMPLETED, FAILED, CANCELLED] \<and>
     (\<forall>st. map_of (lg_ordersByStatus v) (status_text st) = Some (length (filter (\<lambda>r. o_status r = st) (orders empty_db)))) \<and>
     lg_outboxPending v = length (filter (\<lambda>r. om_publishedAt r = None) (outbox_messages empty_db)) \<and>
     (lg_outboxPending v = 0 \<longrightarrow> lg_outboxOldestAgeSeconds v = 0) \<and>
     (\<forall>r \<in> set (outbox_messages empty_db). om_publishedAt r = None \<longrightarrow>
        of_int (5000 - getTime (om_createdAt r)) / 1000 \<le> lg_outboxOldestAgeSeconds v) \<and>
     map qg_queue (lg_queues v) = filter (\<lambda>q. check_example q \<noteq> None) MONITORED_QUEUES \<and>
     (\<forall>q \<in> set (lg_queues v). check_example (qg_queue q) = Some (qg_messages q, qg_consumers q)) \<and>
     (\<forall>later d' o1 o2 opens' check'. later \<le> 5000 + 2000 \<longrightarrow> snapshot o1 o2 opens' check' later d' s' = (v, s'))"
  by (rule snapshot_exact) (simp_all add: gauges_start_def)

theorem failed_queries_read_zero_witness:
  "let v = fst (snapshot False False (\<lambda>_. False) check_example 5000 empty_db gauges_start) in
     (\<forall>st. map_of (lg_ordersByStatus v) (status_text st) = Some 0) \<and>
     lg_outboxPending v = 0 \<and> lg_outboxOldestAgeSeconds v = 0 \<and> lg_queues v = []"
  by (rule failed_queries_read_zero) (simp_all add: gauges_start_def)

end
