(* ===== verification/Seeding.thy ===== *)
theory Seeding
  imports Auth Cart
begin

text \<open>
  What runs at boot: \<open>SeedService\<close> of \<^verbatim>\<open>src/database/seeds/seed.service.ts\<close> and \<open>seedAdmin\<close> with the
  \<^verbatim>\<open>pnpm admin:create\<close> script of \<^verbatim>\<open>create-admin.ts\<close>. Log lines are left out. \<open>seedProducts\<close> and
  \<open>retireOldProducts\<close> are the reads and the writes they make, so that another instance or a crash can
  come between.
\<close>

section \<open>The admin\<close>

datatype SeedAdminResult = SeedCreated | SeedExists

definition save_admin :: "string \<Rightarrow> string \<Rightarrow> (world, UserEntity) app" where
  "save_admin email password =
     bind_app random_uuid (\<lambda>uid. bind_app read_clock (\<lambda>now.
       let user = normalizeEmail_hook \<lparr>u_id = uid, u_email = email, u_password = password, u_role = ADMIN,
             u_disabled = False, u_createdAt = DateObj now\<rparr>
       in bind_app (query (\<lambda>d. row_where (\<lambda>u. u_email u = u_email user) (users d))) (\<lambda>other.
            if other \<noteq> None then throw_app (unique_violation ''users'')
            else then_app (execute (\<lambda>d. d\<lparr>users := users d @ [user]\<rparr>)) (return_app user))))"

definition seedAdmin :: "(string \<Rightarrow> nat \<Rightarrow> string \<Rightarrow> string) \<Rightarrow> string \<Rightarrow> string \<Rightarrow> (world, SeedAdminResult) app" where
  "seedAdmin bcrypt_hash c_email c_password =
     (let email = normalizeEmail c_email
      in bind_app (query (find_user_by_email email)) (\<lambda>existing.
           if existing \<noteq> None then return_app SeedExists
           else bind_app random_uuid (\<lambda>salt.
             bind_app (save_admin email (bcrypt_hash c_password BCRYPT_SALT_ROUNDS salt)) (\<lambda>saved.
               return_app SeedCreated))))"

text \<open>The script: its exit code, with the two environment variables.\<close>

definition createAdmin ::
    "(string \<Rightarrow> nat \<Rightarrow> string \<Rightarrow> string) \<Rightarrow> string option \<Rightarrow> string option \<Rightarrow> (world, nat) app" where
  "createAdmin bcrypt_hash env_email env_password =
     (case (env_email, env_password) of
        (Some email, Some password) \<Rightarrow>
          if email = [] \<or> password = [] then return_app 1
          else try_catch (bind_app (seedAdmin bcrypt_hash email password) (\<lambda>_. return_app 0)) (\<lambda>error. return_app 1)
      | _ \<Rightarrow> return_app 1)"

section \<open>The catalog\<close>

definition DEFAULT_ADMIN_EMAIL :: string where "DEFAULT_ADMIN_EMAIL = ''admin@example.com''"
definition DEFAULT_ADMIN_PASSWORD :: string where "DEFAULT_ADMIN_PASSWORD = ''ChangeMe123!''"

record catalog_entry =
  ce_sku :: string
  ce_name :: string
  ce_stock :: int

abbreviation entry :: "string \<Rightarrow> string \<Rightarrow> int \<Rightarrow> catalog_entry" where
  "entry sku name stock \<equiv> \<lparr>ce_sku = sku, ce_name = name, ce_stock = stock\<rparr>"

definition CATALOG :: "catalog_entry list" where
  "CATALOG =
    [entry ''HEL-CF8859'' ''Carbon Race Helmet, FIA 8859'' 12,
     entry ''SUIT-3L8856'' ''Three-Layer Race Suit, FIA 8856'' 15,
     entry ''GLV-NMX'' ''Nomex Race Gloves'' 40,
     entry ''BOOT-SDE'' ''Suede Race Boots'' 22,
     entry ''HNR-M'' ''Head and Neck Restraint, Medium'' 10,
     entry ''BAL-NMX'' ''Nomex Balaclava'' 60,
     entry ''BRK-END-F'' ''Endurance Brake Pads, Front Axle'' 30,
     entry ''FLD-DOT5'' ''Racing Brake Fluid, 500 ml'' 80,
     entry ''WHL-350S'' ''350 mm Suede Steering Wheel'' 18,
     entry ''HUB-QR'' ''Quick-Release Steering Hub'' 25,
     entry ''HRN-6PT'' ''6-Point Racing Harness'' 20,
     entry ''TYR-18M'' ''Slick Tyre, 18 in, Medium Compound'' 48,
     entry ''EXT-1KG'' ''Handheld Fire Extinguisher, 1 kg'' 35,
     entry ''LAP-GPS'' ''GPS Lap Timer'' 16,
     entry ''FLG-CHQ'' ''Chequered Flag'' 70,
     entry ''MDL-LMP18'' ''1:18 Le Mans Prototype Model'' 24,
     entry ''CAP-PIT'' ''Pit Crew Cap'' 90,
     entry ''TPG-DIG'' ''Digital Tyre Pressure Gauge'' 45]"

definition RETIRED_SKUS :: "string list" where
  "RETIRED_SKUS = [''WIDGET-001'', ''WIDGET-002'', ''GADGET-001'', ''GADGET-002'', ''GIZMO-001'', ''GIZMO-002'',
     ''DOOHICKEY-001'', ''THINGAMAJIG-001'', ''CONTRAPTION-001'', ''WHATSIT-001'', ''DOODAD-001'', ''GEEGAW-001'']"

section \<open>SeedService\<close>

definition missing_products :: "database \<Rightarrow> catalog_entry list" where
  "missing_products d = filter (\<lambda>product. ce_sku product \<notin> set (map p_sku (products d))) CATALOG"

fun new_products :: "(nat \<Rightarrow> uuid) \<Rightarrow> nat \<Rightarrow> int \<Rightarrow> catalog_entry list \<Rightarrow> ProductEntity list" where
  "new_products ids n now [] = []"
| "new_products ids n now (e # es) =
     \<lparr>p_id = ids n, p_name = ce_name e, p_sku = ce_sku e, p_stock = ce_stock e, p_active = True,
      p_createdAt = DateObj now, p_updatedAt = DateObj now\<rparr> # new_products ids (Suc n) now es"

text \<open>One \<open>INSERT\<close> of all rows; the unique \<open>sku\<close> refuses it as a whole.\<close>

definition insert_products :: "catalog_entry list \<Rightarrow> (world, unit) app" where
  "insert_products missing = (\<lambda>w.
     if list_ex (\<lambda>e. ce_sku e \<in> set (map p_sku (products (db w)))) missing
     then (Inl (unique_violation ''products''), w)
     else (Inr (), w\<lparr>drawn := drawn w + length missing,
       db := (db w)\<lparr>products := products (db w) @ new_products (uuid_supply w) (drawn w) (clock w) missing\<rparr>\<rparr>))"

definition seedProducts :: "(world, unit) app" where
  "seedProducts = bind_app (query missing_products) (\<lambda>missing.
     if length missing = 0 then return_app () else insert_products missing)"

definition retire_products :: "(world, nat) app" where
  "retire_products = bind_app read_clock (\<lambda>now.
     let retired = (\<lambda>r. p_sku r \<in> set RETIRED_SKUS \<and> p_active r = True)
     in bind_app (query (\<lambda>d. affected retired (products d))) (\<lambda>n.
          then_app (execute (\<lambda>d. d\<lparr>products := update_where retired
              (\<lambda>r. r\<lparr>p_active := False, p_updatedAt := DateObj now\<rparr>) (products d)\<rparr>))
            (return_app n)))"

definition drop_retired_lines :: "(world, unit) app" where
  "drop_retired_lines = execute (\<lambda>d. d\<lparr>cart_items := delete_where (\<lambda>ci.
     list_ex (\<lambda>c. ci_cartId ci = c_id c \<and> c_checkedOutAt c = None) (carts d) \<and>
     list_ex (\<lambda>p. ci_productId ci = p_id p \<and> p_active p = False) (products d)) (cart_items d)\<rparr>)"

definition retireOldProducts :: "(world, unit) app" where
  "retireOldProducts = bind_app retire_products (\<lambda>retired.
     if retired = 0 then return_app () else drop_retired_lines)"

definition onApplicationBootstrap ::
    "(string \<Rightarrow> nat \<Rightarrow> string \<Rightarrow> string) \<Rightarrow> string option \<Rightarrow> string option \<Rightarrow> (world, unit) app" where
  "onApplicationBootstrap bcrypt_hash env_email env_password =
     bind_app (seedAdmin bcrypt_hash (case env_email of None \<Rightarrow> DEFAULT_ADMIN_EMAIL | Some e \<Rightarrow> e)
         (case env_password of None \<Rightarrow> DEFAULT_ADMIN_PASSWORD | Some p \<Rightarrow> p)) (\<lambda>_.
     then_app seedProducts retireOldProducts)"

section \<open>Runs\<close>

definition admin_user :: "string \<Rightarrow> string \<Rightarrow> uuid \<Rightarrow> int \<Rightarrow> UserEntity" where
  "admin_user email password uid now = \<lparr>u_id = uid, u_email = normalizeEmail email, u_password = password,
     u_role = ADMIN, u_disabled = False, u_createdAt = DateObj now\<rparr>"

lemma seedAdmin_run: "seedAdmin bcrypt_hash email password w =
    (let user = admin_user email (bcrypt_hash password 10 (uuid_supply w (drawn w))) (uuid_supply w (Suc (drawn w))) (clock w)
     in if normalizeEmail email \<in> u_email ` set (users (db w)) then (Inr SeedExists, w)
        else (Inr SeedCreated, w\<lparr>drawn := drawn w + 2, db := (db w)\<lparr>users := users (db w) @ [user]\<rparr>\<rparr>))"
proof -
  have e: "h \<in> u_email ` set t \<longleftrightarrow> row_where (\<lambda>r. u_email r = h) t \<noteq> None" for h and t :: "UserEntity list"
    by (induction t) auto
  have h: "normalizeEmail_hook \<lparr>u_id = i, u_email = normalizeEmail m, u_password = p, u_role = ADMIN, u_disabled = False,
      u_createdAt = DateObj t\<rparr> = admin_user m p i t" for i m p t
    by (simp add: normalizeEmail_hook_def admin_user_def)
  have m: "u_email (admin_user m p i t) = normalizeEmail m" for m p i t by (simp add: admin_user_def)
  show ?thesis
    by (simp add: seedAdmin_def save_admin_def find_user_by_email_def Let_def e h m BCRYPT_SALT_ROUNDS_def
        bind_app_def then_app_def)
qed

lemma missing_none: "missing_products d = [] \<longleftrightarrow> set (map ce_sku CATALOG) \<subseteq> set (map p_sku (products d))"
  by (auto simp: missing_products_def filter_empty_conv)

lemma not_listed: "\<not> list_ex (\<lambda>e. ce_sku e \<in> set (map p_sku (products d))) (missing_products d)"
  by (auto simp: missing_products_def list_ex_iff)

lemma seedProducts_run: "seedProducts w = (Inr (), w\<lparr>drawn := drawn w + length (missing_products (db w)),
    db := (db w)\<lparr>products := products (db w) @ new_products (uuid_supply w) (drawn w) (clock w) (missing_products (db w))\<rparr>\<rparr>)"
  using not_listed [of "db w"] by (simp add: seedProducts_def insert_products_def)

lemma skus_new: "map p_sku (new_products ids n now es) = map ce_sku es"
  by (induction es arbitrary: n) simp_all

lemma ids_new: "map p_id (new_products ids n now es) = map ids [n ..< n + length es]"
  by (induction es arbitrary: n) (simp_all add: upt_conv_Cons del: upt_Suc)

lemma new_active: "p \<in> set (new_products ids n now es) \<Longrightarrow> p_active p"
  by (induction es arbitrary: n) auto

abbreviation retired :: "ProductEntity \<Rightarrow> bool" where
  "retired r \<equiv> p_sku r \<in> set RETIRED_SKUS \<and> p_active r = True"

abbreviation retire :: "int \<Rightarrow> ProductEntity \<Rightarrow> ProductEntity" where
  "retire now r \<equiv> r\<lparr>p_active := False, p_updatedAt := DateObj now\<rparr>"

lemma retire_products_run: "retire_products w = (Inr (affected retired (products (db w))),
    w\<lparr>db := (db w)\<lparr>products := update_where retired (retire (clock w)) (products (db w))\<rparr>\<rparr>)"
  by (simp add: retire_products_def Let_def)

lemma retireOldProducts_run: "retireOldProducts w =
    (if affected retired (products (db w)) = 0 then (Inr (), w)
     else drop_retired_lines (w\<lparr>db := (db w)\<lparr>products := update_where retired (retire (clock w)) (products (db w))\<rparr>\<rparr>))"
proof -
  have "w\<lparr>db := (db w)\<lparr>products := update_where p f (products (db w))\<rparr>\<rparr> = w" if "affected p (products (db w)) = 0" for p f
    using affected_0_update [OF that] by simp
  then show ?thesis by (simp add: retireOldProducts_def bind_app_def retire_products_run)
qed

lemma catalog_not_retired: "sku \<in> set (map ce_sku CATALOG) \<Longrightarrow> sku \<notin> set RETIRED_SKUS"
  by (auto simp: CATALOG_def RETIRED_SKUS_def)

lemma catalog_distinct: "distinct (map ce_sku CATALOG)"
  by (simp add: CATALOG_def)

lemma catalog_stock: "e \<in> set CATALOG \<Longrightarrow> 0 \<le> ce_stock e \<and> int4 (ce_stock e)"
  by (auto simp: CATALOG_def int4_def)

section \<open>Properties\<close>

text \<open>What a boot leaves of a product: everything but the \<open>active\<close> switch of a retired one.\<close>

definition kept_by_boot :: "ProductEntity \<Rightarrow> ProductEntity \<Rightarrow> bool" where
  "kept_by_boot r r' \<longleftrightarrow> p_id r' = p_id r \<and> p_name r' = p_name r \<and> p_sku r' = p_sku r \<and> p_stock r' = p_stock r \<and>
     (p_active r' = (p_active r \<and> p_sku r \<notin> set RETIRED_SKUS))"

lemma kept_retire: "kept_by_boot r (if retired r then retire now r else r)"
  by (auto simp: kept_by_boot_def)

lemma boot_products:
  fixes w :: world
  assumes "distinct (map p_sku (products (db w)))"
  defines "v \<equiv> snd (seedProducts w)"
  shows "fst (retireOldProducts v) = Inr ()"
    and "distinct (map p_sku (products (db (snd (retireOldProducts v)))))"
    and "set (map ce_sku CATALOG) \<subseteq> set (map p_sku (products (db (snd (retireOldProducts v)))))"
    and "\<forall>r \<in> set (products (db w)). \<exists>r' \<in> set (products (db (snd (retireOldProducts v)))). kept_by_boot r r'"
    and "affected retired (products (db (snd (retireOldProducts v)))) = 0"
    and "users (db (snd (retireOldProducts v))) = users (db w)"
proof -
  let ?new = "new_products (uuid_supply w) (drawn w) (clock w) (missing_products (db w))"
  let ?ps = "update_where retired (retire (clock w)) (products (db w) @ ?new)"
  have v: "products (db v) = products (db w) @ ?new" "users (db v) = users (db w)" "clock v = clock w"
    by (simp_all add: v_def seedProducts_run)
  have final: "products (db (snd (retireOldProducts v))) = ?ps"
    using affected_0_update [of retired "products (db v)" "retire (clock v)"]
    by (simp add: retireOldProducts_run drop_retired_lines_def v(1,3))
  show "fst (retireOldProducts v) = Inr ()" by (simp add: retireOldProducts_run drop_retired_lines_def)
  show "users (db (snd (retireOldProducts v))) = users (db w)"
    by (simp add: retireOldProducts_run drop_retired_lines_def v(2))
  have skus: "map p_sku ?ps = map p_sku (products (db w)) @ map ce_sku (missing_products (db w))"
    by (simp add: skus_new)
  have "distinct (map ce_sku (missing_products (db w)))"
    unfolding missing_products_def by (rule distinct_map_filter) (rule catalog_distinct)
  moreover have "set (map p_sku (products (db w))) \<inter> set (map ce_sku (missing_products (db w))) = {}"
  proof -
    have "k \<notin> set (map p_sku (products (db w)))" if "k \<in> set (map ce_sku (missing_products (db w)))" for k
    proof -
      from that obtain e where "e \<in> set (missing_products (db w))" "k = ce_sku e" by auto
      then show ?thesis unfolding missing_products_def by simp
    qed
    then show ?thesis by blast
  qed
  ultimately show "distinct (map p_sku (products (db (snd (retireOldProducts v)))))"
    using assms(1) unfolding final skus distinct_append by blast
  show "set (map ce_sku CATALOG) \<subseteq> set (map p_sku (products (db (snd (retireOldProducts v)))))"
    unfolding final skus by (auto simp: missing_products_def)
  show "\<forall>r \<in> set (products (db w)). \<exists>r' \<in> set (products (db (snd (retireOldProducts v)))). kept_by_boot r r'"
  proof
    fix r
    assume "r \<in> set (products (db w))"
    then have "(if retired r then retire (clock w) r else r) \<in> set ?ps" by (auto simp: set_update_where)
    then show "\<exists>r' \<in> set (products (db (snd (retireOldProducts v)))). kept_by_boot r r'"
      unfolding final using kept_retire by blast
  qed
  show "affected retired (products (db (snd (retireOldProducts v)))) = 0"
    unfolding final by (auto simp: affected_0 set_update_where)
qed

text \<open>
  C32: A boot always succeeds and is idempotent: afterwards a user has the admin's email, the whole catalog
  is there with each \<open>sku\<close> once, no retired product is active, every earlier product has its id, name and
  stock still, and every earlier user is unchanged; and a second boot changes nothing at all.
\<close>

theorem boot_idempotent:
  assumes "distinct (map p_sku (products (db w)))"
  shows "\<exists>w'. onApplicationBootstrap bcrypt_hash (Some email) password w = (Inr (), w') \<and>
     normalizeEmail email \<in> u_email ` set (users (db w')) \<and> set (users (db w)) \<subseteq> set (users (db w')) \<and>
     distinct (map p_sku (products (db w'))) \<and> set (map ce_sku CATALOG) \<subseteq> set (map p_sku (products (db w'))) \<and>
     (\<forall>r \<in> set (products (db w')). p_sku r \<in> set RETIRED_SKUS \<longrightarrow> \<not> p_active r) \<and>
     (\<forall>r \<in> set (products (db w)). \<exists>r' \<in> set (products (db w')). kept_by_boot r r') \<and>
     onApplicationBootstrap bcrypt_hash (Some email) password w' = (Inr (), w')"
proof -
  let ?pw = "case password of None \<Rightarrow> DEFAULT_ADMIN_PASSWORD | Some p \<Rightarrow> p"
  obtain r u where u: "seedAdmin bcrypt_hash email ?pw w = (Inr r, u)" "products (db u) = products (db w)"
    "normalizeEmail email \<in> u_email ` set (users (db u))" "set (users (db w)) \<subseteq> set (users (db u))"
    using seedAdmin_run [of bcrypt_hash email ?pw w]
    by (cases "normalizeEmail email \<in> u_email ` set (users (db w))") (auto simp: Let_def admin_user_def)
  have d: "distinct (map p_sku (products (db u)))" using assms u(2) by simp
  obtain v where v: "seedProducts u = (Inr (), v)" by (simp add: seedProducts_run)
  note b = boot_products [OF d, unfolded v snd_conv]
  obtain x where x: "retireOldProducts v = (Inr (), x)" using b(1) by (metis prod.collapse)
  note b = b [unfolded x snd_conv]
  have boot: "onApplicationBootstrap bcrypt_hash (Some email) password w = (Inr (), x)"
    by (simp add: onApplicationBootstrap_def bind_app_def then_app_def u(1) v x)
  have mail: "normalizeEmail email \<in> u_email ` set (users (db x))" using u(3) b(6) by simp
  then have "seedAdmin bcrypt_hash email ?pw x = (Inr SeedExists, x)"
    by (simp add: seedAdmin_run)
  moreover have "seedProducts x = (Inr (), x)"
    using b(3) unfolding missing_none [symmetric] by (simp add: seedProducts_def)
  moreover have "retireOldProducts x = (Inr (), x)"
    using b(5) by (simp add: retireOldProducts_run)
  ultimately have again: "onApplicationBootstrap bcrypt_hash (Some email) password x = (Inr (), x)"
    by (simp add: onApplicationBootstrap_def bind_app_def then_app_def)
  have off: "\<forall>r \<in> set (products (db x)). p_sku r \<in> set RETIRED_SKUS \<longrightarrow> \<not> p_active r"
    using b(5) by (auto simp: affected_0)
  have users: "set (users (db w)) \<subseteq> set (users (db x))" using u(4) b(6) by simp
  show ?thesis
    using boot mail users b(2,3) off b(4) [unfolded u(2)] again by blast
qed

theorem boot_idempotent_witness:
  "\<exists>w'. onApplicationBootstrap example_hash (Some ''Ops@Shop.example'') None cart_example = (Inr (), w') \<and>
     normalizeEmail ''Ops@Shop.example'' \<in> u_email ` set (users (db w')) \<and> set (users (db cart_example)) \<subseteq> set (users (db w')) \<and>
     distinct (map p_sku (products (db w'))) \<and> set (map ce_sku CATALOG) \<subseteq> set (map p_sku (products (db w'))) \<and>
     (\<forall>r \<in> set (products (db w')). p_sku r \<in> set RETIRED_SKUS \<longrightarrow> \<not> p_active r) \<and>
     (\<forall>r \<in> set (products (db cart_example)). \<exists>r' \<in> set (products (db w')). kept_by_boot r r') \<and>
     onApplicationBootstrap example_hash (Some ''Ops@Shop.example'') None w' = (Inr (), w')"
  by (rule boot_idempotent) (simp add: cart_example_def)

text \<open>
  The retirement is two statements without a transaction. When the process stops between them, no later
  boot removes the lines of the retired products from open carts, since none is active any more; and such a
  cart is still checked out, retired products included.
\<close>

theorem interrupted_retirement:
  assumes "findOpenCart userId (db (snd (retire_products w))) = Some cart" and "cart_items_of cart \<noteq> []"
    and "\<forall>i \<in> set (cart_items_of cart). ci_product i \<noteq> None"
  shows "let w1 = snd (retire_products w) in
     retireOldProducts w1 = (Inr (), w1) \<and>
     (\<exists>order w2. checkout userId w1 = (Inr order, w2) \<and>
        map oi_productId (the (o_items order)) = map ci_productId (cart_items_of cart))"
proof -
  let ?w = "snd (retire_products w)"
  have "affected retired (products (db ?w)) = 0"
    by (auto simp: retire_products_run affected_0 set_update_where)
  then have a: "retireOldProducts ?w = (Inr (), ?w)" by (simp add: retireOldProducts_run)
  have items: "map oi_productId (new_items ids n oid ls) = map ol_productId ls" for ids n oid ls
    by (induction ls arbitrary: n) simp_all
  obtain c where "checkout userId ?w = (Inr ((new_order userId (claimed cart ?w))\<lparr>o_items :=
      Some (new_items (uuid_supply (claimed cart ?w)) (Suc (drawn (claimed cart ?w)))
        (uuid_supply (claimed cart ?w) (drawn (claimed cart ?w))) (order_lines_of (cart_items_of cart)))\<rparr>), c)"
    using createOrder_run [of userId "order_lines_of (cart_items_of cart)" "claimed cart ?w"]
    unfolding checkout_run [OF assms] by blast
  then show ?thesis
    using a unfolding Let_def by (auto simp: items order_lines_of_def)
qed

text \<open>A retired product in an open cart.\<close>

definition retired_example :: world where
  "retired_example = cart_example\<lparr>db := (db cart_example)\<lparr>products := [\<lparr>p_id = ''p'', p_name = ''Widget'', p_sku = ''WIDGET-001'',
     p_stock = 5, p_active = True, p_createdAt = DateObj 0, p_updatedAt = DateObj 0\<rparr>]\<rparr>\<rparr>"

definition retired_cart :: CartEntity where
  "retired_cart = \<lparr>c_id = ''cart'', c_userId = ''u'', c_checkedOutAt = None, c_items = Some [\<lparr>ci_id = ''line'',
     ci_cartId = ''cart'', ci_productId = ''p'', ci_product = Some \<lparr>p_id = ''p'', p_name = ''Widget'', p_sku = ''WIDGET-001'',
       p_stock = 5, p_active = False, p_createdAt = DateObj 0, p_updatedAt = DateObj 0\<rparr>, ci_quantity = 2\<rparr>],
     c_createdAt = DateObj 0, c_updatedAt = DateObj 0\<rparr>"

theorem interrupted_retirement_witness:
  "let w1 = snd (retire_products retired_example) in
     retireOldProducts w1 = (Inr (), w1) \<and>
     (\<exists>order w2. checkout ''u'' w1 = (Inr order, w2) \<and>
        map oi_productId (the (o_items order)) = map ci_productId (cart_items_of retired_cart))"
  by (rule interrupted_retirement)
    (simp_all add: retire_products_run retired_example_def cart_example_def empty_world_def RETIRED_SKUS_def findOpenCart_def
      is_open_def cart_relations_def rows_where_def retired_cart_def cart_items_of_def)

end
