(* ===== verification/Schema.thy ===== *)
theory Schema
  imports Complex_Main Prelude "HOL-Library.List_Lexorder" "HOL-Library.Char_ord" "HOL-Library.Sublist"
begin

text \<open>
  A database as a migration sees it: a catalog (types, tables, indexes) and the rows of each table, and
  the statements the migrations of \<^verbatim>\<open>src/database/migrations\<close> use, with the errors Postgres answers them
  with. A row is the list of its columns' values in column order. \<open>db_fits\<close> is the type discipline the
  server keeps: every row has a value of its type for each column, and a table that does not exist has no
  rows.
\<close>

section \<open>Catalog and rows\<close>

datatype sql_value =
    Null
  | TextV string
  | UuidV string
  | BoolV bool
  | IntV int
  | FloatV rat
  | JsonV string
  | TimeV int

datatype sql_type =
    UuidT | VarcharT | BoolT | IntT | FloatT | JsonbT | TimestampT | TimestamptzT
  | EnumT string

datatype sql_default = NoDefault | GenUuid | NowDefault | LiteralDefault sql_value

record column_def =
  cd_type :: sql_type
  cd_notNull :: bool
  cd_default :: sql_default

datatype delete_rule = CascadeRule | RestrictRule

record foreign_key =
  fk_name :: string
  fk_column :: string
  fk_table :: string
  fk_refColumn :: string
  fk_onDelete :: delete_rule

record table_def =
  td_columns :: "(string \<times> column_def) list"
  td_primaryKey :: "(string \<times> string list) option"
  td_uniques :: "(string \<times> string list) list"
  td_foreignKeys :: "foreign_key list"

record index_def =
  ix_table :: string
  ix_columns :: "string list"
  ix_unique :: bool
  ix_whereNull :: "string option" \<comment> \<open>\<open>WHERE column IS NULL\<close>\<close>

record catalog =
  ct_extensions :: "string list"
  ct_types :: "(string \<times> string list) list"
  ct_tables :: "(string \<times> table_def) list"
  ct_indexes :: "(string \<times> index_def) list"

type_synonym sql_row = "(string \<times> sql_value) list"

record sql_db =
  sq_catalog :: catalog
  sq_rows :: "string \<Rightarrow> sql_row list"
  sq_uuids :: "nat \<Rightarrow> string"
  sq_drawn :: nat
  sq_now :: int

definition col_value :: "string \<Rightarrow> sql_row \<Rightarrow> sql_value" where
  "col_value c r = (case map_of r c of None \<Rightarrow> Null | Some v \<Rightarrow> v)"

text \<open>Comparisons with \<open>NULL\<close> are unknown, which no \<open>WHERE\<close> accepts.\<close>

definition sql_eq :: "sql_value \<Rightarrow> sql_value \<Rightarrow> bool" where
  "sql_eq a b \<longleftrightarrow> a \<noteq> Null \<and> a = b"

fun sql_less :: "sql_value \<Rightarrow> sql_value \<Rightarrow> bool" where
  "sql_less (TimeV a) (TimeV b) \<longleftrightarrow> a < b"
| "sql_less (UuidV a) (UuidV b) \<longleftrightarrow> a < b"
| "sql_less (IntV a) (IntV b) \<longleftrightarrow> a < b"
| "sql_less a b \<longleftrightarrow> False"

section \<open>Statements\<close>

datatype sql_stmt =
    CreateExtensionIfNotExists string
  | CreateType string "string list"
  | AddEnumValue string string
  | DropType string
  | CreateTable string "(string \<times> column_def) list" "string \<times> string list" "(string \<times> string list) list"
  | DropTable string
  | AddColumn string string column_def
  | DropColumn string string
  | DropColumnDefault string string
  | DropColumnNotNull string string
  | SetColumnNotNull string string
  | CreateIndex string index_def
  | DropIndex string
  | AddForeignKey string foreign_key
  | DropConstraint string string
  | DeleteRows string "sql_row \<Rightarrow> sql_row list \<Rightarrow> bool" \<comment> \<open>a row and, for \<open>USING\<close>, all rows of the table\<close>

text \<open>Postgres' error codes.\<close>

abbreviation undefined_table :: "string \<Rightarrow> exn" where "undefined_table t \<equiv> QueryFailedError ''42P01'' t"
abbreviation duplicate_table :: "string \<Rightarrow> exn" where "duplicate_table t \<equiv> QueryFailedError ''42P07'' t"
abbreviation undefined_column :: "string \<Rightarrow> exn" where "undefined_column t \<equiv> QueryFailedError ''42703'' t"
abbreviation duplicate_column :: "string \<Rightarrow> exn" where "duplicate_column t \<equiv> QueryFailedError ''42701'' t"
abbreviation undefined_object :: "string \<Rightarrow> exn" where "undefined_object t \<equiv> QueryFailedError ''42704'' t"
abbreviation duplicate_object :: "string \<Rightarrow> exn" where "duplicate_object t \<equiv> QueryFailedError ''42710'' t"
abbreviation undefined_function :: "string \<Rightarrow> exn" where "undefined_function t \<equiv> QueryFailedError ''42883'' t"
abbreviation datatype_mismatch :: "string \<Rightarrow> exn" where "datatype_mismatch t \<equiv> QueryFailedError ''42804'' t"
abbreviation dependent_objects :: "string \<Rightarrow> exn" where "dependent_objects t \<equiv> QueryFailedError ''2BP01'' t"
abbreviation not_null_violation :: "string \<Rightarrow> exn" where "not_null_violation t \<equiv> QueryFailedError ''23502'' t"
abbreviation foreign_key_violation :: "string \<Rightarrow> exn" where "foreign_key_violation t \<equiv> QueryFailedError ''23503'' t"
abbreviation unique_violation :: "string \<Rightarrow> exn" where "unique_violation t \<equiv> QueryFailedError ''23505'' t"

definition table_of :: "string \<Rightarrow> catalog \<Rightarrow> table_def option" where
  "table_of t cat = map_of (ct_tables cat) t"

definition put_table :: "string \<Rightarrow> table_def \<Rightarrow> catalog \<Rightarrow> catalog" where
  "put_table t td cat = cat\<lparr>ct_tables := map (\<lambda>(n, x). (n, if n = t then td else x)) (ct_tables cat)\<rparr>"

definition change_column :: "string \<Rightarrow> (column_def \<Rightarrow> column_def) \<Rightarrow> table_def \<Rightarrow> table_def" where
  "change_column c f td = td\<lparr>td_columns := map (\<lambda>(n, x). (n, if n = c then f x else x)) (td_columns td)\<rparr>"

definition without_column :: "string \<Rightarrow> table_def \<Rightarrow> table_def" where
  "without_column c td = td\<lparr>td_columns := filter (\<lambda>(n, _). n \<noteq> c) (td_columns td),
     td_primaryKey := (case td_primaryKey td of Some (n, cs) \<Rightarrow> if c \<in> set cs then None else Some (n, cs) | None \<Rightarrow> None),
     td_uniques := filter (\<lambda>(_, cs). c \<notin> set cs) (td_uniques td),
     td_foreignKeys := filter (\<lambda>k. fk_column k \<noteq> c) (td_foreignKeys td)\<rparr>"

text \<open>The foreign keys of all tables, each with its table.\<close>

definition all_foreign_keys :: "catalog \<Rightarrow> (string \<times> foreign_key) list" where
  "all_foreign_keys cat = concat (map (\<lambda>(t, td). map (Pair t) (td_foreignKeys td)) (ct_tables cat))"

definition type_known :: "catalog \<Rightarrow> sql_type \<Rightarrow> bool" where
  "type_known cat ty \<longleftrightarrow> (case ty of EnumT n \<Rightarrow> n \<in> fst ` set (ct_types cat) | _ \<Rightarrow> True)"

definition default_known :: "catalog \<Rightarrow> sql_default \<Rightarrow> bool" where
  "default_known cat df \<longleftrightarrow> (df = GenUuid \<longrightarrow> ''uuid-ossp'' \<in> set (ct_extensions cat))"

text \<open>The type discipline of a value and of a column's default.\<close>

fun has_type :: "(string \<times> string list) list \<Rightarrow> sql_type \<Rightarrow> sql_value \<Rightarrow> bool" where
  "has_type types UuidT (UuidV x) \<longleftrightarrow> True"
| "has_type types VarcharT (TextV x) \<longleftrightarrow> True"
| "has_type types BoolT (BoolV x) \<longleftrightarrow> True"
| "has_type types IntT (IntV x) \<longleftrightarrow> - (2 ^ 31) \<le> x \<and> x < 2 ^ 31"
| "has_type types FloatT (FloatV x) \<longleftrightarrow> True"
| "has_type types JsonbT (JsonV x) \<longleftrightarrow> True"
| "has_type types TimestampT (TimeV x) \<longleftrightarrow> True"
| "has_type types TimestamptzT (TimeV x) \<longleftrightarrow> True"
| "has_type types (EnumT n) (TextV x) \<longleftrightarrow> (case map_of types n of None \<Rightarrow> False | Some vs \<Rightarrow> x \<in> set vs)"
| "has_type types ty v \<longleftrightarrow> False"

definition default_fits :: "catalog \<Rightarrow> column_def \<Rightarrow> bool" where
  "default_fits cat col \<longleftrightarrow> (case cd_default col of
     NoDefault \<Rightarrow> True
   | GenUuid \<Rightarrow> cd_type col = UuidT
   | NowDefault \<Rightarrow> cd_type col \<in> {TimestampT, TimestamptzT}
   | LiteralDefault v \<Rightarrow> has_type (ct_types cat) (cd_type col) v)"

text \<open>
  What a new column holds in the rows that exist: \<open>uuid_generate_v4()\<close> is volatile and so evaluated for each
  row, \<open>now()\<close> is the time of the transaction.
\<close>

fun default_values :: "sql_default \<Rightarrow> nat \<Rightarrow> sql_db \<Rightarrow> sql_value list" where
  "default_values NoDefault n d = replicate n Null"
| "default_values GenUuid n d = map (\<lambda>i. UuidV (sq_uuids d i)) [sq_drawn d ..< sq_drawn d + n]"
| "default_values NowDefault n d = replicate n (TimeV (sq_now d))"
| "default_values (LiteralDefault v) n d = replicate n v"

definition indexed :: "index_def \<Rightarrow> sql_row list \<Rightarrow> sql_row list" where
  "indexed ix rows = (case ix_whereNull ix of None \<Rightarrow> rows | Some c \<Rightarrow> filter (\<lambda>r. col_value c r = Null) rows)"

text \<open>A unique index admits any number of keys with a \<open>NULL\<close>.\<close>

definition unique_on :: "string list \<Rightarrow> sql_row list \<Rightarrow> bool" where
  "unique_on cs rows \<longleftrightarrow>
     distinct (filter (\<lambda>k. Null \<notin> set k) (map (\<lambda>r. map (\<lambda>c. col_value c r) cs) rows))"

section \<open>Deleting with cascades\<close>

text \<open>
  Deleting rows follows the foreign keys that point at the table: cascading keys delete in turn,
  restricting ones refuse. The fuel bounds the chain of tables.
\<close>

fun delete_from :: "nat \<Rightarrow> string \<Rightarrow> (sql_row \<Rightarrow> bool) \<Rightarrow> sql_db \<Rightarrow> exn + sql_db"
  and follow_keys :: "nat \<Rightarrow> sql_row list \<Rightarrow> (string \<times> foreign_key) list \<Rightarrow> sql_db \<Rightarrow> exn + sql_db" where
  "delete_from 0 t p d = Inr d"
| "delete_from (Suc fuel) t p d =
     (let gone = filter p (sq_rows d t);
          d' = d\<lparr>sq_rows := (sq_rows d)(t := filter (\<lambda>r. \<not> p r) (sq_rows d t))\<rparr>
      in follow_keys fuel gone (filter (\<lambda>(_, k). fk_table k = t) (all_foreign_keys (sq_catalog d))) d')"
| "follow_keys fuel gone [] d = Inr d"
| "follow_keys fuel gone ((t, k) # ks) d =
     (let hit = (\<lambda>r. \<exists>g \<in> set gone. sql_eq (col_value (fk_column k) r) (col_value (fk_refColumn k) g))
      in case fk_onDelete k of
           RestrictRule \<Rightarrow> if \<exists>r \<in> set (sq_rows d t). hit r then Inl (foreign_key_violation t) else follow_keys fuel gone ks d
         | CascadeRule \<Rightarrow> (case delete_from fuel t hit d of Inl e \<Rightarrow> Inl e | Inr d' \<Rightarrow> follow_keys fuel gone ks d'))"

section \<open>Executing a statement\<close>

definition on_table :: "string \<Rightarrow> sql_db \<Rightarrow> (table_def \<Rightarrow> exn + sql_db) \<Rightarrow> exn + sql_db" where
  "on_table t d k = (case table_of t (sq_catalog d) of None \<Rightarrow> Inl (undefined_table t) | Some td \<Rightarrow> k td)"

definition on_column :: "string \<Rightarrow> string \<Rightarrow> sql_db \<Rightarrow> (table_def \<Rightarrow> exn + sql_db) \<Rightarrow> exn + sql_db" where
  "on_column t c d k = on_table t d (\<lambda>td. if c \<notin> fst ` set (td_columns td) then Inl (undefined_column t) else k td)"

definition with_catalog :: "(catalog \<Rightarrow> catalog) \<Rightarrow> sql_db \<Rightarrow> sql_db" where
  "with_catalog f d = d\<lparr>sq_catalog := f (sq_catalog d)\<rparr>"

fun exec_sql :: "sql_stmt \<Rightarrow> sql_db \<Rightarrow> exn + sql_db" where
  "exec_sql (CreateExtensionIfNotExists x) d = Inr (with_catalog (\<lambda>cat.
     if x \<in> set (ct_extensions cat) then cat else cat\<lparr>ct_extensions := ct_extensions cat @ [x]\<rparr>) d)"
| "exec_sql (CreateType n vs) d =
     (if n \<in> fst ` set (ct_types (sq_catalog d)) then Inl (duplicate_object n)
      else Inr (with_catalog (\<lambda>cat. cat\<lparr>ct_types := ct_types cat @ [(n, vs)]\<rparr>) d))"
| "exec_sql (AddEnumValue n v) d =
     (case map_of (ct_types (sq_catalog d)) n of
        None \<Rightarrow> Inl (undefined_object n)
      | Some vs \<Rightarrow> if v \<in> set vs then Inl (duplicate_object v)
          else Inr (with_catalog (\<lambda>cat. cat\<lparr>ct_types := map (\<lambda>(m, xs). (m, if m = n then xs @ [v] else xs)) (ct_types cat)\<rparr>) d))"
| "exec_sql (DropType n) d =
     (if n \<notin> fst ` set (ct_types (sq_catalog d)) then Inl (undefined_object n)
      else if \<exists>(_, td) \<in> set (ct_tables (sq_catalog d)). \<exists>(_, c) \<in> set (td_columns td). cd_type c = EnumT n
      then Inl (dependent_objects n)
      else Inr (with_catalog (\<lambda>cat. cat\<lparr>ct_types := filter (\<lambda>(m, _). m \<noteq> n) (ct_types cat)\<rparr>) d))"
| "exec_sql (CreateTable t cols pk uniques) d =
     (if t \<in> fst ` set (ct_tables (sq_catalog d)) then Inl (duplicate_table t)
      else if \<not> distinct (map fst cols) then Inl (duplicate_column t)
      else if \<exists>(_, c) \<in> set cols. \<not> type_known (sq_catalog d) (cd_type c) then Inl (undefined_object t)
      else if \<exists>(_, c) \<in> set cols. \<not> default_known (sq_catalog d) (cd_default c) then Inl (undefined_function t)
      else if \<exists>(_, c) \<in> set cols. \<not> default_fits (sq_catalog d) c then Inl (datatype_mismatch t)
      else Inr ((with_catalog (\<lambda>cat. cat\<lparr>ct_tables := ct_tables cat @ [(t, \<lparr>td_columns = cols, td_primaryKey = Some pk,
             td_uniques = uniques, td_foreignKeys = []\<rparr>)]\<rparr>) d)\<lparr>sq_rows := (sq_rows d)(t := [])\<rparr>))"
| "exec_sql (DropTable t) d = on_table t d (\<lambda>td.
     if \<exists>(u, k) \<in> set (all_foreign_keys (sq_catalog d)). u \<noteq> t \<and> fk_table k = t then Inl (dependent_objects t)
     else Inr ((with_catalog (\<lambda>cat. cat\<lparr>ct_tables := filter (\<lambda>(n, _). n \<noteq> t) (ct_tables cat),
            ct_indexes := filter (\<lambda>(_, ix). ix_table ix \<noteq> t) (ct_indexes cat)\<rparr>) d)\<lparr>sq_rows := (sq_rows d)(t := [])\<rparr>))"
| "exec_sql (AddColumn t c col) d = on_table t d (\<lambda>td.
     if c \<in> fst ` set (td_columns td) then Inl (duplicate_column t)
     else if \<not> type_known (sq_catalog d) (cd_type col) then Inl (undefined_object t)
     else if \<not> default_known (sq_catalog d) (cd_default col) then Inl (undefined_function t)
     else if \<not> default_fits (sq_catalog d) col then Inl (datatype_mismatch t)
     else if cd_notNull col \<and> cd_default col = NoDefault \<and> sq_rows d t \<noteq> [] then Inl (not_null_violation t)
     else let n = length (sq_rows d t) in
       Inr ((with_catalog (put_table t (td\<lparr>td_columns := td_columns td @ [(c, col)]\<rparr>)) d)\<lparr>
         sq_rows := (sq_rows d)(t := map2 (\<lambda>r v. r @ [(c, v)]) (sq_rows d t) (default_values (cd_default col) n d)),
         sq_drawn := (if cd_default col = GenUuid then sq_drawn d + n else sq_drawn d)\<rparr>))"
| "exec_sql (DropColumn t c) d = on_column t c d (\<lambda>td.
     if \<exists>(u, k) \<in> set (all_foreign_keys (sq_catalog d)). fk_table k = t \<and> fk_refColumn k = c then Inl (dependent_objects t)
     else Inr ((with_catalog (\<lambda>cat. (put_table t (without_column c td) cat)\<lparr>
            ct_indexes := filter (\<lambda>(_, ix). \<not> (ix_table ix = t \<and> c \<in> set (ix_columns ix))) (ct_indexes cat)\<rparr>) d)\<lparr>
          sq_rows := (sq_rows d)(t := map (filter (\<lambda>(n, _). n \<noteq> c)) (sq_rows d t))\<rparr>))"
| "exec_sql (DropColumnDefault t c) d = on_column t c d (\<lambda>td.
     Inr (with_catalog (put_table t (change_column c (\<lambda>x. x\<lparr>cd_default := NoDefault\<rparr>) td)) d))"
| "exec_sql (DropColumnNotNull t c) d = on_column t c d (\<lambda>td.
     Inr (with_catalog (put_table t (change_column c (\<lambda>x. x\<lparr>cd_notNull := False\<rparr>) td)) d))"
| "exec_sql (SetColumnNotNull t c) d = on_column t c d (\<lambda>td.
     if \<exists>r \<in> set (sq_rows d t). col_value c r = Null then Inl (not_null_violation t)
     else Inr (with_catalog (put_table t (change_column c (\<lambda>x. x\<lparr>cd_notNull := True\<rparr>) td)) d))"
| "exec_sql (CreateIndex n ix) d = on_table (ix_table ix) d (\<lambda>td.
     if n \<in> fst ` set (ct_indexes (sq_catalog d)) then Inl (duplicate_table n)
     else if \<exists>c \<in> set (ix_columns ix). c \<notin> fst ` set (td_columns td) then Inl (undefined_column (ix_table ix))
     else if ix_unique ix \<and> \<not> unique_on (ix_columns ix) (indexed ix (sq_rows d (ix_table ix)))
     then Inl (unique_violation n)
     else Inr (with_catalog (\<lambda>cat. cat\<lparr>ct_indexes := ct_indexes cat @ [(n, ix)]\<rparr>) d))"
| "exec_sql (DropIndex n) d =
     (if n \<notin> fst ` set (ct_indexes (sq_catalog d)) then Inl (undefined_object n)
      else Inr (with_catalog (\<lambda>cat. cat\<lparr>ct_indexes := filter (\<lambda>(m, _). m \<noteq> n) (ct_indexes cat)\<rparr>) d))"
| "exec_sql (AddForeignKey t k) d = on_column t (fk_column k) d (\<lambda>td. on_column (fk_table k) (fk_refColumn k) d (\<lambda>_.
     if \<exists>r \<in> set (sq_rows d t). col_value (fk_column k) r \<noteq> Null \<and>
          (\<forall>g \<in> set (sq_rows d (fk_table k)). \<not> sql_eq (col_value (fk_column k) r) (col_value (fk_refColumn k) g))
     then Inl (foreign_key_violation t)
     else Inr (with_catalog (put_table t (td\<lparr>td_foreignKeys := td_foreignKeys td @ [k]\<rparr>)) d)))"
| "exec_sql (DropConstraint t n) d = on_table t d (\<lambda>td.
     if n \<notin> fk_name ` set (td_foreignKeys td) \<and> n \<notin> fst ` set (td_uniques td) then Inl (undefined_object n)
     else Inr (with_catalog (put_table t (td\<lparr>td_foreignKeys := filter (\<lambda>k. fk_name k \<noteq> n) (td_foreignKeys td),
            td_uniques := filter (\<lambda>(m, _). m \<noteq> n) (td_uniques td)\<rparr>)) d))"
| "exec_sql (DeleteRows t p) d = on_table t d (\<lambda>td.
     delete_from (Suc (length (ct_tables (sq_catalog d)))) t (\<lambda>r. p r (sq_rows d t)) d)"

text \<open>The \<open>queryRunner.query\<close> calls of a migration, in turn.\<close>

fun exec_all :: "sql_stmt list \<Rightarrow> sql_db \<Rightarrow> exn + sql_db" where
  "exec_all [] d = Inr d"
| "exec_all (s # ss) d = (case exec_sql s d of Inl e \<Rightarrow> Inl e | Inr d' \<Rightarrow> exec_all ss d')"


section \<open>Rows fit their table\<close>

definition value_fits :: "(string \<times> string list) list \<Rightarrow> column_def \<Rightarrow> sql_value \<Rightarrow> bool" where
  "value_fits types col v \<longleftrightarrow> (if v = Null then \<not> cd_notNull col else has_type types (cd_type col) v)"

definition row_fits :: "(string \<times> string list) list \<Rightarrow> (string \<times> column_def) list \<Rightarrow> sql_row \<Rightarrow> bool" where
  "row_fits types cols r \<longleftrightarrow> list_all2 (\<lambda>(c, col) (c', v). c = c' \<and> value_fits types col v) cols r"

definition table_fits :: "sql_db \<Rightarrow> string \<Rightarrow> table_def \<Rightarrow> bool" where
  "table_fits d t td \<longleftrightarrow> distinct (map fst (td_columns td)) \<and>
     (\<forall>r \<in> set (sq_rows d t). row_fits (ct_types (sq_catalog d)) (td_columns td) r)"

definition db_fits :: "sql_db \<Rightarrow> bool" where
  "db_fits d \<longleftrightarrow> distinct (map fst (ct_tables (sq_catalog d))) \<and>
     (\<forall>(t, td) \<in> set (ct_tables (sq_catalog d)). table_fits d t td) \<and>
     (\<forall>t. t \<notin> fst ` set (ct_tables (sq_catalog d)) \<longrightarrow> sq_rows d t = [])"

lemma row_fits_names: "row_fits types cols r \<Longrightarrow> map fst r = map fst cols"
  unfolding row_fits_def by (induction cols r rule: list_all2_induct) auto

lemma row_fits_mono:
  "row_fits types cols r \<Longrightarrow> (\<And>c col v. (c, col) \<in> set cols \<Longrightarrow> value_fits types col v \<Longrightarrow> value_fits types' col v) \<Longrightarrow>
    row_fits types' cols r"
  unfolding row_fits_def by (erule list.rel_mono_strong) (auto split: prod.splits)

lemma col_value_fits:
  assumes "row_fits types cols r" and "map_of cols c = Some col"
  shows "value_fits types col (col_value c r)"
  using assms unfolding row_fits_def col_value_def
  by (induction cols r rule: list_all2_induct) (auto split: if_splits)

text \<open>Deleting keeps the catalog and only takes rows away.\<close>

lemma delete_from_keeps:
  "delete_from n t p d = Inr d' \<Longrightarrow> sq_catalog d' = sq_catalog d \<and> sq_uuids d' = sq_uuids d \<and> (\<forall>u. set (sq_rows d' u) \<subseteq> set (sq_rows d u))"
  "follow_keys n gone ks d = Inr d' \<Longrightarrow> sq_catalog d' = sq_catalog d \<and> sq_uuids d' = sq_uuids d \<and> (\<forall>u. set (sq_rows d' u) \<subseteq> set (sq_rows d u))"
proof (induction n t p d and n gone ks d arbitrary: d' and d' rule: delete_from_follow_keys.induct)
  case (2 fuel t p d)
  let ?e = "d\<lparr>sq_rows := (sq_rows d)(t := filter (\<lambda>r. \<not> p r) (sq_rows d t))\<rparr>"
  from "2.prems" have "follow_keys fuel (filter p (sq_rows d t))
      (filter (\<lambda>(_, k). fk_table k = t) (all_foreign_keys (sq_catalog d))) ?e = Inr d'"
    by (simp add: Let_def)
  from "2.IH" [OF refl refl this] show ?case by (auto split: if_splits)
next
  case (4 fuel gone t k ks d)
  let ?hit = "\<lambda>r. \<exists>g \<in> set gone. sql_eq (col_value (fk_column k) r) (col_value (fk_refColumn k) g)"
  show ?case
  proof (cases "fk_onDelete k")
    case RestrictRule
    show ?thesis
    proof (cases "\<exists>r \<in> set (sq_rows d t). ?hit r")
      case True
      with "4.prems" RestrictRule show ?thesis by (simp add: Let_def)
    next
      case False
      with "4.prems" RestrictRule have "follow_keys fuel gone ks d = Inr d'"
        by (simp only: follow_keys.simps Let_def delete_rule.case if_False)
      with "4.IH"(3) [OF refl RestrictRule False] show ?thesis by blast
    qed
  next
    case CascadeRule
    with "4.prems" have "(case delete_from fuel t ?hit d of Inl e \<Rightarrow> Inl e | Inr e \<Rightarrow> follow_keys fuel gone ks e) = Inr d'"
      by (simp only: follow_keys.simps Let_def delete_rule.case)
    then obtain e where e: "delete_from fuel t ?hit d = Inr e" "follow_keys fuel gone ks e = Inr d'"
      by (cases "delete_from fuel t ?hit d") simp_all
    from "4.IH"(1) [OF refl CascadeRule e(1)] "4.IH"(2) [OF refl CascadeRule e(1,2)]
    show ?thesis by (metis order_trans)
  qed
qed simp_all


text \<open>A statement that succeeds keeps the rows fitting.\<close>

lemma has_type_mono:
  "has_type types ty v \<Longrightarrow> (\<And>n x. ty = EnumT n \<Longrightarrow> has_type types ty (TextV x) \<Longrightarrow> has_type types' ty (TextV x)) \<Longrightarrow> has_type types' ty v"
  by (cases "(types, ty, v)" rule: has_type.cases) auto

lemma value_fits_mono:
  assumes "value_fits types col v"
    and "\<And>n x. cd_type col = EnumT n \<Longrightarrow> has_type types (EnumT n) (TextV x) \<Longrightarrow> has_type types' (EnumT n) (TextV x)"
  shows "value_fits types' col v"
  using assms has_type_mono [of types "cd_type col" v types'] by (auto simp: value_fits_def split: if_splits)

lemma db_fitsD:
  assumes "db_fits d"
  shows "distinct (map fst (ct_tables (sq_catalog d)))"
    and "(t, td) \<in> set (ct_tables (sq_catalog d)) \<Longrightarrow> table_fits d t td"
    and "t \<notin> fst ` set (ct_tables (sq_catalog d)) \<Longrightarrow> sq_rows d t = []"
  using assms by (auto simp: db_fits_def)

lemma db_fits_types:
  assumes "db_fits d"
    and "\<And>t td c col n x. (t, td) \<in> set (ct_tables (sq_catalog d)) \<Longrightarrow> (c, col) \<in> set (td_columns td) \<Longrightarrow> cd_type col = EnumT n \<Longrightarrow>
      has_type (ct_types (sq_catalog d)) (EnumT n) (TextV x) \<Longrightarrow> has_type types' (EnumT n) (TextV x)"
  shows "db_fits (d\<lparr>sq_catalog := (sq_catalog d)\<lparr>ct_types := types'\<rparr>\<rparr>)"
proof -
  have "row_fits types' (td_columns td) r"
    if t: "(t, td) \<in> set (ct_tables (sq_catalog d))" and r: "r \<in> set (sq_rows d t)" for t td r
  proof -
    have "row_fits (ct_types (sq_catalog d)) (td_columns td) r"
      using db_fitsD(2) [OF assms(1) t] r by (simp add: table_fits_def)
    then show ?thesis
      by (rule row_fits_mono) (rule value_fits_mono, assumption, rule assms(2) [OF t])
  qed
  with assms(1) show ?thesis by (auto simp: db_fits_def table_fits_def)
qed

lemma tables_put:
  "fst ` set (ct_tables (put_table t td cat)) = fst ` set (ct_tables cat)"
  "map fst (ct_tables (put_table t td cat)) = map fst (ct_tables cat)"
  "ct_types (put_table t td cat) = ct_types cat"
  by (force simp: put_table_def comp_def split_def image_image)+

lemma in_put_table:
  "(u, x) \<in> set (ct_tables (put_table t td cat)) \<Longrightarrow> u = t \<and> x = td \<or> u \<noteq> t \<and> (u, x) \<in> set (ct_tables cat)"
  by (auto simp: put_table_def split: if_splits)

text \<open>Replacing one table's definition and rows.\<close>

lemma db_fits_put:
  assumes "db_fits d" and "table_of t (sq_catalog d) = Some td"
    and "distinct (map fst (td_columns td'))"
    and "\<And>r. r \<in> set rows \<Longrightarrow> row_fits (ct_types (sq_catalog d)) (td_columns td') r"
  shows "db_fits (d\<lparr>sq_catalog := put_table t td' (sq_catalog d), sq_rows := (sq_rows d)(t := rows), sq_drawn := n\<rparr>)"
proof -
  have "t \<in> fst ` set (ct_tables (sq_catalog d))"
    using assms(2) by (auto simp: table_of_def dest!: map_of_SomeD intro: rev_image_eqI)
  then show ?thesis
    using assms unfolding db_fits_def table_fits_def by (auto simp: tables_put dest!: in_put_table)
qed

lemma db_fits_cong:
  "db_fits d \<Longrightarrow> ct_tables (sq_catalog d') = ct_tables (sq_catalog d) \<Longrightarrow>
    ct_types (sq_catalog d') = ct_types (sq_catalog d) \<Longrightarrow> sq_rows d' = sq_rows d \<Longrightarrow> db_fits d'"
  by (simp add: db_fits_def table_fits_def)

lemma table_of_in: "table_of t cat = Some td \<Longrightarrow> (t, td) \<in> set (ct_tables cat)"
  by (simp add: table_of_def map_of_SomeD)

lemma row_fits_change:
  assumes "row_fits types cols r" and "\<And>col. (c, col) \<in> set cols \<Longrightarrow> value_fits types col (col_value c r) \<Longrightarrow> value_fits types (f col) (col_value c r)"
    and "distinct (map fst cols)"
  shows "row_fits types (map (\<lambda>(n, x). (n, if n = c then f x else x)) cols) r"
  using assms unfolding row_fits_def
proof (induction cols r rule: list_all2_induct)
  case (Cons a cols b r)
  obtain n x where a: "a = (n, x)" by force
  obtain v where b: "b = (n, v)" "value_fits types x v" using Cons.hyps(1) a by (cases b) auto
  show ?case
  proof (cases "n = c")
    case True
    then have rest: "map (\<lambda>(n, x). (n, if n = c then f x else x)) cols = cols"
      using Cons.prems(2) a by (intro map_idI) (force simp: image_iff)
    have "value_fits types (f x) v"
      using Cons.prems(1) [of x] b True a by (simp add: col_value_def)
    with Cons.hyps(2) rest True a b show ?thesis by simp
  next
    case False
    have eq: "col_value c (b # r) = col_value c r" using False b by (simp add: col_value_def)
    have "list_all2 (\<lambda>(c, col) (c', v). c = c' \<and> value_fits types col v) (map (\<lambda>(n, x). (n, if n = c then f x else x)) cols) r"
      using Cons.prems unfolding eq by (intro Cons.IH) (auto simp: a)
    with False a b show ?thesis by simp
  qed
qed simp

lemma db_fits_change:
  assumes "db_fits d" and "table_of t (sq_catalog d) = Some td"
    and "\<And>r col. r \<in> set (sq_rows d t) \<Longrightarrow> value_fits (ct_types (sq_catalog d)) col (col_value c r) \<Longrightarrow>
      value_fits (ct_types (sq_catalog d)) (f col) (col_value c r)"
  shows "db_fits (d\<lparr>sq_catalog := put_table t (change_column c f td) (sq_catalog d)\<rparr>)"
proof -
  have td: "table_fits d t td" using db_fitsD(2) [OF assms(1)] table_of_in [OF assms(2)] by blast
  have "db_fits (d\<lparr>sq_catalog := put_table t (change_column c f td) (sq_catalog d),
      sq_rows := (sq_rows d)(t := sq_rows d t), sq_drawn := sq_drawn d\<rparr>)"
  proof (rule db_fits_put [OF assms(1,2)])
    show "distinct (map fst (td_columns (change_column c f td)))"
      using td by (simp add: change_column_def table_fits_def comp_def split_def)
    show "row_fits (ct_types (sq_catalog d)) (td_columns (change_column c f td)) r" if "r \<in> set (sq_rows d t)" for r
      using td that assms(3) by (auto simp: change_column_def table_fits_def intro!: row_fits_change)
  qed
  then show ?thesis by simp
qed


lemma default_values_fit:
  assumes "v \<in> set (default_values (cd_default col) n d)" and "default_fits cat col"
    and "cd_notNull col \<Longrightarrow> cd_default col = NoDefault \<Longrightarrow> n = 0"
  shows "value_fits (ct_types cat) col v"
proof (cases "cd_default col")
  case NoDefault
  with assms(1,3) show ?thesis by (auto simp: value_fits_def)
next
  case GenUuid
  with assms(1,2) show ?thesis by (auto simp: value_fits_def default_fits_def)
next
  case NowDefault
  with assms(1,2) show ?thesis by (auto simp: value_fits_def default_fits_def)
next
  case (LiteralDefault x)
  with assms(1) have "v = x" by (auto split: if_splits)
  with LiteralDefault assms(2) show ?thesis by (cases v) (auto simp: value_fits_def default_fits_def)
qed

lemma length_default_values [simp]: "length (default_values df n d) = n"
  by (cases df) simp_all

lemma row_fits_append:
  "row_fits types cols r \<Longrightarrow> value_fits types col v \<Longrightarrow> row_fits types (cols @ [(c, col)]) (r @ [(c, v)])"
  unfolding row_fits_def by (simp add: list_all2_appendI)

lemma row_fits_filter:
  "row_fits types cols r \<Longrightarrow> row_fits types (filter (\<lambda>(n, _). n \<noteq> c) cols) (filter (\<lambda>(n, _). n \<noteq> c) r)"
  unfolding row_fits_def by (induction cols r rule: list_all2_induct) auto

lemma on_table_Inr: "on_table t d k = Inr d' \<longleftrightarrow> (\<exists>td. table_of t (sq_catalog d) = Some td \<and> k td = Inr d')"
  by (simp add: on_table_def split: option.split)

lemma on_column_Inr:
  "on_column t c d k = Inr d' \<longleftrightarrow>
     (\<exists>td. table_of t (sq_catalog d) = Some td \<and> c \<in> fst ` set (td_columns td) \<and> k td = Inr d')"
  by (auto simp: on_column_def on_table_Inr)

lemma distinct_fst_filter: "distinct (map fst xs) \<Longrightarrow> distinct (map fst (filter P xs))"
  by (induction xs) auto

lemma table_fits_at: "db_fits d \<Longrightarrow> table_of t (sq_catalog d) = Some td \<Longrightarrow> table_fits d t td"
  using db_fitsD(2) table_of_in by blast

lemma fits_AddColumn:
  assumes d: "db_fits d" and "exec_sql (AddColumn t c col) d = Inr d'"
  shows "db_fits d'"
proof -
  let ?n = "length (sq_rows d t)"
  let ?rows = "map2 (\<lambda>r v. r @ [(c, v)]) (sq_rows d t) (default_values (cd_default col) ?n d)"
  obtain td where td: "table_of t (sq_catalog d) = Some td" "c \<notin> fst ` set (td_columns td)"
      "default_fits (sq_catalog d) col" "\<not> (cd_notNull col \<and> cd_default col = NoDefault \<and> sq_rows d t \<noteq> [])"
    and d': "d' = (with_catalog (put_table t (td\<lparr>td_columns := td_columns td @ [(c, col)]\<rparr>)) d)\<lparr>
         sq_rows := (sq_rows d)(t := ?rows),
         sq_drawn := (if cd_default col = GenUuid then sq_drawn d + ?n else sq_drawn d)\<rparr>"
    using assms(2) by (auto simp: on_table_Inr Let_def split: if_splits)
  have fits: "table_fits d t td" using d td(1) by (rule table_fits_at)
  have rows: "row_fits (ct_types (sq_catalog d)) (td_columns td @ [(c, col)]) r" if "r \<in> set ?rows" for r
  proof -
    from that obtain x v where xv: "x \<in> set (sq_rows d t)" "v \<in> set (default_values (cd_default col) ?n d)" "r = x @ [(c, v)]"
      by (auto dest: set_zip_leftD set_zip_rightD)
    have "value_fits (ct_types (sq_catalog d)) col v"
      using xv(2) td(3,4) by (intro default_values_fit) auto
    with fits xv(1) show ?thesis unfolding xv(3) by (intro row_fits_append) (auto simp: table_fits_def)
  qed
  have "db_fits (d\<lparr>sq_catalog := put_table t (td\<lparr>td_columns := td_columns td @ [(c, col)]\<rparr>) (sq_catalog d),
      sq_rows := (sq_rows d)(t := ?rows), sq_drawn := 0\<rparr>)"
    using fits td(2) rows by (intro db_fits_put [OF d td(1)]) (simp_all add: table_fits_def)
  then show ?thesis by (rule db_fits_cong) (simp_all add: d' with_catalog_def)
qed

lemma fits_DropColumn:
  assumes d: "db_fits d" and "exec_sql (DropColumn t c) d = Inr d'"
  shows "db_fits d'"
proof -
  obtain td where td: "table_of t (sq_catalog d) = Some td"
    and d': "d' = (with_catalog (\<lambda>cat. (put_table t (without_column c td) cat)\<lparr>
            ct_indexes := filter (\<lambda>(_, ix). \<not> (ix_table ix = t \<and> c \<in> set (ix_columns ix))) (ct_indexes cat)\<rparr>) d)\<lparr>
          sq_rows := (sq_rows d)(t := map (filter (\<lambda>(n, _). n \<noteq> c)) (sq_rows d t))\<rparr>"
    using assms(2) by (auto simp: on_column_Inr split: if_splits)
  have fits: "table_fits d t td" using d td by (rule table_fits_at)
  have "db_fits (d\<lparr>sq_catalog := put_table t (without_column c td) (sq_catalog d),
      sq_rows := (sq_rows d)(t := map (filter (\<lambda>(n, _). n \<noteq> c)) (sq_rows d t)), sq_drawn := sq_drawn d\<rparr>)"
    using fits by (intro db_fits_put [OF d td])
      (auto simp: table_fits_def without_column_def distinct_fst_filter intro: row_fits_filter)
  then show ?thesis by (rule db_fits_cong) (simp_all add: d' with_catalog_def)
qed

lemma exec_DeleteRows:
  assumes "exec_sql (DeleteRows t p) d = Inr d'"
  shows "sq_catalog d' = sq_catalog d" and "set (sq_rows d' u) \<subseteq> set (sq_rows d u)"
proof -
  obtain n q where "delete_from n t q d = Inr d'"
    using assms by (auto simp: on_table_Inr simp del: delete_from.simps)
  from delete_from_keeps(1) [OF this] show "sq_catalog d' = sq_catalog d" "set (sq_rows d' u) \<subseteq> set (sq_rows d u)" by simp_all
qed

lemma db_fits_fewer:
  assumes "db_fits d" and cat: "sq_catalog d' = sq_catalog d" and rows: "\<And>u. set (sq_rows d' u) \<subseteq> set (sq_rows d u)"
  shows "db_fits d'"
proof -
  have "table_fits d' t td" if "table_fits d t td" for t td
    using that rows [of t] by (auto simp: table_fits_def cat)
  moreover have "sq_rows d' t = []" if "sq_rows d t = []" for t
    using that rows [of t] by simp
  ultimately show ?thesis using assms(1) by (auto simp: db_fits_def cat)
qed

lemma exec_sql_fits:
  assumes d: "db_fits d" and run: "exec_sql s d = Inr d'"
  shows "db_fits d'"
proof (cases s)
  case (CreateExtensionIfNotExists x)
  with run show ?thesis by (intro db_fits_cong [OF d]) (auto simp: with_catalog_def)
next
  case (CreateType n vs)
  with run have d': "d' = d\<lparr>sq_catalog := (sq_catalog d)\<lparr>ct_types := ct_types (sq_catalog d) @ [(n, vs)]\<rparr>\<rparr>"
    by (auto simp: with_catalog_def split: if_splits)
  show ?thesis unfolding d'
    by (rule db_fits_types [OF d]) (auto simp: map_add_def split: option.splits)
next
  case (AddEnumValue n v)
  then obtain vs where vs: "map_of (ct_types (sq_catalog d)) n = Some vs"
    and d': "d' = d\<lparr>sq_catalog := (sq_catalog d)\<lparr>ct_types := map (\<lambda>(m, xs). (m, if m = n then xs @ [v] else xs)) (ct_types (sq_catalog d))\<rparr>\<rparr>"
    using run by (auto simp: with_catalog_def split: option.splits if_splits)
  have "map_of (map (\<lambda>(m, xs). (m, if m = n then xs @ [v] else xs)) ts) m =
      (case map_of ts m of None \<Rightarrow> None | Some xs \<Rightarrow> Some (if m = n then xs @ [v] else xs))" for ts :: "(string \<times> string list) list" and m
    by (induction ts) auto
  then show ?thesis unfolding d'
    by (intro db_fits_types [OF d]) (auto split: option.splits if_splits)
next
  case (DropType n)
  have used: "\<forall>(_, td) \<in> set (ct_tables (sq_catalog d)). \<forall>(_, c) \<in> set (td_columns td). cd_type c \<noteq> EnumT n"
    and d': "d' = d\<lparr>sq_catalog := (sq_catalog d)\<lparr>ct_types := filter (\<lambda>(m, _). m \<noteq> n) (ct_types (sq_catalog d))\<rparr>\<rparr>"
    using run DropType by (auto simp: with_catalog_def split: if_splits)
  have "m \<noteq> n \<Longrightarrow> map_of (filter (\<lambda>(k, _). k \<noteq> n) ts) m = map_of ts m" for ts :: "(string \<times> string list) list" and m
    by (induction ts) auto
  with used show ?thesis unfolding d' by (intro db_fits_types [OF d]) fastforce
next
  case (CreateTable t cols pk uniques)
  with d run show ?thesis
    by (auto simp: with_catalog_def db_fits_def table_fits_def split: if_splits) fastforce
next
  case (DropTable t)
  with run have d': "ct_tables (sq_catalog d') = filter (\<lambda>(n, _). n \<noteq> t) (ct_tables (sq_catalog d))"
      "ct_types (sq_catalog d') = ct_types (sq_catalog d)" "sq_rows d' = (sq_rows d)(t := [])"
    by (auto simp: with_catalog_def on_table_Inr split: if_splits)
  show ?thesis
    unfolding db_fits_def d'(1)
  proof (intro conjI allI impI ballI)
    show "distinct (map fst (filter (\<lambda>(n, _). n \<noteq> t) (ct_tables (sq_catalog d))))"
      using db_fitsD(1) [OF d] by (rule distinct_fst_filter)
    show "case x of (u, td) \<Rightarrow> table_fits d' u td" if "x \<in> set (filter (\<lambda>(n, _). n \<noteq> t) (ct_tables (sq_catalog d)))" for x
      using that db_fitsD(2) [OF d] by (cases x rule: prod.exhaust) (auto simp: table_fits_def d')
    show "sq_rows d' u = []" if "u \<notin> fst ` set (filter (\<lambda>(n, _). n \<noteq> t) (ct_tables (sq_catalog d)))" for u
      using that db_fitsD(3) [OF d, of u] by (force simp: d'(3) image_iff)
  qed
next
  case (AddColumn t c col)
  with d run show ?thesis using fits_AddColumn by blast
next
  case (DropColumn t c)
  with d run show ?thesis using fits_DropColumn by blast
next
  case (DropColumnDefault t c)
  then obtain td where "table_of t (sq_catalog d) = Some td"
    "d' = with_catalog (put_table t (change_column c (\<lambda>x. x\<lparr>cd_default := NoDefault\<rparr>) td)) d"
    using run by (auto simp: on_column_Inr)
  with db_fits_change [OF d, of t td c "\<lambda>x. x\<lparr>cd_default := NoDefault\<rparr>"] show ?thesis
    by (simp add: with_catalog_def value_fits_def)
next
  case (DropColumnNotNull t c)
  then obtain td where "table_of t (sq_catalog d) = Some td"
    "d' = with_catalog (put_table t (change_column c (\<lambda>x. x\<lparr>cd_notNull := False\<rparr>) td)) d"
    using run by (auto simp: on_column_Inr)
  with db_fits_change [OF d, of t td c "\<lambda>x. x\<lparr>cd_notNull := False\<rparr>"] show ?thesis
    by (simp add: with_catalog_def value_fits_def)
next
  case (SetColumnNotNull t c)
  then obtain td where "table_of t (sq_catalog d) = Some td" "\<forall>r \<in> set (sq_rows d t). col_value c r \<noteq> Null"
    "d' = with_catalog (put_table t (change_column c (\<lambda>x. x\<lparr>cd_notNull := True\<rparr>) td)) d"
    using run by (auto simp: on_column_Inr split: if_splits)
  with db_fits_change [OF d, of t td c "\<lambda>x. x\<lparr>cd_notNull := True\<rparr>"] show ?thesis
    by (simp add: with_catalog_def value_fits_def)
next
  case (CreateIndex n ix)
  with run show ?thesis by (intro db_fits_cong [OF d]) (auto simp: with_catalog_def on_table_Inr split: if_splits)
next
  case (DropIndex n)
  with run show ?thesis by (intro db_fits_cong [OF d]) (auto simp: with_catalog_def split: if_splits)
next
  case (AddForeignKey t k)
  then obtain td where td: "table_of t (sq_catalog d) = Some td"
    "d' = with_catalog (put_table t (td\<lparr>td_foreignKeys := td_foreignKeys td @ [k]\<rparr>)) d"
    using run by (auto simp: on_column_Inr split: if_splits)
  from table_fits_at [OF d td(1)] db_fits_put [OF d td(1), of "td\<lparr>td_foreignKeys := td_foreignKeys td @ [k]\<rparr>" "sq_rows d t" "sq_drawn d"]
  show ?thesis by (simp add: td(2) with_catalog_def table_fits_def)
next
  case (DropConstraint t n)
  then obtain td where td: "table_of t (sq_catalog d) = Some td"
    "d' = with_catalog (put_table t (td\<lparr>td_foreignKeys := filter (\<lambda>k. fk_name k \<noteq> n) (td_foreignKeys td),
            td_uniques := filter (\<lambda>(m, _). m \<noteq> n) (td_uniques td)\<rparr>)) d"
    using run by (auto simp: on_table_Inr split: if_splits)
  from table_fits_at [OF d td(1)] db_fits_put [OF d td(1), of "td\<lparr>td_foreignKeys := filter (\<lambda>k. fk_name k \<noteq> n) (td_foreignKeys td),
            td_uniques := filter (\<lambda>(m, _). m \<noteq> n) (td_uniques td)\<rparr>" "sq_rows d t" "sq_drawn d"]
  show ?thesis by (simp add: td(2) with_catalog_def table_fits_def)
next
  case (DeleteRows t p)
  with run show ?thesis by (intro db_fits_fewer [OF d]) (use exec_DeleteRows in blast)+
qed

lemma exec_all_fits: "db_fits d \<Longrightarrow> exec_all ss d = Inr d' \<Longrightarrow> db_fits d'"
  by (induction ss arbitrary: d) (auto split: sum.splits dest: exec_sql_fits)


section \<open>Statements whose success the catalog decides\<close>

text \<open>
  \<open>data_step\<close> is what a statement does to the rows. A statement is \<open>safe\<close> when it looks at no rows, or only at
  rows of tables that are new and so empty: then it succeeds exactly if it does on the bare catalog.
\<close>

fun data_step :: "sql_stmt \<Rightarrow> sql_db \<Rightarrow> sql_db" where
  "data_step (CreateTable t cols pk uniques) d = d\<lparr>sq_rows := (sq_rows d)(t := [])\<rparr>"
| "data_step (DropTable t) d = d\<lparr>sq_rows := (sq_rows d)(t := [])\<rparr>"
| "data_step (AddColumn t c col) d =
     (let n = length (sq_rows d t) in d\<lparr>
        sq_rows := (sq_rows d)(t := map2 (\<lambda>r v. r @ [(c, v)]) (sq_rows d t) (default_values (cd_default col) n d)),
        sq_drawn := (if cd_default col = GenUuid then sq_drawn d + n else sq_drawn d)\<rparr>)"
| "data_step (DropColumn t c) d = d\<lparr>sq_rows := (sq_rows d)(t := map (filter (\<lambda>(n, _). n \<noteq> c)) (sq_rows d t))\<rparr>"
| "data_step s d = d"

fun safe :: "string list \<Rightarrow> sql_stmt \<Rightarrow> bool" where
  "safe new (AddForeignKey t k) \<longleftrightarrow> t \<in> set new"
| "safe new (CreateIndex n ix) \<longleftrightarrow> (ix_unique ix \<longrightarrow> ix_table ix \<in> set new)"
| "safe new (AddColumn t c col) \<longleftrightarrow> (cd_notNull col \<longrightarrow> cd_default col \<noteq> NoDefault)"
| "safe new (SetColumnNotNull t c) \<longleftrightarrow> False"
| "safe new (DeleteRows t p) \<longleftrightarrow> False"
| "safe new s \<longleftrightarrow> True"

fun grow :: "sql_stmt \<Rightarrow> string list \<Rightarrow> string list" where
  "grow (CreateTable t cols pk uniques) new = t # new"
| "grow s new = new"

fun safe_all :: "string list \<Rightarrow> sql_stmt list \<Rightarrow> bool" where
  "safe_all new [] \<longleftrightarrow> True"
| "safe_all new (s # ss) \<longleftrightarrow> safe new s \<and> safe_all (grow s new) ss"

definition bare :: "catalog \<Rightarrow> sql_db" where
  "bare cat = \<lparr>sq_catalog = cat, sq_rows = (\<lambda>_. []), sq_uuids = (\<lambda>_. []), sq_drawn = 0, sq_now = 0\<rparr>"

definition catalog_after :: "sql_stmt list \<Rightarrow> catalog \<Rightarrow> catalog option" where
  "catalog_after ss cat = (case exec_all ss (bare cat) of Inl e \<Rightarrow> None | Inr d \<Rightarrow> Some (sq_catalog d))"

lemma bare_simps [simp]: "sq_catalog (bare cat) = cat" "sq_rows (bare cat) t = []" "sq_rows (bare cat) = (\<lambda>_. [])"
  by (simp_all add: bare_def)

lemma unique_on_Nil [simp]: "unique_on cs []"
  by (simp add: unique_on_def)

lemma indexed_Nil [simp]: "indexed ix [] = []"
  by (simp add: indexed_def split: option.split)

lemma data_step_catalog: "data_step s (d\<lparr>sq_catalog := cat\<rparr>) = (data_step s d)\<lparr>sq_catalog := cat\<rparr>"
proof (cases s)
  case (AddColumn t c col)
  have "default_values (cd_default col) n (d\<lparr>sq_catalog := cat\<rparr>) = default_values (cd_default col) n d" for n
    by (cases "cd_default col") simp_all
  with AddColumn show ?thesis by (simp add: Let_def)
qed simp_all

lemma exec_bare:
  assumes "exec_sql s (bare cat) = Inr e" and "safe new s"
  shows "e = bare (sq_catalog e)"
  using assms by (cases s) (auto simp: on_table_Inr on_column_Inr with_catalog_def bare_def Let_def split: if_splits option.splits)

lemma exec_safe:
  assumes run: "exec_sql s (bare (sq_catalog d)) = Inr e" and "safe new s" and "\<And>t. t \<in> set new \<Longrightarrow> sq_rows d t = []"
  shows "exec_sql s d = Inr ((data_step s d)\<lparr>sq_catalog := sq_catalog e\<rparr>)"
proof (cases s)
  case (AddColumn t c col)
  with assms show ?thesis
    by (auto simp: on_table_def with_catalog_def Let_def split: option.splits if_splits)
next
  case (CreateIndex n ix)
  with assms show ?thesis
    by (auto simp: on_table_def with_catalog_def split: option.splits if_splits)
next
  case (AddForeignKey t k)
  with assms show ?thesis
    by (auto simp: on_column_def on_table_def with_catalog_def split: option.splits if_splits)
qed (use assms in \<open>auto simp: on_column_def on_table_def with_catalog_def split: option.splits if_splits\<close>)

lemma grow_empty:
  assumes "\<And>t. t \<in> set new \<Longrightarrow> sq_rows d t = []" and "t \<in> set (grow s new)"
  shows "sq_rows (data_step s d) t = []"
  using assms by (cases s) (auto simp: Let_def)

lemma exec_all_safe:
  assumes "catalog_after ss (sq_catalog d) = Some cat" and "safe_all new ss" and "\<And>t. t \<in> set new \<Longrightarrow> sq_rows d t = []"
  shows "exec_all ss d = Inr ((fold data_step ss d)\<lparr>sq_catalog := cat\<rparr>)"
  using assms
proof (induction ss arbitrary: d new)
  case Nil
  then show ?case by (simp add: catalog_after_def)
next
  case (Cons s ss)
  from Cons.prems(1) obtain e where e: "exec_sql s (bare (sq_catalog d)) = Inr e"
    by (auto simp: catalog_after_def split: sum.splits)
  have safe: "safe new s" "safe_all (grow s new) ss" using Cons.prems(2) by simp_all
  let ?d = "(data_step s d)\<lparr>sq_catalog := sq_catalog e\<rparr>"
  have "catalog_after ss (sq_catalog ?d) = Some cat"
    using Cons.prems(1) e exec_bare [OF e safe(1)] by (simp add: catalog_after_def)
  then have "exec_all ss ?d = Inr ((fold data_step ss ?d)\<lparr>sq_catalog := cat\<rparr>)"
    by (rule Cons.IH [OF _ safe(2)]) (use grow_empty Cons.prems(3) in auto)
  moreover have "(fold data_step ss (x\<lparr>sq_catalog := c\<rparr>))\<lparr>sq_catalog := cat\<rparr> = (fold data_step ss x)\<lparr>sq_catalog := cat\<rparr>" for x c
    by (induction ss arbitrary: x) (simp_all add: data_step_catalog)
  ultimately show ?case
    using exec_safe [OF e safe(1) Cons.prems(3)] by simp
qed

lemma catalog_after_append:
  assumes "safe_all new ss" and "catalog_after ss cat = Some c"
  shows "catalog_after (ss @ ts) cat = catalog_after ts c"
  using assms
proof (induction ss arbitrary: cat new)
  case Nil
  then show ?case by (simp add: catalog_after_def)
next
  case (Cons s ss)
  then obtain e where e: "exec_sql s (bare cat) = Inr e" by (auto simp: catalog_after_def split: sum.splits)
  have safe: "safe new s" "safe_all (grow s new) ss" using Cons.prems(1) by simp_all
  obtain f where f: "e = bare f" using exec_bare [OF e safe(1)] by blast
  have "catalog_after ss f = Some c" using Cons.prems(2) e unfolding f by (simp add: catalog_after_def)
  from Cons.IH [OF safe(2) this] e show ?case unfolding f by (simp add: catalog_after_def)
qed


section \<open>What becomes of the catalog and the rows\<close>

lemma exec_catalog:
  assumes "sq_catalog d = sq_catalog e" and "exec_sql s d = Inr d'" and "exec_sql s e = Inr e'"
  shows "sq_catalog d' = sq_catalog e'"
proof (cases s)
  case (DeleteRows t p)
  with assms(2,3) have "sq_catalog d' = sq_catalog d" "sq_catalog e' = sq_catalog e"
    using exec_DeleteRows(1) by blast+
  with assms(1) show ?thesis by simp
qed (use assms in \<open>auto simp: on_table_Inr on_column_Inr with_catalog_def Let_def split: if_splits option.splits\<close>)

lemma exec_all_catalog:
  "sq_catalog d = sq_catalog e \<Longrightarrow> exec_all ss d = Inr d' \<Longrightarrow> exec_all ss e = Inr e' \<Longrightarrow> sq_catalog d' = sq_catalog e'"
proof (induction ss arbitrary: d e)
  case (Cons s ss)
  obtain d1 where d1: "exec_sql s d = Inr d1" "exec_all ss d1 = Inr d'" using Cons.prems(2) by (cases "exec_sql s d") simp_all
  obtain e1 where e1: "exec_sql s e = Inr e1" "exec_all ss e1 = Inr e'" using Cons.prems(3) by (cases "exec_sql s e") simp_all
  from exec_catalog [OF Cons.prems(1) d1(1) e1(1)] d1(2) e1(2) show ?case by (rule Cons.IH)
qed simp

lemma catalog_afterI: "exec_all ss d = Inr d' \<Longrightarrow> catalog_after ss (sq_catalog d) = Some cat \<Longrightarrow> sq_catalog d' = cat"
  using exec_all_catalog [of d "bare (sq_catalog d)" ss d'] by (auto simp: catalog_after_def split: sum.splits)

lemma exec_all_append:
  "exec_all (ss @ ts) d = (case exec_all ss d of Inl e \<Rightarrow> Inl e | Inr d' \<Rightarrow> exec_all ts d')"
  by (induction ss arbitrary: d) (auto split: sum.splits)

text \<open>Statements that drop and delete nothing keep every row, at most with columns added at its end.\<close>

fun additive :: "sql_stmt \<Rightarrow> bool" where
  "additive (DropTable t) \<longleftrightarrow> False"
| "additive (DropColumn t c) \<longleftrightarrow> False"
| "additive (DeleteRows t p) \<longleftrightarrow> False"
| "additive s \<longleftrightarrow> True"

lemma rows_refl: "list_all2 prefix xs xs"
  by (simp add: list_all2_refl)

lemma additive_rows:
  assumes "db_fits d" and "exec_sql s d = Inr d'" and "additive s"
  shows "list_all2 prefix (sq_rows d t) (sq_rows d' t)"
proof (cases s)
  case (AddColumn u c col)
  then have "sq_rows d' = (sq_rows d)(u := map2 (\<lambda>r v. r @ [(c, v)]) (sq_rows d u)
      (default_values (cd_default col) (length (sq_rows d u)) d))"
    using assms(2) by (auto simp: on_table_Inr Let_def split: if_splits)
  moreover have "list_all2 prefix xs (map2 (\<lambda>r v. r @ [(c, v)]) xs vs)" if "length vs = length xs" for xs :: "sql_row list" and vs
    using that by (auto simp: list_all2_conv_all_nth)
  ultimately show ?thesis by (simp add: rows_refl)
next
  case (CreateTable u cols pk uniques)
  with assms(2) have "u \<notin> fst ` set (ct_tables (sq_catalog d))" "sq_rows d' = (sq_rows d)(u := [])"
    by (auto simp: with_catalog_def split: if_splits)
  with db_fitsD(3) [OF assms(1)] show ?thesis by (auto simp: rows_refl)
qed (use assms in \<open>auto simp: rows_refl on_table_Inr on_column_Inr with_catalog_def split: if_splits option.splits\<close>)

lemma additive_all_rows:
  "db_fits d \<Longrightarrow> exec_all ss d = Inr d' \<Longrightarrow> list_all additive ss \<Longrightarrow> list_all2 prefix (sq_rows d t) (sq_rows d' t)"
proof (induction ss arbitrary: d)
  case Nil
  then show ?case by (simp add: rows_refl)
next
  case (Cons s ss)
  then obtain d1 where d1: "exec_sql s d = Inr d1" "exec_all ss d1 = Inr d'" by (auto split: sum.splits)
  have "list_all2 prefix (sq_rows d t) (sq_rows d1 t)" using additive_rows [OF Cons.prems(1) d1(1)] Cons.prems(3) by simp
  moreover have "list_all2 prefix (sq_rows d1 t) (sq_rows d' t)"
    using Cons.IH [OF exec_sql_fits [OF Cons.prems(1) d1(1)] d1(2)] Cons.prems(3) by simp
  ultimately show ?case by (rule list_all2_trans [rotated]) (rule prefix_order.trans)
qed

fun touches :: "string \<Rightarrow> sql_stmt \<Rightarrow> bool" where
  "touches t (AddColumn u c col) \<longleftrightarrow> u = t"
| "touches t s \<longleftrightarrow> False"

lemma untouched_rows:
  assumes "db_fits d" and "exec_all ss d = Inr d'" and "list_all (\<lambda>s. additive s \<and> \<not> touches t s) ss"
  shows "sq_rows d' t = sq_rows d t"
  using assms
proof (induction ss arbitrary: d)
  case (Cons s ss)
  then obtain d1 where d1: "exec_sql s d = Inr d1" "exec_all ss d1 = Inr d'" by (auto split: sum.splits)
  have s: "additive s" "\<not> touches t s" and ss: "list_all (\<lambda>s. additive s \<and> \<not> touches t s) ss" using Cons.prems(3) by simp_all
  have "sq_rows d1 t = sq_rows d t"
  proof (cases s)
    case (CreateTable u cols pk uniques)
    with d1(1) have "u \<notin> fst ` set (ct_tables (sq_catalog d))" "sq_rows d1 = (sq_rows d)(u := [])"
      by (auto simp: with_catalog_def split: if_splits)
    with db_fitsD(3) [OF Cons.prems(1)] show ?thesis by auto
  qed (use d1(1) s in \<open>auto simp: on_table_Inr on_column_Inr with_catalog_def Let_def split: if_splits option.splits\<close>)
  with Cons.IH [OF exec_sql_fits [OF Cons.prems(1) d1(1)] d1(2) ss] show ?case by simp
qed simp

text \<open>Deleting from a table no key points at, and from one with a single cascading key.\<close>

abbreviation keys_into :: "string \<Rightarrow> catalog \<Rightarrow> (string \<times> foreign_key) list" where
  "keys_into t cat \<equiv> filter (\<lambda>(_, k). fk_table k = t) (all_foreign_keys cat)"

definition keeping :: "string \<Rightarrow> (sql_row \<Rightarrow> bool) \<Rightarrow> sql_db \<Rightarrow> sql_db" where
  "keeping t p d = d\<lparr>sq_rows := (sq_rows d)(t := filter p (sq_rows d t))\<rparr>"

lemma keeping_simps [simp]:
  "sq_catalog (keeping t p d) = sq_catalog d"
  "sq_rows (keeping t p d) u = (if u = t then filter p (sq_rows d t) else sq_rows d u)"
  by (simp_all add: keeping_def)

lemma delete_unreferenced:
  "keys_into t (sq_catalog d) = [] \<Longrightarrow> delete_from (Suc n) t p d = Inr (keeping t (\<lambda>r. \<not> p r) d)"
  by (simp add: keeping_def Let_def)

lemma delete_one_cascade:
  assumes "keys_into t (sq_catalog d) = [(u, k)]" and "fk_onDelete k = CascadeRule" and "keys_into u (sq_catalog d) = []" and "u \<noteq> t"
  shows "delete_from (Suc (Suc n)) t p d = Inr (keeping u (\<lambda>r. \<not> (\<exists>g \<in> set (filter p (sq_rows d t)).
       sql_eq (col_value (fk_column k) r) (col_value (fk_refColumn k) g))) (keeping t (\<lambda>r. \<not> p r) d))"
proof -
  let ?d = "keeping t (\<lambda>r. \<not> p r) d"
  let ?hit = "\<lambda>r. \<exists>g \<in> set (filter p (sq_rows d t)). sql_eq (col_value (fk_column k) r) (col_value (fk_refColumn k) g)"
  have "delete_from (Suc (Suc n)) t p d = follow_keys (Suc n) (filter p (sq_rows d t)) [(u, k)] ?d"
    using assms(1) by (simp only: delete_from.simps Let_def keeping_def)
  also have "\<dots> = (case delete_from (Suc n) u ?hit ?d of Inl e \<Rightarrow> Inl e | Inr d' \<Rightarrow> Inr d')"
    by (simp add: Let_def assms(2) del: delete_from.simps split: sum.split)
  also have "\<dots> = Inr (keeping u (\<lambda>r. \<not> ?hit r) ?d)"
    using assms(3) by (subst delete_unreferenced) simp_all
  finally show ?thesis .
qed

end
