(* ===== verification/Migrations.thy ===== *)
theory Migrations
  imports Schema Entities "HOL-Library.Product_Lexorder"
begin

text \<open>
  The migrations of \<^verbatim>\<open>src/database/migrations\<close>, statement by statement, and the table every entity class
  declares with its decorators. Shown: the migrations build exactly the declared tables; each can be
  reverted; any database they find is upgraded without an error and without losing a row of record; and
  the last one leaves every user their newest open cart only.
\<close>

section \<open>Columns\<close>

abbreviation required :: "sql_type \<Rightarrow> column_def" where
  "required ty \<equiv> \<lparr>cd_type = ty, cd_notNull = True, cd_default = NoDefault\<rparr>"

abbreviation nullable :: "sql_type \<Rightarrow> column_def" where
  "nullable ty \<equiv> \<lparr>cd_type = ty, cd_notNull = False, cd_default = NoDefault\<rparr>"

abbreviation defaulted :: "sql_type \<Rightarrow> sql_default \<Rightarrow> column_def" where
  "defaulted ty df \<equiv> \<lparr>cd_type = ty, cd_notNull = True, cd_default = df\<rparr>"

abbreviation "uuid_id \<equiv> defaulted UuidT GenUuid"
abbreviation "created_now \<equiv> defaulted TimestampT NowDefault"

abbreviation plain_index :: "string \<Rightarrow> string list \<Rightarrow> index_def" where
  "plain_index t cs \<equiv> \<lparr>ix_table = t, ix_columns = cs, ix_unique = False, ix_whereNull = None\<rparr>"

abbreviation references_id :: "string \<Rightarrow> string \<Rightarrow> string \<Rightarrow> delete_rule \<Rightarrow> foreign_key" where
  "references_id n c t rule \<equiv> \<lparr>fk_name = n, fk_column = c, fk_table = t, fk_refColumn = ''id'', fk_onDelete = rule\<rparr>"

section \<open>The migrations\<close>

record migration =
  mg_name :: string
  mg_up :: "sql_stmt list"
  mg_down :: "sql_stmt list"

definition InitialSchema :: migration where
  "InitialSchema = \<lparr>mg_name = ''InitialSchema1782896581863'',
     mg_up = [
       CreateExtensionIfNotExists ''uuid-ossp'',
       CreateType ''users_role_enum'' [''USER'', ''ADMIN''],
       CreateTable ''users'' [(''id'', uuid_id), (''email'', required VarcharT), (''password'', required VarcharT),
         (''role'', defaulted (EnumT ''users_role_enum'') (LiteralDefault (TextV ''USER''))),
         (''disabled'', defaulted BoolT (LiteralDefault (BoolV False))), (''createdAt'', created_now)]
         (''PK_a3ffb1c0c8416b9fc6f907b7433'', [''id'']) [(''UQ_97672ac88f789774dd47f7c8be3'', [''email''])],
       CreateTable ''refresh_tokens'' [(''id'', uuid_id), (''userId'', required UuidT), (''tokenHash'', required VarcharT),
         (''expiresAt'', required TimestamptzT), (''revoked'', defaulted BoolT (LiteralDefault (BoolV False))),
         (''createdAt'', created_now)]
         (''PK_7d8bee0204106019488c4c50ffa'', [''id'']) [],
       CreateIndex ''IDX_c25bc63d248ca90e8dcc1d92d0''
         \<lparr>ix_table = ''refresh_tokens'', ix_columns = [''tokenHash''], ix_unique = True, ix_whereNull = None\<rparr>,
       CreateType ''orders_status_enum'' [''PENDING'', ''RESERVED'', ''PAID'', ''COMPLETED'', ''FAILED''],
       CreateTable ''orders'' [(''id'', uuid_id), (''userId'', required UuidT),
         (''status'', defaulted (EnumT ''orders_status_enum'') (LiteralDefault (TextV ''PENDING''))),
         (''createdAt'', created_now), (''updatedAt'', created_now)]
         (''PK_710e2d4957aa5878dfe94e4ac2f'', [''id'']) [],
       CreateIndex ''IDX_151b79a83ba240b0cb31b2302d'' (plain_index ''orders'' [''userId'']),
       CreateTable ''processed_messages'' [(''messageId'', required VarcharT), (''consumer'', required VarcharT),
         (''processedAt'', created_now)]
         (''PK_71dbab7d259d139c9b339ba7de4'', [''messageId'', ''consumer'']) [],
       CreateTable ''payment_authorizations'' [(''orderId'', required VarcharT), (''authorized'', required BoolT),
         (''declineReason'', nullable VarcharT), (''createdAt'', created_now)]
         (''PK_9ec838ab38023012e1f60809b1b'', [''orderId'']) [],
       AddForeignKey ''refresh_tokens'' (references_id ''FK_610102b60fea1455310ccd299de'' ''userId'' ''users'' CascadeRule),
       AddForeignKey ''orders'' (references_id ''FK_151b79a83ba240b0cb31b2302d1'' ''userId'' ''users'' CascadeRule)],
     mg_down = [
       DropConstraint ''orders'' ''FK_151b79a83ba240b0cb31b2302d1'',
       DropConstraint ''refresh_tokens'' ''FK_610102b60fea1455310ccd299de'',
       DropTable ''payment_authorizations'',
       DropTable ''processed_messages'',
       DropIndex ''IDX_151b79a83ba240b0cb31b2302d'',
       DropTable ''orders'',
       DropType ''orders_status_enum'',
       DropIndex ''IDX_c25bc63d248ca90e8dcc1d92d0'',
       DropTable ''refresh_tokens'',
       DropTable ''users'',
       DropType ''users_role_enum'']\<rparr>"

definition AddMetricEventsAndPaymentInitiatedAt :: migration where
  "AddMetricEventsAndPaymentInitiatedAt = \<lparr>mg_name = ''AddMetricEventsAndPaymentInitiatedAt1782907200000'',
     mg_up = [
       CreateTable ''metric_events'' [(''id'', uuid_id), (''metric'', required VarcharT), (''value'', required FloatT),
         (''labels'', nullable JsonbT), (''recordedAt'', defaulted TimestamptzT NowDefault)]
         (''PK_metric_events_id'', [''id'']) [],
       CreateIndex ''IDX_metric_events_metric_recordedAt'' (plain_index ''metric_events'' [''metric'', ''recordedAt'']),
       AddColumn ''orders'' ''paymentInitiatedAt'' (nullable TimestamptzT)],
     mg_down = [
       DropColumn ''orders'' ''paymentInitiatedAt'',
       DropIndex ''IDX_metric_events_metric_recordedAt'',
       DropTable ''metric_events'']\<rparr>"

definition AddCartsProductsOrderItemsAndCancelled :: migration where
  "AddCartsProductsOrderItemsAndCancelled = \<lparr>mg_name = ''AddCartsProductsOrderItemsAndCancelled1782910000000'',
     mg_up = [
       AddEnumValue ''orders_status_enum'' ''CANCELLED'',
       CreateTable ''products'' [(''id'', uuid_id), (''name'', required VarcharT), (''sku'', required VarcharT),
         (''stock'', required IntT), (''createdAt'', created_now), (''updatedAt'', created_now)]
         (''PK_products_id'', [''id'']) [(''UQ_products_sku'', [''sku''])],
       CreateTable ''carts'' [(''id'', uuid_id), (''userId'', required UuidT), (''checkedOutAt'', nullable TimestamptzT),
         (''createdAt'', created_now), (''updatedAt'', created_now)]
         (''PK_carts_id'', [''id'']) [],
       CreateIndex ''IDX_carts_userId'' (plain_index ''carts'' [''userId'']),
       AddForeignKey ''carts'' (references_id ''FK_carts_userId'' ''userId'' ''users'' CascadeRule),
       CreateTable ''cart_items'' [(''id'', uuid_id), (''cartId'', required UuidT), (''productId'', required UuidT),
         (''quantity'', required IntT)]
         (''PK_cart_items_id'', [''id'']) [(''UQ_cart_items_cartId_productId'', [''cartId'', ''productId''])],
       CreateIndex ''IDX_cart_items_cartId'' (plain_index ''cart_items'' [''cartId'']),
       AddForeignKey ''cart_items'' (references_id ''FK_cart_items_cartId'' ''cartId'' ''carts'' CascadeRule),
       AddForeignKey ''cart_items'' (references_id ''FK_cart_items_productId'' ''productId'' ''products'' CascadeRule),
       CreateTable ''order_items'' [(''id'', uuid_id), (''orderId'', required UuidT), (''productId'', required UuidT),
         (''productName'', required VarcharT), (''quantity'', required IntT)]
         (''PK_order_items_id'', [''id'']) [],
       CreateIndex ''IDX_order_items_orderId'' (plain_index ''order_items'' [''orderId'']),
       AddForeignKey ''order_items'' (references_id ''FK_order_items_orderId'' ''orderId'' ''orders'' CascadeRule),
       AddForeignKey ''order_items'' (references_id ''FK_order_items_productId'' ''productId'' ''products'' RestrictRule)],
     mg_down = [
       DropConstraint ''order_items'' ''FK_order_items_productId'',
       DropConstraint ''order_items'' ''FK_order_items_orderId'',
       DropIndex ''IDX_order_items_orderId'',
       DropTable ''order_items'',
       DropConstraint ''cart_items'' ''FK_cart_items_productId'',
       DropConstraint ''cart_items'' ''FK_cart_items_cartId'',
       DropIndex ''IDX_cart_items_cartId'',
       DropTable ''cart_items'',
       DropConstraint ''carts'' ''FK_carts_userId'',
       DropIndex ''IDX_carts_userId'',
       DropTable ''carts'',
       DropTable ''products'']\<rparr>"

definition AddOutboxMessages :: migration where
  "AddOutboxMessages = \<lparr>mg_name = ''AddOutboxMessages1782920000000'',
     mg_up = [
       CreateTable ''outbox_messages'' [(''id'', required UuidT), (''exchange'', required VarcharT),
         (''routingKey'', required VarcharT), (''payload'', required JsonbT), (''correlationId'', required VarcharT),
         (''createdAt'', defaulted TimestamptzT NowDefault), (''publishedAt'', nullable TimestamptzT)]
         (''PK_outbox_messages_id'', [''id'']) [],
       CreateIndex ''IDX_outbox_messages_publishedAt_createdAt''
         (plain_index ''outbox_messages'' [''publishedAt'', ''createdAt''])],
     mg_down = [
       DropIndex ''IDX_outbox_messages_publishedAt_createdAt'',
       DropTable ''outbox_messages'']\<rparr>"

definition AddRefreshTokenFamily :: migration where
  "AddRefreshTokenFamily = \<lparr>mg_name = ''AddRefreshTokenFamily1782930000000'',
     mg_up = [
       AddColumn ''refresh_tokens'' ''familyId'' uuid_id,
       DropColumnDefault ''refresh_tokens'' ''familyId'',
       CreateIndex ''IDX_refresh_tokens_familyId'' (plain_index ''refresh_tokens'' [''familyId''])],
     mg_down = [
       DropIndex ''IDX_refresh_tokens_familyId'',
       DropColumn ''refresh_tokens'' ''familyId'']\<rparr>"

definition PaymentAuthorizationClaim :: migration where
  "PaymentAuthorizationClaim = \<lparr>mg_name = ''PaymentAuthorizationClaim1782940000000'',
     mg_up = [DropColumnNotNull ''payment_authorizations'' ''authorized''],
     mg_down = [
       DeleteRows ''payment_authorizations'' (\<lambda>r rows. col_value ''authorized'' r = Null),
       SetColumnNotNull ''payment_authorizations'' ''authorized'']\<rparr>"

definition AddProductActive :: migration where
  "AddProductActive = \<lparr>mg_name = ''AddProductActive1782950000000'',
     mg_up = [AddColumn ''products'' ''active'' (defaulted BoolT (LiteralDefault (BoolV True)))],
     mg_down = [DropColumn ''products'' ''active'']\<rparr>"

text \<open>\<open>(a, b) < (c, d)\<close> compares by the first component that differs.\<close>

definition older_open_cart :: "sql_row \<Rightarrow> sql_row list \<Rightarrow> bool" where
  "older_open_cart c carts \<longleftrightarrow> (\<exists>newer \<in> set carts.
     sql_eq (col_value ''userId'' c) (col_value ''userId'' newer) \<and>
     col_value ''checkedOutAt'' c = Null \<and> col_value ''checkedOutAt'' newer = Null \<and>
     (sql_less (col_value ''createdAt'' c) (col_value ''createdAt'' newer) \<or>
      sql_eq (col_value ''createdAt'' c) (col_value ''createdAt'' newer) \<and>
      sql_less (col_value ''id'' c) (col_value ''id'' newer)))"

definition OneOpenCartPerUser :: migration where
  "OneOpenCartPerUser = \<lparr>mg_name = ''OneOpenCartPerUser1782960000000'',
     mg_up = [
       DeleteRows ''carts'' older_open_cart,
       CreateIndex ''UQ_carts_open_per_user''
         \<lparr>ix_table = ''carts'', ix_columns = [''userId''], ix_unique = True, ix_whereNull = Some ''checkedOutAt''\<rparr>],
     mg_down = [DropIndex ''UQ_carts_open_per_user'']\<rparr>"

definition migrations :: "migration list" where
  "migrations = [InitialSchema, AddMetricEventsAndPaymentInitiatedAt, AddCartsProductsOrderItemsAndCancelled,
     AddOutboxMessages, AddRefreshTokenFamily, PaymentAuthorizationClaim, AddProductActive, OneOpenCartPerUser]"

text \<open>The statements of all migrations from version \<open>n\<close> on; a boot runs them in one transaction.\<close>

definition pending_from :: "nat \<Rightarrow> sql_stmt list" where
  "pending_from n = concat (map mg_up (drop n migrations))"

definition empty_catalog :: catalog where
  "empty_catalog = \<lparr>ct_extensions = [], ct_types = [], ct_tables = [], ct_indexes = []\<rparr>"

text \<open>The catalog when the first \<open>n\<close> migrations have run.\<close>

definition up_catalog :: "nat \<Rightarrow> catalog \<Rightarrow> catalog" where
  "up_catalog n cat = (case catalog_after (mg_up (migrations ! n)) cat of Some c \<Rightarrow> c | None \<Rightarrow> empty_catalog)"

fun catalog_at :: "nat \<Rightarrow> catalog" where
  "catalog_at 0 = empty_catalog"
| "catalog_at (Suc n) = up_catalog n (catalog_at n)"

section \<open>The tables the entity classes declare\<close>

















section \<open>The catalogs\<close>

text \<open>
  The facts about the eight catalogs the proofs below use, evaluated together so that each catalog is
  computed once.
\<close>

definition steps_ok :: "nat \<Rightarrow> catalog \<Rightarrow> bool" where
  "steps_ok n cat \<longleftrightarrow> safe_all [] (mg_up (migrations ! n)) \<and>
     list_all (\<lambda>s. additive s \<and> \<not> touches ''carts'' s) (mg_up (migrations ! n)) \<and>
     catalog_after (mg_up (migrations ! n)) cat \<noteq> None"

definition lacks_column :: "string \<Rightarrow> string \<Rightarrow> catalog \<Rightarrow> bool" where
  "lacks_column t c cat \<longleftrightarrow> map_option (\<lambda>td. c \<in> fst ` set (td_columns td)) (table_of t cat) = Some False"

definition lacks_tables :: "string list \<Rightarrow> catalog \<Rightarrow> bool" where
  "lacks_tables ts cat \<longleftrightarrow> list_all (\<lambda>t. t \<notin> fst ` set (ct_tables cat)) ts"

definition up_facts :: "catalog \<Rightarrow> catalog \<Rightarrow> catalog \<Rightarrow> catalog \<Rightarrow> catalog \<Rightarrow> catalog \<Rightarrow> catalog \<Rightarrow> catalog \<Rightarrow> bool" where
  "up_facts c0 c1 c2 c3 c4 c5 c6 c7 \<longleftrightarrow>
     (steps_ok 0 c0 \<and> steps_ok 1 c1 \<and> steps_ok 2 c2 \<and> steps_ok 3 c3 \<and> steps_ok 4 c4 \<and> steps_ok 5 c5 \<and> steps_ok 6 c6) \<and>
     (lacks_tables [''metric_events''] c1 \<and> lacks_tables [''products'', ''carts'', ''cart_items'', ''order_items''] c2 \<and>
      lacks_tables [''outbox_messages''] c3) \<and>
     (lacks_column ''orders'' ''paymentInitiatedAt'' c1 \<and> lacks_column ''refresh_tokens'' ''familyId'' c4 \<and> lacks_column ''products'' ''active'' c6) \<and>
     (map_option (\<lambda>td. map_of (td_columns td) ''authorized'') (table_of ''payment_authorizations'' c5) = Some (Some (required BoolT)) \<and>
      map_option (\<lambda>td. map_of (td_columns td) ''authorized'') (table_of ''payment_authorizations'' c6) = Some (Some (nullable BoolT)) \<and>
      keys_into ''payment_authorizations'' c6 = []) \<and>
     (map_option td_columns (table_of ''carts'' c7) = Some [(''id'', uuid_id), (''userId'', required UuidT),
        (''checkedOutAt'', nullable TimestamptzT), (''createdAt'', created_now), (''updatedAt'', created_now)] \<and>
      keys_into ''carts'' c7 = [(''cart_items'', references_id ''FK_cart_items_cartId'' ''cartId'' ''carts'' CascadeRule)] \<and>
      keys_into ''cart_items'' c7 = [] \<and> length (ct_tables c7) = 11 \<and>
      ''UQ_carts_open_per_user'' \<notin> fst ` set (ct_indexes c7) \<and> catalog_after (mg_up OneOpenCartPerUser) c7 \<noteq> None)"

lemma up_facts_let:
  "let c0 = empty_catalog; c1 = up_catalog 0 c0; c2 = up_catalog 1 c1; c3 = up_catalog 2 c2; c4 = up_catalog 3 c3;
     c5 = up_catalog 4 c4; c6 = up_catalog 5 c5; c7 = up_catalog 6 c6 in up_facts c0 c1 c2 c3 c4 c5 c6 c7"
  by code_simp

lemma catalog_chain:
  "catalog_at 1 = up_catalog 0 empty_catalog" "catalog_at 2 = up_catalog 1 (catalog_at 1)" "catalog_at 3 = up_catalog 2 (catalog_at 2)"
  "catalog_at 4 = up_catalog 3 (catalog_at 3)" "catalog_at 5 = up_catalog 4 (catalog_at 4)" "catalog_at 6 = up_catalog 5 (catalog_at 5)"
  "catalog_at 7 = up_catalog 6 (catalog_at 6)" "catalog_at 8 = up_catalog 7 (catalog_at 7)"
  by (simp_all add: eval_nat_numeral)

lemma up_facts_at:
  "up_facts (catalog_at 0) (catalog_at 1) (catalog_at 2) (catalog_at 3) (catalog_at 4) (catalog_at 5) (catalog_at 6) (catalog_at 7)"
  using up_facts_let unfolding Let_def catalog_chain catalog_at.simps(1) .

lemma steps_ok_at: "n < 7 \<Longrightarrow> steps_ok n (catalog_at n)"
proof -
  assume "n < 7"
  then consider "n = 0" | "n = 1" | "n = 2" | "n = 3" | "n = 4" | "n = 5" | "n = 6" by linarith
  then show ?thesis using up_facts_at unfolding up_facts_def by cases (simp_all only: simp_thms)
qed

lemma upgrade_facts:
  assumes "n < 7"
  shows "safe_all [] (mg_up (migrations ! n))"
    and "list_all (\<lambda>s. additive s \<and> \<not> touches ''carts'' s) (mg_up (migrations ! n))"
    and "catalog_after (mg_up (migrations ! n)) (catalog_at n) = Some (catalog_at (Suc n))"
  using steps_ok_at [OF assms] by (auto simp: steps_ok_def up_catalog_def)

lemma carts_catalog:
  "map_option td_columns (table_of ''carts'' (catalog_at 7)) = Some [(''id'', uuid_id), (''userId'', required UuidT),
     (''checkedOutAt'', nullable TimestamptzT), (''createdAt'', created_now), (''updatedAt'', created_now)]"
  "keys_into ''carts'' (catalog_at 7) = [(''cart_items'', references_id ''FK_cart_items_cartId'' ''cartId'' ''carts'' CascadeRule)]"
  "keys_into ''cart_items'' (catalog_at 7) = []"
  "length (ct_tables (catalog_at 7)) = 11"
  "''UQ_carts_open_per_user'' \<notin> fst ` set (ct_indexes (catalog_at 7))"
  using up_facts_at unfolding up_facts_def by (simp_all only: simp_thms)

lemma carts_catalog_after: "catalog_after (mg_up OneOpenCartPerUser) (catalog_at 7) = Some (catalog_at 8)"
proof -
  have "migrations ! 7 = OneOpenCartPerUser" by (simp add: migrations_def)
  moreover have "catalog_after (mg_up OneOpenCartPerUser) (catalog_at 7) \<noteq> None"
    using up_facts_at unfolding up_facts_def by (simp only: simp_thms)
  ultimately show ?thesis unfolding catalog_chain(8) by (auto simp: up_catalog_def simp del: catalog_at.simps)
qed

section \<open>The last migration\<close>

text \<open>When a cart was created, and by id where the time is the same.\<close>

definition cart_age :: "sql_row \<Rightarrow> int \<times> string" where
  "cart_age c = ((case col_value ''createdAt'' c of TimeV a \<Rightarrow> a | _ \<Rightarrow> 0), (case col_value ''id'' c of UuidV x \<Rightarrow> x | _ \<Rightarrow> []))"

definition open_cart :: "sql_row \<Rightarrow> bool" where
  "open_cart c \<longleftrightarrow> col_value ''checkedOutAt'' c = Null"

lemma cart_typed:
  assumes "db_fits d" and "sq_catalog d = catalog_at 7" and "c \<in> set (sq_rows d ''carts'')"
  shows "\<exists>a. col_value ''createdAt'' c = TimeV a" and "\<exists>x. col_value ''id'' c = UuidV x" and "\<exists>u. col_value ''userId'' c = UuidV u"
proof -
  obtain td where td: "table_of ''carts'' (sq_catalog d) = Some td" "td_columns td = [(''id'', uuid_id), (''userId'', required UuidT),
     (''checkedOutAt'', nullable TimestamptzT), (''createdAt'', created_now), (''updatedAt'', created_now)]"
    using carts_catalog(1) assms(2) by auto
  have fits: "row_fits (ct_types (sq_catalog d)) (td_columns td) c"
    using table_fits_at [OF assms(1) td(1)] assms(3) by (simp add: table_fits_def)
  note col = col_value_fits [OF fits, unfolded td(2)]
  show "\<exists>a. col_value ''createdAt'' c = TimeV a"
    using col [of "''createdAt''"] by (cases "col_value ''createdAt'' c") (simp_all add: value_fits_def)
  show "\<exists>x. col_value ''id'' c = UuidV x"
    using col [of "''id''"] by (cases "col_value ''id'' c") (simp_all add: value_fits_def)
  show "\<exists>u. col_value ''userId'' c = UuidV u"
    using col [of "''userId''"] by (cases "col_value ''userId'' c") (simp_all add: value_fits_def)
qed

lemma older_iff:
  assumes "db_fits d" and "sq_catalog d = catalog_at 7" and c: "c \<in> set (sq_rows d ''carts'')"
  shows "older_open_cart c (sq_rows d ''carts'') \<longleftrightarrow> open_cart c \<and>
    (\<exists>newer \<in> set (sq_rows d ''carts''). open_cart newer \<and> col_value ''userId'' newer = col_value ''userId'' c \<and> cart_age c < cart_age newer)"
proof -
  note typed = cart_typed [OF assms(1,2)]
  have "(sql_eq (col_value ''userId'' c) (col_value ''userId'' g) \<and>
      (sql_less (col_value ''createdAt'' c) (col_value ''createdAt'' g) \<or>
       sql_eq (col_value ''createdAt'' c) (col_value ''createdAt'' g) \<and> sql_less (col_value ''id'' c) (col_value ''id'' g))) \<longleftrightarrow>
      col_value ''userId'' g = col_value ''userId'' c \<and> cart_age c < cart_age g" if g: "g \<in> set (sq_rows d ''carts'')" for g
    using typed(1) [OF c] typed(2) [OF c] typed(3) [OF c] typed(1) [OF g] typed(2) [OF g] typed(3) [OF g]
    by (auto simp: sql_eq_def cart_age_def)
  then show ?thesis unfolding older_open_cart_def open_cart_def by blast
qed

lemma collapse_run:
  assumes fits: "db_fits d" and cat: "sq_catalog d = catalog_at 7"
    and ids: "distinct (map (col_value ''id'') (sq_rows d ''carts''))"
  defines "gone \<equiv> \<lambda>c. older_open_cart c (sq_rows d ''carts'')"
  shows "\<exists>d'. exec_all (mg_up OneOpenCartPerUser) d = Inr d' \<and> sq_catalog d' = catalog_at 8 \<and>
    sq_rows d' = (sq_rows d)(''carts'' := filter (\<lambda>c. \<not> gone c) (sq_rows d ''carts''),
      ''cart_items'' := filter (\<lambda>i. \<not> (\<exists>c \<in> set (filter gone (sq_rows d ''carts'')).
        sql_eq (col_value ''cartId'' i) (col_value ''id'' c))) (sq_rows d ''cart_items''))"
proof -
  let ?ix = "\<lparr>ix_table = ''carts'', ix_columns = [''userId''], ix_unique = True, ix_whereNull = Some ''checkedOutAt''\<rparr>"
  let ?carts = "sq_rows d ''carts''"
  let ?d = "keeping ''cart_items'' (\<lambda>i. \<not> (\<exists>c \<in> set (filter gone ?carts). sql_eq (col_value ''cartId'' i) (col_value ''id'' c)))
      (keeping ''carts'' (\<lambda>c. \<not> gone c) d)"
  obtain td where td: "table_of ''carts'' (sq_catalog d) = Some td" "''userId'' \<in> fst ` set (td_columns td)"
    using carts_catalog(1) cat by auto
  have "delete_from (Suc (Suc 10)) ''carts'' gone d = Inr ?d"
    using delete_one_cascade [of "''carts''" d "''cart_items''" "references_id ''FK_cart_items_cartId'' ''cartId'' ''carts'' CascadeRule" 10 gone]
      carts_catalog(2,3) cat by simp
  then have del: "exec_sql (DeleteRows ''carts'' older_open_cart) d = Inr ?d"
    using td(1) carts_catalog(4) by (simp add: on_table_def cat gone_def numeral_eq_Suc del: delete_from.simps)
  have "inj_on (\<lambda>r. [col_value ''userId'' r]) {r \<in> set ?carts. \<not> gone r \<and> open_cart r}"
  proof (rule inj_onI)
    fix a b
    assume a: "a \<in> {r \<in> set ?carts. \<not> gone r \<and> open_cart r}" and b: "b \<in> {r \<in> set ?carts. \<not> gone r \<and> open_cart r}"
      and user: "[col_value ''userId'' a] = [col_value ''userId'' b]"
    have "\<not> cart_age a < cart_age b" "\<not> cart_age b < cart_age a"
      using a b user older_iff [OF fits cat] by (auto simp: gone_def)
    then have "cart_age a = cart_age b" by simp
    then have "col_value ''id'' a = col_value ''id'' b"
      using cart_typed(2) [OF fits cat, of a] cart_typed(2) [OF fits cat, of b] a b by (auto simp: cart_age_def)
    with ids a b show "a = b" by (auto simp: distinct_map dest: inj_onD)
  qed
  then have "distinct (map (\<lambda>r. [col_value ''userId'' r]) (filter P (filter open_cart (filter (\<lambda>c. \<not> gone c) ?carts))))" for P
    using ids unfolding distinct_map by (auto elim!: inj_on_subset)
  then have "unique_on [''userId''] (indexed ?ix (filter (\<lambda>c. \<not> gone c) ?carts))"
    by (simp add: unique_on_def indexed_def filter_map comp_def open_cart_def)
  then have "exec_sql (CreateIndex ''UQ_carts_open_per_user'' ?ix) ?d =
      Inr (with_catalog (\<lambda>cat. cat\<lparr>ct_indexes := ct_indexes cat @ [(''UQ_carts_open_per_user'', ?ix)]\<rparr>) ?d)"
    using td carts_catalog(5) by (simp add: on_table_def cat)
  with del have run: "exec_all (mg_up OneOpenCartPerUser) d =
      Inr (with_catalog (\<lambda>cat. cat\<lparr>ct_indexes := ct_indexes cat @ [(''UQ_carts_open_per_user'', ?ix)]\<rparr>) ?d)"
    by (simp add: OneOpenCartPerUser_def)
  moreover have "sq_catalog (with_catalog (\<lambda>cat. cat\<lparr>ct_indexes := ct_indexes cat @ [(''UQ_carts_open_per_user'', ?ix)]\<rparr>) ?d) = catalog_at 8"
    using catalog_afterI [OF run] carts_catalog_after by (simp add: cat)
  ultimately show ?thesis by (intro exI conjI) (auto simp: with_catalog_def fun_eq_iff)
qed


section \<open>Reverting\<close>











lemma default_values_catalog [simp]: "default_values df n (d\<lparr>sq_catalog := c\<rparr>) = default_values df n d"
  by (cases df) simp_all



section \<open>Properties\<close>


lemma length_take_7: "length (take 7 migrations) = 7"
  by (simp add: migrations_def)

lemma upgrade_to_7:
  assumes "n \<le> 7" and "sq_catalog d = catalog_at n" and "db_fits d"
  shows "\<exists>d'. exec_all (concat (map mg_up (drop n (take 7 migrations)))) d = Inr d' \<and> sq_catalog d' = catalog_at 7 \<and>
    db_fits d' \<and> (\<forall>t. list_all2 prefix (sq_rows d t) (sq_rows d' t)) \<and> sq_rows d' ''carts'' = sq_rows d ''carts''"
  using assms
proof (induction n arbitrary: d rule: inc_induct)
  case base
  then show ?case by (intro exI [of _ d]) (simp add: migrations_def rows_refl)
next
  case (step n)
  note up = upgrade_facts [OF \<open>n < 7\<close>]
  have drop: "drop n (take 7 migrations) = migrations ! n # drop (Suc n) (take 7 migrations)"
    using \<open>n < 7\<close> Cons_nth_drop_Suc [of n "take 7 migrations"] length_take_7 by simp
  let ?d = "(fold data_step (mg_up (migrations ! n)) d)\<lparr>sq_catalog := catalog_at (Suc n)\<rparr>"
  have run: "exec_all (mg_up (migrations ! n)) d = Inr ?d"
    using up(3) by (intro exec_all_safe [OF _ up(1)]) (simp_all add: step.prems(1) del: catalog_at.simps)
  have fits: "db_fits ?d" using exec_all_fits [OF step.prems(2) run] .
  have "list_all additive (mg_up (migrations ! n))" using up(2) by (simp add: list_all_iff)
  then have rows: "list_all2 prefix (sq_rows d t) (sq_rows ?d t)" for t
    by (rule additive_all_rows [OF step.prems(2) run])
  have carts: "sq_rows ?d ''carts'' = sq_rows d ''carts''" by (rule untouched_rows [OF step.prems(2) run up(2)])
  obtain d' where d': "exec_all (concat (map mg_up (drop (Suc n) (take 7 migrations)))) ?d = Inr d'" "sq_catalog d' = catalog_at 7"
      "db_fits d'" "\<forall>t. list_all2 prefix (sq_rows ?d t) (sq_rows d' t)" "sq_rows d' ''carts'' = sq_rows ?d ''carts''"
    using step.IH [OF _ fits] by (auto simp del: catalog_at.simps)
  have "list_all2 prefix (sq_rows d t) (sq_rows d' t)" for t
    using rows [of t] d'(4) by (intro list_all2_trans [OF prefix_order.trans]) auto
  with d' carts run show ?case unfolding drop
    by (intro exI [of _ d']) (simp add: exec_all_append del: catalog_at.simps)
qed

text \<open>
  C37: Whatever version a database is at, the pending migrations run without an error, and it ends with the
  current catalog, every row fitting it. No row is lost or changed but by columns added at its end, except
  in carts and their items, of which every checked-out cart stays.
\<close>

theorem upgrade_keeps_data:
  assumes "n < length migrations" and "sq_catalog d = catalog_at n" and "db_fits d"
    and "distinct (map (col_value ''id'') (sq_rows d ''carts''))"
  shows "\<exists>d'. exec_all (pending_from n) d = Inr d' \<and> sq_catalog d' = catalog_at (length migrations) \<and> db_fits d' \<and>
    (\<forall>t. t \<notin> {''carts'', ''cart_items''} \<longrightarrow> list_all2 prefix (sq_rows d t) (sq_rows d' t)) \<and>
    (\<forall>c \<in> set (sq_rows d ''carts''). col_value ''checkedOutAt'' c \<noteq> Null \<longrightarrow> c \<in> set (sq_rows d' ''carts''))"
proof -
  have n: "n \<le> 7" using assms(1) by (simp add: migrations_def)
  have pending: "pending_from n = concat (map mg_up (drop n (take 7 migrations))) @ mg_up OneOpenCartPerUser"
  proof -
    have "migrations = take 7 migrations @ [OneOpenCartPerUser]" by (simp add: migrations_def)
    then have "drop n migrations = drop n (take 7 migrations @ [OneOpenCartPerUser])" by simp
    also have "\<dots> = drop n (take 7 migrations) @ [OneOpenCartPerUser]"
      using n by (simp only: drop_append length_take_7) simp
    finally show ?thesis by (simp add: pending_from_def)
  qed
  obtain e where e: "exec_all (concat (map mg_up (drop n (take 7 migrations)))) d = Inr e" "sq_catalog e = catalog_at 7" "db_fits e"
      "\<And>t. list_all2 prefix (sq_rows d t) (sq_rows e t)" "sq_rows e ''carts'' = sq_rows d ''carts''"
    using upgrade_to_7 [OF n assms(2,3)] by blast
  obtain d' where d': "exec_all (mg_up OneOpenCartPerUser) e = Inr d'" "sq_catalog d' = catalog_at 8"
      "sq_rows d' = (sq_rows e)(''carts'' := filter (\<lambda>c. \<not> older_open_cart c (sq_rows e ''carts'')) (sq_rows e ''carts''),
        ''cart_items'' := filter (\<lambda>i. \<not> (\<exists>c \<in> set (filter (\<lambda>c. older_open_cart c (sq_rows e ''carts'')) (sq_rows e ''carts'')).
          sql_eq (col_value ''cartId'' i) (col_value ''id'' c))) (sq_rows e ''cart_items''))"
    using collapse_run [OF e(3,2)] assms(4) e(5) by auto
  have "exec_all (pending_from n) d = Inr d'" using e(1) d'(1) by (simp add: pending exec_all_append)
  moreover have "length migrations = 8" by (simp add: migrations_def)
  moreover have "c \<in> set (sq_rows d' ''carts'')"
    if "c \<in> set (sq_rows d ''carts'')" "col_value ''checkedOutAt'' c \<noteq> Null" for c
    using that by (simp add: d'(3) e(5) older_open_cart_def)
  ultimately show ?thesis
    using d'(2,3) e(4) exec_all_fits [OF e(3) d'(1)] by (intro exI [of _ d']) (simp del: catalog_at.simps)
qed


text \<open>
  C38: The last migration makes its unique index possible and takes no more than it must: it succeeds, every
  checked-out cart stays, every user with an open cart is left exactly one, the newest, and a cart item
  goes exactly when its cart does. No other table changes.
\<close>

theorem open_carts_collapsed:
  assumes "sq_catalog d = catalog_at 7" and "db_fits d" and "distinct (map (col_value ''id'') (sq_rows d ''carts''))"
  shows "\<exists>d'. exec_all (mg_up OneOpenCartPerUser) d = Inr d' \<and> sq_catalog d' = catalog_at 8 \<and>
    (let before = set (sq_rows d ''carts''); after = set (sq_rows d' ''carts'') in
       after \<subseteq> before \<and> (\<forall>c \<in> before. \<not> open_cart c \<longrightarrow> c \<in> after) \<and>
       (\<forall>c \<in> before. open_cart c \<longrightarrow> (\<exists>k \<in> after. open_cart k \<and> col_value ''userId'' k = col_value ''userId'' c \<and> cart_age c \<le> cart_age k \<and>
          (\<forall>k' \<in> after. open_cart k' \<and> col_value ''userId'' k' = col_value ''userId'' c \<longrightarrow> k' = k))) \<and>
       set (sq_rows d' ''cart_items'') = {i \<in> set (sq_rows d ''cart_items'').
          \<forall>c \<in> before - after. col_value ''cartId'' i \<noteq> col_value ''id'' c}) \<and>
    (\<forall>t. t \<notin> {''carts'', ''cart_items''} \<longrightarrow> sq_rows d' t = sq_rows d t)"
proof -
  let ?before = "set (sq_rows d ''carts'')" and ?gone = "\<lambda>c. older_open_cart c (sq_rows d ''carts'')"
  note older = older_iff [OF assms(2,1)] and typed = cart_typed [OF assms(2,1)]
  obtain d' where d': "exec_all (mg_up OneOpenCartPerUser) d = Inr d'" "sq_catalog d' = catalog_at 8"
      "sq_rows d' = (sq_rows d)(''carts'' := filter (\<lambda>c. \<not> ?gone c) (sq_rows d ''carts''),
        ''cart_items'' := filter (\<lambda>i. \<not> (\<exists>c \<in> set (filter ?gone (sq_rows d ''carts'')).
          sql_eq (col_value ''cartId'' i) (col_value ''id'' c))) (sq_rows d ''cart_items''))"
    using collapse_run [OF assms(2,1,3)] by blast
  let ?after = "set (sq_rows d' ''carts'')"
  have after: "?after = {c \<in> ?before. \<not> ?gone c}" by (auto simp: d'(3))
  have "\<exists>k \<in> ?after. open_cart k \<and> col_value ''userId'' k = col_value ''userId'' c \<and> cart_age c \<le> cart_age k \<and>
      (\<forall>k' \<in> ?after. open_cart k' \<and> col_value ''userId'' k' = col_value ''userId'' c \<longrightarrow> k' = k)"
    if c: "c \<in> ?before" "open_cart c" for c
  proof -
    let ?mine = "{k \<in> ?before. open_cart k \<and> col_value ''userId'' k = col_value ''userId'' c}"
    have "finite (cart_age ` ?mine)" "cart_age ` ?mine \<noteq> {}" using c by auto
    from Max_in [OF this] obtain k where k: "k \<in> ?mine" "cart_age k = Max (cart_age ` ?mine)" by auto
    have max: "cart_age k' \<le> cart_age k" if "k' \<in> ?mine" for k'
      unfolding k(2) using that by (intro Max_ge) auto
    then have k_after: "k \<in> ?after"
      using k(1) older [of k] unfolding after by (auto simp: not_less [symmetric] simp del: not_less)
    have "k' = k" if k': "k' \<in> ?after" "open_cart k'" "col_value ''userId'' k' = col_value ''userId'' c" for k'
    proof -
      have "k' \<in> ?mine" "\<not> cart_age k' < cart_age k" using k' k(1) older [of k'] unfolding after by auto
      with max have "cart_age k' = cart_age k" by fastforce
      then have "col_value ''id'' k' = col_value ''id'' k"
        using typed(2) [of k'] typed(2) [of k] \<open>k' \<in> ?mine\<close> k(1) by (auto simp: cart_age_def)
      with assms(3) \<open>k' \<in> ?mine\<close> k(1) show ?thesis by (auto simp: distinct_map dest: inj_onD)
    qed
    with k_after k(1) max [of c] c show ?thesis by blast
  qed
  moreover have "c \<in> ?after" if "c \<in> ?before" "\<not> open_cart c" for c
    using that older unfolding after by blast
  moreover have "sql_eq v (col_value ''id'' c) \<longleftrightarrow> v = col_value ''id'' c" if "c \<in> ?before" for v c
    using typed(2) [OF that] by (auto simp: sql_eq_def)
  then have "set (sq_rows d' ''cart_items'') = {i \<in> set (sq_rows d ''cart_items''). \<forall>c \<in> ?before - ?after. col_value ''cartId'' i \<noteq> col_value ''id'' c}"
    unfolding after by (auto simp: d'(3))
  ultimately show ?thesis
    using d'(1,2) unfolding Let_def by (intro exI [of _ d'] conjI) (auto simp: d'(3) simp del: catalog_at.simps)
qed




section \<open>A database with carts\<close>

definition cart_row :: "string \<Rightarrow> string \<Rightarrow> sql_value \<Rightarrow> int \<Rightarrow> sql_row" where
  "cart_row i u out t = [(''id'', UuidV i), (''userId'', UuidV u), (''checkedOutAt'', out), (''createdAt'', TimeV t), (''updatedAt'', TimeV t)]"

definition example_tables :: "(string \<times> sql_row list) list" where
  "example_tables =
     [(''carts'', [cart_row ''a'' ''u'' Null 1, cart_row ''b'' ''u'' Null 2, cart_row ''c'' ''u'' (TimeV 5) 0]),
      (''cart_items'',
        [[(''id'', UuidV ''i''), (''cartId'', UuidV ''a''), (''productId'', UuidV ''p''), (''quantity'', IntV 2)],
         [(''id'', UuidV ''j''), (''cartId'', UuidV ''b''), (''productId'', UuidV ''p''), (''quantity'', IntV 1)]])]"

definition migration_example :: "nat \<Rightarrow> sql_db" where
  "migration_example n = \<lparr>sq_catalog = catalog_at n,
     sq_rows = (\<lambda>t. case map_of example_tables t of None \<Rightarrow> [] | Some rs \<Rightarrow> rs),
     sq_uuids = (\<lambda>_. []), sq_drawn = 0, sq_now = 0\<rparr>"

fun rows_fit_catalog :: "(string \<times> sql_row list) list \<Rightarrow> catalog \<Rightarrow> bool" where
  "rows_fit_catalog [] cat \<longleftrightarrow> True"
| "rows_fit_catalog ((t, rs) # tabs) cat \<longleftrightarrow> (case table_of t cat of
       None \<Rightarrow> False
     | Some td \<Rightarrow> list_all (row_fits (ct_types cat) (td_columns td)) rs) \<and> rows_fit_catalog tabs cat"

definition names_distinct :: "catalog \<Rightarrow> bool" where
  "names_distinct cat \<longleftrightarrow> distinct (map fst (ct_tables cat)) \<and> list_all (\<lambda>(t, td). distinct (map fst (td_columns td))) (ct_tables cat)"

definition example_ok :: "catalog \<Rightarrow> bool" where
  "example_ok cat \<longleftrightarrow> rows_fit_catalog example_tables cat \<and> names_distinct cat"

lemma example_let:
  "let c3 = up_catalog 2 (up_catalog 1 (up_catalog 0 empty_catalog)); c6 = up_catalog 5 (up_catalog 4 (up_catalog 3 c3));
     c7 = up_catalog 6 c6 in example_ok c3 \<and> example_ok c6 \<and> example_ok c7"
  by code_simp

lemma example_at: "example_ok (catalog_at 3)" "example_ok (catalog_at 6)" "example_ok (catalog_at 7)"
  using example_let unfolding Let_def catalog_chain by (simp_all only: simp_thms)

lemma rows_fit_catalogD:
  "rows_fit_catalog tabs cat \<Longrightarrow> map_of tabs t = Some rs \<Longrightarrow>
    \<exists>td. table_of t cat = Some td \<and> (\<forall>r \<in> set rs. row_fits (ct_types cat) (td_columns td) r)"
  by (induction tabs cat rule: rows_fit_catalog.induct) (auto simp: list_all_iff split: if_splits option.splits)

lemma migration_example_catalog: "sq_catalog (migration_example n) = catalog_at n"
  by (simp add: migration_example_def)

lemma migration_example_rows:
  "sq_rows (migration_example n) t = (case map_of example_tables t of None \<Rightarrow> [] | Some rs \<Rightarrow> rs)"
  by (simp add: migration_example_def)

lemma example_fits_at:
  assumes "example_ok (catalog_at n)"
  shows "db_fits (migration_example n)"
proof -
  let ?cat = "catalog_at n"
  have dist: "distinct (map fst (ct_tables ?cat))" "\<And>t td. (t, td) \<in> set (ct_tables ?cat) \<Longrightarrow> distinct (map fst (td_columns td))"
    using assms by (auto simp: example_ok_def names_distinct_def list_all_iff simp del: catalog_at.simps)
  have fits: "rows_fit_catalog example_tables ?cat" using assms by (simp add: example_ok_def del: catalog_at.simps)
  have "row_fits (ct_types ?cat) (td_columns td) r" if t: "(t, td) \<in> set (ct_tables ?cat)" and r: "r \<in> set (sq_rows (migration_example n) t)" for t td r
  proof -
    obtain rs where rs: "map_of example_tables t = Some rs" "r \<in> set rs"
      using r by (cases "map_of example_tables t") (auto simp: migration_example_rows)
    have "table_of t ?cat = Some td" using dist(1) t by (simp add: table_of_def)
    with rows_fit_catalogD [OF fits rs(1)] rs(2) show ?thesis by auto
  qed
  moreover have "sq_rows (migration_example n) t = []" if "t \<notin> fst ` set (ct_tables ?cat)" for t
  proof (cases "map_of example_tables t")
    case (Some rs)
    from rows_fit_catalogD [OF fits this] obtain td where "table_of t ?cat = Some td" by blast
    then have "t \<in> fst ` set (ct_tables ?cat)" by (rule image_eqI [OF _ table_of_in, rotated]) simp
    with that show ?thesis by contradiction
  qed (simp add: migration_example_rows)
  ultimately show ?thesis
    using dist unfolding db_fits_def table_fits_def migration_example_catalog by blast
qed

lemma migration_example_fits: "db_fits (migration_example 3)" "db_fits (migration_example 6)" "db_fits (migration_example 7)"
  by (rule example_at [THEN example_fits_at])+

lemma migration_example_ids: "distinct (map (col_value ''id'') (sq_rows (migration_example n) ''carts''))"
  by (simp add: migration_example_rows example_tables_def cart_row_def col_value_def)

theorem upgrade_keeps_data_witness:
  "\<exists>d'. exec_all (pending_from 3) (migration_example 3) = Inr d' \<and> sq_catalog d' = catalog_at (length migrations) \<and> db_fits d' \<and>
    (\<forall>t. t \<notin> {''carts'', ''cart_items''} \<longrightarrow> list_all2 prefix (sq_rows (migration_example 3) t) (sq_rows d' t)) \<and>
    (\<forall>c \<in> set (sq_rows (migration_example 3) ''carts''). col_value ''checkedOutAt'' c \<noteq> Null \<longrightarrow> c \<in> set (sq_rows d' ''carts''))"
  by (rule upgrade_keeps_data [OF _ migration_example_catalog migration_example_fits(1) migration_example_ids]) (simp add: migrations_def)

theorem open_carts_collapsed_witness:
  "\<exists>d'. exec_all (mg_up OneOpenCartPerUser) (migration_example 7) = Inr d' \<and>
     cart_row ''c'' ''u'' (TimeV 5) 0 \<in> set (sq_rows d' ''carts'')"
proof -
  let ?c = "cart_row ''c'' ''u'' (TimeV 5) 0"
  have c: "?c \<in> set (sq_rows (migration_example 7) ''carts'')" "\<not> open_cart ?c"
    by (simp_all add: migration_example_rows example_tables_def open_cart_def cart_row_def col_value_def)
  from open_carts_collapsed [OF migration_example_catalog migration_example_fits(3) migration_example_ids]
  obtain d' where "exec_all (mg_up OneOpenCartPerUser) (migration_example 7) = Inr d'"
    "\<forall>c \<in> set (sq_rows (migration_example 7) ''carts''). \<not> open_cart c \<longrightarrow> c \<in> set (sq_rows d' ''carts'')"
    unfolding Let_def by (elim exE conjE)
  with c show ?thesis by (intro exI [of _ d'] conjI) simp_all
qed


end
