(* ===== verification/Cors.thy ===== *)
theory Cors
  imports Js_Strings "HOL-Library.Sublist"
begin

text \<open>
  \<open>buildCorsOrigins\<close> of \<^verbatim>\<open>src/common/cors/cors-origin.ts\<close>: the allow-list of origins from its environment
  value. The pattern of a wildcard entry is built as the source builds it, as a text; \<open>regexp_test\<close> is
  \<open>RegExp.test\<close> with the flag \<open>i\<close> for the patterns that can come out: literal characters, some escaped, and
  the group of labels.
\<close>

section \<open>The program\<close>

datatype origin_matcher = ExactOrigin string | OriginRegExp string

definition backslash :: char where "backslash = CHR 0x5C"

definition special_chars :: string where
  "special_chars = ''.*+?^${}()|[]'' @ [backslash]"

text \<open>\<open>entry.replace(/[.*+?^${}()|[\]\\]/g, '\\$&')\<close>\<close>

fun escape_regexp :: "string \<Rightarrow> string" where
  "escape_regexp [] = []"
| "escape_regexp (c # s) = (if c \<in> set special_chars then [backslash, c] else [c]) @ escape_regexp s"

text \<open>\<open>replace\<close> with a text as its pattern replaces the first occurrence.\<close>

fun replace_first :: "string \<Rightarrow> string \<Rightarrow> string \<Rightarrow> string" where
  "replace_first pat rep [] = (if pat = [] then rep else [])"
| "replace_first pat rep (c # s) =
     (if prefix pat (c # s) then rep @ drop (length pat) (c # s) else c # replace_first pat rep s)"

definition escaped_wildcard :: string where
  "escaped_wildcard = [backslash, CHR ''*'', backslash, CHR ''.'']"

definition label_group :: string where
  "label_group = ''([a-z0-9-]+'' @ [backslash] @ ''.)+''"

definition toOriginMatcher :: "string \<Rightarrow> origin_matcher" where
  "toOriginMatcher entry =
     (if CHR ''*'' \<notin> set entry then ExactOrigin entry
      else let escaped = escape_regexp entry
           in OriginRegExp (''^'' @ replace_first escaped_wildcard label_group escaped @ ''$''))"

definition buildCorsOrigins :: "string \<Rightarrow> origin_matcher list" where
  "buildCorsOrigins raw =
     map toOriginMatcher (filter (\<lambda>entry. length entry > 0) (map js_trim (js_split CHR '','' raw)))"

section \<open>Matching\<close>

datatype regexp_item = Literal char | LabelGroup

function parse_items :: "string \<Rightarrow> regexp_item list" where
  "parse_items s =
     (if prefix label_group s then LabelGroup # parse_items (drop (length label_group) s)
      else case s of
        [] \<Rightarrow> []
      | [c] \<Rightarrow> [Literal c]
      | c # d # t \<Rightarrow> if c = backslash then Literal d # parse_items t else Literal c # parse_items (d # t))"
  by auto
termination
  by (relation "measure length") (auto simp: label_group_def dest!: prefix_length_le)

declare parse_items.simps [simp del]

definition same_char :: "char \<Rightarrow> char \<Rightarrow> bool" where
  "same_char c x \<longleftrightarrow> lower_char c = lower_char x"

definition label_char :: "char \<Rightarrow> bool" where
  "label_char c \<longleftrightarrow> (let n = of_char c :: nat
     in 97 \<le> n \<and> n \<le> 122 \<or> 65 \<le> n \<and> n \<le> 90 \<or> 48 \<le> n \<and> n \<le> 57 \<or> n = 45)"

text \<open>Whole labels, each ended by a dot; the flag says whether a label has begun.\<close>

fun run_labels :: "bool \<Rightarrow> string \<Rightarrow> bool" where
  "run_labels begun [] \<longleftrightarrow> \<not> begun"
| "run_labels begun (c # s) \<longleftrightarrow> (if c = CHR ''.'' then begun \<and> run_labels False s else label_char c \<and> run_labels True s)"

fun match_items :: "regexp_item list \<Rightarrow> string \<Rightarrow> bool" where
  "match_items [] s \<longleftrightarrow> s = []"
| "match_items (Literal c # items) s \<longleftrightarrow> (case s of [] \<Rightarrow> False | x # t \<Rightarrow> same_char c x \<and> match_items items t)"
| "match_items (LabelGroup # items) s \<longleftrightarrow>
     list_ex (\<lambda>i. run_labels False (take i s) \<and> match_items items (drop i s)) [1 ..< Suc (length s)]"

definition regexp_test :: "string \<Rightarrow> string \<Rightarrow> bool" where
  "regexp_test pattern s = match_items (parse_items (butlast (tl pattern))) s"

fun accepts_origin :: "origin_matcher \<Rightarrow> string \<Rightarrow> bool" where
  "accepts_origin (ExactOrigin entry) origin \<longleftrightarrow> origin = entry"
| "accepts_origin (OriginRegExp pattern) origin \<longleftrightarrow> regexp_test pattern origin"

definition cors_allows :: "string \<Rightarrow> string \<Rightarrow> bool" where
  "cors_allows raw origin = list_ex (\<lambda>m. accepts_origin m origin) (buildCorsOrigins raw)"

section \<open>Lemmas\<close>

text \<open>The texts a group of labels matches.\<close>

definition dotted :: "string list \<Rightarrow> string" where
  "dotted labels = concat (map (\<lambda>l. l @ ''.'') labels)"

definition good_label :: "string \<Rightarrow> bool" where
  "good_label l \<longleftrightarrow> l \<noteq> [] \<and> list_all label_char l"

lemma dot_no_label: "\<not> label_char CHR ''.''"
  by code_simp

lemma run_labels_iff:
  "run_labels False s \<longleftrightarrow> (\<exists>labels. list_all good_label labels \<and> s = dotted labels)"
  "run_labels True s \<longleftrightarrow> (\<exists>l labels. list_all label_char l \<and> list_all good_label labels \<and> s = l @ ''.'' @ dotted labels)"
proof (induction s)
  case Nil
  { case 1 show ?case by (auto simp: dotted_def intro: exI [of _ "[]"]) next case 2 show ?case by simp }
next
  case (Cons c s)
  { case 1
    show ?case
    proof
      assume r: "run_labels False (c # s)"
      then have "c \<noteq> CHR ''.''" "label_char c" "run_labels True s" by (auto split: if_splits)
      then obtain l labels where "list_all label_char l" "list_all good_label labels" "s = l @ ''.'' @ dotted labels"
        using Cons.IH(2) by blast
      with \<open>label_char c\<close> show "\<exists>labels. list_all good_label labels \<and> c # s = dotted labels"
        by (intro exI [of _ "(c # l) # labels"]) (simp add: good_label_def dotted_def)
    next
      assume "\<exists>labels. list_all good_label labels \<and> c # s = dotted labels"
      then obtain ls where ls: "list_all good_label ls" "c # s = dotted ls" by blast
      then obtain l labels where "ls = l # labels" by (cases ls) (auto simp: dotted_def)
      with ls have l: "good_label l" "list_all good_label labels" "c # s = l @ ''.'' @ dotted labels"
        by (simp_all add: dotted_def)
      then obtain l' where "l = c # l'" by (cases l) (auto simp: good_label_def)
      with l have c: "label_char c" "list_all label_char l'" "s = l' @ ''.'' @ dotted labels"
        by (simp_all add: good_label_def)
      then have "run_labels True s" using Cons.IH(2) l(2) by blast
      with c(1) show "run_labels False (c # s)" using dot_no_label by auto
    qed
  next
    case 2
    show ?case
    proof (cases "c = CHR ''.''")
      case True
      show ?thesis
      proof
        assume "run_labels True (c # s)"
        then have "run_labels False s" using True by simp
        then obtain labels where "list_all good_label labels" "s = dotted labels" using Cons.IH(1) by blast
        then show "\<exists>l labels. list_all label_char l \<and> list_all good_label labels \<and> c # s = l @ ''.'' @ dotted labels"
          using True by (intro exI [of _ "[]"] exI [of _ labels]) simp
      next
        assume "\<exists>l labels. list_all label_char l \<and> list_all good_label labels \<and> c # s = l @ ''.'' @ dotted labels"
        then obtain l labels where l: "list_all label_char l" "list_all good_label labels" "c # s = l @ ''.'' @ dotted labels"
          by blast
        then have "l = []" using True dot_no_label by (cases l) auto
        with l True Cons.IH(1) show "run_labels True (c # s)" by auto
      qed
    next
      case False
      show ?thesis
      proof
        assume "run_labels True (c # s)"
        then have c: "label_char c" "run_labels True s" using False by simp_all
        then obtain l labels where "list_all label_char l" "list_all good_label labels" "s = l @ ''.'' @ dotted labels"
          using Cons.IH(2) by blast
        with c(1) show "\<exists>l labels. list_all label_char l \<and> list_all good_label labels \<and> c # s = l @ ''.'' @ dotted labels"
          by (intro exI [of _ "c # l"] exI [of _ labels]) simp
      next
        assume "\<exists>l labels. list_all label_char l \<and> list_all good_label labels \<and> c # s = l @ ''.'' @ dotted labels"
        then obtain l labels where l: "list_all label_char l" "list_all good_label labels" "c # s = l @ ''.'' @ dotted labels"
          by blast
        then obtain l' where "l = c # l'" using False by (cases l) auto
        with l Cons.IH(2) False show "run_labels True (c # s)" by auto
      qed
    qed }
qed

text \<open>Reading back an escaped text gives its characters.\<close>

lemma not_group: "c \<noteq> CHR ''('' \<Longrightarrow> \<not> prefix label_group (c # s)"
  by (simp add: label_group_def)

lemma parse_escape: "parse_items (escape_regexp s @ t) = map Literal s @ parse_items t"
proof (induction s)
  case (Cons c s)
  have b: "backslash \<noteq> CHR ''(''" by (simp add: backslash_def)
  show ?case
  proof (cases "c \<in> set special_chars")
    case True
    have "parse_items (escape_regexp (c # s) @ t) = parse_items (backslash # c # escape_regexp s @ t)"
      using True by simp
    also have "\<dots> = Literal c # parse_items (escape_regexp s @ t)"
      by (subst parse_items.simps) (simp add: not_group [OF b])
    finally show ?thesis using Cons.IH by simp
  next
    case False
    then have c: "c \<noteq> CHR ''(''" "c \<noteq> backslash" by (auto simp: special_chars_def)
    have "parse_items (escape_regexp (c # s) @ t) = parse_items (c # escape_regexp s @ t)"
      using False by simp
    also have "\<dots> = Literal c # parse_items (escape_regexp s @ t)"
    proof (cases "escape_regexp s @ t")
      case Nil
      then show ?thesis
        by (subst parse_items.simps) (simp add: not_group [OF c(1)], simp add: parse_items.simps [of "[]"] label_group_def)
    next
      case (Cons d u)
      then show ?thesis
        by (subst parse_items.simps) (simp add: not_group [OF c(1)] c(2))
    qed
    finally show ?thesis using Cons.IH by simp
  qed
qed simp

lemma parse_group: "parse_items (label_group @ t) = LabelGroup # parse_items t"
  by (subst parse_items.simps) simp

lemma parse_Nil: "parse_items [] = []"
  by (subst parse_items.simps) (simp add: label_group_def)

lemma escape_append: "escape_regexp (s @ t) = escape_regexp s @ escape_regexp t"
  by (induction s) simp_all

lemma escape_wildcard: "escape_regexp ''*.'' = escaped_wildcard"
  by (simp add: escaped_wildcard_def special_chars_def)

lemma escape_star: "CHR ''*'' \<notin> set s \<Longrightarrow> CHR ''*'' \<notin> set (escape_regexp s)"
  by (induction s) (auto simp: backslash_def)

lemma replace_first_here:
  "CHR ''*'' \<notin> set u \<Longrightarrow> replace_first escaped_wildcard rep (u @ escaped_wildcard @ t) = u @ rep @ t"
proof (induction u)
  case Nil
  show ?case by (simp add: escaped_wildcard_def)
next
  case (Cons c u)
  have "\<not> prefix escaped_wildcard (c # u @ escaped_wildcard @ t)"
    using Cons.prems by (cases u) (auto simp: escaped_wildcard_def backslash_def)
  with Cons show ?case by simp
qed

lemma wildcard_pattern:
  assumes "CHR ''*'' \<notin> set scheme"
  shows "toOriginMatcher (scheme @ ''*.'' @ domain) =
    OriginRegExp (''^'' @ escape_regexp scheme @ label_group @ escape_regexp domain @ ''$'')"
proof -
  have "escape_regexp (scheme @ ''*.'' @ domain) = escape_regexp scheme @ escaped_wildcard @ escape_regexp domain"
    by (simp only: escape_append escape_wildcard)
  then show ?thesis
    using replace_first_here [OF escape_star [OF assms], of label_group "escape_regexp domain"]
    by (simp add: toOriginMatcher_def Let_def del: escape_regexp.simps)
qed

lemma match_literals: "match_items (map Literal u @ items) s \<longleftrightarrow>
    length u \<le> length s \<and> toLowerCase (take (length u) s) = toLowerCase u \<and> match_items items (drop (length u) s)"
  by (induction u arbitrary: s) (auto simp: toLowerCase_def same_char_def split: list.splits)

lemma match_labels: "match_items (LabelGroup # items) s \<longleftrightarrow>
    (\<exists>labels t. labels \<noteq> [] \<and> list_all good_label labels \<and> s = dotted labels @ t \<and> match_items items t)"
proof
  assume "match_items (LabelGroup # items) s"
  then obtain i where i: "1 \<le> i" "i \<le> length s" "run_labels False (take i s)" "match_items items (drop i s)"
    by (auto simp: list_ex_iff)
  then obtain labels where l: "list_all good_label labels" "take i s = dotted labels"
    using run_labels_iff(1) by blast
  moreover have "labels \<noteq> []" using i(1,2) l(2) by (auto simp: dotted_def)
  moreover have "s = dotted labels @ drop i s" using l(2) by (metis append_take_drop_id)
  ultimately show "\<exists>labels t. labels \<noteq> [] \<and> list_all good_label labels \<and> s = dotted labels @ t \<and> match_items items t"
    using i(4) by blast
next
  assume "\<exists>labels t. labels \<noteq> [] \<and> list_all good_label labels \<and> s = dotted labels @ t \<and> match_items items t"
  then obtain labels t where l: "labels \<noteq> []" "list_all good_label labels" "s = dotted labels @ t" "match_items items t"
    by blast
  have "1 \<le> length (dotted labels)" using l(1) by (cases labels) (simp_all add: dotted_def)
  moreover have "run_labels False (dotted labels)" using l(2) run_labels_iff(1) by blast
  ultimately show "match_items (LabelGroup # items) s"
    using l(3,4) by (auto simp: list_ex_iff intro!: bexI [of _ "length (dotted labels)"])
qed

lemma label_char_lower: "label_char (lower_char c) = label_char c"
proof -
  have c: "of_char c < (256 :: nat)" using nat_of_char_less_256 .
  then have "of_char (lower_char c) = (let n = of_char c :: nat
      in if 65 \<le> n \<and> n \<le> 90 \<or> 192 \<le> n \<and> n \<le> 222 \<and> n \<noteq> 215 then n + 32 else n)"
    by (auto simp: lower_char_def Let_def)
  then show ?thesis by (auto simp: label_char_def Let_def)
qed

lemma lower_dot: "lower_char c = CHR ''.'' \<longleftrightarrow> c = CHR ''.''"
proof -
  have c: "of_char c < (256 :: nat)" using nat_of_char_less_256 .
  then have "of_char (lower_char c) = (let n = of_char c :: nat
      in if 65 \<le> n \<and> n \<le> 90 \<or> 192 \<le> n \<and> n \<le> 222 \<and> n \<noteq> 215 then n + 32 else n)"
    by (auto simp: lower_char_def Let_def)
  moreover have "d = CHR ''.'' \<longleftrightarrow> of_char d = (46 :: nat)" for d
  proof -
    have "of_char (CHR ''.'') = (46 :: nat)" by simp
    then show ?thesis by (metis char_of_char)
  qed
  ultimately show ?thesis by (auto simp: Let_def split: if_splits)
qed

lemma run_labels_lower: "run_labels b (toLowerCase s) = run_labels b s"
  by (induction b s rule: run_labels.induct) (auto simp: toLowerCase_def label_char_lower lower_dot)

lemma lower_append: "toLowerCase (s @ t) = toLowerCase s @ toLowerCase t"
  by (simp add: toLowerCase_def)

lemma length_lower [simp]: "length (toLowerCase s) = length s"
  by (simp add: toLowerCase_def)

lemma wildcard_match:
  "match_items (map Literal scheme @ LabelGroup # map Literal domain) origin \<longleftrightarrow>
    (\<exists>labels. labels \<noteq> [] \<and> list_all good_label labels \<and> toLowerCase origin = toLowerCase (scheme @ dotted labels @ domain))"
    (is "?match \<longleftrightarrow> ?text")
proof
  have lit: "match_items (map Literal domain) t \<longleftrightarrow> toLowerCase t = toLowerCase domain" for t
  proof -
    have "length t = length domain" if "toLowerCase t = toLowerCase domain"
      using arg_cong [OF that, of length] by simp
    then show ?thesis using match_literals [of domain "[]" t] by auto
  qed
  {
    assume ?match
    then obtain labels t where l: "toLowerCase (take (length scheme) origin) = toLowerCase scheme" "labels \<noteq> []"
      "list_all good_label labels" "drop (length scheme) origin = dotted labels @ t" "toLowerCase t = toLowerCase domain"
      unfolding match_literals match_labels lit by blast
    have "toLowerCase origin = toLowerCase (take (length scheme) origin) @ toLowerCase (drop (length scheme) origin)"
      by (simp only: lower_append [symmetric] append_take_drop_id)
    with l show ?text by (auto simp: lower_append)
  }
  assume ?text
  then obtain labels where l: "labels \<noteq> []" "list_all good_label labels"
    "toLowerCase origin = toLowerCase scheme @ toLowerCase (dotted labels) @ toLowerCase domain"
    by (auto simp: lower_append)
  define b where "b = take (length (dotted labels)) (drop (length scheme) origin)"
  define t where "t = drop (length (dotted labels)) (drop (length scheme) origin)"
  have len: "length origin = length scheme + length (dotted labels) + length domain"
    using arg_cong [OF l(3), of length] by simp
  have "toLowerCase (take (length scheme) origin) @ toLowerCase b @ toLowerCase t = toLowerCase origin"
    unfolding lower_append [symmetric] b_def t_def append_take_drop_id ..
  then have "toLowerCase (take (length scheme) origin) @ toLowerCase b @ toLowerCase t =
      toLowerCase scheme @ toLowerCase (dotted labels) @ toLowerCase domain"
    using l(3) by (rule trans)
  then have parts: "toLowerCase (take (length scheme) origin) = toLowerCase scheme"
    "toLowerCase b = toLowerCase (dotted labels)" "toLowerCase t = toLowerCase domain"
    using len by (simp_all add: b_def)
  have "run_labels False (dotted labels)" using l(2) run_labels_iff(1) by blast
  then have "run_labels False b" using parts(2) by (metis run_labels_lower)
  then obtain labels' where l': "list_all good_label labels'" "b = dotted labels'" using run_labels_iff(1) by blast
  have "b \<noteq> []" using l(1) arg_cong [OF parts(2), of length] by (cases labels) (auto simp: dotted_def)
  then have "labels' \<noteq> []" using l'(2) by (auto simp: dotted_def)
  moreover have "drop (length scheme) origin = dotted labels' @ t"
    unfolding l'(2) [symmetric] b_def t_def by (rule append_take_drop_id [symmetric])
  ultimately show ?match
    unfolding match_literals match_labels lit using parts(1,3) l'(1) len by auto
qed

section \<open>Properties\<close>

text \<open>
  C31: An entry without a wildcard admits exactly itself. An entry with one, such as
  \<^verbatim>\<open>https://*.shop.com\<close>, admits exactly the origins that put one or more whole labels of letters, digits and
  hyphens, each with its dot, between what precedes the wildcard and what follows it, upper and lower
  case alike.
\<close>

theorem cors_entries_exact:
  shows "if CHR ''*'' \<notin> set entry then accepts_origin (toOriginMatcher entry) origin = (origin = entry)
    else \<forall>scheme domain. CHR ''*'' \<notin> set scheme \<and> entry = scheme @ ''*.'' @ domain \<longrightarrow>
      accepts_origin (toOriginMatcher entry) origin =
        (\<exists>labels. labels \<noteq> [] \<and> list_all good_label labels \<and>
           toLowerCase origin = toLowerCase (scheme @ dotted labels @ domain))"
proof (cases "CHR ''*'' \<notin> set entry")
  case True
  then show ?thesis by (simp add: toOriginMatcher_def)
next
  case False
  have "accepts_origin (toOriginMatcher (scheme @ ''*.'' @ domain)) origin =
        (\<exists>labels. labels \<noteq> [] \<and> list_all good_label labels \<and>
           toLowerCase origin = toLowerCase (scheme @ dotted labels @ domain))"
    if "CHR ''*'' \<notin> set scheme" for scheme domain
  proof -
    have "parse_items (escape_regexp scheme @ label_group @ escape_regexp domain) =
        map Literal scheme @ LabelGroup # map Literal domain"
      using parse_escape [of domain "[]"] by (simp add: parse_escape parse_group parse_Nil)
    moreover have "butlast (tl (''^'' @ escape_regexp scheme @ label_group @ escape_regexp domain @ ''$'')) =
        escape_regexp scheme @ label_group @ escape_regexp domain"
      by (simp add: butlast_append)
    ultimately show ?thesis
      unfolding wildcard_pattern [OF that] accepts_origin.simps regexp_test_def by (simp only: wildcard_match)
  qed
  with False show ?thesis by auto
qed

theorem cors_entries_exact_witness:
  "if CHR ''*'' \<notin> set ''https://*.shop.com'' then accepts_origin (toOriginMatcher ''https://*.shop.com'') ''https://demo.shop.com'' =
       (''https://demo.shop.com'' = ''https://*.shop.com'')
    else \<forall>scheme domain. CHR ''*'' \<notin> set scheme \<and> ''https://*.shop.com'' = scheme @ ''*.'' @ domain \<longrightarrow>
      accepts_origin (toOriginMatcher ''https://*.shop.com'') ''https://demo.shop.com'' =
        (\<exists>labels. labels \<noteq> [] \<and> list_all good_label labels \<and>
           toLowerCase ''https://demo.shop.com'' = toLowerCase (scheme @ dotted labels @ domain))"
  by (rule cors_entries_exact)

text \<open>The cases the source's comment names: subdomains in, the apex, a look-alike and a suffix out.\<close>

lemma cors_examples:
  "cors_allows '' https://ui.app , https://*.shop.com'' ''https://ui.app''"
  "cors_allows ''https://*.shop.com'' ''https://demo.shop.com''"
  "cors_allows ''https://*.shop.com'' ''https://a.B.shop.com''"
  "\<not> cors_allows ''https://*.shop.com'' ''https://shop.com''"
  "\<not> cors_allows ''https://*.shop.com'' ''https://evilshop.com''"
  "\<not> cors_allows ''https://*.shop.com'' ''https://demo.shop.com.evil.com''"
  by code_simp+

end
