(* ===== verification/K6.thy ===== *)
theory K6
  imports Prelude Decimals Complex_Main
begin

text \<open>
  What the scripts of \<^verbatim>\<open>ops\<close> use of their runtime. The server under test is not part of a script: its answers,
  how long they take and the values of \<open>Math.random\<close> are fields of the state, read and never written, so
  that a theorem for all states holds for every server and every run. A script is a method of \<^verbatim>\<open>Prelude\<close> on
  this state: \<open>fail\<close> and every other exception end the iteration.

  \<open>triple\<close> is the Hoare triple of a script with a second postcondition for exceptions; its rules are
  \<open>triple_rules\<close>.
\<close>

section \<open>State\<close>

text \<open>
  A body as the scripts read it: an object with text fields, an array of rows with an id and a stock, or
  no JSON.
\<close>

record json_row =
  row_id :: string
  row_stock :: int

datatype http_body = JsonObject "(string \<times> string) list" | JsonArray "json_row list" | NoJson

record http_response =
  rs_status :: int
  rs_body :: http_body

text \<open>The values scripts send: a product with a quantity, or credentials.\<close>

datatype request_body = NoBody | CartLine "string option" int | Credentials string string

record http_request =
  rq_method :: string
  rq_url :: string
  rq_body :: request_body
  rq_headers :: "(string \<times> string) list"
  rq_tag :: "string \<times> string"

record k6 =
  answers :: "nat \<Rightarrow> http_request \<Rightarrow> http_response" \<comment> \<open>to the \<open>n\<close>th request\<close>
  latency :: "nat \<Rightarrow> nat" \<comment> \<open>of the \<open>n\<close>th request, in ms\<close>
  random :: "nat \<Rightarrow> rat"
  env_vu :: nat \<comment> \<open>\<open>__VU\<close>, from 1\<close>
  now :: int \<comment> \<open>\<open>Date.now()\<close>\<close>
  draws :: nat
  sent :: "(http_request \<times> http_response) list" \<comment> \<open>oldest first\<close>
  checks :: "(string \<times> bool) list"
  counters :: "string \<Rightarrow> nat"

definition random_ok :: "k6 \<Rightarrow> bool" where
  "random_ok s \<longleftrightarrow> (\<forall>n. 0 \<le> random s n \<and> random s n < 1)"

section \<open>Operations of the runtime\<close>

definition http_call :: "http_request \<Rightarrow> (k6, http_response) app" where
  "http_call r = (\<lambda>s. let n = length (sent s); resp = answers s n r in
     (Inr resp, s\<lparr>sent := sent s @ [(r, resp)], now := now s + int (latency s n)\<rparr>))"

definition math_random :: "(k6, rat) app" where
  "math_random = (\<lambda>s. (Inr (random s (draws s)), s\<lparr>draws := Suc (draws s)\<rparr>))"

definition sleep_ms :: "int \<Rightarrow> (k6, unit) app" where
  "sleep_ms ms = modify_app (\<lambda>s. s\<lparr>now := now s + ms\<rparr>)"

definition check :: "string \<Rightarrow> bool \<Rightarrow> (k6, bool) app" where
  "check name ok = then_app (modify_app (\<lambda>s. s\<lparr>checks := checks s @ [(name, ok)]\<rparr>)) (return_app ok)"

definition counter_add :: "string \<Rightarrow> (k6, unit) app" where
  "counter_add name = modify_app (\<lambda>s. s\<lparr>counters := (counters s)(name := counters s name + 1)\<rparr>)"

definition date_now :: "(k6, int) app" where
  "date_now = gets_app now"

definition fail :: "string \<Rightarrow> (k6, 'a) app" where
  "fail msg = throw_app (JsError msg)"

text \<open>
  \<open>response.json(selector)\<close> is \<open>undefined\<close> where the field is missing and throws where the body is no JSON;
  an array method throws on an object.
\<close>

definition json_field :: "string \<Rightarrow> http_response \<Rightarrow> (k6, string option) app" where
  "json_field f resp = (case rs_body resp of
     JsonObject kvs \<Rightarrow> return_app (map_of kvs f) | JsonArray _ \<Rightarrow> return_app None
   | NoJson \<Rightarrow> throw_app (JsError ''cannot parse json''))"

definition json_rows :: "http_response \<Rightarrow> (k6, json_row list) app" where
  "json_rows resp = (case rs_body resp of
     JsonArray rows \<Rightarrow> return_app rows | JsonObject _ \<Rightarrow> throw_app (JsError ''TypeError'')
   | NoJson \<Rightarrow> throw_app (JsError ''cannot parse json''))"

definition json_first :: "http_response \<Rightarrow> (k6, json_row option) app" where
  "json_first resp = (case rs_body resp of
     JsonArray (row # _) \<Rightarrow> return_app (Some row) | NoJson \<Rightarrow> throw_app (JsError ''cannot parse json'')
   | _ \<Rightarrow> return_app None)"

definition text_field :: "string \<Rightarrow> http_response \<Rightarrow> string option" where
  "text_field f resp = (case rs_body resp of JsonObject kvs \<Rightarrow> map_of kvs f | _ \<Rightarrow> None)"

text \<open>A value in a template string, and as a condition.\<close>

definition js_text :: "string option \<Rightarrow> string" where
  "js_text v = (case v of Some t \<Rightarrow> t | None \<Rightarrow> ''undefined'')"

definition js_truthy :: "string option \<Rightarrow> bool" where
  "js_truthy v \<longleftrightarrow> v \<noteq> None \<and> v \<noteq> Some []"

text \<open>\<open>Math.floor(Math.random() * n)\<close> and \<open>Math.round\<close>.\<close>

definition random_below :: "nat \<Rightarrow> (k6, nat) app" where
  "random_below n = bind_app math_random (\<lambda>u. return_app (nat \<lfloor>u * of_nat n\<rfloor>))"

definition math_round :: "rat \<Rightarrow> int" where
  "math_round x = \<lfloor>x + 1 / 2\<rfloor>"

section \<open>Triples\<close>

named_theorems triple_rules \<open>Hoare rules for scripts\<close>

definition triple :: "('s \<Rightarrow> bool) \<Rightarrow> ('s, 'a) app \<Rightarrow> ('a \<Rightarrow> 's \<Rightarrow> bool) \<Rightarrow> ('s \<Rightarrow> bool) \<Rightarrow> bool" where
  "triple P m Q X \<longleftrightarrow> (\<forall>s. P s \<longrightarrow> (case m s of (Inr a, s') \<Rightarrow> Q a s' | (Inl e, s') \<Rightarrow> X s'))"

lemma tripleI: "(\<And>s. P s \<Longrightarrow> case m s of (Inr a, s') \<Rightarrow> Q a s' | (Inl e, s') \<Rightarrow> X s') \<Longrightarrow> triple P m Q X"
  by (simp add: triple_def)

lemma tripleD: "triple P m Q X \<Longrightarrow> P s \<Longrightarrow> case m s of (Inr a, s') \<Rightarrow> Q a s' | (Inl e, s') \<Rightarrow> X s'"
  by (simp add: triple_def)

lemma triple_weaken:
  assumes "triple P m Q X" and "\<And>s. P' s \<Longrightarrow> P s" and "\<And>a s. Q a s \<Longrightarrow> Q' a s" and "\<And>s. X s \<Longrightarrow> X' s"
  shows "triple P' m Q' X'"
  using assms unfolding triple_def by (fastforce split: prod.splits sum.splits)

lemma triple_pre: "triple P m Q X \<Longrightarrow> (\<And>s. P' s \<Longrightarrow> P s) \<Longrightarrow> triple P' m Q X"
  by (rule triple_weaken)

lemma triple_exists: "(\<And>x. triple (P x) m Q X) \<Longrightarrow> triple (\<lambda>s. \<exists>x. P x s) m Q X"
  by (rule tripleI, elim exE) (rule tripleD)

lemma triple_bind [triple_rules]: "triple P m R X \<Longrightarrow> (\<And>a. triple (R a) (k a) Q X) \<Longrightarrow> triple P (bind_app m k) Q X"
  unfolding triple_def bind_app_def by (fastforce split: prod.splits sum.splits)

lemma triple_then [triple_rules]: "triple P m (\<lambda>_. R) X \<Longrightarrow> triple R k Q X \<Longrightarrow> triple P (then_app m k) Q X"
  unfolding then_app_def by (rule triple_bind)

lemma triple_return: "(\<And>s. P s \<Longrightarrow> Q a s) \<Longrightarrow> triple P (return_app a) Q X"
  by (simp add: triple_def)

lemma triple_throw: "(\<And>s. P s \<Longrightarrow> X s) \<Longrightarrow> triple P (throw_app e) Q X"
  by (simp add: triple_def)

lemma triple_if [triple_rules]:
  "(b \<Longrightarrow> triple P m Q X) \<Longrightarrow> (\<not> b \<Longrightarrow> triple P k Q X) \<Longrightarrow> triple P (if b then m else k) Q X"
  by simp

lemma triple_option [triple_rules]:
  "(v = None \<Longrightarrow> triple P m Q X) \<Longrightarrow> (\<And>a. v = Some a \<Longrightarrow> triple P (k a) Q X) \<Longrightarrow>
   triple P (case v of None \<Rightarrow> m | Some a \<Rightarrow> k a) Q X"
  by (cases v) simp_all

lemma triple_try: "triple P m Q Y \<Longrightarrow> (\<And>e. triple Y (h e) Q X) \<Longrightarrow> triple P (try_catch m h) Q X"
  unfolding triple_def try_catch_def by (fastforce split: prod.splits sum.splits)

text \<open>
  The operations that send nothing keep every predicate of the requests sent and the counters.
\<close>

definition talk :: "((http_request \<times> http_response) list \<Rightarrow> (string \<Rightarrow> nat) \<Rightarrow> bool) \<Rightarrow> k6 \<Rightarrow> bool" where
  "talk P s \<longleftrightarrow> P (sent s) (counters s)"

lemma triple_math_random: "triple (talk P) math_random (\<lambda>_. talk P) X"
  by (simp add: triple_def math_random_def talk_def)

lemma triple_random_below: "triple (talk P) (random_below n) (\<lambda>_. talk P) X"
  unfolding random_below_def by (rule triple_bind [OF triple_math_random triple_return])

lemma triple_sleep: "triple (talk P) (sleep_ms ms) (\<lambda>_. talk P) X"
  by (simp add: triple_def sleep_ms_def talk_def modify_app_def)

lemma triple_check: "triple (talk P) (check n b) (\<lambda>r s. talk P s \<and> r = b) X"
  by (simp add: triple_def check_def talk_def app_defs)

lemma triple_date_now: "triple P date_now (\<lambda>_. P) X"
  by (simp add: triple_def date_now_def gets_app_def)

lemma triple_counter: "triple (\<lambda>s. talk (\<lambda>tr c. Q tr (c(n := c n + 1))) s) (counter_add n) (\<lambda>_. talk Q) X"
  by (simp add: triple_def counter_add_def talk_def modify_app_def)

lemma triple_call: "triple (\<lambda>s. talk (\<lambda>tr c. \<forall>resp. Q resp (tr @ [(r, resp)]) c) s) (http_call r) (\<lambda>resp. talk (Q resp)) X"
  by (simp add: triple_def http_call_def talk_def Let_def)

lemma text_of_json: "triple P (json_field f resp) (\<lambda>v s. P s \<and> v = text_field f resp) P"
  by (simp add: triple_def json_field_def text_field_def return_app_def throw_app_def split: http_body.splits)

lemma triple_json_rows: "triple P (json_rows resp) (\<lambda>_. P) P"
  by (simp add: triple_def json_rows_def return_app_def throw_app_def split: http_body.splits)

lemma triple_json_first: "triple P (json_first resp) (\<lambda>_. P) P"
  by (simp add: triple_def json_first_def return_app_def throw_app_def split: http_body.splits list.splits)

section \<open>Time\<close>

text \<open>Requests take no negative time.\<close>

lemma now_call [simp]: "now s \<le> now (snd (http_call r s))"
  by (simp add: http_call_def Let_def)

end
