(* ===== verification/Traffic_Curve.thy ===== *)
theory Traffic_Curve
  imports K6 "HOL-Library.Word"
begin

text \<open>
  The arrival curve of \<^verbatim>\<open>ops/traffic-sim.k6.js\<close>: the seeded generator, UK time from the UTC functions of
  \<open>Date\<close>, and the rate of every minute of a run. Numbers of the code's arithmetic on rates are exact
  rationals; a \<open>None\<close> rate is \<open>NaN\<close>.

  Shown: the generator's state has full period and its values lie in \<open>[0, 1)\<close>; the clock changes fall on
  the last Sundays of March and October; every rate of a run is within fixed bounds of the hour's base rate.
\<close>

unbundle bit_operations_syntax

section \<open>The seeded generator\<close>

text \<open>
  \<open>Math.imul\<close>, \<open>^\<close>, \<open>|\<close> and \<open>>>>\<close> are operations on 32 bits; the one sum, \<open>t + Math.imul(...)\<close>, is below
  \<open>2^53\<close> and reduced to 32 bits by the \<open>^\<close> around it.
\<close>

definition seeded_state :: "32 word \<Rightarrow> 32 word" where
  "seeded_state a = a + 0x6d2b79f5"

definition seeded_value :: "32 word \<Rightarrow> rat" where
  "seeded_value a =
     (let t = a;
          t = (t XOR drop_bit 15 t) * (t OR 1);
          t = t XOR (t + (t XOR drop_bit 7 t) * (t OR 61))
      in of_nat (unat (t XOR drop_bit 14 t)) / 4294967296)"

definition seededRandom :: "32 word \<Rightarrow> rat \<times> 32 word" where
  "seededRandom a = (let a = seeded_state a in (seeded_value a, a))"

section \<open>UK time\<close>

text \<open>The UTC functions of \<open>Date\<close> on a time value in ms, as the language defines them.\<close>

definition ms_per_day :: int where "ms_per_day = 86400000"

definition day_of :: "int \<Rightarrow> int" where
  "day_of t = t div ms_per_day"

definition day_from_year :: "int \<Rightarrow> int" where
  "day_from_year y = 365 * (y - 1970) + (y - 1969) div 4 - (y - 1901) div 100 + (y - 1601) div 400"

definition leap_year :: "int \<Rightarrow> bool" where
  "leap_year y \<longleftrightarrow> y mod 4 = 0 \<and> (y mod 100 \<noteq> 0 \<or> y mod 400 = 0)"

definition month_lengths :: "int \<Rightarrow> int list" where
  "month_lengths y = [31, if leap_year y then 29 else 28, 31, 30, 31, 30, 31, 31, 30, 31, 30, 31]"

definition getUTCDay :: "int \<Rightarrow> int" where
  "getUTCDay t = (day_of t + 4) mod 7"

definition getUTCHours :: "int \<Rightarrow> int" where
  "getUTCHours t = (t div 3600000) mod 24"

text \<open>The year of a time value: the last one that does not start after its day. The estimate is at most one year late.\<close>

definition getUTCFullYear :: "int \<Rightarrow> int" where
  "getUTCFullYear t = (let y = 1970 + day_of t * 400 div 146097 in
     if day_from_year (y + 1) \<le> day_of t then y + 1 else if day_of t < day_from_year y then y - 1 else y)"

fun split_month :: "int \<Rightarrow> nat \<Rightarrow> int list \<Rightarrow> nat \<times> int" where
  "split_month d m [] = (m, d)"
| "split_month d m (n # ns) = (if d < n then (m, d) else split_month (d - n) (Suc m) ns)"

definition month_and_date :: "int \<Rightarrow> nat \<times> int" where
  "month_and_date t = (let y = getUTCFullYear t in split_month (day_of t - day_from_year y) 0 (month_lengths y))"

definition getUTCDate :: "int \<Rightarrow> int" where
  "getUTCDate t = snd (month_and_date t) + 1"

definition make_day :: "int \<Rightarrow> nat \<Rightarrow> int \<Rightarrow> int" where
  "make_day year month date = (let y = year + int month div 12 in
     day_from_year y + sum_list (take (month mod 12) (month_lengths y)) + date - 1)"

definition date_UTC :: "int \<Rightarrow> nat \<Rightarrow> int \<Rightarrow> int \<Rightarrow> int" where
  "date_UTC year month date hours = make_day year month date * ms_per_day + hours * 3600000"

definition setUTCDate :: "int \<Rightarrow> int \<Rightarrow> int" where
  "setUTCDate date t = make_day (getUTCFullYear t) (fst (month_and_date t)) date * ms_per_day + t mod ms_per_day"

definition lastSunday :: "int \<Rightarrow> nat \<Rightarrow> int" where
  "lastSunday year month = (let d = date_UTC year (month + 1) 0 1 in setUTCDate (getUTCDate d - getUTCDay d) d)"

record uk_clock =
  uk_hour :: int
  uk_weekday :: int

definition ukTime :: "int \<Rightarrow> uk_clock" where
  "ukTime t = (let year = getUTCFullYear t;
       bst = lastSunday year 2 \<le> t \<and> t < lastSunday year 9;
       local = t + (if bst then 3600000 else 0)
     in \<lparr>uk_hour = getUTCHours local, uk_weekday = getUTCDay local\<rparr>)"

section \<open>The curve\<close>

definition HOURLY_SHAPE :: "rat list" where
  "HOURLY_SHAPE = [1/10, 6/100, 4/100, 3/100, 3/100, 5/100, 12/100, 25/100, 4/10, 5/10, 55/100, 62/100,
     75/100, 7/10, 58/100, 55/100, 58/100, 68/100, 85/100, 1, 95/100, 78/100, 5/10, 25/100]"

definition WEEKDAY_SHAPE :: "rat list" where
  "WEEKDAY_SHAPE = [115/100, 9/10, 9/10, 95/100, 1, 95/100, 11/10]"

text \<open>A lookup outside the array is \<open>undefined\<close>, and a product with it \<open>NaN\<close>.\<close>

definition shape_at :: "rat list \<Rightarrow> int \<Rightarrow> rat option" where
  "shape_at shape i = (if 0 \<le> i \<and> nat i < length shape then Some (shape ! nat i) else None)"

definition base_rate :: "rat \<Rightarrow> int \<Rightarrow> int \<Rightarrow> rat option" where
  "base_rate peak hour weekday = (case (shape_at HOURLY_SHAPE hour, shape_at WEEKDAY_SHAPE weekday) of
     (Some h, Some w) \<Rightarrow> Some (peak * h * w) | _ \<Rightarrow> None)"

definition next_drift :: "rat \<Rightarrow> rat \<Rightarrow> rat" where
  "next_drift drift u = min (14/10) (max (6/10) (drift + (u - 1/2) * (3/10)))"

fun curve_from :: "rat \<Rightarrow> nat \<Rightarrow> nat option \<Rightarrow> nat \<Rightarrow> rat \<Rightarrow> 32 word \<Rightarrow> nat \<Rightarrow> rat list" where
  "curve_from base duration rush minute drift a 0 = []"
| "curve_from base duration rush minute drift a (Suc k) =
     (let (u, a') = seededRandom a;
          drift' = next_drift drift u;
          rate = base * drift';
          rate = (case rush of Some start \<Rightarrow> if minute = start \<or> minute = start + 1 then rate * (5/2) else rate | None \<Rightarrow> rate);
          rate = (if minute = duration - 1 then rate * (1/2) else rate)
      in rate # curve_from base duration rush (minute + 1) drift' a' k)"

text \<open>
  \<open>seed\<close> is \<open>SIM_SEED\<close> or the minute of the clock, \<open>sim_hour\<close> is \<open>SIM_HOUR\<close>. \<open>duration\<close> is \<open>DURATION_MINUTES\<close>, at least 3.
\<close>

definition arrivalCurve :: "rat \<Rightarrow> nat \<Rightarrow> int \<Rightarrow> int option \<Rightarrow> int \<Rightarrow> rat list option" where
  "arrivalCurve peak duration seed sim_hour t =
     (let a0 = word_of_int seed :: 32 word; uk = ukTime t;
          hour = (case sim_hour of Some h \<Rightarrow> h | None \<Rightarrow> uk_hour uk);
          base = base_rate peak hour (uk_weekday uk);
          (u1, a1) = seededRandom a0; hasRush = u1 < 1/4;
          (u2, a2) = seededRandom a1; rushAt = 1 + nat \<lfloor>u2 * of_nat (duration - 3)\<rfloor>
      in case base of None \<Rightarrow> None
         | Some b \<Rightarrow> Some (curve_from b duration (if hasRush then Some rushAt else None) 0 1 a2 duration))"

definition DURATION_MINUTES :: "int \<Rightarrow> nat" where
  "DURATION_MINUTES parsed = nat (max 3 parsed)"

text \<open>The options of the run: the target of every minute, per ten minutes.\<close>

record stage =
  st_target :: int
  st_duration :: string

definition stages :: "rat list \<Rightarrow> stage list" where
  "stages curve = map (\<lambda>perMinute. \<lparr>st_target = math_round (perMinute * 10), st_duration = ''1m''\<rparr>) curve"

record arrival_scenario =
  sc_executor :: string
  sc_timeUnit :: string
  sc_startRate :: int
  sc_stages :: "stage list"
  sc_preAllocatedVUs :: nat
  sc_maxVUs :: nat

definition shoppers_scenario :: "rat list \<Rightarrow> nat \<Rightarrow> arrival_scenario" where
  "shoppers_scenario curve shoppers = \<lparr>sc_executor = ''ramping-arrival-rate'', sc_timeUnit = ''10m'', sc_startRate = 0,
     sc_stages = stages curve, sc_preAllocatedVUs = shoppers, sc_maxVUs = shoppers\<rparr>"


section \<open>The generator's values\<close>

lemma seeded_value_range: "0 \<le> seeded_value a" "seeded_value a < 1"
proof -
  have "of_nat (unat w) < (4294967296 :: rat)" for w :: "32 word"
  proof -
    have "unat w < 4294967296" using unsigned_less [of w] by simp
    then have "of_nat (unat w) < (of_nat 4294967296 :: rat)" by (rule of_nat_less_iff [THEN iffD2])
    then show ?thesis by simp
  qed
  then show "0 \<le> seeded_value a" "seeded_value a < 1"
    unfolding seeded_value_def Let_def by (simp_all del: of_nat_unat unsigned_xor_eq)
qed

lemma seeded_states: "(seeded_state ^^ n) a = a + of_nat n * 0x6d2b79f5"
  by (induction n) (simp_all add: seeded_state_def algebra_simps)

text \<open>The increment is odd, so multiplication with it has an inverse.\<close>

lemma seeded_full_period:
  "inj_on (\<lambda>n. (seeded_state ^^ n) a) {..<2 ^ 32}" and "(seeded_state ^^ (2 ^ 32)) a = a"
proof -
  have inv: "0x6d2b79f5 * 3696798301 = (1 :: 32 word)" by simp
  show "inj_on (\<lambda>n. (seeded_state ^^ n) a) {..<2 ^ 32}"
  proof (rule inj_onI)
    fix m n :: nat
    assume mn: "m \<in> {..<2 ^ 32}" "n \<in> {..<2 ^ 32}" and eq: "(seeded_state ^^ m) a = (seeded_state ^^ n) a"
    have "of_nat m * 0x6d2b79f5 = of_nat n * (0x6d2b79f5 :: 32 word)" using eq by (simp add: seeded_states)
    then have "of_nat m * (0x6d2b79f5 * 3696798301) = of_nat n * (0x6d2b79f5 * 3696798301 :: 32 word)"
      by (simp only: mult.assoc [symmetric])
    then have "(of_nat m :: 32 word) = of_nat n" unfolding inv by simp
    with mn show "m = n" by (simp add: word_of_nat_eq_iff take_bit_nat_eq_self)
  qed
  show "(seeded_state ^^ (2 ^ 32)) a = a"
    by (simp only: seeded_states) simp
qed

section \<open>The calendar\<close>

lemma div_Suc: "0 < k \<Longrightarrow> (z + 1) div k = z div k + (if (z + 1) mod k = 0 then 1 else 0)" for z k :: int
proof -
  assume k: "0 < k"
  have z: "z + 1 = k * (z div k) + (z mod k + 1)" by simp
  show ?thesis
  proof (cases "z mod k + 1 = k")
    case True
    then have "z + 1 = k * (z div k + 1)" using z by (simp add: distrib_left)
    then show ?thesis using k by simp
  next
    case False
    then have "0 \<le> z mod k + 1" "z mod k + 1 < k" using k pos_mod_bound [of k z] pos_mod_sign [of k z] by linarith+
    then have "(z + 1) div k = z div k" "(z + 1) mod k = z mod k + 1"
      by (intro int_div_pos_eq [where r = "z mod k + 1"] int_mod_pos_eq [where q = "z div k"]; use z in simp)+
    moreover have "z mod k + 1 \<noteq> 0" using pos_mod_sign [OF k, of z] by linarith
    ultimately show ?thesis by simp
  qed
qed

lemma year_length: "day_from_year (y + 1) = day_from_year y + (if leap_year y then 366 else 365)"
proof -
  have d4: "(y - 1968) div 4 = (y - 1969) div 4 + (if y mod 4 = 0 then 1 else 0)"
    using div_Suc [of 4 "y - 1969"] mod_mult_self1 [of y "-492" 4] by (simp add: algebra_simps)
  have d100: "(y - 1900) div 100 = (y - 1901) div 100 + (if y mod 100 = 0 then 1 else 0)"
    using div_Suc [of 100 "y - 1901"] mod_mult_self1 [of y "-19" 100] by (simp add: algebra_simps)
  have d400: "(y - 1600) div 400 = (y - 1601) div 400 + (if y mod 400 = 0 then 1 else 0)"
    using div_Suc [of 400 "y - 1601"] mod_mult_self1 [of y "-4" 400] by (simp add: algebra_simps)
  have centuries: "y mod 400 = 0 \<Longrightarrow> y mod 100 = 0" "y mod 100 = 0 \<Longrightarrow> y mod 4 = 0"
    by (auto simp: mod_eq_0_iff_dvd intro: dvd_trans [of _ 400] dvd_trans [of _ 100])
  have succ: "day_from_year (y + 1) = 365 * (y - 1970) + 365 + (y - 1968) div 4 - (y - 1900) div 100 + (y - 1600) div 400"
    by (simp add: day_from_year_def algebra_simps)
  show ?thesis unfolding succ d4 d100 d400 leap_year_def unfolding day_from_year_def
    by (cases "y mod 4 = 0"; cases "y mod 100 = 0"; cases "y mod 400 = 0") (use centuries in simp_all)
qed

lemma year_mono: "y < y' \<Longrightarrow> day_from_year (y + 1) \<le> day_from_year y'"
proof (induction y' rule: int_gr_induct)
  case (step z)
  then show ?case using year_length [of z] by (auto split: if_splits)
qed simp

lemma year_of_day:
  "day_from_year (getUTCFullYear t) \<le> day_of t \<and> day_of t < day_from_year (getUTCFullYear t + 1)"
proof -
  let ?d = "day_of t" and ?y = "1970 + day_of t * 400 div 146097"
  define q where "q = day_of t * 400 div 146097"
  have q: "146097 * q \<le> 400 * ?d" "400 * ?d < 146097 * (q + 1)" unfolding q_def
    using mult_div_mod_eq [of 146097 "400 * ?d"] pos_mod_bound [of 146097 "400 * ?d"] pos_mod_sign [of 146097 "400 * ?d"]
    by (simp_all add: algebra_simps)
  have near: "k * (x div k) \<le> x" "x < k * (x div k) + k" if "0 < k" for k x :: int
    using mult_div_mod_eq [of k x] pos_mod_bound [OF that, of x] pos_mod_sign [OF that, of x] by linarith+
  have lower: "400 * day_from_year z \<ge> 146097 * (z - 1970) - 506" for z
    using near [of 4 "z - 1969"] near [of 100 "z - 1901"] near [of 400 "z - 1601"] unfolding day_from_year_def by simp
  have upper: "400 * day_from_year z \<le> 146097 * (z - 1970) + 589" for z
    using near [of 4 "z - 1969"] near [of 100 "z - 1901"] near [of 400 "z - 1601"] unfolding day_from_year_def by simp
  have "day_from_year ?y \<le> ?d + 1" using upper [of ?y] q by (simp add: q_def [symmetric])
  moreover have "?d - 1 \<le> day_from_year (?y + 1)" using lower [of "?y + 1"] q by (simp add: q_def [symmetric] algebra_simps)
  moreover have "day_from_year (?y + 1) \<ge> day_from_year ?y + 365" "day_from_year (?y + 2) \<ge> day_from_year (?y + 1) + 365"
      "day_from_year ?y \<ge> day_from_year (?y - 1) + 365"
    using year_length [of ?y] year_length [of "?y + 1"] year_length [of "?y - 1"] by (auto simp: add.commute split: if_splits)
  ultimately show ?thesis unfolding getUTCFullYear_def Let_def
    by (cases "day_from_year (?y + 1) \<le> ?d"; cases "?d < day_from_year ?y") (simp_all add: add.commute)
qed

lemma year_unique:
  assumes "day_from_year y \<le> day_of t" and "day_of t < day_from_year (y + 1)"
  shows "getUTCFullYear t = y"
  using year_of_day [of t] year_mono [of y "getUTCFullYear t"] year_mono [of "getUTCFullYear t" y] assms by linarith


lemma day_of_date_UTC: "0 \<le> h \<Longrightarrow> h < 24 \<Longrightarrow> day_of (date_UTC y m d h) = make_day y m d"
  by (simp add: day_of_def date_UTC_def ms_per_day_def)

lemma switch_days:
  "make_day y 3 0 = day_from_year y + (if leap_year y then 90 else 89)" "make_day y 2 d = make_day y 3 0 - 31 + d"
  "make_day y 10 0 = day_from_year y + (if leap_year y then 304 else 303)" "make_day y 9 d = make_day y 10 0 - 31 + d"
  by (simp_all add: make_day_def month_lengths_def)

lemma end_of_month:
  assumes "m \<in> {2, 9}"
  shows "month_and_date (date_UTC y (m + 1) 0 1) = (m, 30)" and "getUTCFullYear (date_UTC y (m + 1) 0 1) = y"
proof -
  show "getUTCFullYear (date_UTC y (m + 1) 0 1) = y"
    using assms year_length [of y] by (intro year_unique) (auto simp: day_of_date_UTC switch_days)
  then show "month_and_date (date_UTC y (m + 1) 0 1) = (m, 30)"
    using assms by (cases "leap_year y") (auto simp: month_and_date_def day_of_date_UTC switch_days month_lengths_def)
qed

text \<open>The clocks change on a Sunday, at 1:00 UTC, in the last seven days of the month.\<close>

lemma last_sunday:
  assumes "m \<in> {2, 9}"
  shows "\<exists>d. 25 \<le> d \<and> d \<le> 31 \<and> lastSunday y m = date_UTC y m d 1 \<and> getUTCDay (lastSunday y m) = 0"
proof -
  let ?d0 = "date_UTC y (m + 1) 0 1"
  define wd where "wd = getUTCDay ?d0"
  have wd: "0 \<le> wd" "wd < 7" by (simp_all add: wd_def getUTCDay_def)
  have "?d0 mod ms_per_day = 3600000" by (simp add: date_UTC_def ms_per_day_def)
  then have last: "lastSunday y m = date_UTC y m (31 - wd) 1"
    using end_of_month [OF assms, of y] by (simp add: lastSunday_def setUTCDate_def getUTCDate_def Let_def wd_def date_UTC_def)
  have "make_day y m (31 - wd) = day_of ?d0 - wd"
    using assms by (auto simp: day_of_date_UTC switch_days)
  then have "getUTCDay (lastSunday y m) = (day_of ?d0 - wd + 4) mod 7"
    by (simp add: last getUTCDay_def day_of_date_UTC)
  also have "\<dots> = 0" by (simp add: wd_def getUTCDay_def) presburger
  finally show ?thesis using wd last by (intro exI [of _ "31 - wd"]) simp
qed

lemma ukTime_ranges: "0 \<le> uk_hour (ukTime t)" "uk_hour (ukTime t) < 24" "0 \<le> uk_weekday (ukTime t)" "uk_weekday (ukTime t) < 7"
  by (simp_all add: ukTime_def Let_def getUTCHours_def getUTCDay_def)

section \<open>Bounds of the curve\<close>

lemma shape_rates: "\<forall>h \<in> set HOURLY_SHAPE. 0 \<le> h \<and> h \<le> 1" "\<forall>w \<in> set WEEKDAY_SHAPE. 0 \<le> w \<and> w \<le> 23 / 20"
  by (simp_all add: HOURLY_SHAPE_def WEEKDAY_SHAPE_def)

lemma shape_at_Some:
  "0 \<le> i \<Longrightarrow> i < 24 \<Longrightarrow> \<exists>h \<in> set HOURLY_SHAPE. shape_at HOURLY_SHAPE i = Some h"
  "0 \<le> i \<Longrightarrow> i < 7 \<Longrightarrow> \<exists>w \<in> set WEEKDAY_SHAPE. shape_at WEEKDAY_SHAPE i = Some w"
proof -
  have "length HOURLY_SHAPE = 24" "length WEEKDAY_SHAPE = 7" by (simp_all add: HOURLY_SHAPE_def WEEKDAY_SHAPE_def)
  then show "0 \<le> i \<Longrightarrow> i < 24 \<Longrightarrow> \<exists>h \<in> set HOURLY_SHAPE. shape_at HOURLY_SHAPE i = Some h"
    "0 \<le> i \<Longrightarrow> i < 7 \<Longrightarrow> \<exists>w \<in> set WEEKDAY_SHAPE. shape_at WEEKDAY_SHAPE i = Some w"
    by (simp_all add: shape_at_def)
qed

lemma base_rate_Some:
  assumes "0 \<le> peak" and "0 \<le> h" "h < 24" and "0 \<le> w" "w < 7"
  shows "\<exists>b. base_rate peak h w = Some b \<and> 0 \<le> b \<and> b \<le> peak * (23 / 20)"
proof -
  obtain r s where r: "r \<in> set HOURLY_SHAPE" "shape_at HOURLY_SHAPE h = Some r"
    and s: "s \<in> set WEEKDAY_SHAPE" "shape_at WEEKDAY_SHAPE w = Some s"
    using shape_at_Some assms by meson
  have "0 \<le> r" "r \<le> 1" "0 \<le> s" "s \<le> 23 / 20" using shape_rates r(1) s(1) by auto
  then have rs: "r * s \<le> 23 / 20" "0 \<le> r * s" using mult_mono [of r 1 s "23 / 20"] by (simp_all add: mult_nonneg_nonneg)
  have "peak * (r * s) \<le> peak * (23 / 20)" by (rule mult_left_mono [OF rs(1) assms(1)])
  moreover have "0 \<le> peak * (r * s)" by (rule mult_nonneg_nonneg [OF assms(1) rs(2)])
  ultimately show ?thesis using r s by (simp add: base_rate_def mult.assoc)
qed

definition rush_factor :: "nat option \<Rightarrow> nat \<Rightarrow> rat" where
  "rush_factor rush minute = (case rush of Some start \<Rightarrow> if minute = start \<or> minute = start + 1 then 5 / 2 else 1 | None \<Rightarrow> 1)"

lemma length_curve [simp]: "length (curve_from b d rush m drift a k) = k"
  by (induction k arbitrary: m drift a) (simp_all add: Let_def split: prod.split)

lemma curve_nth:
  "i < k \<Longrightarrow> \<exists>f. 6 / 10 \<le> f \<and> f \<le> 14 / 10 \<and>
     curve_from b d rush m drift a k ! i = b * f * rush_factor rush (m + i) * (if m + i = d - 1 then 1 / 2 else 1)"
proof (induction k arbitrary: m drift a i)
  case (Suc k)
  obtain u a' where r: "seededRandom a = (u, a')" by (cases "seededRandom a")
  have drift: "6 / 10 \<le> next_drift drift u" "next_drift drift u \<le> 14 / 10"
    unfolding next_drift_def by (rule min.boundedI, simp, rule max.cobounded1, rule min.cobounded1)
  show ?case
  proof (cases i)
    case 0
    then show ?thesis using drift r
      by (intro exI [of _ "next_drift drift u"]) (simp add: Let_def rush_factor_def split: option.splits)
  next
    case (Suc j)
    then show ?thesis using Suc.IH [of j "m + 1" "next_drift drift u" a'] Suc.prems r by (simp add: Let_def)
  qed
qed simp


lemma rate_factor:
  assumes f: "6 / 10 \<le> f" "f \<le> 14 / 10" and b: "0 \<le> (b :: rat)"
  shows "3 / 10 * b \<le> b * f * rush_factor rush i * (if e then 1 / 2 else 1)"
    and "b * f * rush_factor rush i * (if e then 1 / 2 else 1) \<le> 35 / 10 * b"
    and "rush_factor rush i = 1 \<Longrightarrow> b * f * rush_factor rush i * (if e then 1 / 2 else 1) \<le> 14 / 10 * b"
proof -
  define x where "x = b * f"
  have x: "b * (6 / 10) \<le> x" "x \<le> b * (14 / 10)"
    unfolding x_def by (rule mult_left_mono [OF f(1) b], rule mult_left_mono [OF f(2) b])
  have e: "(if e then 1 / 2 else 1 :: rat) = 1 \<or> (if e then 1 / 2 else 1 :: rat) = 1 / 2" by simp
  have rush: "rush_factor rush i = 1 \<or> rush_factor rush i = 5 / 2" by (simp add: rush_factor_def split: option.splits)
  show "3 / 10 * b \<le> b * f * rush_factor rush i * (if e then 1 / 2 else 1)"
    "b * f * rush_factor rush i * (if e then 1 / 2 else 1) \<le> 35 / 10 * b"
    "rush_factor rush i = 1 \<Longrightarrow> b * f * rush_factor rush i * (if e then 1 / 2 else 1) \<le> 14 / 10 * b"
    by (rule disjE [OF e]; rule disjE [OF rush]; simp only: x_def [symmetric]; use x b in linarith)+
qed

lemma math_round_bounds: "0 \<le> x \<Longrightarrow> 0 \<le> math_round x" "of_int (math_round x) \<le> x + 1 / 2"
  by (simp_all add: math_round_def)

section \<open>Properties\<close>

text \<open>
  Whatever the seed, a run has a rate for every minute, between 0.3 and 3.5 times the base rate of its
  hour, which is at most 1.15 times the peak. At most two minutes in a row, never the first, exceed 1.4 times
  the base; no target is negative, and none exceeds what the peak allows.
\<close>

theorem arrival_curve_bounds:
  assumes "0 \<le> peak" and "3 \<le> duration" and "case sim_hour of None \<Rightarrow> True | Some h \<Rightarrow> 0 \<le> h \<and> h < 24"
  shows "\<exists>base rates rush. arrivalCurve peak duration seed sim_hour t = Some rates \<and> 0 \<le> base \<and> base \<le> peak * (23 / 20) \<and>
    length rates = duration \<and> (\<forall>r \<in> set rates. 3 / 10 * base \<le> r \<and> r \<le> 35 / 10 * base) \<and>
    1 \<le> rush \<and> rush + 1 < duration \<and> {i. i < duration \<and> 14 / 10 * base < rates ! i} \<subseteq> {rush, rush + 1} \<and>
    (\<forall>s \<in> set (stages rates). 0 \<le> st_target s \<and> of_int (st_target s) \<le> 35 * base + 1 / 2)"
proof -
  let ?uk = "ukTime t"
  define hour where "hour = (case sim_hour of Some h \<Rightarrow> h | None \<Rightarrow> uk_hour ?uk)"
  have hour: "0 \<le> hour" "hour < 24" using assms(3) ukTime_ranges [of t] by (auto simp: hour_def split: option.splits)
  obtain b where b: "base_rate peak hour (uk_weekday ?uk) = Some b" "0 \<le> b" "b \<le> peak * (23 / 20)"
    using base_rate_Some [OF assms(1) hour ukTime_ranges(3,4)] by blast
  obtain u1 a1 where r1: "seededRandom (word_of_int seed) = (u1, a1)" by (cases "seededRandom (word_of_int seed)")
  obtain u2 a2 where r2: "seededRandom a1 = (u2, a2)" by (cases "seededRandom a1")
  have u2: "0 \<le> u2" "u2 < 1" using r2 seeded_value_range by (auto simp: seededRandom_def Let_def)
  define start where "start = 1 + nat \<lfloor>u2 * of_nat (duration - 3)\<rfloor>"
  define rush where "rush = (if u1 < 1 / 4 then Some start else None)"
  define rates where "rates = curve_from b duration rush 0 1 a2 duration"
  have start: "1 \<le> start" "start + 1 < duration"
  proof -
    have "\<lfloor>u2 * of_nat (duration - 3)\<rfloor> \<le> int (duration - 3)"
    proof -
      have "u2 * of_nat (duration - 3) \<le> 1 * of_nat (duration - 3)" using u2 by (intro mult_right_mono) simp_all
      from floor_mono [OF this] show ?thesis by simp
    qed
    then show "1 \<le> start" "start + 1 < duration" using assms(2) by (simp_all add: start_def)
  qed
  have nth: "\<exists>f. 6 / 10 \<le> f \<and> f \<le> 14 / 10 \<and> rates ! i = b * f * rush_factor rush i * (if i = duration - 1 then 1 / 2 else 1)"
    if "i < duration" for i
    using curve_nth [OF that, of b duration rush 0 1 a2] by (simp add: rates_def)
  have rate: "3 / 10 * b \<le> rates ! i" "rates ! i \<le> 35 / 10 * b" "rush_factor rush i = 1 \<Longrightarrow> rates ! i \<le> 14 / 10 * b"
    if i: "i < duration" for i
  proof -
    obtain f where f: "6 / 10 \<le> f" "f \<le> 14 / 10"
      and eq: "rates ! i = b * f * rush_factor rush i * (if i = duration - 1 then 1 / 2 else 1)" using nth [OF i] by blast
    show "3 / 10 * b \<le> rates ! i" "rates ! i \<le> 35 / 10 * b" "rush_factor rush i = 1 \<Longrightarrow> rates ! i \<le> 14 / 10 * b"
      unfolding eq by (rule rate_factor [OF f b(2)])+
  qed
  have len: "length rates = duration" by (simp add: rates_def)
  have run: "arrivalCurve peak duration seed sim_hour t = Some rates"
    using b r1 r2 by (simp add: arrivalCurve_def Let_def hour_def start_def rush_def rates_def)
  have all: "3 / 10 * b \<le> r \<and> r \<le> 35 / 10 * b" if "r \<in> set rates" for r
    using that rate(1,2) by (auto simp: in_set_conv_nth len)
  have "{i. i < duration \<and> 14 / 10 * b < rates ! i} \<subseteq> {start, start + 1}"
    using rate(3) by (force simp: rush_factor_def rush_def split: if_splits)
  moreover have "0 \<le> st_target s \<and> of_int (st_target s) \<le> 35 * b + 1 / 2" if s: "s \<in> set (stages rates)" for s
  proof -
    obtain r where r: "r \<in> set rates" "st_target s = math_round (r * 10)" using s by (auto simp: stages_def)
    have "0 \<le> r * 10" "r * 10 \<le> 35 * b" using all [OF r(1)] b(2) by auto
    with math_round_bounds [of "r * 10"] show ?thesis by (simp add: r(2))
  qed
  ultimately show ?thesis using run b(2,3) len all start by blast
qed

theorem arrival_curve_bounds_witness:
  "\<exists>base rates rush. arrivalCurve 4 30 7 (Some 12) 0 = Some rates \<and> 0 \<le> base \<and> length rates = 30 \<and>
    {i. i < 30 \<and> 14 / 10 * base < rates ! i} \<subseteq> {rush, rush + 1}"
  using arrival_curve_bounds [of 4 30 "Some 12" 7 0] by auto

end
