(* ===== verification/Traffic_Sim.thy ===== *)
theory Traffic_Sim
  imports Traffic_Curve "HOL-Library.Sublist"
begin

text \<open>
  The shopper sessions of \<^verbatim>\<open>ops/traffic-sim.k6.js\<close>: who a session is, its requests, its pauses and its
  counters, against any server. \<open>shopper\<close> is the protocol a session is to follow, as an automaton over the
  requests and answers; the sessions are shown to follow it, and waiting for an order to end in time.
\<close>

section \<open>Requests\<close>

record sim_config =
  BASE_URL :: string
  PASSWORD :: string
  SHOPPERS :: nat

definition HEADERS :: "(string \<times> string) list" where
  "HEADERS = [(''Content-Type'', ''application/json''), (''User-Agent'', ''order-lifecycle-traffic-sim/1.0''),
     (''X-Traffic-Source'', ''synthetic'')]"

definition shopperEmail :: "nat \<Rightarrow> string" where
  "shopperEmail n = ''sim-shopper-'' @ show_nat n @ ''@synthetic.example''"

definition request_of :: "sim_config \<Rightarrow> string \<Rightarrow> string \<Rightarrow> request_body \<Rightarrow> string option \<Rightarrow> string option \<Rightarrow> http_request" where
  "request_of c meth path body token name =
     \<lparr>rq_method = meth, rq_url = BASE_URL c @ path, rq_body = body,
      rq_headers = HEADERS @ (if js_truthy token then [(''Authorization'', ''Bearer '' @ js_text token)] else []),
      rq_tag = (''name'', if js_truthy name then js_text name else meth @ '' '' @ path)\<rparr>"

definition request :: "sim_config \<Rightarrow> string \<Rightarrow> string \<Rightarrow> request_body \<Rightarrow> string option \<Rightarrow> string option \<Rightarrow> (k6, http_response) app" where
  "request c meth path body token name =
     bind_app (http_call (request_of c meth path body token name)) (\<lambda>response.
     then_app (check ''request ok'' (200 \<le> rs_status response \<and> rs_status response < 300))
     (return_app response))"

section \<open>Pauses and choices\<close>

definition think_seconds :: "real \<Rightarrow> rat \<Rightarrow> rat \<Rightarrow> real" where
  "think_seconds median u v =
     (let z = sqrt (- 2 * ln (1 - of_rat u)) * cos (2 * pi * of_rat v)
      in min 30 (max (1 / 2) (median * exp (6 / 10 * z))))"

definition think :: "real \<Rightarrow> (k6, unit) app" where
  "think median = bind_app math_random (\<lambda>u. bind_app math_random (\<lambda>v. sleep_ms \<lceil>1000 * think_seconds median u v\<rceil>))"

definition pick :: "'a list \<Rightarrow> (k6, 'a option) app" where
  "pick items = bind_app (random_below (length items)) (\<lambda>i. return_app (if i < length items then Some (items ! i) else None))"

definition KINDS :: "(string \<times> rat) list" where
  "KINDS = [(''bounce'', 3/10), (''browse'', 25/100), (''abandon'', 2/10), (''buy'', 2/10), (''returning'', 5/100)]"

definition CANCEL_AFTER_RESERVE :: rat where "CANCEL_AFTER_RESERVE = 1/10"
definition REFRESH :: rat where "REFRESH = 2/10"

fun kind_of_roll :: "rat \<Rightarrow> (string \<times> rat) list \<Rightarrow> string" where
  "kind_of_roll roll [] = fst (KINDS ! 0)"
| "kind_of_roll roll ((kind, weight) # rest) =
     (let roll = roll - weight in if roll < 0 then kind else kind_of_roll roll rest)"

definition pickKind :: "(k6, string) app" where
  "pickKind = bind_app math_random (\<lambda>roll. return_app (kind_of_roll roll KINDS))"

section \<open>Waiting for an order\<close>

definition poll :: "sim_config \<Rightarrow> string option \<Rightarrow> string option \<Rightarrow> (k6, string option) app" where
  "poll c token oid =
     bind_app (request c ''GET'' (''/orders/'' @ js_text oid) NoBody token (Some ''GET /orders/:id'')) (\<lambda>response.
     if rs_status response = 200 then json_field ''status'' response else return_app None)"

lemma now_request: "now s \<le> now (snd (request c m p b t n s))"
  by (simp add: request_def http_call_def check_def bind_app_def then_app_def modify_app_def return_app_def Let_def)

lemma now_poll: "now s \<le> now (snd (poll c t oid s))"
proof -
  have "snd (json_field f r s') = s'" for f r and s' :: k6
    by (simp add: json_field_def return_app_def throw_app_def split: http_body.splits)
  then show ?thesis
    using now_request [of s c "''GET''" "''/orders/'' @ js_text oid" NoBody t "Some ''GET /orders/:id''"]
    unfolding poll_def bind_app_def by (auto simp: return_app_def split: prod.splits sum.splits)
qed

function wait_loop :: "sim_config \<Rightarrow> string option \<Rightarrow> string option \<Rightarrow> string list \<Rightarrow> int \<Rightarrow> string option \<Rightarrow> (k6, string option) app" where
  "wait_loop c token oid fromStatuses deadline status s =
     (if now s < deadline then
        case poll c token oid s of
          (Inl e, s1) \<Rightarrow> (Inl e, s1)
        | (Inr st, s1) \<Rightarrow>
            if js_truthy st \<and> the st \<notin> set fromStatuses then (Inr st, s1)
            else wait_loop c token oid fromStatuses deadline st (s1\<lparr>now := now s1 + 1000\<rparr>)
      else (Inr status, s))"
  by pat_completeness auto
termination
proof (relation "measure (\<lambda>(c, token, oid, fs, deadline, status, s). nat (deadline - now s))")
  fix c token oid fs deadline status s r s1 st
  assume "now s < deadline" and "(r, s1) = poll c token oid s"
  then have "now s \<le> now s1" using now_poll [of s c token oid] by (metis snd_conv)
  with \<open>now s < deadline\<close>
  show "((c, token, oid, fs, deadline, st, s1\<lparr>now := now s1 + 1000\<rparr>), (c, token, oid, fs, deadline, status, s))
      \<in> measure (\<lambda>(c, token, oid, fs, deadline, status, s). nat (deadline - now s))"
    by simp
qed simp

declare wait_loop.simps [simp del]

text \<open>\<open>None\<close> stands for \<open>undefined\<close>, the initial value of \<open>status\<close>.\<close>

definition waitWhile :: "sim_config \<Rightarrow> string option \<Rightarrow> string option \<Rightarrow> string list \<Rightarrow> int \<Rightarrow> (k6, string option) app" where
  "waitWhile c token oid fromStatuses timeoutSeconds =
     bind_app date_now (\<lambda>t. wait_loop c token oid fromStatuses (t + timeoutSeconds * 1000) None)"

section \<open>A session\<close>

definition type_error :: exn where "type_error = JsError ''TypeError''"

fun fill_lines :: "sim_config \<Rightarrow> string option \<Rightarrow> json_row list \<Rightarrow> nat \<Rightarrow> string list \<Rightarrow> (k6, string list) app" where
  "fill_lines c token inStock 0 chosen = return_app chosen"
| "fill_lines c token inStock (Suc k) chosen =
     bind_app (pick (filter (\<lambda>p. row_id p \<notin> set chosen) inStock)) (\<lambda>product. case product of
       None \<Rightarrow> throw_app type_error
     | Some p \<Rightarrow> bind_app (random_below 2) (\<lambda>q.
         then_app (request c ''POST'' ''/cart/items'' (CartLine (Some (row_id p)) (1 + int q)) token None)
         (then_app (think 2)
         (fill_lines c token inStock k (chosen @ [row_id p])))))"

definition fillCart :: "sim_config \<Rightarrow> string option \<Rightarrow> json_row list \<Rightarrow> (k6, unit) app" where
  "fillCart c token inStock =
     bind_app (random_below 3) (\<lambda>n.
     bind_app (fill_lines c token inStock (min (length inStock) (1 + n)) []) (\<lambda>chosen.
     bind_app math_random (\<lambda>u.
     then_app (if u < 1/4 then
         bind_app (pick chosen) (\<lambda>product. bind_app (random_below 3) (\<lambda>q.
         then_app (request c ''POST'' ''/cart/items'' (CartLine product (1 + int q)) token None)
         (think (15/10))))
       else return_app ())
     (then_app (if 1 < length chosen then
         bind_app math_random (\<lambda>w. if w < 2/10 then
           then_app (request c ''DELETE'' (''/cart/items/'' @ last chosen) NoBody token (Some ''DELETE /cart/items/:productId''))
           (think (15/10))
         else return_app ())
       else return_app ())
     (then_app (request c ''GET'' ''/cart'' NoBody token None) (return_app ()))))))"

definition pay_or_cancel :: "sim_config \<Rightarrow> string option \<Rightarrow> string option \<Rightarrow> (k6, unit) app" where
  "pay_or_cancel c token oid =
     bind_app math_random (\<lambda>u.
     if u < CANCEL_AFTER_RESERVE then
       bind_app (request c ''POST'' (''/orders/'' @ js_text oid @ ''/cancel'') NoBody token (Some ''POST /orders/:id/cancel'')) (\<lambda>cancelled.
       if rs_status cancelled = 200 then counter_add ''sim_orders_cancelled'' else return_app ())
     else
       bind_app (request c ''POST'' (''/orders/'' @ js_text oid @ ''/pay'') NoBody token (Some ''POST /orders/:id/pay'')) (\<lambda>paid.
       if rs_status paid \<noteq> 200 then return_app ()
       else bind_app (waitWhile c token oid [''RESERVED'', ''PAID''] 20) (\<lambda>settled.
         if settled = Some ''COMPLETED'' then counter_add ''sim_orders_completed''
         else if settled = Some ''FAILED'' then counter_add ''sim_orders_failed''
         else counter_add ''sim_orders_stuck'')))"

definition buy :: "sim_config \<Rightarrow> string option \<Rightarrow> (k6, unit) app" where
  "buy c token =
     bind_app (request c ''POST'' ''/cart/checkout'' NoBody token None) (\<lambda>checkout.
     if rs_status checkout \<noteq> 200 \<and> rs_status checkout \<noteq> 201 then return_app ()
     else then_app (counter_add ''sim_orders_placed'')
     (bind_app (json_field ''id'' checkout) (\<lambda>oid.
     bind_app (waitWhile c token oid [''PENDING''] 20) (\<lambda>reserved.
     if reserved = Some ''FAILED'' then counter_add ''sim_orders_failed''
     else if reserved \<noteq> Some ''RESERVED'' then counter_add ''sim_orders_stuck''
     else then_app (think 5) (pay_or_cancel c token oid)))))"

definition browse_on :: "sim_config \<Rightarrow> string option \<Rightarrow> (k6, unit) app" where
  "browse_on c token =
     bind_app math_random (\<lambda>u.
     then_app (if u < 1/2 then then_app (request c ''GET'' ''/products'' NoBody token None) (think 6) else return_app ())
     (then_app (request c ''GET'' ''/cart'' NoBody token None)
     (bind_app math_random (\<lambda>v. if v < 1/2 then
         then_app (think 3) (then_app (request c ''GET'' ''/orders'' NoBody token None) (return_app ()))
       else return_app ()))))"

definition look_at_orders :: "sim_config \<Rightarrow> string option \<Rightarrow> (k6, unit) app" where
  "look_at_orders c token =
     bind_app (request c ''GET'' ''/orders'' NoBody token None) (\<lambda>orders.
     bind_app (if rs_status orders = 200 then json_first orders else return_app None) (\<lambda>latest. case latest of
       None \<Rightarrow> return_app ()
     | Some l \<Rightarrow> then_app (think 2)
         (then_app (request c ''GET'' (''/orders/'' @ row_id l) NoBody token (Some ''GET /orders/:id'')) (return_app ()))))"

definition refresh_token :: "sim_config \<Rightarrow> string option \<Rightarrow> (k6, string option) app" where
  "refresh_token c token =
     bind_app math_random (\<lambda>u. if u < REFRESH then
       bind_app (request c ''POST'' ''/auth/refresh'' NoBody None None) (\<lambda>refreshed.
       if rs_status refreshed = 200 then json_field ''accessToken'' refreshed else return_app token)
     else return_app token)"

definition shopperSession :: "sim_config \<Rightarrow> (k6, unit) app" where
  "shopperSession c =
     bind_app pickKind (\<lambda>kind.
     then_app (counter_add ''sim_sessions'')
     (bind_app (gets_app env_vu) (\<lambda>vu.
     bind_app (request c ''POST'' ''/auth/login'' (Credentials (shopperEmail ((vu - 1) mod SHOPPERS c + 1)) (PASSWORD c)) None None) (\<lambda>login.
     if rs_status login \<noteq> 200 then return_app ()
     else bind_app (json_field ''accessToken'' login) (\<lambda>token.
     then_app (think (15/10))
     (if kind = ''returning'' then look_at_orders c token
      else bind_app (request c ''GET'' ''/products'' NoBody token None) (\<lambda>productsResponse.
        if rs_status productsResponse \<noteq> 200 \<or> kind = ''bounce'' then return_app ()
        else bind_app (json_rows productsResponse) (\<lambda>rows. let inStock = filter (\<lambda>p. 2 < row_stock p) rows in
          then_app (think (if kind = ''browse'' then 8 else 4))
          (bind_app (refresh_token c token) (\<lambda>token.
           if kind = ''browse'' then browse_on c token
           else if length inStock = 0 then return_app ()
           else then_app (fillCart c token inStock)
             (then_app (think 4)
             (if kind = ''buy'' then buy c token else return_app ()))))))))))))"

text \<open>The pool of accounts is registered once; one that exists already is fine.\<close>

fun register_from :: "sim_config \<Rightarrow> nat \<Rightarrow> nat \<Rightarrow> (k6, unit) app" where
  "register_from c n 0 = return_app ()"
| "register_from c n (Suc k) =
     bind_app (http_call \<lparr>rq_method = ''POST'', rq_url = BASE_URL c @ ''/auth/register'',
         rq_body = Credentials (shopperEmail n) (PASSWORD c), rq_headers = HEADERS, rq_tag = (''name'', ''POST /auth/register'')\<rparr>) (\<lambda>response.
     if rs_status response \<noteq> 201 \<and> rs_status response \<noteq> 409
     then throw_app (JsError (''could not register '' @ shopperEmail n @ '': '' @ show_int (rs_status response)))
     else register_from c (n + 1) k)"

definition sim_setup :: "sim_config \<Rightarrow> (k6, unit) app" where
  "sim_setup c = register_from c 1 (SHOPPERS c)"

text \<open>The weights are a share of one: no roll falls through the list.\<close>

lemma kinds_by_weight:
  "roll < 1 \<Longrightarrow> kind_of_roll roll KINDS =
     (if roll < 30/100 then ''bounce'' else if roll < 55/100 then ''browse'' else if roll < 75/100 then ''abandon''
      else if roll < 95/100 then ''buy'' else ''returning'')"
  by (simp add: KINDS_def Let_def)

section \<open>The protocol of a session\<close>

text \<open>
  A session has no order, has placed one (and knows whether its last answer said \<open>RESERVED\<close>), or has paid
  or cancelled it. It may only use tokens it was given, check out once, and pay or cancel only its own order
  after it was answered \<open>RESERVED\<close>, once.
\<close>

datatype phase = Shopping | Placed string bool | Settled

record shopper =
  known :: "string list"
  phase :: phase

definition may_send :: "string list \<Rightarrow> http_request \<Rightarrow> bool" where
  "may_send ts r \<longleftrightarrow> (case map_of (rq_headers r) ''Authorization'' of None \<Rightarrow> True
     | Some h \<Rightarrow> list_ex (\<lambda>t. h = ''Bearer '' @ t) ts)"

definition issued :: "sim_config \<Rightarrow> http_request \<Rightarrow> http_response \<Rightarrow> string list" where
  "issued c r resp =
     (if rq_method r = ''POST'' \<and> (rq_url r = BASE_URL c @ ''/auth/login'' \<or> rq_url r = BASE_URL c @ ''/auth/refresh'') \<and> rs_status resp = 200
      then (case text_field ''accessToken'' resp of Some t \<Rightarrow> [t] | None \<Rightarrow> []) else [])"

definition acts :: "http_request \<Rightarrow> bool" where
  "acts r \<longleftrightarrow> rq_method r = ''POST'' \<and> (suffix ''/pay'' (rq_url r) \<or> suffix ''/cancel'' (rq_url r))"

definition next_phase :: "sim_config \<Rightarrow> phase \<Rightarrow> http_request \<Rightarrow> http_response \<Rightarrow> phase option" where
  "next_phase c ph r resp =
     (if rq_method r = ''POST'' \<and> rq_url r = BASE_URL c @ ''/cart/checkout'' then
        (if ph = Shopping then
           Some (if rs_status resp = 200 \<or> rs_status resp = 201 then Placed (js_text (text_field ''id'' resp)) False else Shopping)
         else None)
      else if acts r then
        (case ph of Placed i True \<Rightarrow>
             if rq_url r = BASE_URL c @ ''/orders/'' @ i @ ''/pay'' \<or> rq_url r = BASE_URL c @ ''/orders/'' @ i @ ''/cancel''
             then Some Settled else None
         | _ \<Rightarrow> None)
      else (case ph of Placed i b \<Rightarrow>
             Some (if rq_method r = ''GET'' \<and> rq_url r = BASE_URL c @ ''/orders/'' @ i
               then Placed i (rs_status resp = 200 \<and> text_field ''status'' resp = Some ''RESERVED'') else ph)
         | _ \<Rightarrow> Some ph))"

definition observe :: "sim_config \<Rightarrow> shopper \<Rightarrow> http_request \<times> http_response \<Rightarrow> shopper option" where
  "observe c sh = (\<lambda>(r, resp). if may_send (known sh) r
     then map_option (\<lambda>ph. \<lparr>known = known sh @ issued c r resp, phase = ph\<rparr>) (next_phase c (phase sh) r resp) else None)"

definition observed :: "sim_config \<Rightarrow> (http_request \<times> http_response) list \<Rightarrow> shopper option" where
  "observed c tr = foldl (\<lambda>sh x. Option.bind sh (\<lambda>sh. observe c sh x)) (Some \<lparr>known = [], phase = Shopping\<rparr>) tr"


section \<open>Sessions follow the protocol\<close>

definition outcomes :: "(string \<Rightarrow> nat) \<Rightarrow> nat" where
  "outcomes ct = ct ''sim_orders_completed'' + ct ''sim_orders_cancelled'' + ct ''sim_orders_failed'' + ct ''sim_orders_stuck''"

text \<open>Where a session is: its phase, a token it may use, the orders counted as placed and as ended.\<close>

definition at_phase :: "sim_config \<Rightarrow> string option \<Rightarrow> phase \<Rightarrow> nat \<Rightarrow> nat \<Rightarrow> k6 \<Rightarrow> bool" where
  "at_phase c token ph p k = talk (\<lambda>tr ct. (\<exists>ts. observed c tr = Some \<lparr>known = ts, phase = ph\<rparr> \<and>
     (js_truthy token \<longrightarrow> the token \<in> set ts)) \<and> ct ''sim_orders_placed'' = p \<and> outcomes ct = k)"

definition on_track :: "sim_config \<Rightarrow> k6 \<Rightarrow> bool" where
  "on_track c = talk (\<lambda>tr ct. observed c tr \<noteq> None \<and> outcomes ct \<le> ct ''sim_orders_placed'' \<and> ct ''sim_orders_placed'' \<le> 1)"

lemma on_trackI: "at_phase c token ph p k s \<Longrightarrow> k \<le> p \<Longrightarrow> p \<le> 1 \<Longrightarrow> on_track c s"
  by (auto simp: at_phase_def on_track_def talk_def)

lemma observed_snoc: "observed c (tr @ [x]) = Option.bind (observed c tr) (\<lambda>sh. observe c sh x)"
  by (simp add: observed_def)

lemma may_send_request: "(js_truthy token \<Longrightarrow> the token \<in> set ts) \<Longrightarrow> may_send ts (request_of c m path b token n)"
  by (cases token) (auto simp: may_send_def request_of_def HEADERS_def js_truthy_def js_text_def list_ex_iff)

lemma at_phase_talk:
  "triple (at_phase c t ph p k) math_random (\<lambda>_. at_phase c t ph p k) X"
  "triple (at_phase c t ph p k) (random_below n) (\<lambda>_. at_phase c t ph p k) X"
  "triple (at_phase c t ph p k) (sleep_ms ms) (\<lambda>_. at_phase c t ph p k) X"
  "triple (at_phase c t ph p k) (check nm b) (\<lambda>_. at_phase c t ph p k) X"
  unfolding at_phase_def
  by (rule triple_math_random triple_random_below triple_sleep triple_weaken [OF triple_check]; simp)+

lemma at_phase_think: "triple (at_phase c t ph p k) (think m) (\<lambda>_. at_phase c t ph p k) X"
  unfolding think_def by (rule triple_bind at_phase_talk)+

lemma at_phase_pick: "triple (at_phase c t ph p k) (pick xs) (\<lambda>_. at_phase c t ph p k) X"
  unfolding pick_def by (rule triple_bind at_phase_talk triple_return | assumption)+

lemma triple_request:
  "triple (\<lambda>s. talk (\<lambda>tr ct. \<forall>resp. Q resp (tr @ [(request_of c m path b t n, resp)]) ct) s) (request c m path b t n) (\<lambda>resp. talk (Q resp)) X"
  by (simp add: triple_def request_def http_call_def check_def talk_def app_defs Let_def)

text \<open>The one rule for requests: the automaton takes the step, whatever the answer.\<close>

lemma at_phase_request:
  assumes "t = None \<or> t = token" and "\<And>resp. next_phase c ph (request_of c m path b t n) resp = Some (ph' resp)"
  shows "triple (at_phase c token ph p k) (request c m path b t n) (\<lambda>resp. at_phase c token (ph' resp) p k) X"
  unfolding at_phase_def
proof (rule triple_pre [OF triple_request])
  fix s
  assume "talk (\<lambda>tr ct. (\<exists>ts. observed c tr = Some \<lparr>known = ts, phase = ph\<rparr> \<and> (js_truthy token \<longrightarrow> the token \<in> set ts)) \<and>
    ct ''sim_orders_placed'' = p \<and> outcomes ct = k) s"
  moreover have "observe c \<lparr>known = ts, phase = ph\<rparr> (request_of c m path b t n, resp) =
      Some \<lparr>known = ts @ issued c (request_of c m path b t n) resp, phase = ph' resp\<rparr>"
    if "js_truthy token \<longrightarrow> the token \<in> set ts" for ts resp
  proof -
    have "js_truthy t \<Longrightarrow> the t \<in> set ts" using assms(1) that by (auto simp: js_truthy_def)
    from may_send_request [OF this] show ?thesis using assms(2) by (simp add: observe_def)
  qed
  ultimately show "talk (\<lambda>tr ct. \<forall>resp. (\<exists>ts. observed c (tr @ [(request_of c m path b t n, resp)]) = Some \<lparr>known = ts, phase = ph' resp\<rparr> \<and>
      (js_truthy token \<longrightarrow> the token \<in> set ts)) \<and> ct ''sim_orders_placed'' = p \<and> outcomes ct = k) s"
    unfolding talk_def observed_snoc by (elim exE conjE) simp
qed

lemma suffix_last: "suffix xs ys \<Longrightarrow> xs \<noteq> [] \<Longrightarrow> last ys = last xs"
  by (auto simp: suffix_def)

lemma acts_request:
  "path \<noteq> [] \<Longrightarrow> last path \<noteq> CHR ''y'' \<Longrightarrow> last path \<noteq> CHR ''l'' \<Longrightarrow> \<not> acts (request_of c m path b t n)"
proof
  assume path: "path \<noteq> []" "last path \<noteq> CHR ''y''" "last path \<noteq> CHR ''l''" and "acts (request_of c m path b t n)"
  then have "suffix ''/pay'' (BASE_URL c @ path) \<or> suffix ''/cancel'' (BASE_URL c @ path)" by (simp add: acts_def request_of_def)
  then have "last (BASE_URL c @ path) = CHR ''y'' \<or> last (BASE_URL c @ path) = CHR ''l''"
    by (elim disjE) (drule suffix_last; simp)+
  with path show False by simp
qed

lemma acts_post: "m \<noteq> ''POST'' \<Longrightarrow> \<not> acts (request_of c m path b t n)"
  by (simp add: acts_def request_of_def)

text \<open>Requests that are neither a checkout nor act on an order.\<close>

definition browsing :: "string \<Rightarrow> string \<Rightarrow> bool" where
  "browsing m path \<longleftrightarrow> m \<noteq> ''POST'' \<or> path = ''/cart/items'' \<or> path = ''/auth/login'' \<or> path = ''/auth/refresh''"

lemma at_phase_browse:
  assumes "t = None \<or> t = token" and "browsing m path" and "\<And>i b. ph \<noteq> Placed i b"
  shows "triple (at_phase c token ph p k) (request c m path b t n) (\<lambda>_. at_phase c token ph p k) X"
proof (rule at_phase_request [OF assms(1)])
  have "\<not> acts (request_of c m path b t n)"
    using assms(2) acts_request [of path c m b t n] acts_post [of m c path b t n] by (auto simp: browsing_def)
  moreover have "\<not> (m = ''POST'' \<and> path = ''/cart/checkout'')" using assms(2) by (auto simp: browsing_def)
  moreover have "rq_method (request_of c m path b t n) = m" "rq_url (request_of c m path b t n) = BASE_URL c @ path"
    by (simp_all add: request_of_def)
  ultimately show "next_phase c ph (request_of c m path b t n) resp = Some ph" for resp
    unfolding next_phase_def using assms(3) by (simp split: phase.split)
qed


lemma browsing_paths: "browsing ''GET'' path" "browsing ''DELETE'' path" "browsing ''POST'' ''/cart/items''" "browsing ''POST'' ''/auth/login''" "browsing ''POST'' ''/auth/refresh''"
  by (simp_all add: browsing_def)

text \<open>What a session does before it checks out keeps its place, and an exception leaves it on track.\<close>

abbreviation shopping :: "sim_config \<Rightarrow> string option \<Rightarrow> k6 \<Rightarrow> bool" where
  "shopping c token \<equiv> at_phase c token Shopping 0 0"

lemma shopping_request:
  "t = None \<or> t = token \<Longrightarrow> browsing m path \<Longrightarrow> triple (shopping c token) (request c m path b t n) (\<lambda>_. shopping c token) X"
  by (rule at_phase_browse) simp_all

lemma shopping_on_track: "shopping c token s \<Longrightarrow> on_track c s"
  by (erule on_trackI) simp_all

lemma shopping_json:
  "triple (shopping c t) (json_first r) (\<lambda>_. shopping c t) (on_track c)"
  "triple (shopping c t) (json_rows r) (\<lambda>_. shopping c t) (on_track c)"
  by (rule triple_weaken [OF triple_json_first] triple_weaken [OF triple_json_rows], assumption, assumption, erule shopping_on_track)+

lemmas shopping_rules = triple_rules at_phase_talk at_phase_think at_phase_pick shopping_request [OF disjI2 [OF refl]] browsing_paths

lemma shopping_fill_lines: "triple (shopping c token) (fill_lines c token inStock k chosen) (\<lambda>_. shopping c token) (on_track c)"
proof (induction k arbitrary: chosen)
  case 0
  show ?case unfolding fill_lines.simps by (rule triple_return)
next
  case (Suc k)
  show ?case unfolding fill_lines.simps
    by (rule shopping_rules Suc.IH triple_throw | erule shopping_on_track)+
qed

lemma shopping_fillCart: "triple (shopping c token) (fillCart c token inStock) (\<lambda>_. shopping c token) (on_track c)"
  unfolding fillCart_def by (rule shopping_rules shopping_fill_lines triple_return | assumption)+

lemma shopping_browse_on: "triple (shopping c token) (browse_on c token) (\<lambda>_. shopping c token) X"
  unfolding browse_on_def by (rule shopping_rules triple_return | assumption)+

lemma shopping_look: "triple (shopping c token) (look_at_orders c token) (\<lambda>_. shopping c token) (on_track c)"
  unfolding look_at_orders_def
  by (rule shopping_rules shopping_json triple_return | assumption)+


text \<open>A login or a refresh issues a token.\<close>

lemma shopping_login:
  assumes "path = ''/auth/login'' \<or> path = ''/auth/refresh''"
  shows "triple (shopping c token) (request c ''POST'' path b None n)
    (\<lambda>resp s. shopping c token s \<and> (rs_status resp = 200 \<longrightarrow> shopping c (text_field ''accessToken'' resp) s)) X"
proof (rule tripleI)
  fix s
  assume s: "shopping c token s"
  let ?r = "request_of c ''POST'' path b None n"
  obtain resp s' where run: "request c ''POST'' path b None n s = (Inr resp, s')" "sent s' = sent s @ [(?r, resp)]" "counters s' = counters s"
    by (simp add: request_def http_call_def check_def app_defs Let_def)
  have "triple (shopping c token) (request c ''POST'' path b None n) (\<lambda>_. shopping c token) X"
    using assms by (intro shopping_request) (auto simp: browsing_def)
  from tripleD [OF this s] run(1) have s': "shopping c token s'" by simp
  obtain ts where ts: "observed c (sent s) = Some \<lparr>known = ts, phase = Shopping\<rparr>"
    using s by (auto simp: at_phase_def talk_def)
  have "shopping c (text_field ''accessToken'' resp) s'" if "rs_status resp = 200"
  proof -
    obtain ts' where ts': "observed c (sent s') = Some \<lparr>known = ts', phase = Shopping\<rparr>"
      using s' by (auto simp: at_phase_def talk_def)
    then have "ts' = ts @ issued c ?r resp"
      using ts unfolding run(2) observed_snoc by (auto simp: observe_def split: if_splits)
    moreover have "issued c ?r resp = (case text_field ''accessToken'' resp of Some t \<Rightarrow> [t] | None \<Rightarrow> [])"
      using that assms by (simp add: issued_def request_of_def)
    ultimately show ?thesis
      using s' ts' by (auto simp: at_phase_def talk_def js_truthy_def)
  qed
  with s' run(1) show "case request c ''POST'' path b None n s of
      (Inr a, s') \<Rightarrow> shopping c token s' \<and> (rs_status a = 200 \<longrightarrow> shopping c (text_field ''accessToken'' a) s')
    | (Inl e, s') \<Rightarrow> X s'" by simp
qed

lemma shopping_token:
  assumes "rs_status resp = 200"
  shows "triple (\<lambda>s. shopping c t s \<and> (rs_status resp = 200 \<longrightarrow> shopping c (text_field ''accessToken'' resp) s))
    (json_field ''accessToken'' resp) (shopping c) (on_track c)"
  by (rule triple_weaken [OF text_of_json [where P = "shopping c (text_field ''accessToken'' resp)"]])
    (use assms in \<open>auto intro: shopping_on_track\<close>)

lemma shopping_refresh: "triple (shopping c token) (refresh_token c token) (shopping c) (on_track c)"
  unfolding refresh_token_def
  by (rule triple_bind at_phase_talk triple_if shopping_login disjI2 refl shopping_token | assumption | rule triple_return, simp)+

section \<open>Waiting\<close>

text \<open>What every poll keeps, waiting keeps.\<close>

lemma wait_loop_keeps:
  assumes poll: "\<And>v. triple (I v) (poll c token oid) I X" and time: "\<And>v s t. I v s \<Longrightarrow> I v (s\<lparr>now := t\<rparr>)"
  shows "triple (I status) (wait_loop c token oid fs deadline status) I X"
proof (rule tripleI)
  fix s
  assume "I status s"
  then show "case wait_loop c token oid fs deadline status s of (Inr v, s') \<Rightarrow> I v s' | (Inl e, s') \<Rightarrow> X s'"
  proof (induction "nat (deadline - now s)" arbitrary: status s rule: less_induct)
    case less
    obtain r s1 where p: "poll c token oid s = (r, s1)" by (cases "poll c token oid s")
    have t: "now s \<le> now s1" using now_poll [of s c token oid] p by simp
    show ?case
    proof (cases "now s < deadline")
      case True
      note step = wait_loop.simps [of c token oid fs deadline status s] tripleD [OF poll less.prems]
      show ?thesis
      proof (cases r)
        case (Inl e)
        with step p True show ?thesis by simp
      next
        case (Inr v)
        then have v: "I v s1" using step p by simp
        have "case wait_loop c token oid fs deadline v (s1\<lparr>now := now s1 + 1000\<rparr>) of (Inr v, s') \<Rightarrow> I v s' | (Inl e, s') \<Rightarrow> X s'"
          by (rule less.hyps) (use t True v time in auto)
        with step p True Inr v show ?thesis by simp
      qed
    qed (use less.prems in \<open>simp add: wait_loop.simps [of c token oid fs deadline status s]\<close>)
  qed
qed

lemma waitWhile_keeps:
  assumes "\<And>v. triple (I v) (poll c token oid) I X" and "\<And>v s t. I v s \<Longrightarrow> I v (s\<lparr>now := t\<rparr>)"
  shows "triple (I None) (waitWhile c token oid fs secs) I X"
  unfolding waitWhile_def by (rule triple_bind, rule triple_date_now, rule wait_loop_keeps [OF assms])

lemma at_phase_time: "at_phase c t ph p k s \<Longrightarrow> at_phase c t ph p k (s\<lparr>now := x\<rparr>)"
  by (simp add: at_phase_def talk_def)

lemma order_request:
  "next_phase c (Placed (js_text oid) b) (request_of c ''GET'' (''/orders/'' @ js_text oid) d t n) resp =
     Some (Placed (js_text oid) (rs_status resp = 200 \<and> text_field ''status'' resp = Some ''RESERVED''))"
  "next_phase c (Placed (js_text oid) True) (request_of c ''POST'' (''/orders/'' @ js_text oid @ ''/pay'') d t n) resp = Some Settled"
  "next_phase c (Placed (js_text oid) True) (request_of c ''POST'' (''/orders/'' @ js_text oid @ ''/cancel'') d t n) resp = Some Settled"
  "next_phase c Shopping (request_of c ''POST'' ''/cart/checkout'' d t n) resp =
     Some (if rs_status resp = 200 \<or> rs_status resp = 201 then Placed (js_text (text_field ''id'' resp)) False else Shopping)"
  by (simp_all add: next_phase_def request_of_def acts_def suffix_def)


text \<open>Polling a placed order: what the last answer said, the automaton knows.\<close>

definition awaiting :: "sim_config \<Rightarrow> string option \<Rightarrow> string option \<Rightarrow> string option \<Rightarrow> k6 \<Rightarrow> bool" where
  "awaiting c token oid v s \<longleftrightarrow> (\<exists>b. at_phase c token (Placed (js_text oid) b) 1 0 s \<and> (v = Some ''RESERVED'' \<longrightarrow> b))"

lemma awaitingI: "at_phase c token (Placed (js_text oid) b) 1 0 s \<Longrightarrow> (v = Some ''RESERVED'' \<Longrightarrow> b) \<Longrightarrow> awaiting c token oid v s"
  by (auto simp: awaiting_def)

lemma awaiting_on_track: "awaiting c token oid v s \<Longrightarrow> on_track c s"
  by (auto simp: awaiting_def intro: on_trackI)

lemma poll_placed: "triple (awaiting c token oid v) (poll c token oid) (awaiting c token oid) (on_track c)"
  unfolding awaiting_def [of c token oid v]
proof (rule triple_exists)
  fix b
  show "triple (\<lambda>s. at_phase c token (Placed (js_text oid) b) 1 0 s \<and> (v = Some ''RESERVED'' \<longrightarrow> b)) (poll c token oid)
      (awaiting c token oid) (on_track c)"
    unfolding poll_def
  proof (rule triple_bind, rule triple_pre [OF at_phase_request [OF disjI2 [OF refl] order_request(1)]], erule conjunct1)
    fix resp :: http_response
    let ?b = "rs_status resp = 200 \<and> text_field ''status'' resp = Some ''RESERVED''"
    show "triple (at_phase c token (Placed (js_text oid) ?b) 1 0)
        (if rs_status resp = 200 then json_field ''status'' resp else return_app None) (awaiting c token oid) (on_track c)"
    proof (rule triple_if)
      assume ok: "rs_status resp = 200"
      show "triple (at_phase c token (Placed (js_text oid) ?b) 1 0) (json_field ''status'' resp) (awaiting c token oid) (on_track c)"
        by (rule triple_weaken [OF text_of_json], assumption, erule conjE, erule awaitingI, simp add: ok, (erule on_trackI; simp))
    next
      show "triple (at_phase c token (Placed (js_text oid) ?b) 1 0) (return_app None) (awaiting c token oid) (on_track c)"
        by (rule triple_return, erule awaitingI, simp)
    qed
  qed
qed

lemma poll_settled: "triple (at_phase c token Settled p k) (poll c token oid) (\<lambda>_. at_phase c token Settled p k) X"
  if "\<And>s. at_phase c token Settled p k s \<Longrightarrow> X s"
  unfolding poll_def
  by (rule triple_bind, rule at_phase_browse, simp, simp add: browsing_def, simp, rule triple_if,
    rule triple_weaken [OF text_of_json], assumption, simp, erule that, rule triple_return)

lemma count_placed: "triple (at_phase c t ph p k) (counter_add ''sim_orders_placed'') (\<lambda>_. at_phase c t ph (Suc p) k) X"
  unfolding at_phase_def by (rule triple_pre [OF triple_counter]) (auto simp: talk_def outcomes_def)

lemma count_outcome:
  "n \<in> {''sim_orders_completed'', ''sim_orders_cancelled'', ''sim_orders_failed'', ''sim_orders_stuck''} \<Longrightarrow>
   triple (at_phase c t ph p k) (counter_add n) (\<lambda>_. at_phase c t ph p (Suc k)) X"
  unfolding at_phase_def by (rule triple_pre [OF triple_counter]) (auto simp: talk_def outcomes_def)

text \<open>Every end of a session with a placed order.\<close>

lemma ended:
  "triple (at_phase c t ph 1 0) (return_app ()) (\<lambda>_. on_track c) (on_track c)"
  "n \<in> {''sim_orders_completed'', ''sim_orders_cancelled'', ''sim_orders_failed'', ''sim_orders_stuck''} \<Longrightarrow>
   triple (at_phase c t ph 1 0) (counter_add n) (\<lambda>_. on_track c) (on_track c)"
  by (rule triple_return, erule on_trackI; simp) (rule triple_weaken [OF count_outcome], assumption, assumption, (erule on_trackI; simp), assumption)

lemma wait_settled: "triple (at_phase c token Settled 1 0) (waitWhile c token oid fs n) (\<lambda>_. at_phase c token Settled 1 0) (on_track c)"
  by (rule waitWhile_keeps [where I = "\<lambda>_. at_phase c token Settled 1 0"])
    (rule poll_settled, erule on_trackI, simp, simp, erule at_phase_time)

lemma wait_placed: "triple (awaiting c token oid None) (waitWhile c token oid fs n) (awaiting c token oid) (on_track c)"
  by (rule waitWhile_keeps [where I = "awaiting c token oid"]) (auto intro: poll_placed at_phase_time simp: awaiting_def)

lemma pay_or_cancel_on_track:
  "triple (at_phase c token (Placed (js_text oid) True) 1 0) (pay_or_cancel c token oid) (\<lambda>_. on_track c) (on_track c)"
  unfolding pay_or_cancel_def
  by (rule triple_bind at_phase_talk triple_if wait_settled ended at_phase_request [OF disjI2 [OF refl] order_request(2)]
      at_phase_request [OF disjI2 [OF refl] order_request(3)] | simp)+

lemma awaiting_end:
  "triple (awaiting c token oid v) (counter_add n) (\<lambda>_. on_track c) (on_track c)"
  if "n \<in> {''sim_orders_completed'', ''sim_orders_cancelled'', ''sim_orders_failed'', ''sim_orders_stuck''}"
  unfolding awaiting_def by (rule triple_exists, rule triple_pre [OF ended(2) [OF that]], erule conjunct1)

lemma buy_on_track: "triple (shopping c token) (buy c token) (\<lambda>_. on_track c) (on_track c)"
  unfolding buy_def
proof (rule triple_bind, rule at_phase_request [OF disjI2 [OF refl] order_request(4)], rule triple_if)
  fix checkout :: http_response
  assume "rs_status checkout \<noteq> 200 \<and> rs_status checkout \<noteq> 201"
  then show "triple (at_phase c token (if rs_status checkout = 200 \<or> rs_status checkout = 201
      then Placed (js_text (text_field ''id'' checkout)) False else Shopping) 0 0) (return_app ()) (\<lambda>_. on_track c) (on_track c)"
    by (intro triple_return) (auto intro: on_trackI)
next
  fix checkout :: http_response
  assume "\<not> (rs_status checkout \<noteq> 200 \<and> rs_status checkout \<noteq> 201)"
  then have placed: "(if rs_status checkout = 200 \<or> rs_status checkout = 201
      then Placed (js_text (text_field ''id'' checkout)) False else Shopping) = Placed (js_text (text_field ''id'' checkout)) False" by auto
  have pay: "triple (awaiting c token oid (Some ''RESERVED'')) (then_app (think 5) (pay_or_cancel c token oid)) (\<lambda>_. on_track c) (on_track c)" for oid
    unfolding awaiting_def
    by (rule triple_exists, rule triple_pre [OF triple_then [OF at_phase_think pay_or_cancel_on_track]]) auto
  show "triple (at_phase c token (if rs_status checkout = 200 \<or> rs_status checkout = 201
      then Placed (js_text (text_field ''id'' checkout)) False else Shopping) 0 0)
    (then_app (counter_add ''sim_orders_placed'') (bind_app (json_field ''id'' checkout) (\<lambda>oid.
      bind_app (waitWhile c token oid [''PENDING''] 20) (\<lambda>reserved.
      if reserved = Some ''FAILED'' then counter_add ''sim_orders_failed''
      else if reserved \<noteq> Some ''RESERVED'' then counter_add ''sim_orders_stuck''
      else then_app (think 5) (pay_or_cancel c token oid))))) (\<lambda>_. on_track c) (on_track c)"
    unfolding placed
  proof (rule triple_then, rule count_placed, rule triple_bind)
    show "triple (at_phase c token (Placed (js_text (text_field ''id'' checkout)) False) (Suc 0) 0) (json_field ''id'' checkout)
        (\<lambda>oid. awaiting c token oid None) (on_track c)"
      by (rule triple_weaken [OF text_of_json], assumption) (auto simp: awaiting_def intro: on_trackI)
  next
    fix oid
    show "triple (awaiting c token oid None) (bind_app (waitWhile c token oid [''PENDING''] 20) (\<lambda>reserved.
      if reserved = Some ''FAILED'' then counter_add ''sim_orders_failed''
      else if reserved \<noteq> Some ''RESERVED'' then counter_add ''sim_orders_stuck''
      else then_app (think 5) (pay_or_cancel c token oid))) (\<lambda>_. on_track c) (on_track c)"
      by (rule triple_bind, rule wait_placed, (rule triple_if awaiting_end | simp add: pay)+)
  qed
qed


lemma shopping_count: "n \<notin> {''sim_orders_placed'', ''sim_orders_completed'', ''sim_orders_cancelled'', ''sim_orders_failed'', ''sim_orders_stuck''} \<Longrightarrow>
   triple (shopping c t) (counter_add n) (\<lambda>_. shopping c t) X"
  unfolding at_phase_def by (rule triple_pre [OF triple_counter]) (auto simp: talk_def outcomes_def)

lemma triple_gets: "triple P (gets_app f) (\<lambda>_. P) X"
  by (simp add: triple_def gets_app_def)

lemma shopping_pickKind: "triple (shopping c t) pickKind (\<lambda>_. shopping c t) X"
  unfolding pickKind_def by (rule triple_bind at_phase_talk triple_return | assumption)+

text \<open>A part of the session that goes on shopping leaves it on track.\<close>

lemma shopping_last: "triple P m (\<lambda>_. shopping c t) (on_track c) \<Longrightarrow> triple P m (\<lambda>_. on_track c) (on_track c)"
  by (erule triple_weaken) (auto intro: shopping_on_track)

lemma session_on_track: "triple (shopping c None) (shopperSession c) (\<lambda>_. on_track c) (on_track c)"
  unfolding shopperSession_def
proof (rule triple_bind, rule shopping_pickKind, rule triple_then, rule shopping_count, simp, rule triple_bind, rule triple_gets,
    rule triple_bind, rule shopping_login, simp, rule triple_if)
  fix login :: http_response
  show "triple (\<lambda>s. shopping c None s \<and> (rs_status login = 200 \<longrightarrow> shopping c (text_field ''accessToken'' login) s))
      (return_app ()) (\<lambda>_. on_track c) (on_track c)"
    by (rule triple_return) (auto intro: shopping_on_track)
next
  fix kind vu and login :: http_response
  assume "\<not> rs_status login \<noteq> 200"
  then have ok: "rs_status login = 200" by simp
  have return: "triple (shopping c t) (return_app ()) (\<lambda>_. on_track c) (on_track c)" for t
    by (rule triple_return, erule shopping_on_track)
  show "triple (\<lambda>s. shopping c None s \<and> (rs_status login = 200 \<longrightarrow> shopping c (text_field ''accessToken'' login) s))
      (bind_app (json_field ''accessToken'' login) (\<lambda>token.
       then_app (think (15 / 10))
       (if kind = ''returning'' then look_at_orders c token
        else bind_app (request c ''GET'' ''/products'' NoBody token None) (\<lambda>productsResponse.
          if rs_status productsResponse \<noteq> 200 \<or> kind = ''bounce'' then return_app ()
          else bind_app (json_rows productsResponse) (\<lambda>rows. let inStock = filter (\<lambda>p. 2 < row_stock p) rows in
            then_app (think (if kind = ''browse'' then 8 else 4))
            (bind_app (refresh_token c token) (\<lambda>token.
             if kind = ''browse'' then browse_on c token
             else if length inStock = 0 then return_app ()
             else then_app (fillCart c token inStock)
               (then_app (think 4)
               (if kind = ''buy'' then buy c token else return_app ())))))))))
      (\<lambda>_. on_track c) (on_track c)"
    unfolding Let_def
    by (rule triple_bind, rule shopping_token [OF ok])
      (rule triple_bind triple_then triple_if at_phase_think shopping_last [OF shopping_look] shopping_last [OF shopping_browse_on]
        shopping_request [OF disjI2 [OF refl]] browsing_paths shopping_json shopping_refresh shopping_fillCart buy_on_track return)+
qed

section \<open>Waiting ends in time\<close>

definition polls_of :: "sim_config \<Rightarrow> string option \<Rightarrow> string option \<Rightarrow> http_request" where
  "polls_of c token oid = request_of c ''GET'' (''/orders/'' @ js_text oid) NoBody token (Some ''GET /orders/:id'')"

lemma poll_sends: "poll c token oid s = (r, s') \<Longrightarrow> \<exists>resp. sent s' = sent s @ [(polls_of c token oid, resp)]"
  by (auto simp: poll_def request_def http_call_def check_def app_defs json_field_def polls_of_def Let_def
      split: if_splits http_body.splits)

lemma wait_loop_bounded:
  "wait_loop c token oid fs deadline status s = (r, s') \<Longrightarrow>
   \<exists>resps. sent s' = sent s @ map (Pair (polls_of c token oid)) resps \<and>
     int (length resps) * 1000 \<le> max 0 (deadline - now s + 999) \<and>
     (case r of Inr v \<Rightarrow> if now s' < deadline then js_truthy v \<and> the v \<notin> set fs else True | Inl _ \<Rightarrow> resps \<noteq> [])"
proof (induction "nat (deadline - now s)" arbitrary: status s rule: less_induct)
  case less
  note simps = wait_loop.simps [of c token oid fs deadline status s]
  show ?case
  proof (cases "now s < deadline")
    case True
    obtain q s1 where p: "poll c token oid s = (q, s1)" by (cases "poll c token oid s")
    have t: "now s \<le> now s1" using now_poll [of s c token oid] p by simp
    obtain resp where resp: "sent s1 = sent s @ [(polls_of c token oid, resp)]" using poll_sends [OF p] by blast
    have one: "1000 \<le> max 0 (deadline - now s + 999)" using True by simp
    show ?thesis
    proof (cases q)
      case (Inl e)
      then have "r = Inl e" "s' = s1" using less.prems simps p True by simp_all
      then show ?thesis using resp one by (intro exI [of _ "[resp]"]) simp
    next
      case (Inr v)
      show ?thesis
      proof (cases "js_truthy v \<and> the v \<notin> set fs")
        case True
        then have "r = Inr v" "s' = s1" using less.prems simps p Inr \<open>now s < deadline\<close> by simp_all
        then show ?thesis using resp one True by (intro exI [of _ "[resp]"]) simp
      next
        case False
        let ?s = "s1\<lparr>now := now s1 + 1000\<rparr>"
        have "wait_loop c token oid fs deadline v ?s = (r, s')" using less.prems simps p Inr True False by simp
        from less.hyps [OF _ this] t True obtain resps where
          resps: "sent s' = sent ?s @ map (Pair (polls_of c token oid)) resps" "int (length resps) * 1000 \<le> max 0 (deadline - now ?s + 999)"
            "case r of Inr v \<Rightarrow> if now s' < deadline then js_truthy v \<and> the v \<notin> set fs else True | Inl _ \<Rightarrow> resps \<noteq> []" by auto
        show ?thesis using resps resp t True
          by (intro exI [of _ "resp # resps"] conjI) (simp, simp, simp split: sum.splits)
      qed
    qed
  next
    case False
    then show ?thesis using less.prems simps by (intro exI [of _ "[]"]) auto
  qed
qed


section \<open>Properties\<close>

definition fresh_vu :: "k6 \<Rightarrow> bool" where
  "fresh_vu s \<longleftrightarrow> sent s = [] \<and> counters s = (\<lambda>_. 0)"

text \<open>
  C40: Against any server and for any random numbers, a session keeps to the shopper's protocol: it sends no
  token it was not given, checks out at most once, and pays or cancels at most once, only the order its
  checkout returned and only after the last look at it said \<open>RESERVED\<close>. Its counters count at most one order
  placed and no more orders ended than placed.
\<close>

theorem session_follows_protocol:
  assumes "fresh_vu s"
  shows "let s' = snd (shopperSession c s) in observed c (sent s') \<noteq> None \<and>
    outcomes (counters s') \<le> counters s' ''sim_orders_placed'' \<and> counters s' ''sim_orders_placed'' \<le> 1"
proof -
  have "shopping c None s"
    using assms by (simp add: fresh_vu_def at_phase_def talk_def observed_def outcomes_def js_truthy_def)
  from tripleD [OF session_on_track this] show ?thesis
    by (cases "shopperSession c s") (auto simp: on_track_def talk_def split: sum.splits)
qed

text \<open>
  \<open>waitWhile\<close> returns against any server: it sends at most one request for every second of its timeout,
  all for the order's status, and returns before the deadline only with a status it was not told to wait out,
  or when an answer cannot be read.
\<close>

theorem wait_in_time:
  "\<exists>resps. let (r, s') = waitWhile c token oid fs (int secs) s in
     sent s' = sent s @ map (Pair (polls_of c token oid)) resps \<and> length resps \<le> secs \<and>
     (case r of Inr v \<Rightarrow> if now s' < now s + int secs * 1000 then js_truthy v \<and> the v \<notin> set fs else True | Inl _ \<Rightarrow> resps \<noteq> [])"
proof -
  obtain r s' where run: "waitWhile c token oid fs (int secs) s = (r, s')" by (cases "waitWhile c token oid fs (int secs) s")
  then have "wait_loop c token oid fs (now s + int secs * 1000) None s = (r, s')"
    by (simp add: waitWhile_def date_now_def)
  from wait_loop_bounded [OF this] obtain resps where resps: "sent s' = sent s @ map (Pair (polls_of c token oid)) resps"
      "int (length resps) * 1000 \<le> max 0 (int secs * 1000 + 999)"
      "case r of Inr v \<Rightarrow> if now s' < now s + int secs * 1000 then js_truthy v \<and> the v \<notin> set fs else True | Inl _ \<Rightarrow> resps \<noteq> []" by auto
  then show ?thesis unfolding run by (intro exI [of _ resps]) simp
qed

definition sim_example :: sim_config where
  "sim_example = \<lparr>BASE_URL = ''b'', PASSWORD = ''p'', SHOPPERS = 2\<rparr>"

definition k6_example :: k6 where
  "k6_example = \<lparr>answers = (\<lambda>n r. \<lparr>rs_status = 200, rs_body =
       if rq_url r = ''b/products'' then JsonArray [\<lparr>row_id = ''x'', row_stock = 9\<rparr>]
       else JsonObject [(''accessToken'', ''t''), (''id'', ''o''), (''status'', if n < 7 then ''RESERVED'' else ''COMPLETED'')]\<rparr>),
     latency = (\<lambda>n. 20), random = (\<lambda>n. if n = 0 then 4/5 else 1/2), env_vu = 1, now = 0, draws = 0, sent = [],
     checks = [], counters = (\<lambda>_. 0)\<rparr>"

lemma k6_example_kind: "kind_of_roll (4/5) KINDS = ''buy''"
  by (simp add: KINDS_def)

text \<open>A session that buys and pays.\<close>

lemma session_example:
  "map (\<lambda>(r, _). rq_url r) (sent (snd (shopperSession sim_example k6_example))) =
     [''b/auth/login'', ''b/products'', ''b/cart/items'', ''b/cart'', ''b/cart/checkout'', ''b/orders/o'', ''b/orders/o/pay'', ''b/orders/o'']"
  by (simp add: shopperSession_def pickKind_def math_random_def random_below_def sim_example_def k6_example_def app_defs
    k6_example_kind counter_add_def request_def request_of_def http_call_def check_def json_field_def json_rows_def think_def sleep_ms_def
    refresh_token_def REFRESH_def fillCart_def Let_def pick_def buy_def waitWhile_def date_now_def wait_loop.simps poll_def
    pay_or_cancel_def CANCEL_AFTER_RESERVE_def js_text_def js_truthy_def)

theorem session_follows_protocol_witness:
  "let s' = snd (shopperSession sim_example k6_example) in
     map (\<lambda>(r, _). rq_url r) (sent s') = [''b/auth/login'', ''b/products'', ''b/cart/items'', ''b/cart'', ''b/cart/checkout'',
       ''b/orders/o'', ''b/orders/o/pay'', ''b/orders/o''] \<and>
     observed sim_example (sent s') \<noteq> None \<and> counters s' ''sim_orders_placed'' \<le> 1"
  using session_follows_protocol [of k6_example sim_example] session_example
  by (simp add: fresh_vu_def k6_example_def Let_def)

end
