(* ===== verification/Load_Test.thy ===== *)
theory Load_Test
  imports K6 Cors
begin

text \<open>
  The load test of \<^verbatim>\<open>ops/load-test.k6.js\<close>: its scenarios, the set-up that takes real orders through the
  whole pipeline, the measured request, the report, and \<^verbatim>\<open>ops/format-benchmark.ts\<close>, which turns the report
  into benchmark entries. Measurements are exact rationals; a metric the run did not record is \<open>None\<close>. The
  text for the terminal is left out.
\<close>

section \<open>Scenarios\<close>

record load_config =
  lt_base :: string
  lt_duration :: nat \<comment> \<open>\<open>DURATION_SECONDS\<close>\<close>
  lt_vus :: nat
  lt_seed_orders :: nat

definition GAP_SECONDS :: nat where "GAP_SECONDS = 2"

record endpoint =
  ep_key :: string
  ep_label :: string
  ep_path :: string
  ep_auth :: bool

definition ENDPOINTS :: "endpoint list" where
  "ENDPOINTS =
    [\<lparr>ep_key = ''health'', ep_label = ''GET /health (unauthenticated baseline)'', ep_path = ''/health'', ep_auth = False\<rparr>,
     \<lparr>ep_key = ''products'', ep_label = ''GET /products (authenticated, DB-backed)'', ep_path = ''/products'', ep_auth = True\<rparr>,
     \<lparr>ep_key = ''orders_list'', ep_label = ''GET /orders (authenticated, cache-aside list)'', ep_path = ''/orders'', ep_auth = True\<rparr>,
     \<lparr>ep_key = ''order_by_id'', ep_label = ''GET /orders/:id (authenticated, cache-aside by id)'', ep_path = ''/orders/:id'', ep_auth = True\<rparr>]"

text \<open>Times are seconds, which the code writes with their unit.\<close>

record scenario =
  sn_executor :: string
  sn_exec :: string
  sn_vus :: nat
  sn_duration :: nat
  sn_startTime :: nat
  sn_env :: "(string \<times> string) list"
  sn_tags :: "(string \<times> string) list"

definition load_scenario :: "load_config \<Rightarrow> nat \<Rightarrow> endpoint \<Rightarrow> string \<times> scenario" where
  "load_scenario c i e = (ep_key e, \<lparr>sn_executor = ''constant-vus'', sn_exec = ''hit'', sn_vus = lt_vus c,
     sn_duration = lt_duration c, sn_startTime = i * (lt_duration c + GAP_SECONDS),
     sn_env = [(''ENDPOINT'', ep_key e)], sn_tags = [(''endpoint'', ep_key e)]\<rparr>)"

definition load_scenarios :: "load_config \<Rightarrow> (string \<times> scenario) list" where
  "load_scenarios c = map (\<lambda>(i, e). load_scenario c i e) (enumerate 0 ENDPOINTS)"

definition endpoint_tag :: "endpoint \<Rightarrow> string" where
  "endpoint_tag e = ''{endpoint:'' @ ep_key e @ ''}''"

text \<open>The names of an endpoint's metrics.\<close>

definition duration_metric :: "endpoint \<Rightarrow> string" where "duration_metric e = ''http_req_duration'' @ endpoint_tag e"
definition count_metric :: "endpoint \<Rightarrow> string" where "count_metric e = ''http_reqs'' @ endpoint_tag e"
definition failed_metric :: "endpoint \<Rightarrow> string" where "failed_metric e = ''http_req_failed'' @ endpoint_tag e"

definition load_thresholds :: "(string \<times> string list) list" where
  "load_thresholds = concat (map (\<lambda>e. [(duration_metric e, [''max>=0'']),
     (count_metric e, [''count>=0'']), (failed_metric e, [''rate==0''])]) ENDPOINTS)"

section \<open>Set-up\<close>

definition json_request :: "load_config \<Rightarrow> string \<Rightarrow> string \<Rightarrow> request_body \<Rightarrow> string option \<Rightarrow> http_request" where
  "json_request c meth path body token =
     \<lparr>rq_method = meth, rq_url = lt_base c @ path, rq_body = body,
      rq_headers = [(''Content-Type'', ''application/json'')] @
        (if js_truthy token then [(''Authorization'', ''Bearer '' @ js_text token)] else []),
      rq_tag = (''endpoint'', ''setup'')\<rparr>"

definition json :: "load_config \<Rightarrow> string \<Rightarrow> string \<Rightarrow> request_body \<Rightarrow> string option \<Rightarrow> (k6, http_response) app" where
  "json c meth path body token = http_call (json_request c meth path body token)"

fun wait_for :: "string \<Rightarrow> (k6, bool) app \<Rightarrow> nat \<Rightarrow> (k6, unit) app" where
  "wait_for description predicate 0 = fail (''Timed out waiting for '' @ description)"
| "wait_for description predicate (Suc k) = bind_app predicate (\<lambda>b.
     if b then return_app () else then_app (sleep_ms 250) (wait_for description predicate k))"

definition waitFor :: "string \<Rightarrow> (k6, bool) app \<Rightarrow> nat \<Rightarrow> (k6, unit) app" where
  "waitFor description predicate timeoutSeconds = wait_for description predicate (timeoutSeconds * 4)"

definition orderStatus :: "load_config \<Rightarrow> string option \<Rightarrow> string option \<Rightarrow> (k6, string option) app" where
  "orderStatus c token oid = bind_app (json c ''GET'' (''/orders/'' @ js_text oid) NoBody token) (\<lambda>response.
     if rs_status response = 200 then json_field ''status'' response else return_app None)"

definition order_is :: "load_config \<Rightarrow> string option \<Rightarrow> string option \<Rightarrow> string \<Rightarrow> (k6, bool) app" where
  "order_is c token oid status = bind_app (orderStatus c token oid) (\<lambda>st. return_app (st = Some status))"

definition completeOrder :: "load_config \<Rightarrow> string option \<Rightarrow> string \<Rightarrow> (k6, string option) app" where
  "completeOrder c token productId =
     bind_app (json c ''POST'' ''/cart/items'' (CartLine (Some productId) 1) token) (\<lambda>added.
     if rs_status added \<noteq> 200 \<and> rs_status added \<noteq> 201 then fail (''add to cart: '' @ show_int (rs_status added))
     else bind_app (json c ''POST'' ''/cart/checkout'' NoBody token) (\<lambda>checkout.
     if rs_status checkout \<noteq> 200 \<and> rs_status checkout \<noteq> 201 then fail (''checkout: '' @ show_int (rs_status checkout))
     else bind_app (json_field ''id'' checkout) (\<lambda>oid.
     then_app (waitFor (''order '' @ js_text oid @ '' RESERVED'') (order_is c token oid ''RESERVED'') 30)
     (bind_app (json c ''POST'' (''/orders/'' @ js_text oid @ ''/pay'') NoBody token) (\<lambda>pay.
     if rs_status pay \<noteq> 200 then fail (''pay: '' @ show_int (rs_status pay))
     else then_app (waitFor (''order '' @ js_text oid @ '' COMPLETED'') (order_is c token oid ''COMPLETED'') 30)
     (return_app oid))))))"

fun complete_orders :: "load_config \<Rightarrow> string option \<Rightarrow> string \<Rightarrow> nat \<Rightarrow> string option list \<Rightarrow> (k6, string option list) app" where
  "complete_orders c token productId 0 orderIds = return_app orderIds"
| "complete_orders c token productId (Suc k) orderIds =
     bind_app (completeOrder c token productId) (\<lambda>oid. complete_orders c token productId k (orderIds @ [oid]))"

record load_data =
  ld_token :: "string option"
  ld_orderId :: "string option"

definition health_request :: "load_config \<Rightarrow> http_request" where
  "health_request c = \<lparr>rq_method = ''GET'', rq_url = lt_base c @ ''/health'', rq_body = NoBody, rq_headers = [], rq_tag = (''endpoint'', ''setup'')\<rparr>"

definition load_setup :: "load_config \<Rightarrow> (k6, load_data) app" where
  "load_setup c =
     then_app (waitFor (lt_base c @ ''/health'')
       (try_catch (bind_app (http_call (health_request c)) (\<lambda>r. return_app (rs_status r = 200))) (\<lambda>_. return_app False)) 60)
     (bind_app date_now (\<lambda>t. let email = ''load-test-'' @ show_int t @ ''@example.com''; password = ''LoadTest#2026!'' in
     bind_app (json c ''POST'' ''/auth/register'' (Credentials email password) None) (\<lambda>registered.
     if rs_status registered \<noteq> 201 then fail (''register: '' @ show_int (rs_status registered))
     else bind_app (json c ''POST'' ''/auth/login'' (Credentials email password) None) (\<lambda>login.
     if rs_status login \<noteq> 200 then fail (''login: '' @ show_int (rs_status login))
     else bind_app (json_field ''accessToken'' login) (\<lambda>token.
     bind_app (bind_app (json c ''GET'' ''/products'' NoBody token) json_rows) (\<lambda>products.
     case find (\<lambda>p. int (lt_seed_orders c) \<le> row_stock p) products of
       None \<Rightarrow> fail ''no product with enough stock to seed orders''
     | Some product \<Rightarrow> bind_app (complete_orders c token (row_id product) (lt_seed_orders c) []) (\<lambda>orderIds.
         return_app \<lparr>ld_token = token, ld_orderId = (case orderIds of [] \<Rightarrow> None | i # _ \<Rightarrow> i)\<rparr>)))))))"

section \<open>The measured request\<close>

definition hit_request :: "load_config \<Rightarrow> load_data \<Rightarrow> endpoint \<Rightarrow> http_request" where
  "hit_request c data e =
     \<lparr>rq_method = ''GET'', rq_url = lt_base c @ replace_first '':id'' (js_text (ld_orderId data)) (ep_path e), rq_body = NoBody,
      rq_headers = (if ep_auth e then [(''Authorization'', ''Bearer '' @ js_text (ld_token data))] else []),
      rq_tag = (''endpoint'', ep_key e)\<rparr>"

definition hit :: "load_config \<Rightarrow> string \<Rightarrow> load_data \<Rightarrow> (k6, unit) app" where
  "hit c env_endpoint data = (case find (\<lambda>e. ep_key e = env_endpoint) ENDPOINTS of
     None \<Rightarrow> throw_app (JsError ''TypeError'')
   | Some e \<Rightarrow> bind_app (http_call (hit_request c data e)) (\<lambda>response.
       then_app (check ''status is 200'' (rs_status response = 200)) (return_app ())))"

section \<open>The report\<close>

record trend =
  tr_med :: rat
  tr_p90 :: rat
  tr_p97_5 :: rat
  tr_p99 :: rat

record run_metrics =
  mt_duration :: "string \<Rightarrow> trend option"
  mt_count :: "string \<Rightarrow> nat option"
  mt_failed :: "string \<Rightarrow> rat option"

record EndpointScore =
  es_label :: string
  es_path :: string
  es_requestsPerSec :: rat
  es_p50 :: rat
  es_p90 :: rat
  es_p97_5 :: rat
  es_p99 :: rat
  es_non2xx :: int
  es_errors :: int

text \<open>\<open>Number(x.toFixed(digits))\<close>: the nearest decimal, away from zero when two are as near.\<close>

definition to_fixed :: "nat \<Rightarrow> rat \<Rightarrow> rat" where
  "to_fixed digits x = (let n = \<lfloor>\<bar>x\<bar> * 10 ^ digits + 1 / 2\<rfloor> in of_int (if x < 0 then - n else n) / 10 ^ digits)"

text \<open>\<open>None\<close>: a metric is missing, and reading its values throws.\<close>

definition endpointScore :: "load_config \<Rightarrow> run_metrics \<Rightarrow> endpoint \<Rightarrow> EndpointScore option" where
  "endpointScore c data e = (case (mt_duration data (duration_metric e), mt_count data (count_metric e), mt_failed data (failed_metric e)) of
       (Some duration, Some requests, Some failedRate) \<Rightarrow>
         Some \<lparr>es_label = ep_label e, es_path = ep_path e,
           es_requestsPerSec = to_fixed 1 (of_nat requests / of_nat (lt_duration c)),
           es_p50 = to_fixed 2 (tr_med duration), es_p90 = to_fixed 2 (tr_p90 duration),
           es_p97_5 = to_fixed 2 (tr_p97_5 duration), es_p99 = to_fixed 2 (tr_p99 duration),
           es_non2xx = math_round (failedRate * of_nat requests), es_errors = 0\<rparr>
     | _ \<Rightarrow> None)"

record LoadTestReport =
  rp_endpoints :: "EndpointScore list"

definition load_report :: "load_config \<Rightarrow> run_metrics \<Rightarrow> LoadTestReport option" where
  "load_report c data = map_option (\<lambda>scores. \<lparr>rp_endpoints = scores\<rparr>) (those (map (endpointScore c data) ENDPOINTS))"

section \<open>Benchmark entries\<close>

record BenchmarkEntry =
  be_name :: string
  be_unit :: string
  be_value :: rat

definition throughput :: "LoadTestReport \<Rightarrow> BenchmarkEntry list" where
  "throughput report = map (\<lambda>e. \<lparr>be_name = es_label e @ '' req/sec'', be_unit = ''req/sec'', be_value = es_requestsPerSec e\<rparr>)
     (rp_endpoints report)"

definition latency_entries :: "LoadTestReport \<Rightarrow> BenchmarkEntry list" where
  "latency_entries report = concat (map (\<lambda>e.
     [\<lparr>be_name = es_label e @ '' p50'', be_unit = ''ms'', be_value = es_p50 e\<rparr>,
      \<lparr>be_name = es_label e @ '' p90'', be_unit = ''ms'', be_value = es_p90 e\<rparr>,
      \<lparr>be_name = es_label e @ '' p99'', be_unit = ''ms'', be_value = es_p99 e\<rparr>]) (rp_endpoints report))"

section \<open>Scenarios in turn\<close>

text \<open>Every endpoint is loaded alone: a scenario starts the gap after the one before has ended.\<close>

lemma scenarios_in_turn:
  "map fst (load_scenarios c) = map ep_key ENDPOINTS"
  "sorted_wrt (\<lambda>a b. sn_startTime (snd a) + sn_duration (snd a) + GAP_SECONDS \<le> sn_startTime (snd b)) (load_scenarios c)"
  by (simp_all add: load_scenarios_def load_scenario_def ENDPOINTS_def)

section \<open>Seeded orders\<close>

definition status_request :: "load_config \<Rightarrow> string option \<Rightarrow> string option \<Rightarrow> http_request" where
  "status_request c token oid = json_request c ''GET'' (''/orders/'' @ js_text oid) NoBody token"

definition says :: "string \<Rightarrow> http_response \<Rightarrow> bool" where
  "says status resp \<longleftrightarrow> rs_status resp = 200 \<and> text_field ''status'' resp = Some status"

lemma order_is_run:
  "order_is c token oid st s = (r, s') \<Longrightarrow>
   \<exists>resp. sent s' = sent s @ [(status_request c token oid, resp)] \<and> (\<forall>b. r = Inr b \<longrightarrow> b = says st resp)"
  by (auto simp: order_is_def orderStatus_def json_def http_call_def json_field_def text_field_def status_request_def says_def app_defs Let_def
      split: if_splits http_body.splits)

lemma wait_for_order:
  "wait_for d (order_is c token oid st) k s = (Inr (), s') \<Longrightarrow>
   \<exists>resps. sent s' = sent s @ map (Pair (status_request c token oid)) resps \<and> length resps \<le> k \<and> resps \<noteq> [] \<and> says st (last resps)"
proof (induction k arbitrary: s)
  case 0
  then show ?case by (simp add: fail_def)
next
  case (Suc k)
  obtain r s1 where p: "order_is c token oid st s = (r, s1)" by (cases "order_is c token oid st s")
  obtain resp where resp: "sent s1 = sent s @ [(status_request c token oid, resp)]" "\<And>b. r = Inr b \<Longrightarrow> b = says st resp"
    using order_is_run [OF p] by blast
  obtain b where r: "r = Inr b" using Suc.prems p by (cases r) (simp_all add: bind_app_def)
  show ?case
  proof (cases b)
    case True
    then show ?thesis using Suc.prems p r resp by (intro exI [of _ "[resp]"]) (auto simp: bind_app_def)
  next
    case False
    then have "wait_for d (order_is c token oid st) k (s1\<lparr>now := now s1 + 250\<rparr>) = (Inr (), s')"
      using Suc.prems p r by (simp add: sleep_ms_def bind_app_def)
    from Suc.IH [OF this] obtain resps where "sent s' = sent s1 @ map (Pair (status_request c token oid)) resps" "length resps \<le> k"
      "resps \<noteq> []" "says st (last resps)" by auto
    then show ?thesis using resp(1) by (intro exI [of _ "resp # resps"]) simp
  qed
qed

lemma json_run: "json c m path b t s = (Inr (answers s (length (sent s)) (json_request c m path b t)),
    s\<lparr>sent := sent s @ [(json_request c m path b t, answers s (length (sent s)) (json_request c m path b t))],
      now := now s + int (latency s (length (sent s)))\<rparr>)"
  by (simp add: json_def http_call_def Let_def)

lemma json_sent: "json c m path b t s = (Inr resp, s') \<Longrightarrow> sent s' = sent s @ [(json_request c m path b t, resp)]"
  by (auto simp: json_run)

lemma guard_Inr: "(if b then fail m else k) s = (Inr a, s') \<Longrightarrow> (\<not> b \<Longrightarrow> k s = (Inr a, s') \<Longrightarrow> thesis) \<Longrightarrow> thesis"
  by (cases b) (simp_all add: fail_def throw_app_def)

lemma bind_Inr: "bind_app m k s = (Inr b, s') \<Longrightarrow> (\<And>a t. m s = (Inr a, t) \<Longrightarrow> k a t = (Inr b, s') \<Longrightarrow> thesis) \<Longrightarrow> thesis"
  by (auto simp: bind_app_Inr)

lemma then_Inr: "then_app m k s = (Inr b, s') \<Longrightarrow> (\<And>a t. m s = (Inr a, t) \<Longrightarrow> k t = (Inr b, s') \<Longrightarrow> thesis) \<Longrightarrow> thesis"
  by (auto simp: then_app_Inr)

lemma json_field_Inr: "json_field f resp s = (Inr v, s') \<longleftrightarrow> s' = s \<and> v = text_field f resp \<and> rs_body resp \<noteq> NoJson"
  by (auto simp: json_field_def text_field_def return_app_def throw_app_def split: http_body.splits)

section \<open>Properties\<close>

text \<open>
  An order the set-up returns has been through the whole pipeline: it is the order a checkout returned, it
  was answered \<open>RESERVED\<close> before it was paid, the payment was accepted, and it was answered \<open>COMPLETED\<close> last.
  Each wait took at most 120 requests; anything else fails.
\<close>

theorem completeOrder_sees_pipeline:
  assumes "completeOrder c token productId s = (Inr oid, s')"
  shows "\<exists>added checkout before pay after.
    sent s' = sent s @ [(json_request c ''POST'' ''/cart/items'' (CartLine (Some productId) 1) token, added),
        (json_request c ''POST'' ''/cart/checkout'' NoBody token, checkout)] @ map (Pair (status_request c token oid)) before @
      [(json_request c ''POST'' (''/orders/'' @ js_text oid @ ''/pay'') NoBody token, pay)] @ map (Pair (status_request c token oid)) after \<and>
    rs_status added \<in> {200, 201} \<and> rs_status checkout \<in> {200, 201} \<and> oid = text_field ''id'' checkout \<and>
    before \<noteq> [] \<and> says ''RESERVED'' (last before) \<and> length before \<le> 120 \<and> rs_status pay = 200 \<and>
    after \<noteq> [] \<and> says ''COMPLETED'' (last after) \<and> length after \<le> 120"
proof -
  let ?checkout = "json_request c ''POST'' ''/cart/checkout'' NoBody token"
  let ?add = "json_request c ''POST'' ''/cart/items'' (CartLine (Some productId) 1) token"
  let ?pay = "json_request c ''POST'' (''/orders/'' @ js_text oid @ ''/pay'') NoBody token"
  obtain added s1 checkout s2 v s2' s3 pay s4 s5 where
    run: "json c ''POST'' ''/cart/items'' (CartLine (Some productId) 1) token s = (Inr added, s1)"
      "json c ''POST'' ''/cart/checkout'' NoBody token s1 = (Inr checkout, s2)" "json_field ''id'' checkout s2 = (Inr v, s2')"
      "json c ''POST'' (''/orders/'' @ js_text v @ ''/pay'') NoBody token s3 = (Inr pay, s4)"
    and waits: "wait_for (''order '' @ js_text v @ '' RESERVED'') (order_is c token v ''RESERVED'') (30 * 4) s2' = (Inr (), s3)"
      "wait_for (''order '' @ js_text v @ '' COMPLETED'') (order_is c token v ''COMPLETED'') (30 * 4) s4 = (Inr (), s5)"
      "return_app v s5 = (Inr oid, s')"
    and ok: "\<not> (rs_status added \<noteq> 200 \<and> rs_status added \<noteq> 201)" "\<not> (rs_status checkout \<noteq> 200 \<and> rs_status checkout \<noteq> 201)"
      "\<not> rs_status pay \<noteq> 200"
    using assms unfolding completeOrder_def waitFor_def by (elim bind_Inr then_Inr guard_Inr) (rule that; simp)
  from run(3) waits(3) have v: "v = oid" "s2' = s2" "s5 = s'" and oid: "oid = text_field ''id'' checkout" by (auto simp: json_field_Inr)
  note sent = json_sent [OF run(1)] json_sent [OF run(2)] json_sent [OF run(4)]
  note reserved = waits(1) [unfolded v] and completed = waits(2) [unfolded v]
  from wait_for_order [OF reserved] obtain before where before: "sent s3 = sent s2 @ map (Pair (status_request c token oid)) before"
      "length before \<le> 120" "before \<noteq> []" "says ''RESERVED'' (last before)" by auto
  from wait_for_order [OF completed] obtain after where after: "sent s' = sent s4 @ map (Pair (status_request c token oid)) after"
      "length after \<le> 120" "after \<noteq> []" "says ''COMPLETED'' (last after)" by auto
  show ?thesis
    using ok sent v oid before after
    by (intro exI [of _ added] exI [of _ checkout] exI [of _ before] exI [of _ pay] exI [of _ after]) simp
qed



definition load_example :: load_config where
  "load_example = \<lparr>lt_base = ''b'', lt_duration = 15, lt_vus = 20, lt_seed_orders = 1\<rparr>"

definition load_server :: k6 where
  "load_server = \<lparr>answers = (\<lambda>n r. \<lparr>rs_status = 200, rs_body = JsonObject [(''id'', ''o''), (''status'', if n < 4 then ''RESERVED'' else ''COMPLETED'')]\<rparr>),
     latency = (\<lambda>n. 20), random = (\<lambda>n. 0), env_vu = 1, now = 0, draws = 0, sent = [], checks = [], counters = (\<lambda>_. 0)\<rparr>"

lemma load_example_run: "fst (completeOrder load_example (Some ''t'') ''x'' load_server) = Inr (Some ''o'')"
  by (simp add: completeOrder_def waitFor_def order_is_def orderStatus_def json_def http_call_def json_field_def load_server_def
    app_defs Let_def numeral_eq_Suc)

theorem completeOrder_sees_pipeline_witness:
  "\<exists>s' before after. completeOrder load_example (Some ''t'') ''x'' load_server = (Inr (Some ''o''), s') \<and>
     before \<noteq> [] \<and> says ''RESERVED'' (last before) \<and> after \<noteq> [] \<and> says ''COMPLETED'' (last after) \<and> 3 < length (sent s')"
proof -
  obtain s' where s': "completeOrder load_example (Some ''t'') ''x'' load_server = (Inr (Some ''o''), s')"
    using load_example_run by (cases "completeOrder load_example (Some ''t'') ''x'' load_server") auto
  from completeOrder_sees_pipeline [OF this] show ?thesis
    using s' by (elim exE conjE) (intro exI conjI, assumption+, simp)
qed

text \<open>The decimals a report rounds to are near.\<close>

definition rounds_to :: "rat \<Rightarrow> rat \<Rightarrow> rat \<Rightarrow> bool" where
  "rounds_to d x y \<longleftrightarrow> \<bar>y - x\<bar> \<le> d"

lemma to_fixed_near: "\<bar>to_fixed d x - x\<bar> \<le> 1 / (2 * 10 ^ d)"
proof -
  have near: "\<bar>of_int \<lfloor>y * 10 ^ d + 1 / 2\<rfloor> / 10 ^ d - y\<bar> \<le> 1 / (2 * 10 ^ d)" for y :: rat
  proof -
    have "\<bar>of_int \<lfloor>y * 10 ^ d + 1 / 2\<rfloor> - y * 10 ^ d\<bar> \<le> 1 / 2" by linarith
    then have "\<bar>of_int \<lfloor>y * 10 ^ d + 1 / 2\<rfloor> - y * 10 ^ d\<bar> / 10 ^ d \<le> (1 / 2) / 10 ^ d" by (rule divide_right_mono) simp
    moreover have "of_int \<lfloor>y * 10 ^ d + 1 / 2\<rfloor> / 10 ^ d - y = (of_int \<lfloor>y * 10 ^ d + 1 / 2\<rfloor> - y * 10 ^ d) / 10 ^ d"
      by (simp add: diff_divide_distrib)
    then have "\<bar>of_int \<lfloor>y * 10 ^ d + 1 / 2\<rfloor> / 10 ^ d - y\<bar> = \<bar>of_int \<lfloor>y * 10 ^ d + 1 / 2\<rfloor> - y * 10 ^ d\<bar> / 10 ^ d"
      by (simp add: abs_divide)
    ultimately show ?thesis by simp
  qed
  show ?thesis
    using near [of x] near [of "- x"] by (cases "x < 0") (simp_all add: to_fixed_def Let_def)
qed

lemma those_map: "those (map f xs) = Some ys \<longleftrightarrow> list_all2 (\<lambda>x y. f x = Some y) xs ys"
proof (induction xs arbitrary: ys)
  case (Cons x xs)
  then show ?case by (cases ys) (auto split: option.splits)
qed auto

lemma endpointScore_Some:
  assumes "endpointScore c data e = Some sc"
  shows "es_label sc = ep_label e"
    and "rounds_to (1 / 20) (of_nat (the (mt_count data (count_metric e))) / of_nat (lt_duration c)) (es_requestsPerSec sc)"
    and "rounds_to (1 / 200) (tr_med (the (mt_duration data (duration_metric e)))) (es_p50 sc)"
    and "rounds_to (1 / 200) (tr_p90 (the (mt_duration data (duration_metric e)))) (es_p90 sc)"
    and "rounds_to (1 / 200) (tr_p99 (the (mt_duration data (duration_metric e)))) (es_p99 sc)"
  using assms to_fixed_near [of 1] to_fixed_near [of 2]
  by (auto simp: endpointScore_def rounds_to_def Let_def split: option.splits)

lemma report_labels:
  assumes "load_report c data = Some report"
  shows "map es_label (rp_endpoints report) = map ep_label ENDPOINTS"
proof -
  have "list_all2 (\<lambda>e sc. endpointScore c data e = Some sc) ENDPOINTS (rp_endpoints report)"
    using assms by (auto simp: load_report_def those_map)
  then show ?thesis by (induction rule: list_all2_induct) (simp_all add: endpointScore_Some(1))
qed

text \<open>
  From a run's measurements to the benchmark entries: every endpoint has one throughput entry and three
  latency entries, in order, no two entries have the same name, and every value is the measured one up to
  the rounding of the report.
\<close>

theorem benchmark_entries_exact:
  assumes "load_report c data = Some report"
  shows "map be_name (throughput report) = map (\<lambda>e. ep_label e @ '' req/sec'') ENDPOINTS \<and>
    distinct (map be_name (throughput report @ latency_entries report)) \<and>
    list_all2 (\<lambda>e b. rounds_to (1 / 20) (of_nat (the (mt_count data (count_metric e))) / of_nat (lt_duration c)) (be_value b))
      ENDPOINTS (throughput report) \<and>
    list_all2 (\<lambda>x b. rounds_to (1 / 200) x (be_value b))
      (concat (map (\<lambda>e. case the (mt_duration data (duration_metric e)) of t \<Rightarrow> [tr_med t, tr_p90 t, tr_p99 t]) ENDPOINTS))
      (latency_entries report)"
proof (intro conjI)
  have scores: "list_all2 (\<lambda>e sc. endpointScore c data e = Some sc) ENDPOINTS (rp_endpoints report)"
    using assms by (auto simp: load_report_def those_map)
  note labels = report_labels [OF assms]
  have names: "map be_name (throughput report) = map (\<lambda>l. l @ '' req/sec'') (map es_label (rp_endpoints report))"
      "map be_name (latency_entries report) = concat (map (\<lambda>l. [l @ '' p50'', l @ '' p90'', l @ '' p99'']) (map es_label (rp_endpoints report)))"
    by (simp_all add: throughput_def latency_entries_def comp_def map_concat)
  show "map be_name (throughput report) = map (\<lambda>e. ep_label e @ '' req/sec'') ENDPOINTS"
    unfolding names labels by simp
  show "distinct (map be_name (throughput report @ latency_entries report))"
    unfolding map_append names labels by (simp add: ENDPOINTS_def)
  show "list_all2 (\<lambda>e b. rounds_to (1 / 20) (of_nat (the (mt_count data (count_metric e))) / of_nat (lt_duration c)) (be_value b))
      ENDPOINTS (throughput report)"
    unfolding throughput_def list.rel_map by (rule list_all2_mono [OF scores]) (simp only: BenchmarkEntry.simps, rule endpointScore_Some(2))
  show "list_all2 (\<lambda>x b. rounds_to (1 / 200) x (be_value b))
      (concat (map (\<lambda>e. case the (mt_duration data (duration_metric e)) of t \<Rightarrow> [tr_med t, tr_p90 t, tr_p99 t]) ENDPOINTS))
      (latency_entries report)"
    unfolding latency_entries_def using scores
    by (induction rule: list_all2_induct) (simp_all add: endpointScore_Some)
qed


definition metrics_example :: run_metrics where
  "metrics_example = \<lparr>mt_duration = (\<lambda>_. Some \<lparr>tr_med = 1234/1000, tr_p90 = 2, tr_p97_5 = 3, tr_p99 = 4\<rparr>),
     mt_count = (\<lambda>_. Some 100), mt_failed = (\<lambda>_. Some 0)\<rparr>"

theorem benchmark_entries_exact_witness:
  "\<exists>report. load_report load_example metrics_example = Some report \<and>
     distinct (map be_name (throughput report @ latency_entries report)) \<and> map be_value (throughput report) = [67/10, 67/10, 67/10, 67/10]"
proof -
  obtain report where report: "load_report load_example metrics_example = Some report"
    by (simp add: load_report_def endpointScore_def metrics_example_def ENDPOINTS_def)
  have "\<lfloor>403 / 6 :: rat\<rfloor> = 67" by (simp add: floor_eq_iff)
  with report have "map be_value (throughput report) = [67/10, 67/10, 67/10, 67/10]"
    by (auto simp: load_report_def endpointScore_def metrics_example_def ENDPOINTS_def throughput_def load_example_def to_fixed_def)
  moreover have "distinct (map be_name (throughput report @ latency_entries report))"
    using benchmark_entries_exact [OF report] by (elim conjE)
  ultimately show ?thesis using report by (intro exI conjI)
qed

end
