(* ===== verification/Cache_Report.thy ===== *)
theory Cache_Report
  imports Load_Test "HOL-Library.Multiset"
begin

text \<open>
  \<^verbatim>\<open>src/ops/cache-ab-report.mjs\<close>: the reports of load tests with the cache on and off, endpoint by endpoint, as
  medians over the rounds and the change between the two. Reading the files and printing are left out.
\<close>

section \<open>The summary\<close>

text \<open>\<open>None\<close> is \<open>NaN\<close>: the median of nothing.\<close>

definition median :: "rat list \<Rightarrow> rat option" where
  "median xs = (let s = sort xs; m = length s div 2 in
     if length s = 0 then None
     else if odd (length s) then Some (s ! m) else Some ((s ! (m - 1) + s ! m) / 2))"

record arm_score =
  arm_rps :: "rat option"
  arm_p50 :: "rat option"
  arm_p99 :: "rat option"
  arm_non2xx :: int

text \<open>An endpoint a report does not have: reading its scores throws, \<open>None\<close> here.\<close>

definition arm :: "LoadTestReport list \<Rightarrow> string \<Rightarrow> arm_score option" where
  "arm runs path = map_option (\<lambda>eps. \<lparr>arm_rps = median (map es_requestsPerSec eps), arm_p50 = median (map es_p50 eps),
       arm_p99 = median (map es_p99 eps), arm_non2xx = sum_list (map es_non2xx eps)\<rparr>)
     (those (map (\<lambda>r. find (\<lambda>e. es_path e = path) (rp_endpoints r)) runs))"

text \<open>The relative change; \<open>None\<close> when it is no number or infinite.\<close>

definition change :: "rat option \<Rightarrow> rat option \<Rightarrow> rat option" where
  "change on off = (case (on, off) of
     (Some a, Some b) \<Rightarrow> if b = 0 then None else Some ((a - b) / b) | _ \<Rightarrow> None)"

record endpoint_summary =
  sm_label :: string
  sm_on :: arm_score
  sm_off :: arm_score
  sm_p99Change :: "rat option"
  sm_rpsChange :: "rat option"

definition summarise :: "LoadTestReport list \<Rightarrow> LoadTestReport list \<Rightarrow> EndpointScore \<Rightarrow> endpoint_summary option" where
  "summarise runs_on runs_off e = (case (arm runs_on (es_path e), arm runs_off (es_path e)) of
     (Some on, Some off) \<Rightarrow> Some \<lparr>sm_label = es_label e, sm_on = on, sm_off = off,
        sm_p99Change = change (arm_p99 on) (arm_p99 off), sm_rpsChange = change (arm_rps on) (arm_rps off)\<rparr>
   | _ \<Rightarrow> None)"

definition cache_summary :: "LoadTestReport list \<Rightarrow> LoadTestReport list \<Rightarrow> endpoint_summary list option" where
  "cache_summary runs_on runs_off = (case runs_on of [] \<Rightarrow> None
     | first # _ \<Rightarrow> those (map (summarise runs_on runs_off) (rp_endpoints first)))"

section \<open>Facts\<close>

lemma length_filter_take: "(\<And>x. x \<in> set (take k s) \<Longrightarrow> P x) \<Longrightarrow> k \<le> length s \<Longrightarrow> k \<le> length (filter P s)"
  using filter_True [of "take k s" P] filter_append [of P "take k s" "drop k s"] by simp

lemma length_filter_drop: "(\<And>x. x \<in> set (drop k s) \<Longrightarrow> P x) \<Longrightarrow> length s - k \<le> length (filter P s)"
  using filter_True [of "drop k s" P] filter_append [of P "take k s" "drop k s"] by simp

lemma sorted_take_le: "sorted (s :: rat list) \<Longrightarrow> k < length s \<Longrightarrow> x \<in> set (take (Suc k) s) \<Longrightarrow> x \<le> s ! k"
  by (auto simp: in_set_conv_nth sorted_iff_nth_mono less_Suc_eq_le)

lemma sorted_drop_ge: "sorted (s :: rat list) \<Longrightarrow> x \<in> set (drop k s) \<Longrightarrow> s ! k \<le> x"
  by (auto simp: in_set_conv_nth sorted_iff_nth_mono)

text \<open>A median has at least half of the values on either side, itself included.\<close>

lemma median_halves:
  assumes "median xs = Some med"
  shows "length xs \<le> 2 * length (filter (\<lambda>x. x \<le> med) xs) \<and> length xs \<le> 2 * length (filter (\<lambda>x. med \<le> x) xs)"
proof -
  define s where "s = sort xs"
  have s: "sorted s" "length s = length xs" "length (filter P s) = length (filter P xs)" for P
    by (simp_all add: s_def filter_sort)
  have ne: "length xs \<noteq> 0" using assms by (auto simp: median_def)
  let ?m = "length xs div 2"
  show ?thesis
  proof (cases "odd (length xs)")
    case True
    then have med: "med = s ! ?m" using assms ne unfolding median_def Let_def s_def length_sort by simp
    have "?m < length s" using ne s(2) by simp
    then have "Suc ?m \<le> length (filter (\<lambda>x. x \<le> med) s)"
      using sorted_take_le [OF s(1)] unfolding med by (intro length_filter_take) (blast, linarith)
    moreover have "length s - ?m \<le> length (filter (\<lambda>x. med \<le> x) s)"
      by (intro length_filter_drop) (auto simp: med intro: sorted_drop_ge [OF s(1)])
    ultimately show ?thesis unfolding s(2,3) using True by linarith
  next
    case False
    then have med: "med = (s ! (?m - 1) + s ! ?m) / 2" using assms ne unfolding median_def Let_def s_def length_sort by simp
    have m: "0 < ?m" "?m < length s" "2 * ?m = length xs" using False ne s(2) by presburger+
    have "s ! (?m - 1) \<le> s ! ?m" using m by (intro sorted_nth_mono [OF s(1)]) simp_all
    then have between: "s ! (?m - 1) \<le> med" "med \<le> s ! ?m" by (simp_all add: med)
    have "?m \<le> length (filter (\<lambda>x. x \<le> med) s)"
      using m between(1) sorted_take_le [OF s(1), of "?m - 1"] by (intro length_filter_take) fastforce+
    moreover have "length s - ?m \<le> length (filter (\<lambda>x. med \<le> x) s)"
      using between(2) sorted_drop_ge [OF s(1), of _ ?m] by (intro length_filter_drop) fastforce
    ultimately show ?thesis unfolding s(2,3) using m(3) by linarith
  qed
qed

text \<open>The order in which the files are read does not matter.\<close>

lemma median_order: "mset xs = mset ys \<Longrightarrow> median xs = median ys"
proof -
  assume "mset xs = mset ys"
  then have "sort xs = sort ys" by (intro properties_for_sort) simp_all
  then show ?thesis by (simp only: median_def)
qed

lemma those_all: "those (map f xs) \<noteq> None \<longleftrightarrow> (\<forall>x \<in> set xs. f x \<noteq> None)"
  by (induction xs) (auto split: option.splits)

text \<open>The summary needs a run with the cache on, and every endpoint of the first in all the others.\<close>

lemma summary_exists: "cache_summary runs_on runs_off \<noteq> None \<longleftrightarrow> runs_on \<noteq> [] \<and>
    (\<forall>e \<in> set (rp_endpoints (hd runs_on)). \<forall>r \<in> set runs_on \<union> set runs_off. es_path e \<in> es_path ` set (rp_endpoints r))"
proof -
  have arm: "arm runs path \<noteq> None \<longleftrightarrow> (\<forall>r \<in> set runs. path \<in> es_path ` set (rp_endpoints r))" for runs path
    using those_all [of "\<lambda>r. find (\<lambda>e. es_path e = path) (rp_endpoints r)" runs]
    by (auto simp: arm_def find_None_iff image_iff)
  have "summarise runs_on runs_off e \<noteq> None \<longleftrightarrow> arm runs_on (es_path e) \<noteq> None \<and> arm runs_off (es_path e) \<noteq> None" for e
    by (auto simp: summarise_def split: option.splits)
  then have one: "summarise runs_on runs_off e \<noteq> None \<longleftrightarrow>
      (\<forall>r \<in> set runs_on \<union> set runs_off. es_path e \<in> es_path ` set (rp_endpoints r))" for e
    unfolding arm by blast
  show ?thesis
  proof (cases runs_on)
    case (Cons r rs)
    then have "cache_summary runs_on runs_off = those (map (summarise runs_on runs_off) (rp_endpoints (hd runs_on)))"
      by (simp add: cache_summary_def)
    then have "cache_summary runs_on runs_off \<noteq> None \<longleftrightarrow> (\<forall>e \<in> set (rp_endpoints (hd runs_on)).
        \<forall>r \<in> set runs_on \<union> set runs_off. es_path e \<in> es_path ` set (rp_endpoints r))"
      by (simp only: those_all one)
    then show ?thesis using Cons by blast
  qed (simp add: cache_summary_def)
qed

end
