(* ===== verification/Capacity.thy ===== *)
theory Capacity
  imports K6 Js_Strings
begin

text \<open>
  The capacity test of \<^verbatim>\<open>ops/capacity.k6.js\<close>: steps of concurrent shoppers, an account for each, the
  shopping iteration and the criteria a step is judged by. The table for the terminal is left out.
\<close>

section \<open>Steps\<close>

record capacity_config =
  cp_base :: string
  cp_steps :: "nat list"
  cp_stepSeconds :: nat

definition capacity_gap :: nat where "capacity_gap = 5"

definition STEPS :: "string option \<Rightarrow> nat list" where
  "STEPS env = map read_nat (js_split CHR '','' (if js_truthy env then js_text env else ''100,250,500,1000''))"

definition capacity_shoppers :: "capacity_config \<Rightarrow> nat" where
  "capacity_shoppers c = Max (set (cp_steps c))"

text \<open>Times are seconds, which the code writes with their unit.\<close>

record capacity_scenario =
  cs_executor :: string
  cs_exec :: string
  cs_vus :: nat
  cs_duration :: nat
  cs_startTime :: nat
  cs_gracefulStop :: nat
  cs_tags :: "(string \<times> string) list"

definition step_name :: "nat \<Rightarrow> string" where
  "step_name vus = ''vus_'' @ show_nat vus"

fun scenarios_from :: "nat \<Rightarrow> nat \<Rightarrow> nat list \<Rightarrow> (string \<times> capacity_scenario) list" where
  "scenarios_from seconds start [] = []"
| "scenarios_from seconds start (vus # steps) =
     (step_name vus, \<lparr>cs_executor = ''constant-vus'', cs_exec = ''shop'', cs_vus = vus, cs_duration = seconds,
        cs_startTime = start, cs_gracefulStop = 5, cs_tags = [(''step'', step_name vus)]\<rparr>)
     # scenarios_from seconds (start + (seconds + capacity_gap)) steps"

definition capacity_scenarios :: "capacity_config \<Rightarrow> (string \<times> capacity_scenario) list" where
  "capacity_scenarios c = scenarios_from (cp_stepSeconds c) 0 (cp_steps c)"

definition step_tag :: "nat \<Rightarrow> string" where
  "step_tag vus = ''{step:'' @ step_name vus @ ''}''"

definition capacity_thresholds :: "capacity_config \<Rightarrow> (string \<times> string list) list" where
  "capacity_thresholds c = concat (map (\<lambda>vus. [(''http_req_duration'' @ step_tag vus, [''max>=0'']),
     (''http_reqs'' @ step_tag vus, [''count>=0'']), (''http_req_failed'' @ step_tag vus, [''rate>=0''])]) (cp_steps c))"

section \<open>Accounts\<close>

definition capacity_password :: string where "capacity_password = ''Capacity#Shopper2026''"

definition post_request :: "capacity_config \<Rightarrow> string \<Rightarrow> request_body \<Rightarrow> http_request" where
  "post_request c path body = \<lparr>rq_method = ''POST'', rq_url = cp_base c @ path, rq_body = body,
     rq_headers = [(''Content-Type'', ''application/json'')], rq_tag = (''step'', ''setup'')\<rparr>"

text \<open>A batch answers in the order of its requests.\<close>

fun http_batch :: "http_request list \<Rightarrow> (k6, http_response list) app" where
  "http_batch [] = return_app []"
| "http_batch (r # rs) = bind_app (http_call r) (\<lambda>a. bind_app (http_batch rs) (\<lambda>as. return_app (a # as)))"

definition capacity_email :: "int \<Rightarrow> nat \<Rightarrow> string" where
  "capacity_email run j = ''capacity-'' @ show_int run @ ''-'' @ show_nat j @ ''@example.test''"

fun collect_tokens :: "http_response list \<Rightarrow> string option list \<Rightarrow> (k6, string option list) app" where
  "collect_tokens [] tokens = return_app tokens"
| "collect_tokens (res # logins) tokens =
     (if rs_status res \<noteq> 200 then fail (''login: '' @ show_int (rs_status res))
      else bind_app (json_field ''accessToken'' res) (\<lambda>t. collect_tokens logins (tokens @ [t])))"

definition login_batch :: "capacity_config \<Rightarrow> int \<Rightarrow> nat \<Rightarrow> string option list \<Rightarrow> (k6, string option list) app" where
  "login_batch c run i tokens =
     (let emails = map (capacity_email run) [i ..< min (i + 50) (capacity_shoppers c)] in
      then_app (http_batch (map (\<lambda>email. post_request c ''/auth/register'' (Credentials email capacity_password)) emails))
      (bind_app (http_batch (map (\<lambda>email. post_request c ''/auth/login'' (Credentials email capacity_password)) emails)) (\<lambda>logins.
       collect_tokens logins tokens)))"

text \<open>The loop over \<open>i\<close> in steps of 50; \<open>k\<close> is the number of batches, \<open>SHOPPERS / 50\<close> rounded up.\<close>

fun login_batches :: "capacity_config \<Rightarrow> int \<Rightarrow> nat \<Rightarrow> nat \<Rightarrow> string option list \<Rightarrow> (k6, string option list) app" where
  "login_batches c run i 0 tokens = return_app tokens"
| "login_batches c run i (Suc k) tokens =
     bind_app (login_batch c run i tokens) (\<lambda>tokens. login_batches c run (i + 50) k tokens)"

record capacity_data =
  cd_tokens :: "string option list"
  cd_products :: "string list"

definition capacity_get :: "capacity_config \<Rightarrow> string \<Rightarrow> string option \<Rightarrow> http_request" where
  "capacity_get c path token = \<lparr>rq_method = ''GET'', rq_url = cp_base c @ path, rq_body = NoBody,
     rq_headers = [(''Authorization'', ''Bearer '' @ js_text token)], rq_tag = (''step'', [])\<rparr>"

definition capacity_setup :: "capacity_config \<Rightarrow> (k6, capacity_data) app" where
  "capacity_setup c =
     bind_app date_now (\<lambda>run.
     bind_app (login_batches c run 0 ((capacity_shoppers c + 49) div 50) []) (\<lambda>tokens.
     bind_app (http_call (capacity_get c ''/products'' (case tokens of [] \<Rightarrow> None | t # _ \<Rightarrow> t))) (\<lambda>response.
     bind_app (json_rows response) (\<lambda>rows.
     return_app \<lparr>cd_tokens = tokens, cd_products = map row_id rows\<rparr>))))"

section \<open>The iteration\<close>

definition capacity_think :: "(k6, unit) app" where
  "capacity_think = bind_app math_random (\<lambda>u. sleep_ms \<lceil>1000 * (1 + u * 2)\<rceil>)"

definition ok_check :: "http_response \<Rightarrow> string \<Rightarrow> (k6, bool) app" where
  "ok_check res name = check name (200 \<le> rs_status res \<and> rs_status res < 300)"

definition shop_params :: "string option \<Rightarrow> (string \<times> string) list" where
  "shop_params token = [(''Authorization'', ''Bearer '' @ js_text token), (''Content-Type'', ''application/json'')]"

definition shop_request :: "capacity_config \<Rightarrow> string \<Rightarrow> string \<Rightarrow> request_body \<Rightarrow> string option \<Rightarrow> http_request" where
  "shop_request c meth path body token = \<lparr>rq_method = meth, rq_url = cp_base c @ path, rq_body = body,
     rq_headers = shop_params token, rq_tag = (''step'', [])\<rparr>"

definition shop_call :: "capacity_config \<Rightarrow> string \<Rightarrow> string \<Rightarrow> request_body \<Rightarrow> string option \<Rightarrow> (k6, http_response) app" where
  "shop_call c meth path body token = http_call (shop_request c meth path body token)"

fun follow_order :: "capacity_config \<Rightarrow> string option \<Rightarrow> string option \<Rightarrow> nat \<Rightarrow> (k6, unit) app" where
  "follow_order c token oid 0 = return_app ()"
| "follow_order c token oid (Suc k) =
     then_app capacity_think
     (bind_app (shop_call c ''GET'' (''/orders/'' @ js_text oid) NoBody token) (\<lambda>order.
     then_app (ok_check order ''order'')
     (bind_app (if rs_status order = 200 then json_field ''status'' order else return_app None) (\<lambda>status.
     then_app (if status = Some ''RESERVED'' then
         bind_app (shop_call c ''POST'' (''/orders/'' @ js_text oid @ ''/pay'') NoBody token) (\<lambda>pay.
         then_app (check ''pay'' (rs_status pay = 200 \<or> rs_status pay = 409)) (return_app ()))
       else return_app ())
     (if status \<noteq> Some ''PENDING'' \<and> status \<noteq> Some ''RESERVED'' then return_app () else follow_order c token oid k)))))"

definition token_of_vu :: "capacity_data \<Rightarrow> nat \<Rightarrow> string option" where
  "token_of_vu data vu = (let i = (vu - 1) mod length (cd_tokens data) in
     if i < length (cd_tokens data) then cd_tokens data ! i else None)"

definition pick_product :: "capacity_data \<Rightarrow> (k6, string option) app" where
  "pick_product data = bind_app (random_below (length (cd_products data))) (\<lambda>i.
     return_app (if i < length (cd_products data) then Some (cd_products data ! i) else None))"

definition visit :: "capacity_config \<Rightarrow> string \<Rightarrow> string \<Rightarrow> request_body \<Rightarrow> string option \<Rightarrow> string \<Rightarrow> (k6, unit) app" where
  "visit c meth path body token name =
     bind_app (shop_call c meth path body token) (\<lambda>res. then_app (ok_check res name) capacity_think)"

definition check_out_and_pay :: "capacity_config \<Rightarrow> string option \<Rightarrow> (k6, unit) app" where
  "check_out_and_pay c token =
     bind_app (shop_call c ''POST'' ''/cart/checkout'' NoBody token) (\<lambda>checkout.
     if rs_status checkout = 409 then return_app ()
     else bind_app (ok_check checkout ''checkout'') (\<lambda>ok. if \<not> ok then return_app ()
     else bind_app (json_field ''id'' checkout) (\<lambda>oid. follow_order c token oid 10)))"

definition shop :: "capacity_config \<Rightarrow> capacity_data \<Rightarrow> (k6, unit) app" where
  "shop c data =
     bind_app (gets_app (\<lambda>s. token_of_vu data (env_vu s))) (\<lambda>token.
     then_app (visit c ''GET'' ''/products'' NoBody token ''products'')
     (then_app (visit c ''GET'' ''/cart'' NoBody token ''cart'')
     (bind_app (pick_product data) (\<lambda>product. bind_app (random_below 2) (\<lambda>q.
      then_app (visit c ''POST'' ''/cart/items'' (CartLine product (1 + int q)) token ''set item'')
     (then_app (visit c ''GET'' ''/orders'' NoBody token ''orders'')
     (bind_app math_random (\<lambda>u. if u < 1/4 then check_out_and_pay c token else return_app ()))))))))"

section \<open>The verdict\<close>

record step_metrics =
  sm_p95 :: rat
  sm_p99 :: rat

text \<open>A step without measurements has no line; a missing rate counts as 0.\<close>

definition capacity_pass :: "step_metrics \<Rightarrow> rat option \<Rightarrow> bool" where
  "capacity_pass d failed \<longleftrightarrow> sm_p95 d < 500 \<and> sm_p99 d < 1000 \<and> (case failed of Some f \<Rightarrow> f | None \<Rightarrow> 0) < 1/100"

definition capacity_summary :: "capacity_config \<Rightarrow> (string \<Rightarrow> step_metrics option) \<Rightarrow> (string \<Rightarrow> rat option) \<Rightarrow> (nat \<times> bool) list" where
  "capacity_summary c durations failures = concat (map (\<lambda>vus.
     case durations (''http_req_duration'' @ step_tag vus) of None \<Rightarrow> []
     | Some d \<Rightarrow> [(vus, capacity_pass d (failures (''http_req_failed'' @ step_tag vus)))]) (cp_steps c))"

section \<open>What the test relies on\<close>

text \<open>A step starts the gap after the one before has ended, and its graceful stop is over by then.\<close>

lemma scenarios_from_after: "x \<in> set (scenarios_from d start steps) \<Longrightarrow> start \<le> cs_startTime (snd x) \<and> cs_duration (snd x) = d \<and> cs_gracefulStop (snd x) = 5"
  by (induction steps arbitrary: start) (auto, fastforce)

lemma steps_in_turn:
  "sorted_wrt (\<lambda>a b. cs_startTime (snd a) + cs_duration (snd a) + cs_gracefulStop (snd a) \<le> cs_startTime (snd b)) (capacity_scenarios c)"
proof -
  have "sorted_wrt (\<lambda>a b. cs_startTime (snd a) + cs_duration (snd a) + cs_gracefulStop (snd a) \<le> cs_startTime (snd b))
      (scenarios_from d start steps)" for d start steps
    by (induction steps arbitrary: start) (auto simp: capacity_gap_def dest: scenarios_from_after)
  then show ?thesis by (simp add: capacity_scenarios_def)
qed

text \<open>The set-up makes an account for every shopper of the largest step, so no two of them share one.\<close>

lemma length_batch: "http_batch rs s = (Inr as, s') \<Longrightarrow> length as = length rs"
  by (induction rs arbitrary: s s' as) (auto simp: bind_app_Inr return_app_def)

lemma length_collect: "collect_tokens logins tokens s = (Inr ts, s') \<Longrightarrow> length ts = length tokens + length logins"
  by (induction logins arbitrary: tokens s) (auto simp: bind_app_Inr return_app_def fail_def throw_app_def split: if_splits dest!: spec)

lemma length_login_batch:
  "login_batch c run i tokens s = (Inr ts, s') \<Longrightarrow> length ts = length tokens + (min (i + 50) (capacity_shoppers c) - i)"
  by (auto simp: login_batch_def bind_app_Inr then_app_Inr Let_def dest!: length_batch length_collect)

lemma length_login_batches:
  "login_batches c run i k tokens s = (Inr ts, s') \<Longrightarrow> length ts = length tokens + (min (i + 50 * k) (capacity_shoppers c) - i)"
proof (induction k arbitrary: i tokens s)
  case (Suc k)
  then obtain ts1 s1 where "login_batch c run i tokens s = (Inr ts1, s1)" "login_batches c run (i + 50) k ts1 s1 = (Inr ts, s')"
    by (auto simp: bind_app_Inr)
  from length_login_batch [OF this(1)] Suc.IH [OF this(2)] show ?case by (auto simp: min_def split: if_splits)
qed (simp add: return_app_def)

lemma account_per_shopper:
  assumes "capacity_setup c s = (Inr data, s')"
  shows "length (cd_tokens data) = capacity_shoppers c"
    and "1 \<le> vu \<Longrightarrow> vu \<le> capacity_shoppers c \<Longrightarrow> token_of_vu data vu = cd_tokens data ! (vu - 1)"
proof -
  have "capacity_shoppers c \<le> 50 * ((capacity_shoppers c + 49) div 50)" by linarith
  then show len: "length (cd_tokens data) = capacity_shoppers c"
    using assms by (auto simp: capacity_setup_def bind_app_Inr return_app_def dest!: length_login_batches)
  show "1 \<le> vu \<Longrightarrow> vu \<le> capacity_shoppers c \<Longrightarrow> token_of_vu data vu = cd_tokens data ! (vu - 1)"
  proof -
    assume "1 \<le> vu" and "vu \<le> capacity_shoppers c"
    then have "vu - 1 < capacity_shoppers c" by linarith
    then show ?thesis by (simp add: token_of_vu_def len Let_def)
  qed
qed

text \<open>An order is paid only when the answer just before said it is reserved, and looked at ten times at most.\<close>

definition order_look :: "capacity_config \<Rightarrow> string option \<Rightarrow> string option \<Rightarrow> http_response \<Rightarrow> (http_request \<times> http_response) list \<Rightarrow> bool" where
  "order_look c token oid resp part \<longleftrightarrow>
     (if rs_status resp = 200 \<and> text_field ''status'' resp = Some ''RESERVED''
      then \<exists>pay. part = [(shop_request c ''GET'' (''/orders/'' @ js_text oid) NoBody token, resp),
        (shop_request c ''POST'' (''/orders/'' @ js_text oid @ ''/pay'') NoBody token, pay)]
      else part = [(shop_request c ''GET'' (''/orders/'' @ js_text oid) NoBody token, resp)])"

lemma follow_order_rounds:
  "follow_order c token oid k s = (r, s') \<Longrightarrow> \<exists>parts. sent s' = sent s @ concat parts \<and> length parts \<le> k \<and>
     list_all (\<lambda>part. \<exists>resp. order_look c token oid resp part) parts"
proof (induction k arbitrary: s)
  case 0
  then show ?case by (intro exI [of _ "[]"]) (auto simp: return_app_def)
next
  case (Suc k)
  let ?look = "shop_request c ''GET'' (''/orders/'' @ js_text oid) NoBody token"
  obtain s1 where think: "capacity_think s = (Inr (), s1)" "sent s1 = sent s"
    by (simp add: capacity_think_def math_random_def sleep_ms_def app_defs)
  define resp where "resp = answers s1 (length (sent s1)) ?look"
  obtain s2 where look: "shop_call c ''GET'' (''/orders/'' @ js_text oid) NoBody token s1 = (Inr resp, s2)" "sent s2 = sent s @ [(?look, resp)]"
    by (simp add: shop_call_def http_call_def Let_def resp_def think(2))
  obtain s3 where chk: "ok_check resp ''order'' s2 = (Inr (200 \<le> rs_status resp \<and> rs_status resp < 300), s3)" "sent s3 = sent s2"
    by (simp add: ok_check_def check_def app_defs)
  let ?status = "if rs_status resp = 200 then text_field ''status'' resp else None"
  let ?paid = "shop_request c ''POST'' (''/orders/'' @ js_text oid @ ''/pay'') NoBody token"
  have run: "follow_order c token oid (Suc k) s = bind_app (if rs_status resp = 200 then json_field ''status'' resp else return_app None) (\<lambda>status.
      then_app (if status = Some ''RESERVED'' then
          bind_app (shop_call c ''POST'' (''/orders/'' @ js_text oid @ ''/pay'') NoBody token) (\<lambda>pay.
          then_app (check ''pay'' (rs_status pay = 200 \<or> rs_status pay = 409)) (return_app ()))
        else return_app ())
      (if status \<noteq> Some ''PENDING'' \<and> status \<noteq> Some ''RESERVED'' then return_app () else follow_order c token oid k)) s3"
    using think look chk by (simp add: then_app_def bind_app_def)
  have status: "(if rs_status resp = 200 then json_field ''status'' resp else return_app None) s3 = (Inr ?status, s3) \<or>
      (if rs_status resp = 200 then json_field ''status'' resp else return_app None) s3 = (Inl (JsError ''cannot parse json''), s3) \<and> text_field ''status'' resp = None"
    by (auto simp: json_field_def text_field_def return_app_def throw_app_def split: http_body.splits)
  show ?case
  proof (cases "(if rs_status resp = 200 then json_field ''status'' resp else return_app None) s3 = (Inr ?status, s3)")
    case False
    with status have "s' = s3" "text_field ''status'' resp = None" using Suc.prems unfolding run by (auto simp: bind_app_def)
    then have "order_look c token oid resp [(?look, resp)]" by (simp add: order_look_def)
    with \<open>s' = s3\<close> show ?thesis using look(2) chk(2) by (intro exI [of _ "[[(?look, resp)]]"]) auto
  next
    case True
    show ?thesis
    proof (cases "?status = Some ''RESERVED''")
      case reserved: True
      obtain pay s5 where pay: "bind_app (shop_call c ''POST'' (''/orders/'' @ js_text oid @ ''/pay'') NoBody token) (\<lambda>pay.
          then_app (check ''pay'' (rs_status pay = 200 \<or> rs_status pay = 409)) (return_app ())) s3 = (Inr (), s5)" "sent s5 = sent s3 @ [(?paid, pay)]"
        by (simp add: shop_call_def http_call_def check_def app_defs Let_def)
      have "follow_order c token oid k s5 = (r, s')"
        using Suc.prems True pay(1) reserved unfolding run by (simp add: bind_app_def then_app_def)
      from Suc.IH [OF this] obtain parts where parts: "sent s' = sent s5 @ concat parts" "length parts \<le> k"
        "list_all (\<lambda>part. \<exists>resp. order_look c token oid resp part) parts" by blast
      moreover have "order_look c token oid resp [(?look, resp), (?paid, pay)]"
        using reserved by (auto simp: order_look_def split: if_splits)
      ultimately show ?thesis using pay(2) look(2) chk(2)
        by (intro exI [of _ "[(?look, resp), (?paid, pay)] # parts"]) auto
    next
      case other: False
      have one: "order_look c token oid resp [(?look, resp)]" using other by (auto simp: order_look_def)
      show ?thesis
      proof (cases "?status = Some ''PENDING''")
        case pending: True
        have "follow_order c token oid k s3 = (r, s')"
          using Suc.prems True other pending unfolding run by (simp add: bind_app_def then_app_def return_app_def)
        from Suc.IH [OF this] obtain parts where "sent s' = sent s3 @ concat parts" "length parts \<le> k"
          "list_all (\<lambda>part. \<exists>resp. order_look c token oid resp part) parts" by blast
        then show ?thesis using look(2) chk(2) one by (intro exI [of _ "[(?look, resp)] # parts"]) auto
      next
        case False
        then have "s' = s3" using Suc.prems True other unfolding run by (simp add: bind_app_def then_app_def return_app_def)
        then show ?thesis using look(2) chk(2) one by (intro exI [of _ "[[(?look, resp)]]"]) auto
      qed
    qed
  qed
qed

end
