(* ===== verification/Spec2Isabelle.thy ===== *)
theory Spec2Isabelle
  imports Http_Answers Wiring Metrics_Persistence Live_Gauges Seeding Migrations Settings Traffic_Sim Load_Test Cache_Report Capacity
begin

text \<open>
  The order lifecycle backend: a NestJS service that takes carts to orders, reserves stock, waits for the
  customer's payment confirmation, charges once and completes, over Postgres, Redis and RabbitMQ.

  \<^bold>\<open>How the program works.\<close> A checkout claims the user's open cart and creates a \<open>PENDING\<close> order, its items and an
  \<open>order.created\<close> row of the outbox in one transaction. The relay publishes outbox rows to the broker. The
  inventory consumer takes the stock and moves the order to \<open>RESERVED\<close>, or to \<open>FAILED\<close>. The user pays (which
  announces \<open>order.inventory.reserved\<close>) or cancels. The payment consumer charges through the gateway's ledger
  and moves the order to \<open>PAID\<close> or \<open>FAILED\<close>; the completion consumer moves it to \<open>COMPLETED\<close>; the email consumer
  notifies. Every consumer keeps an inbox, so redeliveries are harmless, and a retry handler delays and finally
  dead-letters what fails. Reads of orders go through a cache. Metrics are recorded on the way, kept in memory
  for scraping and buffered into a table for the history route.

  \<^bold>\<open>Shared base.\<close> \<^verbatim>\<open>Prelude\<close>: methods that read, write and throw, tables, preservation rules and the contract
  of a guarded \<open>UPDATE\<close> (locale \<open>one_shot_claim\<close>). \<^verbatim>\<open>Entities\<close>: the entity classes, enums and events of
  \<^verbatim>\<open>src/entities\<close> and \<^verbatim>\<open>src/modules/messaging/events\<close>. \<^verbatim>\<open>World\<close>: the state every service works on (tables,
  Redis, broker, collectors, clock, id supply) and the primitive effects, \<open>transaction\<close> among them.
  \<^verbatim>\<open>Js_Strings\<close>: the string methods the source uses.

  \<^bold>\<open>Orders.\<close> \<^verbatim>\<open>Order_State_Machine\<close> has the transition table and its reachability facts, \<^verbatim>\<open>Orders\<close> every
  method of \<open>OrdersService\<close> and \<open>OrdersController\<close> with its branches (what can interleave is split into a read
  and a claim), \<^verbatim>\<open>Order_Correctness\<close> what they guarantee: creation is atomic, a transition implements the state
  machine, payment and cancellation exclude each other, the cache is invisible, and the races that lose.
  \<^verbatim>\<open>Products\<close>: stock reservation with compensation, all or nothing. \<^verbatim>\<open>Replenishment\<close>: the hourly top-up.
  \<^verbatim>\<open>Cart\<close>: the open cart, lines and checkout. \<^verbatim>\<open>Cache\<close>: \<open>CacheService\<close>, failing open.

  \<^bold>\<open>Messaging.\<close> \<^verbatim>\<open>Inbox\<close>, \<^verbatim>\<open>Outbox\<close> (rows, drain, relay loop and flags, commit subscriber), \<^verbatim>\<open>Retry\<close>, \<^verbatim>\<open>Gateway\<close>
  (the payment ledger with stale claims), \<^verbatim>\<open>Consumers\<close> (the four handlers), \<^verbatim>\<open>Correlation\<close> (ids across hops).

  \<^bold>\<open>Access.\<close> \<^verbatim>\<open>Auth\<close>: registration, login, guards, cookies and the auth routes. \<^verbatim>\<open>Tokens\<close>: refresh token
  rotation with families. \<^verbatim>\<open>Cors\<close>: origin matchers with the fragment of regular expressions they use.

  \<^bold>\<open>Observation.\<close> \<^verbatim>\<open>Collectors\<close> and \<^verbatim>\<open>Registry\<close>: every recorder against the declared collectors.
  \<^verbatim>\<open>Metrics_Persistence\<close>: the buffering sink as a state machine. \<^verbatim>\<open>Metrics_History\<close>: the history queries.
  \<^verbatim>\<open>Live_Gauges\<close>: the scrape-time snapshot.

  \<^bold>\<open>Boot.\<close> \<^verbatim>\<open>Seeding\<close>: the boot seed and the admin script. \<^verbatim>\<open>Schema\<close>: catalogs, typed rows and the SQL statements
  the migrations use, with their errors. \<^verbatim>\<open>Migrations\<close>: each migration statement by statement, and the tables
  the entity decorators declare. Both run before the first request, so they are not steps of the shop.

  \<^bold>\<open>Edges and settings.\<close> \<^verbatim>\<open>Settings\<close>: what the process reads from its environment and hands to the database, the
  cache, the broker, CORS and tracing. \<^verbatim>\<open>Web_Edge\<close>: request log lines, the history and health routes, the broker
  topology. \<^verbatim>\<open>Decimals\<close>: numerals in texts.

  \<^bold>\<open>Requests.\<close> \<^verbatim>\<open>Http_Routes\<close> has the decorators of the controllers as data: methods, paths, guards, roles,
  pipes, documented statuses, and the rules of the DTO classes. \<^verbatim>\<open>Http_Api\<close> runs a request as \<^verbatim>\<open>src/main.ts\<close>
  composes it (middleware, guards, interceptors, pipes, handler, the answer to an exception): strangers and
  malformed input get no further than the answer, and every request is a run of steps of the shop.
  \<^verbatim>\<open>Http_Answers\<close> follows what each method can throw and return: a route answers only statuses it documents,
  or 500 (the lemma lists the routes that break this), and shows a user only their own orders. \<^verbatim>\<open>Wiring\<close>: the
  modules and constructors; Nest finds everything they ask for, and there is an order to build it in.

  \<^bold>\<open>The clients in \<^verbatim>\<open>ops\<close>.\<close> \<^verbatim>\<open>K6\<close> is the runtime of the scripts: the server's answers, their latencies and the
  random numbers are unwritten fields of the state, so a theorem for all states holds against every server.
  It has Hoare triples for scripts. \<^verbatim>\<open>Traffic_Curve\<close> and \<^verbatim>\<open>Traffic_Sim\<close> model the synthetic traffic: the generator
  has full period, the clocks change on the right Sundays, rates are bounded, and a session follows the
  protocol of a shopper, given as an automaton over its requests. \<^verbatim>\<open>Load_Test\<close> models the load test up to the
  benchmark entries made of its report, \<^verbatim>\<open>Cache_Report\<close> the medians over several of its reports,
  \<^verbatim>\<open>Capacity\<close> the capacity test.

  \<^bold>\<open>The whole.\<close> \<^verbatim>\<open>Lifecycle\<close> states the invariant \<open>shop_ok\<close> of tables, cache and messages (every message is true of
  its order and stays so), and proves of every method that it keeps it and lets orders only progress.
  \<^verbatim>\<open>Shop\<close> runs all of them as one step relation \<open>shop_step\<close>: requests, split requests with others between,
  crashes, relay runs, deliveries in any order and number, restocking and the clock. From it follow the
  system properties for all reachable states: consistent tables and messages, no overselling (with
  replenishments counted in), orders only move along the state machine. \<^verbatim>\<open>Message_Ids\<close> is a second frame for the
  same methods: what they may write to outbox, inbox and ledger and under which ids. \<^verbatim>\<open>Fulfilment\<close> composes
  the steps of an order's way, consumer by consumer, into the theorem that every waiting order can be completed.

  \<^bold>\<open>Correspondence.\<close> A class's fields are a record, a method is a definition of the method's name; an \<open>async\<close>
  method is a function of the world that returns or throws, and what it wrote before a throw stays unless a
  transaction rolls it back. A query builder chain is a predicate and an update of rows, its \<open>affected\<close> the
  number of rows. Exceptions are the values of \<open>exn\<close>. Random numbers, ids and the clock are inputs.

  \<^bold>\<open>Bounds and fuel.\<close> Stock and quantities are integers checked against the \<open>int4\<close> columns. The relay loop is a
  \<open>partial_function\<close>: that it returns is a theorem with the broker up, and that it does not, one with the
  broker refusing. Cascading deletes take as fuel the number of tables plus one; with it the deletes of the
  migrations return. The scripts' waits recurse on the time left to the deadline, so they need no fuel. History
  values, durations, rates and measurements are exact rationals where the code has doubles.

  \<^bold>\<open>Assumed.\<close> bcrypt, SHA-256, the JWT library and the payment provider's answer are parameters. Ids
  (\<open>randomUUID\<close>, \<open>uuid_generate_v4\<close>) do not repeat where a property says so (\<open>fresh_supply\<close>). A transaction
  commits or rolls back as a whole and takes row locks, so a consumer's transaction is one step. Decorators
  mean what the documentation of TypeORM says.

  \<^bold>\<open>Not modelled.\<close> Express below the routes (parsing of bodies and paths, its own 404); titles and examples of
  the Swagger pages; the log lines services write on their way; what the scripts print, and the shell scripts
  that start them; the fixtures of the tests.
\<close>

end
